(* ===== verification/Prelude.thy ===== *)
theory Prelude
  imports Main "HOL-Library.Word" "HOL-Library.Signed_Division" "HOL-Library.Multiset"
begin

text \<open>
  Shared material of the development: the collections of simplification rules that the
  component theories extend, the machine types of the x86\_64 build (an \<open>int\<close> is 32 bits,
  a \<open>long\<close> 64 bits), the text that the conversions of the C library's \<open>printf\<close> produce,
  and generic lemmas on lists, truncating division and words.
\<close>

unbundle bit_operations_syntax

named_theorems tv_simps \<open>arithmetic of normalised time values\<close>
named_theorems fmt_simps \<open>text produced by printf conversions\<close>
named_theorems tcb_simps \<open>field and frame rules of the process table\<close>
named_theorems out_simps \<open>effect of the printing primitives\<close>

type_synonym c_int = "32 word"
type_synonym c_long = "64 word"
type_synonym byte = "8 word"

subsection \<open>Truncating division\<close>

lemma sdiv_nonneg_eq: "(0::int) \<le> a \<Longrightarrow> 0 \<le> b \<Longrightarrow> a sdiv b = a div b"
  by (cases "b = 0") (simp_all add: signed_divide_int_def sgn_if)

lemma smod_nonneg_eq: "(0::int) \<le> a \<Longrightarrow> 0 \<le> b \<Longrightarrow> a smod b = a mod b"
  by (cases "a = 0") (simp_all add: signed_modulo_int_def sgn_if)

subsection \<open>Digits and the integer conversions of printf\<close>

text \<open>
  \<open>digs b n\<close> is the list of digits of \<open>n\<close> in base \<open>b\<close>, most significant first, without
  leading zeros: the reference definition of what \<^verbatim>\<open>%u\<close>, \<^verbatim>\<open>%o\<close> and \<^verbatim>\<open>%x\<close> print.
\<close>

fun digs :: "nat \<Rightarrow> nat \<Rightarrow> nat list" where
  "digs b n = (if b < 2 \<or> n < b then [n] else digs b (n div b) @ [n mod b])"

declare digs.simps [simp del]

lemma digs_small [fmt_simps]: "n < b \<Longrightarrow> digs b n = [n]"
  by (simp add: digs.simps [of b n])

lemma digs_step: "2 \<le> b \<Longrightarrow> b \<le> n \<Longrightarrow> digs b n = digs b (n div b) @ [n mod b]"
  by (simp add: digs.simps [of b n])

lemma digs_not_Nil [simp]: "digs b n \<noteq> []"
  by (simp add: digs.simps [of b n])

definition digit_char :: "nat \<Rightarrow> char" where
  "digit_char d = ''0123456789abcdef'' ! d"

definition fmt_base :: "nat \<Rightarrow> nat \<Rightarrow> string" where
  "fmt_base b n = map digit_char (digs b n)"

abbreviation fmt_u :: "nat \<Rightarrow> string" where
  "fmt_u n \<equiv> fmt_base 10 n"

abbreviation fmt_x :: "nat \<Rightarrow> string" where
  "fmt_x n \<equiv> fmt_base 16 n"

abbreviation fmt_o :: "nat \<Rightarrow> string" where
  "fmt_o n \<equiv> fmt_base 8 n"

text \<open>The conversions \<^verbatim>\<open>%d\<close>, \<^verbatim>\<open>%#x\<close> and \<^verbatim>\<open>%#o\<close> of ISO C; zero has no prefix.\<close>

definition fmt_d :: "int \<Rightarrow> string" where
  "fmt_d i = (if i < 0 then CHR ''-'' # fmt_u (nat (- i)) else fmt_u (nat i))"

definition fmt_hx :: "nat \<Rightarrow> string" where
  "fmt_hx n = (if n = 0 then ''0'' else ''0x'' @ fmt_x n)"

definition fmt_ho :: "nat \<Rightarrow> string" where
  "fmt_ho n = (if n = 0 then ''0'' else ''0'' @ fmt_o n)"

text \<open>A minimum field width, padded on the left with \<open>c\<close> or on the right with blanks.\<close>

definition pad_left :: "nat \<Rightarrow> char \<Rightarrow> string \<Rightarrow> string" where
  "pad_left w c s = replicate (w - length s) c @ s"

definition pad_right :: "nat \<Rightarrow> string \<Rightarrow> string" where
  "pad_right w s = s @ replicate (w - length s) CHR '' ''"

lemma fmt_base_not_Nil [simp]: "fmt_base b n \<noteq> []"
  by (simp add: fmt_base_def)

lemma length_fmt_base [fmt_simps]: "length (fmt_base b n) = length (digs b n)"
  by (simp add: fmt_base_def)

lemma length_digs_le:
  assumes "2 \<le> b" and "n < b ^ k" and "0 < k"
  shows "length (digs b n) \<le> k"
  using assms(2,3)
proof (induction k arbitrary: n)
  case 0
  then show ?case by simp
next
  case (Suc k)
  show ?case
  proof (cases "n < b")
    case True
    then show ?thesis by (simp add: digs_small)
  next
    case False
    from assms(1) have b: "0 < b" by simp
    from False Suc.prems have k: "0 < k" by (cases k) auto
    from Suc.prems b have "n div b < b ^ k"
      by (simp add: less_mult_imp_div_less mult.commute)
    then have "length (digs b (n div b)) \<le> k" using k by (rule Suc.IH)
    with False assms(1) show ?thesis by (simp add: digs_step)
  qed
qed

subsection \<open>Generic lemmas on lists\<close>

lemma length_filter_update:
  assumes "i < length xs"
  shows "length (filter P (xs[i := x])) + (if P (xs ! i) then 1 else 0)
       = length (filter P xs) + (if P x then 1 else 0)"
  using assms
proof (induction xs arbitrary: i)
  case Nil
  then show ?case by simp
next
  case (Cons a xs)
  then show ?case by (cases i) auto
qed

lemma filter_all_length: "length (filter P xs) = length xs \<longleftrightarrow> (\<forall>x \<in> set xs. P x)"
proof
  assume len: "length (filter P xs) = length xs"
  show "\<forall>x \<in> set xs. P x"
  proof (rule ccontr)
    assume "\<not> (\<forall>x \<in> set xs. P x)"
    then obtain x where "x \<in> set xs" and "\<not> P x" by blast
    then have "length (filter P xs) < length xs" by (rule length_filter_less)
    with len show False by simp
  qed
qed simp

lemma option_eqI: "(\<And>k. x = Some k \<longleftrightarrow> y = Some k) \<Longrightarrow> x = y"
  by (cases y) (metis not_None_eq)+

subsection \<open>Results with an error value\<close>

text \<open>What C leaves undefined: an access outside an object, a wrong variadic
  argument; and \<open>die_out_of_memory\<close>.\<close>

datatype fault = OutOfBounds | BadVaArg | OutOfMemory

text \<open>Sequencing of computations that may stop with an error (\<open>Inl\<close>).\<close>

fun sbind :: "'e + 'a \<Rightarrow> ('a \<Rightarrow> 'e + 'b) \<Rightarrow> 'e + 'b" where
  "sbind (Inl e) f = Inl e"
| "sbind (Inr x) f = f x"

lemma sbind_cong [fundef_cong]:
  "m = m' \<Longrightarrow> (\<And>x. m' = Inr x \<Longrightarrow> f x = g x) \<Longrightarrow> sbind m f = sbind m' g"
  by (cases m') auto

lemma sbind_eq_Inr: "sbind m f = Inr y \<longleftrightarrow> (\<exists>x. m = Inr x \<and> f x = Inr y)"
  by (cases m) auto

lemma sbind_eq_Inl: "sbind m f = Inl e \<longleftrightarrow> m = Inl e \<or> (\<exists>x. m = Inr x \<and> f x = Inl e)"
  by (cases m) auto

lemma sbind_assoc: "sbind (sbind m f) g = sbind m (\<lambda>x. sbind (f x) g)"
  by (cases m) auto

end
