(* ===== verification/Parse_Num.thy ===== *)
theory Parse_Num
  imports Prelude
begin

text \<open>
  \<open>string_to_uint\<close> (\<^verbatim>\<open>src/strace/util.c\<close>): the number parser behind the options \<^verbatim>\<open>-p\<close>,
  \<^verbatim>\<open>-a\<close>, \<^verbatim>\<open>-s\<close> and the number lists of \<^verbatim>\<open>-e\<close>. The C library's \<open>strtol\<close> is modelled with its
  leading white space, sign, end pointer and range error.
\<close>

definition isspace :: "char \<Rightarrow> bool" where
  "isspace c \<longleftrightarrow> c = CHR '' '' \<or> (9 \<le> (of_char c :: nat) \<and> (of_char c :: nat) \<le> 13)"

definition isdigit_c :: "char \<Rightarrow> bool" where
  "isdigit_c c \<longleftrightarrow> 48 \<le> (of_char c :: nat) \<and> (of_char c :: nat) \<le> 57"

definition dec_digit :: "char \<Rightarrow> nat" where
  "dec_digit c = of_char c - 48"

definition dec_value :: "string \<Rightarrow> nat" where
  "dec_value ds = foldl (\<lambda>v c. 10 * v + dec_digit c) 0 ds"

text \<open>The value, whether \<open>errno\<close> was set, and the text from the end pointer on.\<close>

definition strtol_body :: "bool \<Rightarrow> string \<Rightarrow> string \<Rightarrow> int \<times> bool \<times> string" where
  "strtol_body neg t str =
    (let ds = takeWhile isdigit_c t; rest = dropWhile isdigit_c t;
         v = (if neg then - int (dec_value ds) else int (dec_value ds))
     in if ds = [] then (0, False, str)
        else if v > 2 ^ 63 - 1 then (2 ^ 63 - 1, True, rest)
        else if v < - (2 ^ 63) then (- (2 ^ 63), True, rest)
        else (v, False, rest))"

definition strtol :: "string \<Rightarrow> int \<times> bool \<times> string" where
  "strtol str =
    (case dropWhile isspace str of
       c # t \<Rightarrow> (if c = CHR ''-'' then strtol_body True t str
                 else if c = CHR ''+'' then strtol_body False t str
                 else strtol_body False (c # t) str)
     | [] \<Rightarrow> strtol_body False [] str)"

definition string_to_uint :: "string \<Rightarrow> int" where
  "string_to_uint str =
    (if str = [] then -1
     else (case strtol str of (value, errno, error) \<Rightarrow>
       if errno \<or> error \<noteq> [] \<or> value < 0 \<or> sint (word_of_int value :: c_int) \<noteq> value then -1
       else sint (word_of_int value :: c_int)))"

subsection \<open>What is accepted\<close>

lemma sint_c_int_eq_iff: "0 \<le> v \<Longrightarrow> sint (word_of_int v :: c_int) = v \<longleftrightarrow> v < 2 ^ 31"
proof -
  assume "0 \<le> v"
  moreover have "sint (word_of_int v :: c_int) = signed_take_bit 31 v" by transfer simp
  ultimately show ?thesis by (simp add: signed_take_bit_int_eq_self_iff)
qed

lemma isspace_signs [simp]: "\<not> isspace CHR ''-''" "\<not> isspace CHR ''+''"
  by (simp_all add: isspace_def)

lemma isdigit_signs [simp]: "\<not> isdigit_c CHR ''-''" "\<not> isdigit_c CHR ''+''"
  by (simp_all add: isdigit_c_def)

lemma isdigit_not_space: "isdigit_c c \<Longrightarrow> \<not> isspace c"
  by (auto simp: isspace_def isdigit_c_def)

text \<open>An accepted text: white space, a sign and digits, nothing after them.\<close>

definition accepted :: "string \<Rightarrow> string \<Rightarrow> string \<Rightarrow> bool" where
  "accepted ws sg ds \<longleftrightarrow> (\<forall>c \<in> set ws. isspace c) \<and> sg \<in> {[], ''+'', ''-''}
     \<and> ds \<noteq> [] \<and> (\<forall>c \<in> set ds. isdigit_c c) \<and> (sg = ''-'' \<longrightarrow> dec_value ds = 0)"

lemma strtol_body_full:
  "ds \<noteq> [] \<Longrightarrow> (\<forall>c \<in> set ds. isdigit_c c) \<Longrightarrow> int (dec_value ds) < 2 ^ 31 \<Longrightarrow>
    strtol_body neg ds str = (if neg then - int (dec_value ds) else int (dec_value ds), False, [])"
proof -
  assume a: "ds \<noteq> []" "\<forall>c \<in> set ds. isdigit_c c" "int (dec_value ds) < 2 ^ 31"
  then have w: "takeWhile isdigit_c ds = ds" "dropWhile isdigit_c ds = []"
    by (auto simp: takeWhile_eq_all_conv)
  show ?thesis using a by (simp add: strtol_body_def Let_def w)
qed

lemma strtol_body_nonneg:
  assumes "strtol_body neg t str = (v, False, [])" and "str \<noteq> []" and "0 \<le> v"
  shows "t \<noteq> [] \<and> (\<forall>c \<in> set t. isdigit_c c) \<and> v = int (dec_value t) \<and> (neg \<longrightarrow> dec_value t = 0)"
  using assms
  by (auto simp: strtol_body_def Let_def dropWhile_eq_Nil_conv takeWhile_eq_all_conv [THEN iffD2]
      split: if_splits)

lemma strtol_accepted:
  assumes "accepted ws sg ds" and "int (dec_value ds) < 2 ^ 31"
  shows "strtol (ws @ sg @ ds) = (int (dec_value ds), False, [])"
proof -
  obtain d ds' where ds: "ds = d # ds'" "isdigit_c d" using assms by (cases ds) (auto simp: accepted_def)
  then have "\<not> isspace d" "d \<noteq> CHR ''-''" "d \<noteq> CHR ''+''" by (auto simp: isdigit_not_space)
  then show ?thesis
    using assms ds by (auto simp: accepted_def strtol_def dropWhile_append2 strtol_body_full
        simp del: dropWhile_append)
qed

text \<open>
  C40. \<open>string_to_uint\<close> yields \<open>n\<close> exactly for the texts that consist of optional white space, an
  optional sign and digits of value \<open>n\<close> below \<open>2^31\<close> (a minus sign only before zero). Every other
  text, the empty one, trailing characters and values that do not fit included, yields -1.
\<close>

theorem string_to_uint_iff:
  "(string_to_uint s = int n \<longleftrightarrow>
     n < 2 ^ 31 \<and> (\<exists>ws sg ds. s = ws @ sg @ ds \<and> accepted ws sg ds \<and> dec_value ds = n))
   \<and> (string_to_uint s < 0 \<longleftrightarrow> string_to_uint s = -1)"
proof -
  have only: "\<exists>ws sg ds. s = ws @ sg @ ds \<and> accepted ws sg ds \<and> int (dec_value ds) = v"
    if v: "strtol s = (v, False, [])" "0 \<le> v" and s: "s \<noteq> []" for v
  proof -
    let ?ws = "takeWhile isspace s"
    have ws: "\<forall>c \<in> set ?ws. isspace c" by (auto dest: set_takeWhileD)
    have split: "s = ?ws @ dropWhile isspace s" by simp
    consider t where "dropWhile isspace s = CHR ''-'' # t" "strtol_body True t s = (v, False, [])"
      | t where "dropWhile isspace s = CHR ''+'' # t" "strtol_body False t s = (v, False, [])"
      | "strtol_body False (dropWhile isspace s) s = (v, False, [])"
      using v(1) by (auto simp: strtol_def split: list.splits if_splits)
    then show ?thesis
    proof cases
      case 1
      with split strtol_body_nonneg [OF 1(2) s v(2)] ws show ?thesis
        by (intro exI [of _ ?ws] exI [of _ "''-''"] exI [of _ t]) (auto simp: accepted_def)
    next
      case 2
      with split strtol_body_nonneg [OF 2(2) s v(2)] ws show ?thesis
        by (intro exI [of _ ?ws] exI [of _ "''+''"] exI [of _ t]) (auto simp: accepted_def)
    next
      case 3
      with strtol_body_nonneg [OF 3 s v(2)] ws show ?thesis
        by (intro exI [of _ ?ws] exI [of _ "[]"] exI [of _ "dropWhile isspace s"])
          (auto simp: accepted_def)
    qed
  qed
  have "string_to_uint s = int n" if "n < 2 ^ 31" "s = ws @ sg @ ds" "accepted ws sg ds" "dec_value ds = n"
    for ws sg ds
  proof -
    have "s \<noteq> []" using that by (simp add: accepted_def)
    moreover have "strtol s = (int n, False, [])" using strtol_accepted [of ws sg ds] that by simp
    moreover have "sint (word_of_int (int n) :: c_int) = int n"
      using that(1) by (simp add: sint_c_int_eq_iff del: of_int_of_nat_eq)
    ultimately show ?thesis by (simp add: string_to_uint_def del: of_int_of_nat_eq)
  qed
  moreover have "n < 2 ^ 31 \<and> (\<exists>ws sg ds. s = ws @ sg @ ds \<and> accepted ws sg ds \<and> dec_value ds = n)"
    if "string_to_uint s = int n"
  proof -
    from that obtain s: "s \<noteq> []" and v: "strtol s = (int n, False, [])" "sint (word_of_int (int n) :: c_int) = int n"
      by (auto simp: string_to_uint_def split: prod.splits if_splits simp del: of_int_of_nat_eq)
    then show ?thesis using only [OF v(1) _ s] sint_c_int_eq_iff [of "int n"] by fastforce
  qed
  moreover have "string_to_uint s < 0 \<longleftrightarrow> string_to_uint s = -1"
    by (auto simp: string_to_uint_def split: prod.splits)
  ultimately show ?thesis by blast
qed

end
