(* ===== verification/Xlat.thy ===== *)
theory Xlat
  imports Prelude
begin

text \<open>
  The symbolic constant tables of \<^verbatim>\<open>src/strace/util.c\<close>: looking a value up (\<open>xlookup\<close>,
  \<open>printxval\<close>) and decomposing a flag word into the names of a table (\<open>addflags\<close>,
  \<open>sprintflags\<close>, \<open>printflags\<close>). A table is the list of its entries before the \<open>NULL\<close>
  terminator; a function returns the text it prints.
\<close>

record xlat =
  xl_val :: c_int
  xl_str :: string

text \<open>The conversion \<open>%#x\<close> of an \<open>int\<close>.\<close>

abbreviation fmt_hx32 :: "c_int \<Rightarrow> string" where
  "fmt_hx32 w \<equiv> fmt_hx (unat w)"

fun xlookup :: "xlat list \<Rightarrow> c_int \<Rightarrow> string option" where
  "xlookup [] val = None"
| "xlookup (x # xlat) val = (if xl_val x = val then Some (xl_str x) else xlookup xlat val)"

definition printxval :: "xlat list \<Rightarrow> c_int \<Rightarrow> string \<Rightarrow> string" where
  "printxval xlat val dflt =
    (case xlookup xlat val of
       Some str \<Rightarrow> str
     | None \<Rightarrow> fmt_hx32 val @ '' /* '' @ dflt @ '' */'')"

fun addflags :: "xlat list \<Rightarrow> c_int \<Rightarrow> string" where
  "addflags [] flags = (if flags \<noteq> 0 then ''|'' @ fmt_hx32 flags else [])"
| "addflags (x # xlat) flags =
    (if xl_val x \<noteq> 0 \<and> flags AND xl_val x = xl_val x
     then ''|'' @ xl_str x @ addflags xlat (flags AND NOT (xl_val x))
     else addflags xlat flags)"

text \<open>\<open>sprintflags\<close>: the loop over the table with \<open>found\<close>, and what follows it.\<close>

definition sprintflags_rest :: "bool \<Rightarrow> c_int \<Rightarrow> string" where
  "sprintflags_rest found flags =
    (if flags \<noteq> 0 then (if found then ''|'' else []) @ fmt_hx32 flags else [])"

fun sprintflags_loop :: "bool \<Rightarrow> xlat list \<Rightarrow> c_int \<Rightarrow> string" where
  "sprintflags_loop found [] flags = sprintflags_rest found flags"
| "sprintflags_loop found (x # xlat) flags =
    (if flags AND xl_val x = xl_val x then
       (let flags' = flags AND NOT (xl_val x)
        in (if found then ''|'' else []) @ xl_str x
           @ (if flags' = 0 then sprintflags_rest True flags' else sprintflags_loop True xlat flags'))
     else sprintflags_loop found xlat flags)"

definition sprintflags :: "string \<Rightarrow> xlat list \<Rightarrow> c_int \<Rightarrow> string" where
  "sprintflags prefix xlat flags = prefix @ sprintflags_loop False xlat flags"

text \<open>
  \<open>printflags\<close>: the printed text and the returned count. On an empty table and no flags the
  code prints the terminator's \<open>NULL\<close> name, which is the error value.
\<close>

fun printflags_loop :: "xlat list \<Rightarrow> c_int \<Rightarrow> string \<Rightarrow> nat \<Rightarrow> string \<times> c_int \<times> string \<times> nat" where
  "printflags_loop [] flags sep n = ([], flags, sep, n)"
| "printflags_loop (x # xlat) flags sep n =
    (if xl_val x \<noteq> 0 \<and> flags AND xl_val x = xl_val x then
       (case printflags_loop xlat (flags AND NOT (xl_val x)) ''|'' (n + 1) of
          (t, r) \<Rightarrow> (sep @ xl_str x @ t, r))
     else printflags_loop xlat flags sep n)"

definition printflags_table :: "xlat list \<Rightarrow> c_int \<Rightarrow> string option \<Rightarrow> string \<times> nat" where
  "printflags_table xlat flags dflt =
    (case printflags_loop xlat flags [] 0 of (t, flags, sep, n) \<Rightarrow>
      if n \<noteq> 0 then
        (if flags \<noteq> 0 then (t @ sep @ fmt_hx32 flags, n + 1) else (t, n))
      else if flags \<noteq> 0 then
        (t @ fmt_hx32 flags @ (case dflt of Some d \<Rightarrow> '' /* '' @ d @ '' */'' | None \<Rightarrow> []), n)
      else (t @ (case dflt of Some d \<Rightarrow> ''0'' | None \<Rightarrow> []), n))"

fun printflags :: "xlat list \<Rightarrow> c_int \<Rightarrow> string option \<Rightarrow> (string \<times> nat) option" where
  "printflags [] flags dflt =
     (if flags = 0 then None else Some (printflags_table [] flags dflt))"
| "printflags (x # xlat) flags dflt =
     (if flags = 0 \<and> xl_val x = 0 then Some (xl_str x, 1)
      else Some (printflags_table (x # xlat) flags dflt))"

subsection \<open>Decomposition of a flag word\<close>

text \<open>
  The reference: going through the table, an entry is taken if \<open>pick\<close> accepts its value for the
  flags not named yet. The interface is what the three printing loops have in common: what is
  taken is contained in the remaining flags, and nothing non-zero that is contained in them is
  left out.
\<close>

fun scan_flags :: "(c_int \<Rightarrow> c_int \<Rightarrow> bool) \<Rightarrow> xlat list \<Rightarrow> c_int \<Rightarrow> xlat list \<times> c_int" where
  "scan_flags pick [] flags = ([], flags)"
| "scan_flags pick (x # xlat) flags =
    (if pick (xl_val x) flags then
       (case scan_flags pick xlat (flags AND NOT (xl_val x)) of (xs, r) \<Rightarrow> (x # xs, r))
     else scan_flags pick xlat flags)"

definition or_vals :: "xlat list \<Rightarrow> c_int" where
  "or_vals xs = foldr (\<lambda>x w. xl_val x OR w) xs 0"

text \<open>A decomposition names the flags exactly: no bit lost, none invented, none named twice.\<close>

definition decomposes :: "xlat list \<Rightarrow> c_int \<Rightarrow> xlat list \<Rightarrow> c_int \<Rightarrow> bool" where
  "decomposes tbl flags xs r \<longleftrightarrow>
     set xs \<subseteq> set tbl \<and> or_vals xs OR r = flags \<and> or_vals xs AND r = 0
     \<and> (\<forall>x \<in> set tbl. xl_val x \<noteq> 0 \<longrightarrow> r AND xl_val x \<noteq> xl_val x)"

lemma word_split: "(flags AND v = v) \<Longrightarrow> v OR (flags AND NOT v) = (flags :: c_int)"
  by (metis bit.conj_cancel_right bit.conj_disj_distrib2 bit.disj_cancel_right bit.conj_one_right
      and.commute or.commute)

lemma decomposes_Nil: "decomposes [] flags [] flags"
  by (simp add: decomposes_def or_vals_def)

lemma decomposes_zero: "decomposes tbl 0 [] 0"
  by (simp add: decomposes_def or_vals_def)

lemma decomposes_take:
  assumes d: "decomposes tbl (flags AND NOT (xl_val x)) xs r" and v: "flags AND xl_val x = xl_val x"
  shows "decomposes (x # tbl) flags (x # xs) r"
proof -
  let ?v = "xl_val x"
  have xs: "or_vals xs OR r = flags AND NOT ?v" "or_vals xs AND r = 0" using d by (auto simp: decomposes_def)
  have Cons: "or_vals (x # xs) = ?v OR or_vals xs" by (simp add: or_vals_def)
  have sum: "?v OR (or_vals xs OR r) = flags" using xs(1) word_split [OF v] by simp
  have "?v AND (or_vals xs OR r) = 0" unfolding xs(1) by (simp add: bit_eq_iff bit_simps)
  then have dis: "?v AND r = 0" by (simp add: bit_eq_iff bit_simps)
  then have "r AND ?v \<noteq> ?v" if "?v \<noteq> 0" using that by (simp add: and.commute)
  then show ?thesis
    using d xs sum dis by (auto simp: decomposes_def Cons or.assoc bit.conj_disj_distrib2)
qed

lemma decomposes_skip:
  assumes d: "decomposes tbl flags xs r" and v: "xl_val x = 0 \<or> flags AND xl_val x \<noteq> xl_val x"
  shows "decomposes (x # tbl) flags xs r"
proof -
  have "flags AND xl_val x = xl_val x" if "r AND xl_val x = xl_val x"
  proof -
    have "or_vals xs OR r = flags" using d by (simp add: decomposes_def)
    with that show ?thesis by (auto simp: bit_eq_iff bit_simps)
  qed
  with d v show ?thesis by (auto simp: decomposes_def)
qed

locale flag_scan =
  fixes pick :: "c_int \<Rightarrow> c_int \<Rightarrow> bool"
  assumes pick_contained: "pick v flags \<Longrightarrow> flags AND v = v"
    and pick_complete: "v \<noteq> 0 \<Longrightarrow> flags AND v = v \<Longrightarrow> pick v flags"
begin

lemma scan_decomposes: "scan_flags pick tbl flags = (xs, r) \<Longrightarrow> decomposes tbl flags xs r"
proof (induction tbl arbitrary: flags xs)
  case (Cons x tbl)
  show ?case
  proof (cases "pick (xl_val x) flags")
    case True
    then obtain ys where "scan_flags pick tbl (flags AND NOT (xl_val x)) = (ys, r)" "xs = x # ys"
      using Cons.prems by (auto split: prod.splits)
    with Cons.IH True show ?thesis using decomposes_take pick_contained by blast
  next
    case False
    with Cons show ?thesis using pick_complete by (intro decomposes_skip) auto
  qed
qed (simp add: decomposes_Nil)

lemma decomposition_exists: "\<exists>xs r. scan_flags pick tbl flags = (xs, r) \<and> decomposes tbl flags xs r"
  using scan_decomposes by (metis surj_pair)

end

text \<open>The test of \<open>addflags\<close> and \<open>printflags\<close>, and the one of \<open>sprintflags\<close>.\<close>

definition pick_nonzero :: "c_int \<Rightarrow> c_int \<Rightarrow> bool" where
  "pick_nonzero v flags \<longleftrightarrow> v \<noteq> 0 \<and> flags AND v = v"

interpretation nz: flag_scan pick_nonzero
  by unfold_locales (simp_all add: pick_nonzero_def)

subsection \<open>The printed texts\<close>

text \<open>Texts each after a bar, and texts separated by bars.\<close>

definition barred :: "string list \<Rightarrow> string" where
  "barred ps = concat (map (\<lambda>p. ''|'' @ p) ps)"

fun join_bar :: "string list \<Rightarrow> string" where
  "join_bar [] = []"
| "join_bar (p # ps) = p @ barred ps"

definition residue :: "c_int \<Rightarrow> string list" where
  "residue r = (if r = 0 then [] else [fmt_hx32 r])"

lemma barred_simps [simp]: "barred [] = []" "barred (p # ps) = ''|'' @ p @ barred ps"
  by (simp_all add: barred_def)

lemma addflags_scan:
  "scan_flags pick_nonzero tbl flags = (xs, r) \<Longrightarrow> addflags tbl flags = barred (map xl_str xs @ residue r)"
  by (induction tbl arbitrary: flags xs) (auto simp: residue_def pick_nonzero_def split: prod.splits if_splits)

lemma sprintflags_scan:
  "\<exists>xs r. decomposes tbl flags xs r \<and>
     sprintflags_loop found tbl flags
       = (if found then barred else join_bar) (map xl_str xs @ residue r)"
proof (induction tbl arbitrary: flags found)
  case Nil
  show ?case
    by (rule exI [of _ "[]"], rule exI [of _ flags])
      (simp add: decomposes_Nil sprintflags_rest_def residue_def)
next
  case (Cons x tbl)
  let ?f = "flags AND NOT (xl_val x)"
  show ?case
  proof (cases "flags AND xl_val x = xl_val x")
    case True
    obtain xs r where "decomposes tbl ?f xs r"
      "(if ?f = 0 then sprintflags_rest True ?f else sprintflags_loop True tbl ?f)
        = barred (map xl_str xs @ residue r)"
      using Cons.IH [of ?f True] decomposes_zero
      by (cases "?f = 0") (fastforce simp: sprintflags_rest_def residue_def)+
    then show ?thesis using True decomposes_take [of tbl flags x xs r]
      by (intro exI [of _ "x # xs"] exI [of _ r]) (simp add: Let_def)
  next
    case False
    then show ?thesis using Cons.IH [of flags found] decomposes_skip by fastforce
  qed
qed

lemma printflags_loop_scan:
  "scan_flags pick_nonzero tbl flags = (xs, r) \<Longrightarrow>
   printflags_loop tbl flags sep n =
     ((if xs = [] then [] else sep @ join_bar (map xl_str xs)), r, (if xs = [] then sep else ''|''), n + length xs)"
proof (induction tbl arbitrary: flags xs sep n)
  case (Cons x tbl)
  show ?case
  proof (cases "pick_nonzero (xl_val x) flags")
    case True
    then obtain ys where ys: "scan_flags pick_nonzero tbl (flags AND NOT (xl_val x)) = (ys, r)" "xs = x # ys"
      using Cons.prems by (auto split: prod.splits)
    have "''|'' @ join_bar ps = barred ps" if "ps \<noteq> []" for ps using that by (cases ps) simp_all
    with True ys Cons.IH [OF ys(1), of "''|''" "n + 1"] show ?thesis
      by (auto simp: pick_nonzero_def)
  next
    case False
    with Cons.prems have "scan_flags pick_nonzero tbl flags = (xs, r)" by simp
    from Cons.IH [OF this] False show ?thesis by (auto simp: pick_nonzero_def)
  qed
qed simp

lemma join_bar_append: "ps \<noteq> [] \<Longrightarrow> join_bar (ps @ qs) = join_bar ps @ barred qs"
  by (cases ps) (simp_all add: barred_def)

lemma printflags_table_scan:
  assumes "scan_flags pick_nonzero tbl flags = (xs, r)"
  shows "printflags_table tbl flags dflt =
    (if xs \<noteq> [] then (join_bar (map xl_str xs @ residue r), length (map xl_str xs @ residue r))
     else if r \<noteq> 0 then (fmt_hx32 r @ (case dflt of Some d \<Rightarrow> '' /* '' @ d @ '' */'' | None \<Rightarrow> []), 0)
     else (case dflt of Some d \<Rightarrow> ''0'' | None \<Rightarrow> [], 0))"
  using printflags_loop_scan [OF assms, of "[]" 0]
  by (auto simp: printflags_table_def residue_def join_bar_append)

text \<open>
  C32. \<open>printflags\<close> on non-zero flags prints a decomposition of them: the names of table entries
  separated by bars and, after them, the remaining bits in hexadecimal. The values of the
  entries and the remainder are disjoint and their union is the flag word, no non-zero entry of
  the table fits into the remainder, and the returned count is the number of printed parts; it
  is 0 if no entry fits, and then the whole word is printed with the default as a comment.
\<close>

theorem printflags_lossless:
  assumes "flags \<noteq> 0"
  shows "\<exists>xs r. decomposes tbl flags xs r \<and>
    printflags tbl flags dflt = Some
      (if xs = [] then (fmt_hx32 flags @ (case dflt of Some d \<Rightarrow> '' /* '' @ d @ '' */'' | None \<Rightarrow> []), 0)
       else (join_bar (map xl_str xs @ residue r), length (map xl_str xs @ residue r)))"
proof -
  obtain xs r where s: "scan_flags pick_nonzero tbl flags = (xs, r)" "decomposes tbl flags xs r"
    using nz.decomposition_exists by blast
  moreover have "r = flags" if "xs = []" using s(2) that by (simp add: decomposes_def or_vals_def)
  moreover have "printflags tbl flags dflt = Some (printflags_table tbl flags dflt)"
    using assms by (cases tbl) simp_all
  ultimately show ?thesis
    using assms by (intro exI [of _ xs] exI [of _ r])
      (auto simp: printflags_table_scan [OF s(1)] residue_def)
qed

theorem printflags_lossless_witness:
  "(13 :: c_int) \<noteq> 0 \<and> (\<exists>xs r. decomposes [\<lparr>xl_val = 4, xl_str = ''B''\<rparr>] 13 xs r \<and>
    printflags [\<lparr>xl_val = 4, xl_str = ''B''\<rparr>] 13 None = Some
      (if xs = [] then (fmt_hx32 13 @ (case None of Some d \<Rightarrow> '' /* '' @ d @ '' */'' | None \<Rightarrow> []), 0)
       else (join_bar (map xl_str xs @ residue r), length (map xl_str xs @ residue r))))
   \<and> printflags [\<lparr>xl_val = 4, xl_str = ''B''\<rparr>] 13 None = Some (''B|0x9'', 2)"
proof (intro conjI)
  show n: "(13 :: c_int) \<noteq> 0" by simp
  show "\<exists>xs r. decomposes [\<lparr>xl_val = 4, xl_str = ''B''\<rparr>] 13 xs r \<and>
    printflags [\<lparr>xl_val = 4, xl_str = ''B''\<rparr>] 13 None = Some
      (if xs = [] then (fmt_hx32 13 @ (case None of Some d \<Rightarrow> '' /* '' @ d @ '' */'' | None \<Rightarrow> []), 0)
       else (join_bar (map xl_str xs @ residue r), length (map xl_str xs @ residue r)))"
    by (rule printflags_lossless [OF n])
  show "printflags [\<lparr>xl_val = 4, xl_str = ''B''\<rparr>] 13 None = Some (''B|0x9'', 2)"
    by code_simp
qed

text \<open>
  \<open>addflags\<close> prints the same decomposition with a bar before every part, so that nothing is
  printed exactly when there are no flags, and \<open>sprintflags\<close>, with its early exit and its
  zero-valued entries, prints its prefix and a decomposition separated by bars.
\<close>

theorem addflags_sprintflags_lossless:
  "(\<exists>xs r. decomposes tbl flags xs r \<and> addflags tbl flags = barred (map xl_str xs @ residue r))
   \<and> (addflags tbl flags = [] \<longleftrightarrow> flags = 0)
   \<and> (\<exists>ys r. decomposes tbl flags ys r
        \<and> sprintflags prefix tbl flags = prefix @ join_bar (map xl_str ys @ residue r))"
proof -
  obtain xs r where s: "scan_flags pick_nonzero tbl flags = (xs, r)" "decomposes tbl flags xs r"
    using nz.decomposition_exists by blast
  note a = addflags_scan [OF s(1)]
  have "or_vals xs OR r = flags" using s(2) by (simp add: decomposes_def)
  then have "xs = [] \<and> r = 0 \<Longrightarrow> flags = 0" by (auto simp: or_vals_def)
  then have "addflags tbl flags = [] \<Longrightarrow> flags = 0"
    using a by (cases xs) (auto simp: residue_def split: if_splits)
  moreover have "addflags tbl 0 = []" for tbl by (induction tbl) auto
  moreover obtain ys r' where "decomposes tbl flags ys r'"
    "sprintflags_loop False tbl flags = join_bar (map xl_str ys @ residue r')"
    using sprintflags_scan [of tbl flags False] by auto
  ultimately show ?thesis using s(2) a by (auto simp: sprintflags_def)
qed

end
