(* ===== verification/Vsprintf_Dec.thy ===== *)
theory Vsprintf_Dec
  imports Prelude
begin

text \<open>
  Decimal conversion of \<^verbatim>\<open>strace/vsprintf.c\<close>: \<open>put_dec_full9\<close>, \<open>put_dec_trunc8\<close> and the
  two versions of \<open>put_dec\<close> (the generic one, used where \<open>long\<close> has 64 bits, and the one
  without 64-bit division). A pointer into the output is the text written so far; digits
  are appended least significant first. Divisions by ten are multiplications by a
  reciprocal followed by a shift, on 32-bit and 64-bit words as in the code.
\<close>

subsection \<open>The routines\<close>

text \<open>The C expression \<^verbatim>\<open>(q * (uint64_t)0x1999999a) >> 32\<close>, stored in an \<open>unsigned\<close>.\<close>

definition mul_1999999a_shr32 :: "32 word \<Rightarrow> 32 word" where
  "mul_1999999a_shr32 q = ucast (drop_bit 32 (ucast q * (0x1999999a :: 64 word)))"

definition put_digit :: "32 word \<Rightarrow> char" where
  "put_digit d = char_of (unat (d + 48))"

definition put_dec_full9 :: "string \<Rightarrow> 32 word \<Rightarrow> string" where
  "put_dec_full9 buf q =
    (let r = mul_1999999a_shr32 q; buf = buf @ [put_digit (q - 10 * r)];
         q = mul_1999999a_shr32 r; buf = buf @ [put_digit (r - 10 * q)];
         r = mul_1999999a_shr32 q; buf = buf @ [put_digit (q - 10 * r)];
         q = mul_1999999a_shr32 r; buf = buf @ [put_digit (r - 10 * q)];
         r = mul_1999999a_shr32 q; buf = buf @ [put_digit (q - 10 * r)];
         q = drop_bit 16 (r * 0x199a); buf = buf @ [put_digit (r - 10 * q)];
         r = drop_bit 11 (q * 0xcd); buf = buf @ [put_digit (q - 10 * r)];
         q = drop_bit 11 (r * 0xcd); buf = buf @ [put_digit (r - 10 * q)]
     in buf @ [put_digit q])"

definition put_dec_trunc8 :: "string \<Rightarrow> 32 word \<Rightarrow> string" where
  "put_dec_trunc8 buf r =
    (let q = mul_1999999a_shr32 r; buf = buf @ [put_digit (r - 10 * q)] in
     if q = 0 then buf else
     let r = mul_1999999a_shr32 q; buf = buf @ [put_digit (q - 10 * r)] in
     if r = 0 then buf else
     let q = mul_1999999a_shr32 r; buf = buf @ [put_digit (r - 10 * q)] in
     if q = 0 then buf else
     let r = mul_1999999a_shr32 q; buf = buf @ [put_digit (q - 10 * r)] in
     if r = 0 then buf else
     let q = drop_bit 16 (r * 0x199a); buf = buf @ [put_digit (r - 10 * q)] in
     if q = 0 then buf else
     let r = drop_bit 11 (q * 0xcd); buf = buf @ [put_digit (q - 10 * r)] in
     if r = 0 then buf else
     let q = drop_bit 11 (r * 0xcd); buf = buf @ [put_digit (r - 10 * q)] in
     if q = 0 then buf else buf @ [put_digit q])"

text \<open>The loop \<^verbatim>\<open>while (n >= 1000*1000*1000)\<close> of \<open>put_dec\<close>; \<open>do_div\<close> divides in place.\<close>

function put_dec_loop :: "string \<Rightarrow> 64 word \<Rightarrow> string \<times> 64 word" where
  "put_dec_loop buf n =
     (if n \<ge> 1000000000
      then put_dec_loop (put_dec_full9 buf (ucast (n mod 1000000000))) (n div 1000000000)
      else (buf, n))"
  by pat_completeness auto
termination
proof (relation "measure (\<lambda>(buf, n). unat n)")
  fix buf :: string and n :: "64 word"
  assume "n \<ge> 1000000000"
  then have "1000000000 \<le> unat n" by (simp add: word_le_nat_alt)
  then show "((put_dec_full9 buf (ucast (n mod 1000000000)), n div 1000000000), buf, n)
      \<in> measure (\<lambda>(buf, n). unat n)"
    by (simp add: unat_div_distrib)
qed simp

declare put_dec_loop.simps [simp del]

definition put_dec :: "string \<Rightarrow> 64 word \<Rightarrow> string" where
  "put_dec buf n =
     (if n \<ge> 100000000 then
        (case put_dec_loop buf n of (buf, n) \<Rightarrow>
           if n \<ge> 100000000 then put_dec_full9 buf (ucast n)
           else put_dec_trunc8 buf (ucast n))
      else put_dec_trunc8 buf (ucast n))"

subsection \<open>The version without 64-bit division\<close>

definition put_dec_full4 :: "string \<Rightarrow> 32 word \<Rightarrow> string" where
  "put_dec_full4 buf q =
    (let r = drop_bit 19 (q * 0xcccd); buf = buf @ [put_digit (q - 10 * r)];
         q = drop_bit 16 (r * 0x199a); buf = buf @ [put_digit (r - 10 * q)];
         r = drop_bit 11 (q * 0xcd); buf = buf @ [put_digit (q - 10 * r)]
     in buf @ [put_digit r])"

text \<open>The loop \<^verbatim>\<open>while (buf[-1] == '0') --buf\<close>.\<close>

fun strip_zeros :: "string \<Rightarrow> string" where
  "strip_zeros buf =
     (if buf \<noteq> [] \<and> last buf = CHR ''0'' then strip_zeros (butlast buf) else buf)"

declare strip_zeros.simps [simp del]

definition put_dec_nodiv :: "string \<Rightarrow> 64 word \<Rightarrow> string" where
  "put_dec_nodiv buf n =
    (if n < 100000000 then put_dec_trunc8 buf (ucast n) else
     let d1 = drop_bit 16 (ucast n :: 32 word);
         h = (ucast (drop_bit 32 n) :: 32 word);
         d2 = h AND 0xffff;
         d3 = drop_bit 16 h;
         q = 656 * d3 + 7296 * d2 + 5536 * d1 + (ucast n AND 0xffff);
         buf = put_dec_full4 buf (q mod 10000);
         q = q div 10000;
         d1 = q + 7671 * d3 + 9496 * d2 + 6 * d1;
         buf = put_dec_full4 buf (d1 mod 10000);
         q = d1 div 10000;
         d2 = q + 4749 * d3 + 42 * d2;
         buf = put_dec_full4 buf (d2 mod 10000);
         q = d2 div 10000;
         d3 = q + 281 * d3
     in if d3 = 0 then strip_zeros buf else
        let buf = put_dec_full4 buf (d3 mod 10000);
            q = d3 div 10000
        in if q = 0 then strip_zeros buf else strip_zeros (put_dec_full4 buf q))"

subsection \<open>Reciprocal multiplication divides by ten\<close>

lemma magic_div10:
  fixes M e k q N :: nat
  assumes M: "M * 10 = k + e" and q: "q < 10 * N" and fit: "e * (N - 1) + 9 * M < k"
  shows "(q * M) div k = q div 10"
proof -
  have "q * M = q div 10 * (M * 10) + q mod 10 * M"
    by (simp add: algebra_simps flip: distrib_left)
  also have "\<dots> = q div 10 * k + (e * (q div 10) + q mod 10 * M)"
    by (simp add: M algebra_simps)
  finally have eq: "q * M = q div 10 * k + (e * (q div 10) + q mod 10 * M)" .
  have "e * (q div 10) \<le> e * (N - 1)" using q by (intro mult_left_mono) auto
  moreover have "q mod 10 * M \<le> 9 * M" by (intro mult_right_mono) auto
  ultimately have "e * (q div 10) + q mod 10 * M < k" using fit by linarith
  with eq show ?thesis by simp
qed

lemma unat_lt32: "unat (q :: 32 word) < 4294967296"
  using unsigned_less [of q] by simp

lemma unat_lt64: "unat (n :: 64 word) < 18446744073709551616"
  using unsigned_less [of n] by simp

lemma unat_ucast_up: "unat (ucast (q :: 32 word) :: 64 word) = unat q"
  using unat_lt32 [of q] by (simp add: unsigned_ucast_eq take_bit_nat_eq_self)

lemma unat_ucast_down: "unat n < 4294967296 \<Longrightarrow> unat (ucast (n :: 64 word) :: 32 word) = unat n"
  by (simp add: unsigned_ucast_eq take_bit_nat_eq_self)

lemma unat_mul_1999999a: "unat (mul_1999999a_shr32 q) = (unat q * 0x1999999a) div 4294967296"
proof -
  let ?p = "ucast q * (0x1999999a :: 64 word)"
  have l: "unat q * 0x1999999a < 2 ^ 64" using unat_lt32 [of q] by simp
  then have m: "unat ?p = unat q * 0x1999999a"
    by (subst unat_word_ariths) (simp add: unat_ucast_up)
  have "unat (mul_1999999a_shr32 q) = take_bit 32 (unat (drop_bit 32 ?p))"
    unfolding mul_1999999a_shr32_def by (subst unsigned_ucast_eq) simp
  also have "unat (drop_bit 32 ?p) = (unat q * 0x1999999a) div 2 ^ 32"
    by (subst unat_drop_bit_eq) (simp only: m drop_bit_eq_div)
  also have "take_bit 32 ((unat q * 0x1999999a) div 2 ^ 32) = (unat q * 0x1999999a) div 2 ^ 32"
    using l by (intro take_bit_nat_eq_self) simp
  finally show ?thesis by simp
qed

lemma div10_32: "unat q < 1000000000 \<Longrightarrow> unat (mul_1999999a_shr32 q) = unat q div 10"
  unfolding unat_mul_1999999a by (rule magic_div10 [where e = 4 and N = 100000000]) auto

lemma unat_shr_mul:
  assumes "unat q * c < 4294967296" and "unat (w :: 32 word) = c"
  shows "unat (drop_bit n (q * w :: 32 word)) = (unat q * c) div 2 ^ n"
proof -
  have "unat (q * w) = unat q * c"
    using assms by (subst unat_word_ariths) simp
  then show ?thesis by (subst unat_drop_bit_eq) (simp add: drop_bit_eq_div)
qed

lemma div10_19: "unat q < 10000 \<Longrightarrow> unat (drop_bit 19 (q * 0xcccd :: 32 word)) = unat q div 10"
  by (subst unat_shr_mul [where c = "0xcccd"]; (rule magic_div10 [where e = 2 and N = 1000])?) auto

lemma div10_16: "unat q < 10000 \<Longrightarrow> unat (drop_bit 16 (q * 0x199a :: 32 word)) = unat q div 10"
  by (subst unat_shr_mul [where c = "0x199a"]; (rule magic_div10 [where e = 4 and N = 1000])?) auto

lemma div10_11: "unat q < 1000 \<Longrightarrow> unat (drop_bit 11 (q * 0xcd :: 32 word)) = unat q div 10"
  by (subst unat_shr_mul [where c = "0xcd"]; (rule magic_div10 [where e = 2 and N = 100])?) auto

lemma less_10_cases:
  "(d :: nat) < 10 \<Longrightarrow> d \<in> {0, 1, 2, 3, 4, 5, 6, 7, 8, 9}"
  by auto

lemma char_of_digit: "d < 10 \<Longrightarrow> char_of (d + 48) = digit_char d"
  by (drule less_10_cases) (auto simp: digit_char_def char_of_def bit_Suc_0_iff)

lemma put_digit_eq: "unat d < 10 \<Longrightarrow> put_digit d = digit_char (unat d)"
  by (simp add: put_digit_def unat_word_ariths char_of_digit)

lemma put_digit_step:
  assumes "unat r = unat q div 10"
  shows "put_digit (q - 10 * r) = digit_char (unat q mod 10)"
proof -
  have m: "unat (10 * r) = 10 * (unat q div 10)"
    using unat_lt32 [of q] assms by (subst unat_word_ariths) simp
  have "unat (q - 10 * r) = unat q - 10 * (unat q div 10)"
    unfolding m [symmetric] by (rule unat_sub) (simp add: word_le_nat_alt m)
  also have "\<dots> = unat q mod 10" by presburger
  finally show ?thesis using put_digit_eq [of "q - 10 * r"] by simp
qed

subsection \<open>Correctness\<close>

text \<open>The low \<open>k\<close> decimal digits of \<open>n\<close>, least significant first, and how they extend \<open>digs\<close>.\<close>

definition low_digits :: "nat \<Rightarrow> nat \<Rightarrow> string" where
  "low_digits k n = map (\<lambda>i. digit_char (n div 10 ^ i mod 10)) [0..<k]"

lemma length_low_digits [simp]: "length (low_digits k n) = k"
  by (simp add: low_digits_def)

lemma low_digits_0 [simp]: "low_digits 0 n = []"
  by (simp add: low_digits_def)

lemma low_digits_Suc: "low_digits (Suc k) n = digit_char (n mod 10) # low_digits k (n div 10)"
  by (simp add: low_digits_def upt_conv_Cons map_Suc_upt [symmetric] div_mult2_eq del: upt_Suc)

lemma low_digits_numeral:
  "low_digits (numeral k) n = digit_char (n mod 10) # low_digits (pred_numeral k) (n div 10)"
  unfolding numeral_eq_Suc [of k] by (rule low_digits_Suc)

lemma low_digits_mod: "low_digits k (n mod 10 ^ k) = low_digits k n"
proof (induction k arbitrary: n)
  case (Suc k)
  have "n mod 10 ^ Suc k div 10 = n div 10 mod 10 ^ k"
    by (simp add: mod_mult2_eq)
  moreover have "n mod 10 ^ Suc k mod 10 = n mod 10"
    by (simp add: mod_mult2_eq)
  ultimately show ?case by (simp add: low_digits_Suc Suc.IH)
qed simp

lemma rev_fmt_u_step:
  "rev (fmt_u n) = digit_char (n mod 10) # (if n div 10 = 0 then [] else rev (fmt_u (n div 10)))"
  by (cases "n < 10") (simp_all add: fmt_base_def digs_small digs_step)

lemma rev_fmt_u_split:
  "10 ^ k \<le> n \<Longrightarrow> rev (fmt_u n) = low_digits k n @ rev (fmt_u (n div 10 ^ k))"
proof (induction k arbitrary: n)
  case (Suc k)
  then have "10 ^ k \<le> n div 10" by (simp add: less_eq_div_iff_mult_less_eq mult.commute)
  then have IH: "rev (fmt_u (n div 10)) = low_digits k (n div 10) @ rev (fmt_u (n div 10 div 10 ^ k))"
    by (rule Suc.IH)
  have "1 \<le> (10::nat) ^ k" by simp
  with \<open>10 ^ k \<le> n div 10\<close> have "n div 10 \<noteq> 0" by linarith
  with IH show ?case by (simp add: rev_fmt_u_step [of n] low_digits_Suc div_mult2_eq)
qed simp

lemma rev_fmt_u_full:
  assumes "10 ^ k \<le> n" and "n < 10 ^ Suc k"
  shows "rev (fmt_u n) = low_digits (Suc k) n"
proof -
  have d: "n div 10 ^ k < 10" using assms(2) by (simp add: less_mult_imp_div_less)
  have "low_digits (Suc k) n = low_digits k n @ [digit_char (n div 10 ^ k mod 10)]"
    by (simp add: low_digits_def)
  with rev_fmt_u_split [OF assms(1)] d show ?thesis
    by (simp add: fmt_base_def digs_small)
qed

lemma put_dec_full9_eq:
  assumes "unat q < 1000000000"
  shows "put_dec_full9 buf q = buf @ low_digits 9 (unat q)"
proof -
  define r1 q2 r3 q4 r5 q6 r7 q8 where defs:
    "r1 = mul_1999999a_shr32 q" "q2 = mul_1999999a_shr32 r1" "r3 = mul_1999999a_shr32 q2"
    "q4 = mul_1999999a_shr32 r3" "r5 = mul_1999999a_shr32 q4" "q6 = drop_bit 16 (r5 * 0x199a)"
    "r7 = drop_bit 11 (q6 * 0xcd)" "q8 = drop_bit 11 (r7 * 0xcd)"
  have r1: "unat r1 = unat q div 10" and r1b: "unat r1 < 100000000"
    unfolding defs(1) using div10_32 [of q] assms by auto
  have q2: "unat q2 = unat r1 div 10" and q2b: "unat q2 < 10000000"
    unfolding defs(2) using div10_32 [of r1] r1b by auto
  have r3: "unat r3 = unat q2 div 10" and r3b: "unat r3 < 1000000"
    unfolding defs(3) using div10_32 [of q2] q2b by auto
  have q4: "unat q4 = unat r3 div 10" and q4b: "unat q4 < 100000"
    unfolding defs(4) using div10_32 [of r3] r3b by auto
  have r5: "unat r5 = unat q4 div 10" and r5b: "unat r5 < 10000"
    unfolding defs(5) using div10_32 [of q4] q4b by auto
  have q6: "unat q6 = unat r5 div 10" and q6b: "unat q6 < 1000"
    unfolding defs(6) using div10_16 [of r5] r5b by auto
  have r7: "unat r7 = unat q6 div 10" and r7b: "unat r7 < 100"
    unfolding defs(7) using div10_11 [of q6] q6b by auto
  have q8: "unat q8 = unat r7 div 10" and q8b: "unat q8 < 10"
    unfolding defs(8) using div10_11 [of r7] r7b by auto
  have last: "put_digit q8 = digit_char (unat q8 mod 10)" using q8b by (simp add: put_digit_eq)
  have "put_dec_full9 buf q = buf @ [put_digit (q - 10 * r1), put_digit (r1 - 10 * q2),
      put_digit (q2 - 10 * r3), put_digit (r3 - 10 * q4), put_digit (q4 - 10 * r5),
      put_digit (r5 - 10 * q6), put_digit (q6 - 10 * r7), put_digit (r7 - 10 * q8), put_digit q8]"
    by (simp add: put_dec_full9_def Let_def flip: defs)
  also have "\<dots> = buf @ low_digits 9 (unat q)"
    by (simp add: low_digits_numeral low_digits_Suc last put_digit_step [OF r1] put_digit_step [OF q2]
        put_digit_step [OF r3] put_digit_step [OF q4] put_digit_step [OF r5]
        put_digit_step [OF q6] put_digit_step [OF r7] put_digit_step [OF q8])
      (simp add: r1 q2 r3 q4 r5 q6 r7 q8)
  finally show ?thesis .
qed

lemma put_dec_trunc8_eq:
  assumes "unat r < 100000000"
  shows "put_dec_trunc8 buf r = buf @ rev (fmt_u (unat r))"
proof -
  define q1 r2 q3 r4 q5 r6 q7 where defs:
    "q1 = mul_1999999a_shr32 r" "r2 = mul_1999999a_shr32 q1" "q3 = mul_1999999a_shr32 r2"
    "r4 = mul_1999999a_shr32 q3" "q5 = drop_bit 16 (r4 * 0x199a)"
    "r6 = drop_bit 11 (q5 * 0xcd)" "q7 = drop_bit 11 (r6 * 0xcd)"
  have q1: "unat q1 = unat r div 10" and q1b: "unat q1 < 10000000"
    unfolding defs(1) using div10_32 [of r] assms by auto
  have r2: "unat r2 = unat q1 div 10" and r2b: "unat r2 < 1000000"
    unfolding defs(2) using div10_32 [of q1] q1b by auto
  have q3: "unat q3 = unat r2 div 10" and q3b: "unat q3 < 100000"
    unfolding defs(3) using div10_32 [of r2] r2b by auto
  have r4: "unat r4 = unat q3 div 10" and r4b: "unat r4 < 10000"
    unfolding defs(4) using div10_32 [of q3] q3b by auto
  have q5: "unat q5 = unat r4 div 10" and q5b: "unat q5 < 1000"
    unfolding defs(5) using div10_16 [of r4] r4b by auto
  have r6: "unat r6 = unat q5 div 10" and r6b: "unat r6 < 100"
    unfolding defs(6) using div10_11 [of q5] q5b by auto
  have q7: "unat q7 = unat r6 div 10" and q7b: "unat q7 < 10"
    unfolding defs(7) using div10_11 [of r6] r6b by auto
  have last: "rev (fmt_u (unat q7)) = [put_digit q7]"
    using q7b by (simp add: put_digit_eq fmt_base_def digs_small)
  have step: "rev (fmt_u (unat a)) = put_digit (a - 10 * b) #
      (if b = 0 then [] else rev (fmt_u (unat b)))" if "unat b = unat a div 10" for a b :: "32 word"
    using that by (simp add: rev_fmt_u_step [of "unat a"] put_digit_step unat_eq_zero flip: that)
  show ?thesis
    unfolding put_dec_trunc8_def Let_def defs [symmetric]
    by (simp add: step [OF q1] step [OF r2] step [OF q3] step [OF r4] step [OF q5] step [OF r6]
        step [OF q7] last)
qed

lemma put_dec_loop_eq:
  "put_dec_loop buf n = (buf', n') \<Longrightarrow>
     unat n' < 1000000000 \<and> (0 < unat n \<longrightarrow> 0 < unat n') \<and>
     (0 < unat n \<longrightarrow> buf' @ rev (fmt_u (unat n')) = buf @ rev (fmt_u (unat n)))"
proof (induction buf n rule: put_dec_loop.induct)
  case (1 buf n)
  show ?case
  proof (cases "n \<ge> 1000000000")
    case True
    then have n: "10 ^ 9 \<le> unat n" by (simp add: word_le_nat_alt)
    let ?d = "n div 1000000000" and ?m = "n mod 1000000000"
    have d: "unat ?d = unat n div 10 ^ 9" by (simp add: unat_div_distrib)
    have m: "unat ?m = unat n mod 10 ^ 9" by (simp add: unat_mod_distrib)
    then have mb: "unat ?m < 1000000000" by simp
    have m32: "unat (ucast ?m :: 32 word) = unat ?m" using mb by (intro unat_ucast_down) simp
    have full9: "put_dec_full9 buf (ucast ?m) = buf @ low_digits 9 (unat n)"
      using put_dec_full9_eq [of "ucast ?m" buf] mb low_digits_mod [of 9 "unat n"]
      by (simp only: m32) (simp add: m)
    from n have dpos: "0 < unat ?d" by (simp add: d div_greater_zero_iff)
    from "1.prems" True have "put_dec_loop (put_dec_full9 buf (ucast ?m)) ?d = (buf', n')"
      by (simp add: put_dec_loop.simps [of buf n])
    from "1.IH" [OF True this] dpos
    have "unat n' < 1000000000" "0 < unat n'"
      "buf' @ rev (fmt_u (unat n')) = (buf @ low_digits 9 (unat n)) @ rev (fmt_u (unat ?d))"
      by (simp_all add: full9)
    with n rev_fmt_u_split [OF n] show ?thesis by (simp add: d)
  next
    case False
    with "1.prems" show ?thesis
      by (simp add: put_dec_loop.simps [of buf n] word_le_nat_alt)
  qed
qed

lemma put_dec_eq: "put_dec buf n = buf @ rev (fmt_u (unat n))"
proof (cases "n \<ge> 100000000")
  case True
  obtain buf' n' where l: "put_dec_loop buf n = (buf', n')" by fastforce
  from True have "0 < unat n" by (simp add: word_le_nat_alt)
  with put_dec_loop_eq [OF l] have n': "unat n' < 1000000000"
    and eq: "buf' @ rev (fmt_u (unat n')) = buf @ rev (fmt_u (unat n))" by auto
  from n' have c: "unat (ucast n' :: 32 word) = unat n'" by (intro unat_ucast_down) simp
  show ?thesis
  proof (cases "n' \<ge> 100000000")
    case True
    then have n8: "10 ^ 8 \<le> unat n'" by (simp add: word_le_nat_alt)
    have "put_dec_full9 buf' (ucast n') = buf' @ low_digits 9 (unat n')"
      using n' c by (simp add: put_dec_full9_eq)
    moreover have "rev (fmt_u (unat n')) = low_digits 9 (unat n')"
      using rev_fmt_u_full [OF n8] n' by simp
    ultimately show ?thesis using \<open>n \<ge> 100000000\<close> True eq by (simp add: put_dec_def l)
  next
    case False
    then have "unat n' < 100000000" by (simp add: word_le_nat_alt)
    then have "put_dec_trunc8 buf' (ucast n') = buf' @ rev (fmt_u (unat n'))"
      using c by (simp add: put_dec_trunc8_eq)
    with \<open>n \<ge> 100000000\<close> False eq show ?thesis by (simp add: put_dec_def l)
  qed
next
  case False
  then have n: "unat n < 100000000" by (simp add: word_le_nat_alt)
  then have "unat (ucast n :: 32 word) = unat n" by (intro unat_ucast_down) simp
  with n False show ?thesis by (simp add: put_dec_def put_dec_trunc8_eq)
qed

subsection \<open>Correctness of the version without division\<close>

lemma put_dec_full4_eq:
  assumes "unat q < 10000"
  shows "put_dec_full4 buf q = buf @ low_digits 4 (unat q)"
proof -
  define r1 q2 r3 where defs: "r1 = drop_bit 19 (q * 0xcccd)" "q2 = drop_bit 16 (r1 * 0x199a)"
    "r3 = drop_bit 11 (q2 * 0xcd)"
  have r1: "unat r1 = unat q div 10" and r1b: "unat r1 < 1000"
    unfolding defs(1) using div10_19 [of q] assms by auto
  have q2: "unat q2 = unat r1 div 10" and q2b: "unat q2 < 100"
    unfolding defs(2) using div10_16 [of r1] r1b by auto
  have r3: "unat r3 = unat q2 div 10" and r3b: "unat r3 < 10"
    unfolding defs(3) using div10_11 [of q2] q2b by auto
  have last: "put_digit r3 = digit_char (unat r3 mod 10)" using r3b by (simp add: put_digit_eq)
  have "put_dec_full4 buf q = buf @ [put_digit (q - 10 * r1), put_digit (r1 - 10 * q2),
      put_digit (q2 - 10 * r3), put_digit r3]"
    by (simp add: put_dec_full4_def Let_def flip: defs)
  also have "\<dots> = buf @ low_digits 4 (unat q)"
    by (simp add: low_digits_numeral low_digits_Suc last put_digit_step [OF r1]
        put_digit_step [OF q2] put_digit_step [OF r3]) (simp add: r1 q2 r3)
  finally show ?thesis .
qed

lemma digit_char_eq_zero: "d < 10 \<Longrightarrow> digit_char d = CHR ''0'' \<longleftrightarrow> d = 0"
  by (drule less_10_cases) (auto simp: digit_char_def)

lemma strip_zeros_append0: "strip_zeros (buf @ [CHR ''0'']) = strip_zeros buf"
  by (subst strip_zeros.simps) simp

lemma strip_zeros_stop: "c \<noteq> CHR ''0'' \<Longrightarrow> strip_zeros (buf @ [c]) = buf @ [c]"
  by (subst strip_zeros.simps) simp

text \<open>Dropping the leading zeros of a full-width representation leaves the decimal text.\<close>

lemma strip_low_digits:
  "0 < n \<Longrightarrow> n < 10 ^ k \<Longrightarrow> strip_zeros (buf @ low_digits k n) = buf @ rev (fmt_u n)"
proof (induction k)
  case (Suc k)
  have snoc: "low_digits (Suc k) n = low_digits k n @ [digit_char (n div 10 ^ k mod 10)]"
    by (simp add: low_digits_def)
  have d: "n div 10 ^ k < 10" using Suc.prems(2) by (simp add: less_mult_imp_div_less)
  show ?case
  proof (cases "n < 10 ^ k")
    case True
    then have "digit_char (n div 10 ^ k mod 10) = CHR ''0''" by (simp add: digit_char_def)
    then have "strip_zeros (buf @ low_digits (Suc k) n) = strip_zeros (buf @ low_digits k n)"
      using strip_zeros_append0 [of "buf @ low_digits k n"] by (simp add: snoc)
    with Suc.IH Suc.prems(1) True show ?thesis by simp
  next
    case False
    then have "n div 10 ^ k \<noteq> 0" by (simp add: div_eq_0_iff)
    with d have "digit_char (n div 10 ^ k mod 10) \<noteq> CHR ''0''" by (simp add: digit_char_eq_zero)
    then have "strip_zeros (buf @ low_digits (Suc k) n) = buf @ low_digits (Suc k) n"
      using strip_zeros_stop [of _ "buf @ low_digits k n"] by (simp add: snoc)
    with rev_fmt_u_full [of k n] False Suc.prems(2) show ?thesis by simp
  qed
qed simp

lemma low_digits_add: "low_digits (j + k) n = low_digits j n @ low_digits k (n div 10 ^ j)"
  by (induction j arbitrary: n) (simp_all add: low_digits_Suc div_mult2_eq)

lemma unat_lin3:
  fixes a b c e :: "32 word"
  assumes "unat ka * unat a + unat kb * unat b + unat kc * unat c + unat e < 4294967296"
  shows "unat (ka * a + kb * b + kc * c + e) =
    unat ka * unat a + unat kb * unat b + unat kc * unat c + unat e"
  using assms by (simp add: unat_word_ariths mod_simps)

lemma split_16:
  fixes n :: "64 word"
  shows "unat (drop_bit 16 (ucast n :: 32 word)) = unat n mod 4294967296 div 65536"
    and "unat (ucast n AND 0xffff :: 32 word) = unat n mod 65536"
    and "unat ((ucast (drop_bit 32 n) :: 32 word) AND 0xffff) = unat n div 4294967296 mod 65536"
    and "unat (drop_bit 16 (ucast (drop_bit 32 n) :: 32 word)) = unat n div 4294967296 div 65536"
proof -
  have m: "w AND 0xffff = take_bit 16 w" for w :: "32 word"
    by (simp add: take_bit_eq_mask mask_eq_exp_minus_1)
  have low: "unat (ucast n :: 32 word) = unat n mod 4294967296"
    by (simp add: unsigned_ucast_eq take_bit_eq_mod)
  have h: "unat (drop_bit 32 n) = unat n div 4294967296"
    by (subst unat_drop_bit_eq) (simp add: drop_bit_eq_div)
  have "unat n < 2 ^ 64" using unsigned_less [of n] by simp
  then have "unat n div 4294967296 < 4294967296" by simp
  then have high: "unat (ucast (drop_bit 32 n) :: 32 word) = unat n div 4294967296"
    using unat_ucast_down [of "drop_bit 32 n"] by (simp only: h)
  have t: "unat (take_bit 16 w) = unat w mod 65536" for w :: "32 word"
    by (simp add: unsigned_take_bit_eq take_bit_eq_mod unat_mod_distrib)
  show "unat (drop_bit 16 (ucast n :: 32 word)) = unat n mod 4294967296 div 65536"
    by (subst unat_drop_bit_eq) (simp add: low drop_bit_eq_div)
  show "unat (ucast n AND 0xffff :: 32 word) = unat n mod 65536"
    unfolding m t low by (simp add: mod_mod_cancel)
  show "unat ((ucast (drop_bit 32 n) :: 32 word) AND 0xffff) = unat n div 4294967296 mod 65536"
    unfolding m t high ..
  show "unat (drop_bit 16 (ucast (drop_bit 32 n) :: 32 word)) = unat n div 4294967296 div 65536"
    by (simp only: unat_drop_bit_eq high) (simp add: drop_bit_eq_div)
qed

lemma carry_chain:
  fixes N d0 d1 d2 d3 :: nat
  assumes N: "N = 281474976710656 * d3 + 4294967296 * d2 + 65536 * d1 + d0"
  defines "q0 \<equiv> 656 * d3 + 7296 * d2 + 5536 * d1 + d0"
  defines "e1 \<equiv> q0 div 10000 + 7671 * d3 + 9496 * d2 + 6 * d1"
  defines "e2 \<equiv> e1 div 10000 + 4749 * d3 + 42 * d2"
  shows "q0 mod 10000 = N mod 10000"
    and "e1 mod 10000 = N div 10000 mod 10000"
    and "e2 mod 10000 = N div 100000000 mod 10000"
    and "e2 div 10000 + 281 * d3 = N div 1000000000000"
proof -
  have shift: "(a + 10000 * x) mod 10000 = a mod 10000" "(a + 10000 * x) div 10000 = a div 10000 + x"
    for a x :: nat by simp_all
  define z3 where "z3 = 281 * d3"
  define z2 where "z2 = 4749 * d3 + 42 * d2 + 10000 * z3"
  define z1 where "z1 = 7671 * d3 + 9496 * d2 + 6 * d1 + 10000 * z2"
  have 0: "N = q0 + 10000 * z1" by (simp add: N q0_def z1_def z2_def z3_def)
  have 1: "N div 10000 = e1 + 10000 * z2" by (simp add: 0 shift e1_def) (simp add: z1_def)
  have "N div 100000000 = N div 10000 div 10000" by (simp flip: div_mult2_eq)
  then have 2: "N div 100000000 = e2 + 10000 * z3" by (simp add: 1 shift e2_def) (simp add: z2_def)
  have "N div 1000000000000 = N div 100000000 div 10000" by (simp flip: div_mult2_eq)
  then show "e2 div 10000 + 281 * d3 = N div 1000000000000" by (simp add: 2 shift z3_def)
  show "q0 mod 10000 = N mod 10000" by (simp only: 0 shift)
  show "e1 mod 10000 = N div 10000 mod 10000" by (simp only: 1 shift)
  show "e2 mod 10000 = N div 100000000 mod 10000" by (simp only: 2 shift)
qed

text \<open>
  The whole chunk computation on words, read as natural numbers: none of the 32-bit sums
  wraps around.
\<close>

lemma put_dec_nodiv_chunks:
  fixes n :: "64 word" and d1 d2 d3 d0 :: "32 word"
  defines "d1 \<equiv> drop_bit 16 (ucast n)" and "d2 \<equiv> ucast (drop_bit 32 n) AND 0xffff"
    and "d3 \<equiv> drop_bit 16 (ucast (drop_bit 32 n))" and "d0 \<equiv> ucast n AND 0xffff"
  defines "q0 \<equiv> 656 * d3 + 7296 * d2 + 5536 * d1 + d0"
  defines "e1 \<equiv> q0 div 10000 + 7671 * d3 + 9496 * d2 + 6 * d1"
  defines "e2 \<equiv> e1 div 10000 + 4749 * d3 + 42 * d2"
  defines "e3 \<equiv> e2 div 10000 + 281 * d3"
  shows "unat (q0 mod 10000) = unat n mod 10000"
    and "unat (e1 mod 10000) = unat n div 10000 mod 10000"
    and "unat (e2 mod 10000) = unat n div 100000000 mod 10000"
    and "unat e3 = unat n div 1000000000000"
proof -
  note u = split_16 [of n, folded d0_def d1_def d2_def d3_def]
  note N = unat_lt64 [of n]
  have b: "unat d0 < 65536" "unat d1 < 65536" "unat d2 < 65536" "unat d3 < 65536"
    using N unfolding u by auto
  have "unat n = 4294967296 * (unat n div 4294967296) + unat n mod 4294967296" by simp
  moreover have "unat n div 4294967296 = 65536 * unat d3 + unat d2" unfolding u by simp
  moreover have "unat n mod 4294967296 = 65536 * unat d1 + unat d0"
    unfolding u using mult_div_mod_eq [of 65536 "unat n mod 4294967296"]
    by (simp add: mod_mod_cancel)
  ultimately have sum: "unat n = 281474976710656 * unat d3 + 4294967296 * unat d2 + 65536 * unat d1 + unat d0"
    by simp
  note c = carry_chain [OF sum]
  have q0: "unat q0 = 656 * unat d3 + 7296 * unat d2 + 5536 * unat d1 + unat d0"
    unfolding q0_def using b by (subst unat_lin3) auto
  have "e1 = 7671 * d3 + 9496 * d2 + 6 * d1 + q0 div 10000" by (simp add: e1_def)
  then have e1: "unat e1 = unat q0 div 10000 + 7671 * unat d3 + 9496 * unat d2 + 6 * unat d1"
    using b q0 by (simp add: unat_lin3 unat_div_distrib)
  have "e2 = 4749 * d3 + 42 * d2 + 0 * d1 + e1 div 10000" by (simp add: e2_def)
  then have e2: "unat e2 = unat e1 div 10000 + 4749 * unat d3 + 42 * unat d2"
    using b q0 e1 by (simp only: ) (subst unat_lin3, auto simp: unat_div_distrib)
  have "e3 = 281 * d3 + 0 * d2 + 0 * d1 + e2 div 10000" by (simp add: e3_def)
  then have e3: "unat e3 = unat e2 div 10000 + 281 * unat d3"
    using b q0 e1 e2 by (simp only: ) (subst unat_lin3, auto simp: unat_div_distrib)
  show "unat (q0 mod 10000) = unat n mod 10000"
    using c(1) by (simp add: unat_mod_distrib q0)
  show "unat (e1 mod 10000) = unat n div 10000 mod 10000"
    using c(2) by (simp add: unat_mod_distrib e1 q0)
  show "unat (e2 mod 10000) = unat n div 100000000 mod 10000"
    using c(3) by (simp add: unat_mod_distrib e2 e1 q0)
  show "unat e3 = unat n div 1000000000000"
    using c(4) by (simp add: e3 e2 e1 q0)
qed

lemma low_digits_chunk: "low_digits 4 (n mod 10000) = low_digits 4 n"
  using low_digits_mod [of 4 n] by simp

lemma put_dec_nodiv_eq: "put_dec_nodiv buf n = buf @ rev (fmt_u (unat n))"
proof (cases "n < 100000000")
  case True
  then have n: "unat n < 100000000" by (simp add: word_less_nat_alt)
  then have "unat (ucast n :: 32 word) = unat n" by (intro unat_ucast_down) simp
  with n True show ?thesis by (simp add: put_dec_nodiv_def put_dec_trunc8_eq)
next
  case False
  then have pos: "0 < unat n" by (simp add: word_less_nat_alt)
  have N: "unat n < 10 ^ 20" using unat_lt64 [of n] by simp
  define d1 d2 d3 d0 :: "32 word" where d: "d1 = drop_bit 16 (ucast n)"
    "d2 = ucast (drop_bit 32 n) AND 0xffff" "d3 = drop_bit 16 (ucast (drop_bit 32 n))"
    "d0 = ucast n AND 0xffff"
  define q0 where "q0 = 656 * d3 + 7296 * d2 + 5536 * d1 + d0"
  define e1 where "e1 = q0 div 10000 + 7671 * d3 + 9496 * d2 + 6 * d1"
  define e2 where "e2 = e1 div 10000 + 4749 * d3 + 42 * d2"
  define e3 where "e3 = e2 div 10000 + 281 * d3"
  note u = put_dec_nodiv_chunks [of n, folded d, folded q0_def, folded e1_def, folded e2_def,
      folded e3_def]
  let ?b3 = "put_dec_full4 (put_dec_full4 (put_dec_full4 buf (q0 mod 10000)) (e1 mod 10000))
      (e2 mod 10000)"
  have eq: "put_dec_nodiv buf n = (if e3 = 0 then strip_zeros ?b3 else
      if e3 div 10000 = 0 then strip_zeros (put_dec_full4 ?b3 (e3 mod 10000))
      else strip_zeros (put_dec_full4 (put_dec_full4 ?b3 (e3 mod 10000)) (e3 div 10000)))"
    using False by (simp add: put_dec_nodiv_def Let_def flip: d q0_def e1_def e2_def e3_def)
  have b3: "?b3 = buf @ low_digits 12 (unat n)"
    using low_digits_add [of 8 4 "unat n"] low_digits_add [of 4 4 "unat n"]
    by (simp add: put_dec_full4_eq u low_digits_chunk)
  have m: "unat (e3 mod 10000) = unat n div 10 ^ 12 mod 10000" by (simp add: unat_mod_distrib u)
  have b4: "put_dec_full4 ?b3 (e3 mod 10000) = buf @ low_digits 16 (unat n)"
    using low_digits_add [of 12 4 "unat n"]
    by (subst put_dec_full4_eq) (simp_all only: b3 m low_digits_chunk, simp_all)
  have dv: "unat (e3 div 10000) = unat n div 10 ^ 16"
    by (simp add: unat_div_distrib u flip: div_mult2_eq)
  have b5: "put_dec_full4 (put_dec_full4 ?b3 (e3 mod 10000)) (e3 div 10000) = buf @ low_digits 20 (unat n)"
    using low_digits_add [of 16 4 "unat n"] N
    by (subst put_dec_full4_eq) (simp_all only: b4 dv, simp_all add: less_mult_imp_div_less)
  have z3: "e3 = 0 \<Longrightarrow> unat n < 10 ^ 12" using u(4) by (auto simp: div_eq_0_iff)
  have z4: "e3 div 10000 = 0 \<Longrightarrow> unat n < 10 ^ 16" using dv by (auto simp: div_eq_0_iff)
  show ?thesis
    unfolding eq b5 unfolding b4 unfolding b3
    using strip_low_digits [OF pos] z3 z4 N by auto
qed

text \<open>
  The decimal conversion is exact: for every 64-bit value \<open>put_dec\<close> appends the decimal
  digits of the value, least significant first, with no leading zero, although it never
  divides by ten.
\<close>

theorem put_dec_decimal: "put_dec buf n = buf @ rev (fmt_u (unat n))"
  by (rule put_dec_eq)

text \<open>
  C30. The two conversion algorithms agree: the one that splits the value into 16-bit chunks
  and avoids 64-bit division writes the same text as the generic one for all \<open>2\<^sup>64\<close> values.
\<close>

theorem put_dec_algorithms_agree: "put_dec_nodiv buf n = put_dec buf n"
  by (simp add: put_dec_nodiv_eq put_dec_eq)

end
