(* ===== verification/Vsprintf.thy ===== *)
theory Vsprintf
  imports Vsprintf_Dec
begin

text \<open>
  The formatter of \<^verbatim>\<open>strace/vsprintf.c\<close>: \<open>format_decode\<close>, \<open>number\<close>, \<open>string\<close>,
  \<open>pointer\<close>, \<open>kernel_vsnprintf\<close> and \<open>strace_vfprintf\<close>. The output buffer is a list of
  its \<open>size\<close> characters together with the offset of the write pointer; a write that the code does
  not guard is an error (\<open>OutOfBounds\<close>) outside the list. A \<open>va_list\<close> is the list of the
  arguments still to be fetched; fetching a missing argument or one of another type, which
  C leaves undefined, is the error \<open>BadVaArg\<close>.
\<close>

datatype format_type =
    FORMAT_TYPE_NONE
  | FORMAT_TYPE_WIDTH
  | FORMAT_TYPE_PRECISION
  | FORMAT_TYPE_CHAR
  | FORMAT_TYPE_STR
  | FORMAT_TYPE_PTR
  | FORMAT_TYPE_PERCENT_CHAR
  | FORMAT_TYPE_INVALID
  | FORMAT_TYPE_LONG_LONG
  | FORMAT_TYPE_ULONG
  | FORMAT_TYPE_LONG
  | FORMAT_TYPE_UINT
  | FORMAT_TYPE_INT

record printf_spec =
  spec_type :: format_type
  spec_flags :: "8 word"
  spec_base :: nat
  spec_qualifier :: char
  field_width :: int
  precision :: int

abbreviation "ZEROPAD \<equiv> (1 :: 8 word)"
abbreviation "SIGN \<equiv> (2 :: 8 word)"
abbreviation "LEFT \<equiv> (16 :: 8 word)"
abbreviation "SPECIAL \<equiv> (64 :: 8 word)"

definition spec_has :: "printf_spec \<Rightarrow> 8 word \<Rightarrow> bool" where
  "spec_has spec f \<longleftrightarrow> spec_flags spec AND f \<noteq> 0"

text \<open>The format string ends at its NUL; \<open>cur\<close> is \<^verbatim>\<open>*fmt\<close>.\<close>

definition cur :: "string \<Rightarrow> char" where
  "cur fmt = (case fmt of [] \<Rightarrow> CHR 0x00 | c # _ \<Rightarrow> c)"

definition is_digit :: "char \<Rightarrow> bool" where
  "is_digit c \<longleftrightarrow> (48 :: nat) \<le> of_char c \<and> of_char c \<le> (57 :: nat)"

fun skip_atoi :: "string \<Rightarrow> int \<Rightarrow> int \<times> string" where
  "skip_atoi [] i = (i, [])"
| "skip_atoi (c # cs) i =
     (if is_digit c then skip_atoi cs (i * 10 + int (of_char c) - 48) else (i, c # cs))"

subsection \<open>Decoding of the format\<close>

text \<open>
  \<open>format_decode\<close> returns the rest of the format string in place of the number of characters
  read. Its parts are the code after the labels \<open>qualifier\<close> and \<open>precision\<close> and the
  flag loop (entered behind the percent sign).
\<close>

definition decode_qualifier :: "string \<Rightarrow> printf_spec \<Rightarrow> string \<times> printf_spec" where
  "decode_qualifier fmt spec =
    (let (fmt, q) = (if cur fmt = CHR ''l'' then
                       (let fmt = tl fmt in
                        if cur fmt = CHR ''l'' then (tl fmt, CHR ''L'') else (fmt, CHR ''l''))
                     else (fmt, CHR 0xFF));
         spec = spec\<lparr>spec_qualifier := q, spec_base := 10\<rparr>;
         integer = (\<lambda>spec. (tl fmt, spec\<lparr>spec_type :=
            (if q = CHR ''L'' then FORMAT_TYPE_LONG_LONG
             else if q = CHR ''l'' then
               (if spec_has spec SIGN then FORMAT_TYPE_LONG else FORMAT_TYPE_ULONG)
             else (if spec_has spec SIGN then FORMAT_TYPE_INT else FORMAT_TYPE_UINT))\<rparr>))
     in if cur fmt = CHR ''c'' then (tl fmt, spec\<lparr>spec_type := FORMAT_TYPE_CHAR\<rparr>)
        else if cur fmt = CHR ''s'' then (tl fmt, spec\<lparr>spec_type := FORMAT_TYPE_STR\<rparr>)
        else if cur fmt = CHR ''p'' then (tl fmt, spec\<lparr>spec_type := FORMAT_TYPE_PTR\<rparr>)
        else if cur fmt = CHR ''%'' then (tl fmt, spec\<lparr>spec_type := FORMAT_TYPE_PERCENT_CHAR\<rparr>)
        else if cur fmt = CHR ''o'' then integer (spec\<lparr>spec_base := 8\<rparr>)
        else if cur fmt = CHR ''x'' \<or> cur fmt = CHR ''X'' then integer (spec\<lparr>spec_base := 16\<rparr>)
        else if cur fmt = CHR ''d'' \<or> cur fmt = CHR ''i''
          then integer (spec\<lparr>spec_flags := spec_flags spec OR SIGN\<rparr>)
        else if cur fmt = CHR ''u'' then integer spec
        else (fmt, spec\<lparr>spec_type := FORMAT_TYPE_INVALID\<rparr>))"

definition decode_precision :: "string \<Rightarrow> printf_spec \<Rightarrow> string \<times> printf_spec" where
  "decode_precision fmt spec =
    (let spec = spec\<lparr>precision := -1\<rparr> in
     if cur fmt = CHR ''.'' then
       (let fmt = tl fmt in
        if is_digit (cur fmt) then
          (case skip_atoi fmt 0 of (n, fmt) \<Rightarrow> decode_qualifier fmt (spec\<lparr>precision := n\<rparr>))
        else if cur fmt = CHR ''*'' then (tl fmt, spec\<lparr>spec_type := FORMAT_TYPE_PRECISION\<rparr>)
        else decode_qualifier fmt spec)
     else decode_qualifier fmt spec)"

fun decode_flags :: "string \<Rightarrow> 8 word \<Rightarrow> string \<times> 8 word" where
  "decode_flags [] fl = ([], fl)"
| "decode_flags (c # cs) fl =
     (if c = CHR ''-'' then decode_flags cs (fl OR LEFT)
      else if c = CHR ''#'' then decode_flags cs (fl OR SPECIAL)
      else if c = CHR ''0'' then decode_flags cs (fl OR ZEROPAD)
      else (c # cs, fl))"

definition format_decode :: "string \<Rightarrow> printf_spec \<Rightarrow> string \<times> printf_spec" where
  "format_decode fmt spec =
    (if spec_type spec = FORMAT_TYPE_WIDTH then
       (let spec = (if field_width spec < 0
                    then spec\<lparr>field_width := - field_width spec, spec_flags := spec_flags spec OR LEFT\<rparr>
                    else spec)
        in decode_precision fmt (spec\<lparr>spec_type := FORMAT_TYPE_NONE\<rparr>))
     else if spec_type spec = FORMAT_TYPE_PRECISION then
       (let spec = (if precision spec < 0 then spec\<lparr>precision := 0\<rparr> else spec)
        in decode_qualifier fmt (spec\<lparr>spec_type := FORMAT_TYPE_NONE\<rparr>))
     else
       (let spec = spec\<lparr>spec_type := FORMAT_TYPE_NONE\<rparr>;
            rest = dropWhile (\<lambda>c. c \<noteq> CHR ''%'') fmt
        in if rest = [] \<or> rest \<noteq> fmt then (rest, spec)
           else (case decode_flags (tl fmt) 0 of (fmt, fl) \<Rightarrow>
             (let spec = spec\<lparr>spec_flags := fl, field_width := -1\<rparr> in
              if is_digit (cur fmt) then
                (case skip_atoi fmt 0 of (n, fmt) \<Rightarrow> decode_precision fmt (spec\<lparr>field_width := n\<rparr>))
              else if cur fmt = CHR ''*'' then (tl fmt, spec\<lparr>spec_type := FORMAT_TYPE_WIDTH\<rparr>)
              else decode_precision fmt spec))))"

subsection \<open>Writing to the buffer\<close>

text \<open>\<open>(mem, str)\<close>: the characters of \<^verbatim>\<open>buf[0..size)\<close> and the offset \<^verbatim>\<open>str - buf\<close>.\<close>

type_synonym obuf = "string \<times> nat"

text \<open>\<^verbatim>\<open>*buf = c; ++buf\<close>, and the same guarded by \<^verbatim>\<open>if (str < end)\<close>.\<close>

fun poke :: "char \<Rightarrow> obuf \<Rightarrow> fault + obuf" where
  "poke c (mem, n) = (if n < length mem then Inr (mem[n := c], Suc n) else Inl OutOfBounds)"

fun poke_checked :: "char \<Rightarrow> obuf \<Rightarrow> obuf" where
  "poke_checked c (mem, n) = ((if n < length mem then mem[n := c] else mem), Suc n)"

fun pokes :: "string \<Rightarrow> obuf \<Rightarrow> fault + obuf" where
  "pokes [] b = Inr b"
| "pokes (c # cs) b = sbind (poke c b) (pokes cs)"

fun pokes_checked :: "string \<Rightarrow> obuf \<Rightarrow> obuf" where
  "pokes_checked [] b = b"
| "pokes_checked (c # cs) b = pokes_checked cs (poke_checked c b)"

text \<open>
  The digits of \<open>num\<close> in reverse, as \<open>number\<close> collects them in \<open>tmp\<close>: the loop of the
  base 8 and 16 branch takes the low bits and shifts.
\<close>

function shift_digits :: "nat \<Rightarrow> 64 word \<Rightarrow> string" where
  "shift_digits base num =
     (let shift = (if base = 16 then 4 else 3);
          d = digit_char (unat ((ucast num :: 8 word) AND of_nat (base - 1)));
          num' = drop_bit shift num
      in if num' = 0 then [d] else d # shift_digits base num')"
  by pat_completeness auto
termination
proof (relation "measure (\<lambda>(base, num). unat num)")
  fix base :: nat and num :: "64 word" and s d num'
  assume s: "s = (if base = 16 then 4 else 3 :: nat)" and n: "num' = drop_bit s num" "num' \<noteq> 0"
  have "num \<noteq> 0" using n by auto
  then have "0 < unat num" by (simp add: unat_gt_0)
  moreover have "unat num' = unat num div 2 ^ s"
    unfolding n(1) by (subst unat_drop_bit_eq) (simp only: drop_bit_eq_div)
  ultimately show "((base, num'), base, num) \<in> measure (\<lambda>(base, num). unat num)"
    by (auto simp: s split: if_splits)
qed simp

declare shift_digits.simps [simp del]

definition number_digits :: "nat \<Rightarrow> 64 word \<Rightarrow> string" where
  "number_digits base num =
     (if unat num < base then [digit_char (unat num)]
      else if base \<noteq> 10 then shift_digits base num
      else put_dec [] num)"

definition number :: "obuf \<Rightarrow> 64 word \<Rightarrow> printf_spec \<Rightarrow> fault + obuf" where
  "number buf num spec =
    (let need_pfx = spec_has spec SPECIAL \<and> spec_base spec \<noteq> 10;
         i = (if 28 < field_width spec then field_width spec else 28);
         avail = int (length (fst buf)) - int (snd buf)
     in if avail \<le> i then Inr (fst buf, snd buf + nat i) else
     let neg = spec_has spec SIGN \<and> sint num < 0;
         width = field_width spec - (if neg then 1 else 0);
         num = (if neg then - num else num);
         width = (if need_pfx then width - 1 - (if spec_base spec = 16 then 1 else 0) else width);
         tmp = number_digits (spec_base spec) num;
         width = width - int (length tmp);
         blank = (if \<not> spec_has spec (ZEROPAD + LEFT) then nat width else 0);
         width = (if \<not> spec_has spec (ZEROPAD + LEFT) then min width 0 - 1 else width)
     in sbind (pokes (replicate blank CHR '' '') buf) (\<lambda>buf.
        sbind (pokes (if neg then ''-'' else []) buf) (\<lambda>buf.
        sbind (pokes (if need_pfx then (if spec_base spec = 16 then ''0x'' else ''0'') else []) buf) (\<lambda>buf.
        let pad = (if \<not> spec_has spec LEFT then nat width else 0);
            width = (if \<not> spec_has spec LEFT then min width 0 - 1 else width)
        in sbind (pokes (replicate pad (if spec_has spec ZEROPAD then CHR ''0'' else CHR '' '')) buf) (\<lambda>buf.
        sbind (pokes (rev tmp) buf) (\<lambda>buf.
        pokes (replicate (nat width) CHR '' '') buf))))))"

text \<open>A null \<open>char *\<close> argument is \<open>None\<close>.\<close>

definition string_conv :: "obuf \<Rightarrow> string option \<Rightarrow> printf_spec \<Rightarrow> fault + obuf" where
  "string_conv buf s spec =
    (let s = (case s of None \<Rightarrow> ''(null)'' | Some s \<Rightarrow> s);
         len = (if precision spec < 0 then length s else min (length s) (nat (precision spec)));
         i = max (int len) (field_width spec);
         avail = int (length (fst buf)) - int (snd buf)
     in if avail \<le> i then Inr (fst buf, snd buf + nat i) else
     let pad = (if \<not> spec_has spec LEFT then nat (field_width spec - int len) else 0);
         width = (if \<not> spec_has spec LEFT then min (field_width spec) (int len) - 1 else field_width spec)
     in sbind (pokes (replicate pad CHR '' '') buf) (\<lambda>buf.
        sbind (pokes (take len s) buf) (\<lambda>buf.
        pokes (replicate (nat (width - int len)) CHR '' '') buf)))"

definition pointer :: "obuf \<Rightarrow> 64 word \<Rightarrow> printf_spec \<Rightarrow> fault + obuf" where
  "pointer buf p spec =
    (let spec = (if field_width spec = -1
                 then spec\<lparr>field_width := 16, spec_flags := spec_flags spec OR ZEROPAD\<rparr> else spec)
     in number buf p (spec\<lparr>spec_base := 16\<rparr>))"

definition char_conv :: "obuf \<Rightarrow> char \<Rightarrow> printf_spec \<Rightarrow> obuf" where
  "char_conv buf c spec =
    (let pad = (if \<not> spec_has spec LEFT then nat (field_width spec - 1) else 0);
         width = (if \<not> spec_has spec LEFT then min (field_width spec) 1 - 1 else field_width spec)
     in pokes_checked (replicate pad CHR '' '' @ [c] @ replicate (nat (width - 1)) CHR '' '') buf)"

subsection \<open>The formatting loop\<close>

datatype va = VInt c_int | VLong c_long | VStr "string option" | VPtr c_long

text \<open>
  What one turn of the loop of \<open>kernel_vsnprintf\<close> writes; the argument is fetched with
  \<open>va_arg\<close> and converted to \<open>unsigned long long\<close> as its type says.
\<close>

datatype piece =
    PNothing
  | PText string
  | PChar char printf_spec
  | PStr "string option" printf_spec
  | PPtr c_long printf_spec
  | PNum c_long printf_spec

fun fetch_piece :: "string \<Rightarrow> printf_spec \<Rightarrow> va list \<Rightarrow> fault + piece \<times> printf_spec \<times> va list" where
  "fetch_piece txt spec args =
    (case spec_type spec of
       FORMAT_TYPE_NONE \<Rightarrow> Inr (PText txt, spec, args)
     | FORMAT_TYPE_WIDTH \<Rightarrow>
         (case args of VInt w # args \<Rightarrow> Inr (PNothing, spec\<lparr>field_width := sint w\<rparr>, args)
                     | _ \<Rightarrow> Inl BadVaArg)
     | FORMAT_TYPE_PRECISION \<Rightarrow>
         (case args of VInt w # args \<Rightarrow> Inr (PNothing, spec\<lparr>precision := sint w\<rparr>, args)
                     | _ \<Rightarrow> Inl BadVaArg)
     | FORMAT_TYPE_CHAR \<Rightarrow>
         (case args of VInt w # args \<Rightarrow> Inr (PChar (char_of (unat w)) spec, spec, args)
                     | _ \<Rightarrow> Inl BadVaArg)
     | FORMAT_TYPE_STR \<Rightarrow>
         (case args of VStr s # args \<Rightarrow> Inr (PStr s spec, spec, args) | _ \<Rightarrow> Inl BadVaArg)
     | FORMAT_TYPE_PTR \<Rightarrow>
         (case args of VPtr p # args \<Rightarrow> Inr (PPtr p spec, spec, args) | _ \<Rightarrow> Inl BadVaArg)
     | FORMAT_TYPE_PERCENT_CHAR \<Rightarrow> Inr (PText ''%'', spec, args)
     | FORMAT_TYPE_INVALID \<Rightarrow> Inr (PText ''%'', spec, args)
     | FORMAT_TYPE_INT \<Rightarrow>
         (case args of VInt w # args \<Rightarrow> Inr (PNum (scast w) spec, spec, args) | _ \<Rightarrow> Inl BadVaArg)
     | FORMAT_TYPE_UINT \<Rightarrow>
         (case args of VInt w # args \<Rightarrow> Inr (PNum (ucast w) spec, spec, args) | _ \<Rightarrow> Inl BadVaArg)
     | _ \<Rightarrow>
         (case args of VLong w # args \<Rightarrow> Inr (PNum w spec, spec, args) | _ \<Rightarrow> Inl BadVaArg))"

fun emit :: "piece \<Rightarrow> obuf \<Rightarrow> fault + obuf" where
  "emit PNothing buf = Inr buf"
| "emit (PText t) buf = Inr (pokes_checked t buf)"
| "emit (PChar c spec) buf = Inr (char_conv buf c spec)"
| "emit (PStr s spec) buf = string_conv buf s spec"
| "emit (PPtr p spec) buf = pointer buf p spec"
| "emit (PNum n spec) buf = number buf n spec"

text \<open>
  Termination: a turn that reads no character of the format can only follow a star (its
  conversion character is invalid), so the loop cannot stay there.
\<close>

definition decode_measure :: "string \<Rightarrow> printf_spec \<Rightarrow> nat" where
  "decode_measure fmt spec = 2 * length fmt +
     (if spec_type spec = FORMAT_TYPE_WIDTH \<or> spec_type spec = FORMAT_TYPE_PRECISION then 1 else 0)"

lemma length_tl_cur: "cur fmt \<noteq> CHR 0x00 \<Longrightarrow> length (tl fmt) < length fmt"
  by (cases fmt) (simp_all add: cur_def)

lemma skip_atoi_le: "skip_atoi fmt i = (n, rest) \<Longrightarrow> length rest \<le> length fmt"
  by (induction fmt i rule: skip_atoi.induct) (auto split: if_splits)

lemma decode_flags_le: "decode_flags fmt fl = (rest, fl') \<Longrightarrow> length rest \<le> length fmt"
  by (induction fmt fl rule: decode_flags.induct) (auto split: if_splits)

lemma decode_qualifier_measure:
  assumes "decode_qualifier fmt spec = (rest, spec')" and "length fmt \<le> n"
  shows "decode_measure rest spec' \<le> 2 * n \<and> spec_type spec' \<noteq> FORMAT_TYPE_NONE"
proof -
  have l: "length (tl (x :: string)) \<le> length x" for x by simp
  note l' = l [of fmt] l [of "tl fmt"] l [of "tl (tl fmt)"]
  show ?thesis
    using assms l' by (auto simp: decode_qualifier_def decode_measure_def Let_def split: if_splits)
qed

lemma decode_precision_measure:
  assumes "decode_precision fmt spec = (rest, spec')" and "length fmt \<le> n"
  shows "decode_measure rest spec' \<le> 2 * n"
proof (cases "cur fmt = CHR ''.''")
  case True
  then have lt: "length (tl fmt) < length fmt" by (intro length_tl_cur) simp
  show ?thesis
  proof (cases "is_digit (cur (tl fmt))")
    case d: True
    obtain k fmt' where s: "skip_atoi (tl fmt) 0 = (k, fmt')" by fastforce
    have "length fmt' \<le> n" using skip_atoi_le [OF s] lt assms(2) by simp
    with assms(1) True d s show ?thesis
      by (auto simp: decode_precision_def Let_def dest!: decode_qualifier_measure)
  next
    case False
    with assms True lt show ?thesis
      by (auto simp: decode_precision_def Let_def decode_measure_def split: if_splits
          dest: decode_qualifier_measure [where n = n, unfolded decode_measure_def])
  qed
next
  case False
  with assms show ?thesis
    by (auto simp: decode_precision_def Let_def dest: decode_qualifier_measure)
qed

lemma decode_measure_type:
  "spec_type spec = FORMAT_TYPE_WIDTH \<or> spec_type spec = FORMAT_TYPE_PRECISION \<Longrightarrow>
     decode_measure fmt spec = Suc (2 * length fmt)"
  by (auto simp: decode_measure_def)

lemma length_dropWhile_eq: "length (dropWhile P xs) = length xs \<Longrightarrow> dropWhile P xs = xs"
  using length_dropWhile_le [of P "tl xs"] by (cases xs) (auto split: if_splits)

lemma format_decode_measure:
  assumes "format_decode fmt spec = (rest, spec')" and "fmt \<noteq> []"
  shows "decode_measure rest spec' < decode_measure fmt spec"
proof -
  consider (w) "spec_type spec = FORMAT_TYPE_WIDTH" | (p) "spec_type spec = FORMAT_TYPE_PRECISION"
    | (o) "spec_type spec \<noteq> FORMAT_TYPE_WIDTH" "spec_type spec \<noteq> FORMAT_TYPE_PRECISION" by blast
  then show ?thesis
  proof cases
    case w
    with assms(1) have "decode_measure rest spec' \<le> 2 * length fmt"
      by (auto simp: format_decode_def Let_def dest: decode_precision_measure [where n = "length fmt"])
    with w show ?thesis by (simp add: decode_measure_type)
  next
    case p
    with assms(1) have "decode_measure rest spec' \<le> 2 * length fmt"
      by (auto simp: format_decode_def Let_def dest: decode_qualifier_measure [where n = "length fmt"])
    with p show ?thesis by (simp add: decode_measure_type)
  next
    case o
    then have m: "decode_measure fmt spec = 2 * length fmt" by (simp add: decode_measure_def)
    let ?r = "dropWhile (\<lambda>c. c \<noteq> CHR ''%'') fmt"
    show ?thesis
    proof (cases "?r = [] \<or> ?r \<noteq> fmt")
      case True
      have "length ?r \<le> length fmt" by (rule length_dropWhile_le)
      moreover have "length ?r \<noteq> length fmt"
        using True assms(2) length_dropWhile_eq by fastforce
      ultimately show ?thesis using True o assms(1) m
        by (auto simp: format_decode_def Let_def decode_measure_def)
    next
      case False
      obtain fmt1 fl where f: "decode_flags (tl fmt) 0 = (fmt1, fl)" by fastforce
      have l1: "length fmt1 \<le> length fmt - 1" using decode_flags_le [OF f] by simp
      let ?s = "spec\<lparr>spec_type := FORMAT_TYPE_NONE, spec_flags := fl, field_width := -1\<rparr>"
      obtain k fmt2 where s: "skip_atoi fmt1 0 = (k, fmt2)" by fastforce
      have l2: "length fmt2 \<le> length fmt - 1" using skip_atoi_le [OF s] l1 by simp
      have fmt0: "0 < length fmt" using assms(2) by simp
      consider "is_digit (cur fmt1)" "decode_precision fmt2 (?s\<lparr>field_width := k\<rparr>) = (rest, spec')"
        | "cur fmt1 = CHR ''*''" "rest = tl fmt1"
        | "decode_precision fmt1 ?s = (rest, spec')"
        using assms(1) o False f s by (auto simp: format_decode_def Let_def split: if_splits)
      then show ?thesis
      proof cases
        case 1
        then show ?thesis using decode_precision_measure [OF 1(2) l2] m fmt0 by linarith
      next
        case 2
        then have "length (tl fmt1) < length fmt1" by (intro length_tl_cur) simp
        moreover have "decode_measure rest spec' \<le> 2 * length (tl fmt1) + 1"
          using 2 by (simp add: decode_measure_def)
        ultimately show ?thesis using l1 m fmt0 by linarith
      next
        case 3
        then show ?thesis using decode_precision_measure [OF 3 l1] m fmt0 by linarith
      qed
    qed
  qed
qed

lemma fetch_piece_measure:
  "fetch_piece txt spec args = Inr (p, spec', args') \<Longrightarrow> decode_measure fmt spec' = decode_measure fmt spec"
  by (auto simp: decode_measure_def split: format_type.splits list.splits va.splits)

function kernel_vsnprintf_loop ::
  "string \<Rightarrow> printf_spec \<Rightarrow> va list \<Rightarrow> obuf \<Rightarrow> fault + obuf" where
  "kernel_vsnprintf_loop fmt spec args buf =
    (if fmt = [] then Inr buf
     else (case format_decode fmt spec of (rest, spec1) \<Rightarrow>
       sbind (fetch_piece (take (length fmt - length rest) fmt) spec1 args) (\<lambda>(p, spec2, args2).
       sbind (emit p buf) (kernel_vsnprintf_loop rest spec2 args2))))"
  by pat_completeness auto
termination
proof (relation "measure (\<lambda>(fmt, spec, args, buf). decode_measure fmt spec)")
  fix fmt spec args buf rest spec1 p spec2 args2 z buf2
  fix pz :: "piece \<times> printf_spec \<times> va list"
  assume "fmt \<noteq> []" and d: "(rest, spec1) = format_decode fmt spec"
    and "fetch_piece (take (length fmt - length rest) fmt) spec1 args = Inr pz"
    and "(p, z) = pz" and "(spec2, args2) = z"
  then have f: "fetch_piece (take (length fmt - length rest) fmt) spec1 args = Inr (p, spec2, args2)"
    by simp
  from format_decode_measure [OF d [symmetric] \<open>fmt \<noteq> []\<close>] fetch_piece_measure [OF f, of rest]
  show "((rest, spec2, args2, buf2), fmt, spec, args, buf)
      \<in> measure (\<lambda>(fmt, spec, args, buf). decode_measure fmt spec)" by simp
qed simp

declare kernel_vsnprintf_loop.simps [simp del]

definition spec_zero :: printf_spec where
  "spec_zero = \<lparr>spec_type = FORMAT_TYPE_NONE, spec_flags = 0, spec_base = 0,
     spec_qualifier = CHR 0x00, field_width = 0, precision = 0\<rparr>"

text \<open>The buffer afterwards (its NUL written if there is room) and the returned length.\<close>

definition kernel_vsnprintf :: "string \<Rightarrow> string \<Rightarrow> va list \<Rightarrow> fault + string \<times> nat" where
  "kernel_vsnprintf buf fmt args =
     sbind (kernel_vsnprintf_loop fmt spec_zero args (buf, 0))
       (\<lambda>(mem, n). Inr (if n < length mem then mem[n := CHR 0x00] else mem, n))"

text \<open>
  \<open>strace_vfprintf\<close>: the static buffer (its length is \<open>buflen\<close>; NULL and 0 at first) is
  formatted into, and again into a larger one if the text did not fit. \<open>fresh\<close> is what
  \<open>malloc\<close> returns memory with. The result is the new buffer, the text given to \<open>fputs\<close>
  (it ends at the first NUL) and the returned count.
\<close>

definition fputs_text :: "string \<Rightarrow> string" where
  "fputs_text buf = takeWhile (\<lambda>c. c \<noteq> CHR 0x00) buf"

definition strace_vfprintf ::
  "(nat \<Rightarrow> char) \<Rightarrow> string \<Rightarrow> string \<Rightarrow> va list \<Rightarrow> fault + string \<times> string \<times> nat" where
  "strace_vfprintf fresh buf fmt args =
     sbind (kernel_vsnprintf buf fmt args) (\<lambda>(buf1, len).
       if len \<ge> length buf then
         sbind (kernel_vsnprintf (map fresh [0..<len + 256]) fmt args) (\<lambda>(buf2, _).
           Inr (buf2, fputs_text buf2, len))
       else Inr (buf1, fputs_text buf1, len))"

subsection \<open>The text a format describes\<close>

text \<open>
  Reference definition: the text of each conversion as ISO C describes it (sign, prefix,
  digits, padding to the field width), and of a whole format.
\<close>

definition number_text :: "64 word \<Rightarrow> printf_spec \<Rightarrow> string" where
  "number_text num spec =
    (let neg = spec_has spec SIGN \<and> sint num < 0;
         sign = (if neg then ''-'' else []);
         pfx = (if spec_has spec SPECIAL \<and> spec_base spec \<noteq> 10
                then (if spec_base spec = 16 then ''0x'' else ''0'') else []);
         ds = fmt_base (spec_base spec) (unat (if neg then - num else num));
         w = nat (field_width spec)
     in if spec_has spec LEFT then pad_right w (sign @ pfx @ ds)
        else if spec_has spec ZEROPAD then
          sign @ pfx @ pad_left (w - length sign - length pfx) CHR ''0'' ds
        else pad_left w CHR '' '' (sign @ pfx @ ds))"

definition string_text :: "string option \<Rightarrow> printf_spec \<Rightarrow> string" where
  "string_text s spec =
    (let s = (case s of None \<Rightarrow> ''(null)'' | Some s \<Rightarrow> s);
         s = (if precision spec < 0 then s else take (nat (precision spec)) s)
     in if spec_has spec LEFT then pad_right (nat (field_width spec)) s
        else pad_left (nat (field_width spec)) CHR '' '' s)"

fun piece_text :: "piece \<Rightarrow> string" where
  "piece_text PNothing = []"
| "piece_text (PText t) = t"
| "piece_text (PChar c spec) =
     (if spec_has spec LEFT then pad_right (nat (field_width spec)) [c]
      else pad_left (nat (field_width spec)) CHR '' '' [c])"
| "piece_text (PStr s spec) = string_text s spec"
| "piece_text (PPtr p spec) =
     number_text p ((if field_width spec = -1
        then spec\<lparr>field_width := 16, spec_flags := spec_flags spec OR ZEROPAD\<rparr> else spec)
        \<lparr>spec_base := 16\<rparr>)"
| "piece_text (PNum n spec) = number_text n spec"

function format_text :: "string \<Rightarrow> printf_spec \<Rightarrow> va list \<Rightarrow> fault + string" where
  "format_text fmt spec args =
    (if fmt = [] then Inr []
     else (case format_decode fmt spec of (rest, spec1) \<Rightarrow>
       sbind (fetch_piece (take (length fmt - length rest) fmt) spec1 args) (\<lambda>(p, spec2, args2).
       sbind (format_text rest spec2 args2) (\<lambda>t. Inr (piece_text p @ t)))))"
  by pat_completeness auto
termination
proof (relation "measure (\<lambda>(fmt, spec, args). decode_measure fmt spec)")
  fix fmt spec args rest spec1 p spec2 args2 z
  fix pz :: "piece \<times> printf_spec \<times> va list"
  assume "fmt \<noteq> []" and d: "(rest, spec1) = format_decode fmt spec"
    and "fetch_piece (take (length fmt - length rest) fmt) spec1 args = Inr pz"
    and "(p, z) = pz" and "(spec2, args2) = z"
  then have f: "fetch_piece (take (length fmt - length rest) fmt) spec1 args = Inr (p, spec2, args2)"
    by simp
  from format_decode_measure [OF d [symmetric] \<open>fmt \<noteq> []\<close>] fetch_piece_measure [OF f, of rest]
  show "((rest, spec2, args2), fmt, spec, args)
      \<in> measure (\<lambda>(fmt, spec, args). decode_measure fmt spec)" by simp
qed simp

declare format_text.simps [simp del]

end
