(* ===== verification/Vsprintf_Correct.thy ===== *)
theory Vsprintf_Correct
  imports Vsprintf
begin

text \<open>
  Correctness of the formatter of \<^verbatim>\<open>src/strace/vsprintf.c\<close>. Every conversion is shown to
  store the characters of its reference text one after the other (\<open>number\<close> copies the digits
  from a scratch array in reverse, \<open>string\<close> and \<open>%c\<close> store under a bound check, literal text
  is copied with \<open>memcpy\<close>), \<open>writes f t\<close> says what one turn of the loop may do to a buffer of
  any size, and the sequence of turns is shown to compose. From this: no store outside the
  buffer, the printed text is the text of the format, and the returned count is exact when
  the text fits and an over-estimate otherwise.
\<close>

subsection \<open>Storing characters\<close>

lemma pokes_append: "pokes (xs @ ys) b = sbind (pokes xs b) (pokes ys)"
proof (induction xs arbitrary: b)
  case (Cons x xs)
  then show ?case by (cases "poke x b") simp_all
qed simp

text \<open>Overwriting \<open>mem\<close> from offset \<open>n\<close> with \<open>cs\<close>.\<close>

definition overwrite :: "string \<Rightarrow> nat \<Rightarrow> string \<Rightarrow> string" where
  "overwrite mem n cs = take n mem @ cs @ drop (n + length cs) mem"

lemma length_overwrite [simp]: "n + length cs \<le> length mem \<Longrightarrow> length (overwrite mem n cs) = length mem"
  by (simp add: overwrite_def)

lemma take_overwrite: "n + length cs \<le> length mem \<Longrightarrow> take (n + length cs) (overwrite mem n cs) = take n mem @ cs"
  by (simp add: overwrite_def)

lemma overwrite_Nil [simp]: "overwrite mem n [] = mem"
  by (simp add: overwrite_def)

lemma overwrite_Cons:
  "n < length mem \<Longrightarrow> overwrite (mem[n := c]) (Suc n) cs = overwrite mem n (c # cs)"
  by (simp add: overwrite_def take_Suc_conv_app_nth drop_update_cancel)

lemma pokes_fit:
  "n + length cs \<le> length mem \<Longrightarrow> pokes cs (mem, n) = Inr (overwrite mem n cs, n + length cs)"
proof (induction cs arbitrary: mem n)
  case (Cons c cs)
  then have "n < length mem" by simp
  with Cons show ?case by (simp add: overwrite_Cons)
qed simp

lemma pokes_checked_fit:
  "n + length cs \<le> length mem \<Longrightarrow> pokes_checked cs (mem, n) = (overwrite mem n cs, n + length cs)"
proof (induction cs arbitrary: mem n)
  case (Cons c cs)
  then have "n < length mem" by simp
  with Cons show ?case by (simp add: overwrite_Cons)
qed simp

lemma pokes_checked_any:
  "\<exists>mem'. pokes_checked cs (mem, n) = (mem', n + length cs) \<and> length mem' = length mem"
proof (induction cs arbitrary: mem n)
  case (Cons c cs)
  show ?case
    using Cons.IH [of "mem[n := c]" "Suc n"] Cons.IH [of mem "Suc n"] by simp
qed simp

lemma rev_fmt_base_step:
  "2 \<le> b \<Longrightarrow> rev (fmt_base b n) = digit_char (n mod b) # (if n div b = 0 then [] else rev (fmt_base b (n div b)))"
  by (cases "n < b") (simp_all add: fmt_base_def digs_small digs_step div_greater_zero_iff)

lemma low_bits: "unat ((ucast (num :: 64 word) :: 8 word) AND 7) = unat num mod 8"
    "unat ((ucast (num :: 64 word) :: 8 word) AND 15) = unat num mod 16"
proof -
  have m: "w AND 7 = take_bit 3 w" "w AND 15 = take_bit 4 w" for w :: "8 word"
    by (simp_all add: take_bit_eq_mask mask_eq_exp_minus_1)
  show "unat ((ucast num :: 8 word) AND 7) = unat num mod 8" "unat ((ucast num :: 8 word) AND 15) = unat num mod 16"
    unfolding m unsigned_take_bit_eq unsigned_ucast_eq take_bit_take_bit by (simp_all add: take_bit_eq_mod)
qed

lemma shift_digits_eq:
  "base = 8 \<or> base = 16 \<Longrightarrow> shift_digits base num = rev (fmt_base base (unat num))"
proof (induction base num rule: shift_digits.induct)
  case (1 base num)
  define s where "s = (if base = 16 then 4 else 3 :: nat)"
  have b: "2 ^ s = base" using "1.prems" by (auto simp: s_def)
  have d: "unat (drop_bit s num) = unat num div base"
    by (subst unat_drop_bit_eq) (simp add: drop_bit_eq_div b)
  have m: "unat ((ucast num :: 8 word) AND of_nat (base - 1)) = unat num mod base"
    using "1.prems" low_bits [of num] by auto
  have z: "drop_bit s num = 0 \<longleftrightarrow> unat num div base = 0"
    unfolding d [symmetric] by (simp add: unat_eq_zero)
  have "2 \<le> base" using "1.prems" by auto
  then have r: "rev (fmt_base base (unat num)) = digit_char (unat num mod base) #
      (if unat num div base = 0 then [] else rev (fmt_base base (unat num div base)))"
    by (rule rev_fmt_base_step)
  show ?case
    using "1.IH" [OF s_def refl refl] "1.prems"
    unfolding r shift_digits.simps [of base num] Let_def s_def [symmetric] m
    by (simp add: z flip: d)
qed

lemma number_digits_eq:
  assumes "base = 8 \<or> base = 10 \<or> base = 16"
  shows "number_digits base num = rev (fmt_base base (unat num))"
proof (cases "unat num < base")
  case True
  then show ?thesis by (simp add: number_digits_def fmt_base_def digs_small)
next
  case False
  with assms show ?thesis by (auto simp: number_digits_def shift_digits_eq put_dec_eq)
qed

lemma length_fmt_64:
  assumes "base = 8 \<or> base = 10 \<or> base = 16"
  shows "length (fmt_base base (unat (num :: 64 word))) \<le> 22"
proof -
  have "unat num < base ^ 22" using unat_lt64 [of num] assms by auto
  with assms show ?thesis by (auto simp: length_fmt_base intro!: length_digs_le)
qed


lemma pokes_sbind2: "sbind (pokes xs b) (\<lambda>b'. pokes ys b') = pokes (xs @ ys) b"
  by (simp add: pokes_append)

lemmas pokes_join = pokes_sbind2 pokes_append [symmetric]

text \<open>Field widths are C integers; these bring the padding counts to one form.\<close>

lemma nat_diff_int: "nat (w - int n) = nat w - n" "nat (w - 1 - int n) = nat w - Suc n"
  "nat (w - 2 - int n) = nat w - Suc (Suc n)" "nat (w - 3 - int n) = nat w - Suc (Suc (Suc n))"
  "nat (w - 1) = nat w - Suc 0"
  by linarith+

lemma number_pokes:
  assumes "spec_base spec = 8 \<or> spec_base spec = 10 \<or> spec_base spec = 16"
    and "int (length (fst buf)) - int (snd buf) > max 28 (field_width spec)"
  shows "number buf num spec = pokes (number_text num spec) buf"
proof -
  have zl: "spec_has spec (ZEROPAD + LEFT) \<longleftrightarrow> spec_has spec ZEROPAD \<or> spec_has spec LEFT"
  proof -
    have "ZEROPAD + LEFT = ZEROPAD OR LEFT" by simp
    then show ?thesis
      unfolding spec_has_def by (simp only: bit.conj_disj_distrib or_eq_0_iff) blast
  qed
  show ?thesis
    using assms(2)
    unfolding number_def Let_def number_digits_eq [OF assms(1)] zl
    by (cases "spec_has spec LEFT"; cases "spec_has spec ZEROPAD")
     (auto simp: pokes_join number_text_def Let_def pad_left_def pad_right_def nat_diff_int
       simp del: pokes.simps intro!: arg_cong [where f = "\<lambda>x. pokes x buf"])
qed

lemma length_number_text:
  assumes "spec_base spec = 8 \<or> spec_base spec = 10 \<or> spec_base spec = 16"
  shows "int (length (number_text num spec)) \<le> max 28 (field_width spec)"
proof -
  have "length (fmt_base (spec_base spec) (unat n)) \<le> 22" for n :: "64 word"
    by (rule length_fmt_64 [OF assms])
  from this [of num] this [of "- num"] show ?thesis
    by (auto simp: number_text_def Let_def pad_left_def pad_right_def)
qed


lemma string_conv_eq:
  "string_conv buf s spec =
     (if int (length (fst buf)) - int (snd buf) \<le> int (length (string_text s spec))
      then Inr (fst buf, snd buf + length (string_text s spec))
      else pokes (string_text s spec) buf)"
proof -
  define s' where "s' = (case s of None \<Rightarrow> ''(null)'' | Some s \<Rightarrow> s)"
  define len where "len = (if precision spec < 0 then length s' else min (length s') (nat (precision spec)))"
  have t: "string_text s spec = (if spec_has spec LEFT then pad_right (nat (field_width spec)) (take len s')
      else pad_left (nat (field_width spec)) CHR '' '' (take len s'))"
    by (simp add: string_text_def Let_def s'_def [symmetric] len_def take_all_iff min_def)
  have le: "len \<le> length s'" by (simp add: len_def)
  then have i: "max (int len) (field_width spec) = int (length (string_text s spec))"
    by (auto simp: t pad_left_def pad_right_def max_def)
  have w: "nat (int (length (string_text s spec))) = length (string_text s spec)" by simp
  show ?thesis
    unfolding string_conv_def Let_def s'_def [symmetric] len_def [symmetric] i w
    using le by (cases "spec_has spec LEFT")
      (simp_all add: pokes_join t pad_left_def pad_right_def nat_diff_int min_def del: pokes.simps)
qed

lemma char_conv_eq: "char_conv buf c spec = pokes_checked (piece_text (PChar c spec)) buf"
  by (auto simp: char_conv_def Let_def pad_left_def pad_right_def min_def nat_diff_int simp del: pokes_checked.simps
     intro!: arg_cong [where f = "\<lambda>x. pokes_checked x buf"])


subsection \<open>What a turn of the loop writes\<close>

text \<open>
  \<open>writes f t\<close>: the action \<open>f\<close> never writes outside the buffer and moves the pointer by
  at least the length of \<open>t\<close>; where the pointer stays inside the buffer, exactly \<open>t\<close> was
  written; and where it does not, \<open>f\<close> writes exactly \<open>t\<close> into any larger buffer that
  also has room for the first estimate.
\<close>

definition writes :: "(obuf \<Rightarrow> fault + obuf) \<Rightarrow> string \<Rightarrow> bool" where
  "writes f t \<longleftrightarrow> (\<forall>mem n. \<exists>mem' n'. f (mem, n) = Inr (mem', n') \<and> length mem' = length mem
     \<and> n + length t \<le> n'
     \<and> (n' < length mem \<longrightarrow> n' = n + length t \<and> take n' mem' = take n mem @ t)
     \<and> (\<forall>mem2 n2. length mem < length mem2 \<longrightarrow> n' < length mem2 \<longrightarrow> n2 \<le> n \<longrightarrow>
          (\<exists>mem2'. f (mem2, n2) = Inr (mem2', n2 + length t) \<and> length mem2' = length mem2
             \<and> take (n2 + length t) mem2' = take n2 mem2 @ t)))"

lemma writes_pokes_fit:
  "n2 + length t \<le> length mem2 \<Longrightarrow> \<exists>mem2'. pokes t (mem2, n2) = Inr (mem2', n2 + length t)
     \<and> length mem2' = length mem2 \<and> take (n2 + length t) mem2' = take n2 mem2 @ t"
  by (simp add: pokes_fit take_overwrite)

lemma writes_skip:
  assumes f: "\<And>buf. f buf = (if int (length (fst buf)) - int (snd buf) \<le> i
      then Inr (fst buf, snd buf + nat i) else pokes t buf)"
    and i: "int (length t) \<le> i"
  shows "writes f t"
  unfolding writes_def
proof (intro allI)
  fix mem :: string and n :: nat
  show "\<exists>mem' n'. f (mem, n) = Inr (mem', n') \<and> length mem' = length mem \<and> n + length t \<le> n'
     \<and> (n' < length mem \<longrightarrow> n' = n + length t \<and> take n' mem' = take n mem @ t)
     \<and> (\<forall>mem2 n2. length mem < length mem2 \<longrightarrow> n' < length mem2 \<longrightarrow> n2 \<le> n \<longrightarrow>
          (\<exists>mem2'. f (mem2, n2) = Inr (mem2', n2 + length t) \<and> length mem2' = length mem2
             \<and> take (n2 + length t) mem2' = take n2 mem2 @ t))"
  proof (cases "int (length mem) - int n \<le> i")
    case True
    then show ?thesis using i by (auto simp: f intro!: writes_pokes_fit)
  next
    case False
    then have fit: "n + length t \<le> length mem" using i by linarith
    show ?thesis
      using False i by (auto simp: f pokes_fit [OF fit] take_overwrite [OF fit] fit intro!: writes_pokes_fit)
  qed
qed

lemma writes_pokes_checked: "writes (\<lambda>b. Inr (pokes_checked t b)) t"
  unfolding writes_def
proof (intro allI)
  fix mem :: string and n :: nat
  obtain mem' where m: "pokes_checked t (mem, n) = (mem', n + length t)" "length mem' = length mem"
    using pokes_checked_any by blast
  have "n + length t < length mem \<Longrightarrow> take (n + length t) mem' = take n mem @ t"
    using m(1) pokes_checked_fit [of n t mem] take_overwrite [of n t mem] by simp
  then show "\<exists>mem' n'. Inr (pokes_checked t (mem, n)) = (Inr (mem', n') :: fault + obuf)
     \<and> length mem' = length mem \<and> n + length t \<le> n'
     \<and> (n' < length mem \<longrightarrow> n' = n + length t \<and> take n' mem' = take n mem @ t)
     \<and> (\<forall>mem2 n2. length mem < length mem2 \<longrightarrow> n' < length mem2 \<longrightarrow> n2 \<le> n \<longrightarrow>
          (\<exists>mem2'. Inr (pokes_checked t (mem2, n2)) = (Inr (mem2', n2 + length t) :: fault + obuf)
             \<and> length mem2' = length mem2 \<and> take (n2 + length t) mem2' = take n2 mem2 @ t))"
    using m by (auto simp: pokes_checked_fit take_overwrite)
qed

fun piece_ok :: "piece \<Rightarrow> bool" where
  "piece_ok (PNum n spec) \<longleftrightarrow> spec_base spec = 8 \<or> spec_base spec = 10 \<or> spec_base spec = 16"
| "piece_ok _ \<longleftrightarrow> True"

lemma writes_number:
  assumes "spec_base spec = 8 \<or> spec_base spec = 10 \<or> spec_base spec = 16"
  shows "writes (\<lambda>b. number b num spec) (number_text num spec)"
proof (rule writes_skip [where i = "max 28 (field_width spec)"])
  fix buf :: obuf
  let ?i = "max 28 (field_width spec)"
  show "number buf num spec = (if int (length (fst buf)) - int (snd buf) \<le> ?i
      then Inr (fst buf, snd buf + nat ?i) else pokes (number_text num spec) buf)"
  proof (cases "int (length (fst buf)) - int (snd buf) \<le> ?i")
    case True
    have i: "(if 28 < field_width spec then field_width spec else 28) = ?i" by simp
    show ?thesis unfolding number_def Let_def i using True by (simp only: if_True)
  next
    case False
    then have "number buf num spec = pokes (number_text num spec) buf"
      by (intro number_pokes [OF assms]) linarith
    with False show ?thesis by (simp only: if_False)
  qed
qed (rule length_number_text [OF assms])

lemma writes_emit: "piece_ok p \<Longrightarrow> writes (emit p) (piece_text p)"
proof (cases p)
  case PNothing
  then show ?thesis by (simp add: writes_def)
next
  case (PText t)
  have "emit p = (\<lambda>b. Inr (pokes_checked t b))" by (rule ext) (simp add: PText)
  then show ?thesis using writes_pokes_checked [of t] by (simp add: PText)
next
  case (PChar c spec)
  then have "emit p = (\<lambda>b. Inr (pokes_checked (piece_text p) b))"
    by (simp add: char_conv_eq fun_eq_iff del: piece_text.simps)
  then show ?thesis using writes_pokes_checked by simp
next
  case (PStr s spec)
  show ?thesis
    unfolding PStr by (rule writes_skip [where i = "int (length (string_text s spec))"])
      (simp_all add: string_conv_eq)
next
  case (PPtr q spec)
  have "emit p = (\<lambda>b. number b q ((if field_width spec = -1
        then spec\<lparr>field_width := 16, spec_flags := spec_flags spec OR ZEROPAD\<rparr> else spec)
        \<lparr>spec_base := 16\<rparr>))"
    by (rule ext) (simp add: PPtr pointer_def Let_def)
  then show ?thesis using writes_number [where num = q] by (simp add: PPtr)
next
  case (PNum n spec)
  assume "piece_ok p"
  moreover have "emit p = (\<lambda>b. number b n spec)" by (rule ext) (simp add: PNum)
  ultimately show ?thesis using writes_number [of spec n] by (simp add: PNum)
qed

subsection \<open>The loop\<close>

lemma decode_qualifier_base:
  "decode_qualifier fmt spec = (rest, spec') \<Longrightarrow>
     spec_base spec' = 8 \<or> spec_base spec' = 10 \<or> spec_base spec' = 16"
  by (auto simp: decode_qualifier_def Let_def split: if_splits)

lemma decode_precision_base:
  "decode_precision fmt spec = (rest, spec') \<Longrightarrow> spec_type spec' \<noteq> FORMAT_TYPE_PRECISION \<Longrightarrow>
     spec_base spec' = 8 \<or> spec_base spec' = 10 \<or> spec_base spec' = 16"
  by (auto simp: decode_precision_def Let_def split: if_splits prod.splits dest: decode_qualifier_base)

lemma format_decode_base:
  assumes "format_decode fmt spec = (rest, spec')"
    and "spec_type spec' \<notin> {FORMAT_TYPE_NONE, FORMAT_TYPE_WIDTH, FORMAT_TYPE_PRECISION}"
  shows "spec_base spec' = 8 \<or> spec_base spec' = 10 \<or> spec_base spec' = 16"
proof -
  have "(\<exists>f s. decode_precision f s = (rest, spec')) \<or> (\<exists>f s. decode_qualifier f s = (rest, spec'))"
    using assms by (auto simp: format_decode_def Let_def split: if_splits prod.splits)
  then show ?thesis using assms(2) decode_precision_base decode_qualifier_base by fastforce
qed

lemma fetch_piece_ok:
  assumes "format_decode fmt spec = (rest, spec1)" and "fetch_piece txt spec1 args = Inr (p, spec2, args2)"
  shows "piece_ok p"
  using assms(2) format_decode_base [OF assms(1)]
  by (cases "spec_type spec1") (auto split: list.splits va.splits)

text \<open>The loop as a whole writes the text of the format, and fails only where that is undefined.\<close>

lemma writesE:
  assumes "writes f t"
  obtains mem' n' where "f (mem, n) = Inr (mem', n')" "length mem' = length mem" "n + length t \<le> n'"
    "n' < length mem \<Longrightarrow> n' = n + length t \<and> take n' mem' = take n mem @ t"
    "\<And>mem2 n2. length mem < length mem2 \<Longrightarrow> n' < length mem2 \<Longrightarrow> n2 \<le> n \<Longrightarrow>
       \<exists>mem2'. f (mem2, n2) = Inr (mem2', n2 + length t) \<and> length mem2' = length mem2
             \<and> take (n2 + length t) mem2' = take n2 mem2 @ t"
proof -
  from assms have "\<exists>mem' n'. f (mem, n) = Inr (mem', n') \<and> length mem' = length mem
     \<and> n + length t \<le> n'
     \<and> (n' < length mem \<longrightarrow> n' = n + length t \<and> take n' mem' = take n mem @ t)
     \<and> (\<forall>mem2 n2. length mem < length mem2 \<longrightarrow> n' < length mem2 \<longrightarrow> n2 \<le> n \<longrightarrow>
          (\<exists>mem2'. f (mem2, n2) = Inr (mem2', n2 + length t) \<and> length mem2' = length mem2
             \<and> take (n2 + length t) mem2' = take n2 mem2 @ t))"
    unfolding writes_def by blast
  then show thesis using that by blast
qed

lemma writes_seq:
  assumes f: "writes f s" and g: "writes g t"
  shows "writes (\<lambda>b. sbind (f b) g) (s @ t)"
  unfolding writes_def
proof (intro allI)
  fix mem :: string and n :: nat
  obtain mem1 n1 where 1: "f (mem, n) = Inr (mem1, n1)" "length mem1 = length mem" "n + length s \<le> n1"
    "n1 < length mem \<Longrightarrow> n1 = n + length s \<and> take n1 mem1 = take n mem @ s"
    and big1: "\<And>mem2 n2. length mem < length mem2 \<Longrightarrow> n1 < length mem2 \<Longrightarrow> n2 \<le> n \<Longrightarrow>
       \<exists>mem2'. f (mem2, n2) = Inr (mem2', n2 + length s) \<and> length mem2' = length mem2
             \<and> take (n2 + length s) mem2' = take n2 mem2 @ s"
    by (rule writesE [OF f, of mem n]) blast
  obtain mem2 n2 where 2: "g (mem1, n1) = Inr (mem2, n2)" "length mem2 = length mem1" "n1 + length t \<le> n2"
    "n2 < length mem1 \<Longrightarrow> n2 = n1 + length t \<and> take n2 mem2 = take n1 mem1 @ t"
    and big2: "\<And>mem3 n3. length mem1 < length mem3 \<Longrightarrow> n2 < length mem3 \<Longrightarrow> n3 \<le> n1 \<Longrightarrow>
       \<exists>mem3'. g (mem3, n3) = Inr (mem3', n3 + length t) \<and> length mem3' = length mem3
             \<and> take (n3 + length t) mem3' = take n3 mem3 @ t"
    by (rule writesE [OF g, of mem1 n1]) blast
  have big: "\<exists>m'. sbind (f (m, k)) g = Inr (m', k + length (s @ t)) \<and> length m' = length m
      \<and> take (k + length (s @ t)) m' = take k m @ s @ t"
    if lt: "length mem < length m" "n2 < length m" "k \<le> n" for m k
  proof -
    from lt 2(3) obtain m1 where m1: "f (m, k) = Inr (m1, k + length s)" "length m1 = length m"
      "take (k + length s) m1 = take k m @ s"
      using big1 [of m k] by auto
    from lt 1(2,3) m1(2) obtain m2 where "g (m1, k + length s) = Inr (m2, k + length s + length t)"
      "length m2 = length m1" "take (k + length s + length t) m2 = take (k + length s) m1 @ t"
      using big2 [of m1 "k + length s"] by auto
    with m1 show ?thesis by (simp add: add.assoc)
  qed
  show "\<exists>mem' n'. sbind (f (mem, n)) g = Inr (mem', n') \<and> length mem' = length mem
     \<and> n + length (s @ t) \<le> n'
     \<and> (n' < length mem \<longrightarrow> n' = n + length (s @ t) \<and> take n' mem' = take n mem @ s @ t)
     \<and> (\<forall>m k. length mem < length m \<longrightarrow> n' < length m \<longrightarrow> k \<le> n \<longrightarrow>
          (\<exists>m'. sbind (f (m, k)) g = Inr (m', k + length (s @ t)) \<and> length m' = length m
             \<and> take (k + length (s @ t)) m' = take k m @ s @ t))"
    using 1 2 big by (intro exI [of _ mem2] exI [of _ n2]) auto
qed

lemma fetch_piece_error: "fetch_piece txt spec args = Inl e \<Longrightarrow> e = BadVaArg"
  by (cases "spec_type spec") (auto split: list.splits va.splits)

lemma loop_correct:
  "(case format_text fmt spec args of
      Inr t \<Rightarrow> writes (kernel_vsnprintf_loop fmt spec args) t
    | Inl e \<Rightarrow> \<forall>buf. kernel_vsnprintf_loop fmt spec args buf = Inl BadVaArg)"
proof (induction fmt spec args rule: format_text.induct)
  case (1 fmt spec args)
  show ?case
  proof (cases "fmt = []")
    case True
    moreover have "kernel_vsnprintf_loop [] spec args = Inr"
      by (rule ext) (simp add: kernel_vsnprintf_loop.simps)
    moreover have "format_text [] spec args = Inr []" by (simp add: format_text.simps)
    ultimately show ?thesis by (simp add: writes_def)
  next
    case False
    obtain rest spec1 where d: "format_decode fmt spec = (rest, spec1)" by fastforce
    let ?f = "fetch_piece (take (length fmt - length rest) fmt) spec1 args"
    show ?thesis
    proof (cases ?f)
      case (Inl e)
      then have "?f = Inl BadVaArg" using fetch_piece_error [OF Inl] by simp
      then show ?thesis
        using False d by (simp add: format_text.simps [of fmt] kernel_vsnprintf_loop.simps [of fmt]
            del: fetch_piece.simps)
    next
      case (Inr r)
      obtain p spec2 args2 where r: "r = (p, spec2, args2)" by (cases r)
      have w: "writes (emit p) (piece_text p)"
        using writes_emit fetch_piece_ok [OF d] Inr r by blast
      have loop: "kernel_vsnprintf_loop fmt spec args
          = (\<lambda>b. sbind (emit p b) (kernel_vsnprintf_loop rest spec2 args2))"
        using False d Inr r
        by (intro ext) (simp add: kernel_vsnprintf_loop.simps [of fmt] del: fetch_piece.simps)
      have ftext: "format_text fmt spec args
          = sbind (format_text rest spec2 args2) (\<lambda>t. Inr (piece_text p @ t))"
        using False d Inr r by (simp add: format_text.simps [of fmt] del: fetch_piece.simps)
      note IH = "1.IH" [OF False d [symmetric] Inr r [symmetric] refl]
      show ?thesis
      proof (cases "format_text rest spec2 args2")
        case (Inl e)
        have "sbind (emit p b) (kernel_vsnprintf_loop rest spec2 args2) = Inl BadVaArg" for b
          using IH Inl writesE [OF w, of "fst b" "snd b"] by (cases "emit p b") auto
        with Inl show ?thesis by (simp add: ftext loop)
      next
        case (Inr t)
        with IH have "writes (kernel_vsnprintf_loop rest spec2 args2) t" by simp
        with Inr w show ?thesis by (simp add: ftext loop writes_seq)
      qed
    qed
  qed
qed

subsection \<open>The formatter\<close>

lemma kernel_vsnprintf_cases:
  assumes "format_text fmt spec_zero args = Inr t"
  obtains mem' n' where "kernel_vsnprintf buf fmt args = Inr (mem', n')" "length mem' = length buf"
    "length t \<le> n'" "n' < length buf \<Longrightarrow> n' = length t \<and> take n' mem' = t \<and> mem' ! n' = CHR 0x00"
    "\<And>buf2. length buf < length buf2 \<Longrightarrow> n' < length buf2 \<Longrightarrow>
       \<exists>m2. kernel_vsnprintf buf2 fmt args = Inr (m2, length t) \<and> take (length t) m2 = t
         \<and> m2 ! length t = CHR 0x00 \<and> length m2 = length buf2"
proof -
  have w: "writes (kernel_vsnprintf_loop fmt spec_zero args) t"
    using loop_correct [of fmt spec_zero args] assms by simp
  obtain mem1 n1 where 1: "kernel_vsnprintf_loop fmt spec_zero args (buf, 0) = Inr (mem1, n1)"
    "length mem1 = length buf" "0 + length t \<le> n1"
    "n1 < length buf \<Longrightarrow> n1 = 0 + length t \<and> take n1 mem1 = take 0 buf @ t"
    and big: "\<And>mem2 n2. length buf < length mem2 \<Longrightarrow> n1 < length mem2 \<Longrightarrow> n2 \<le> 0 \<Longrightarrow>
       \<exists>mem2'. kernel_vsnprintf_loop fmt spec_zero args (mem2, n2) = Inr (mem2', n2 + length t)
         \<and> length mem2' = length mem2 \<and> take (n2 + length t) mem2' = take n2 mem2 @ t"
    by (rule writesE [OF w, of buf 0]) blast
  have k: "kernel_vsnprintf buf fmt args = Inr (if n1 < length mem1 then mem1[n1 := CHR 0x00] else mem1, n1)"
    using 1 by (simp add: kernel_vsnprintf_def)
  have b: "\<exists>m2. kernel_vsnprintf buf2 fmt args = Inr (m2, length t) \<and> take (length t) m2 = t
         \<and> m2 ! length t = CHR 0x00 \<and> length m2 = length buf2"
    if "length buf < length buf2" "n1 < length buf2" for buf2
  proof -
    from big [OF that, of 0] obtain m where m: "kernel_vsnprintf_loop fmt spec_zero args (buf2, 0) = Inr (m, length t)"
      "length m = length buf2" "take (length t) m = t" by auto
    with that 1(3) show ?thesis by (simp add: kernel_vsnprintf_def)
  qed
  show thesis by (rule that [OF k _ _ _ b]) (use 1 in auto)
qed

lemma fputs_text_prefix:
  "take n buf = t \<Longrightarrow> n = length t \<Longrightarrow> n < length buf \<Longrightarrow> buf ! n = CHR 0x00 \<Longrightarrow>
    fputs_text buf = fputs_text t"
proof -
  assume a: "take n buf = t" "n = length t" "n < length buf" "buf ! n = CHR 0x00"
  then have "buf = t @ CHR 0x00 # drop (Suc n) buf" by (metis id_take_nth_drop)
  moreover have "fputs_text (t @ CHR 0x00 # u) = fputs_text t" for u
    by (induction t) (simp_all add: fputs_text_def)
  ultimately show "fputs_text buf = fputs_text t" by (elim ssubst)
qed




text \<open>
  The count is not always exact: the length computed for the old buffer is returned even
  after the text was formatted again. With the buffer still NULL, \<open>printf("%d", 5)\<close> prints one
  character and returns 28, since \<open>number\<close> skips a pessimistic 28 characters if it has no room.
\<close>

theorem strace_vfprintf_overcounts:
  "map_sum id snd (strace_vfprintf (\<lambda>_. CHR 0x00) [] ''%d'' [VInt 5]) = Inr (''5'', 28)"
  by code_simp

text \<open>
  The formatter prefixes every \<open>%#lx\<close> with \<open>0x\<close>, zero included, where ISO C (and the libc
  \<open>vfprintf\<close> used without \<open>USE_CUSTOM_PRINTF\<close>) prints a bare \<open>0\<close>: the two builds agree exactly
  on the other values.
\<close>

theorem custom_printf_hex:
  "format_text ''%#lx'' spec_zero [VLong w] = Inr (''0x'' @ fmt_x (unat w))
   \<and> (format_text ''%#lx'' spec_zero [VLong w] = Inr (fmt_hx (unat w)) \<longleftrightarrow> w \<noteq> 0)"
proof -
  define spec where "spec = \<lparr>spec_type = FORMAT_TYPE_ULONG, spec_flags = SPECIAL, spec_base = 16,
      spec_qualifier = CHR ''l'', field_width = -1, precision = -1\<rparr>"
  have d: "format_decode ''%#lx'' spec_zero = ([], spec)"
    unfolding spec_def by code_simp
  have n: "format_text [] spec' args = Inr []" for spec' args
    by (simp add: format_text.simps)
  have fl: "\<not> spec_has spec SIGN" "\<not> spec_has spec LEFT" "\<not> spec_has spec ZEROPAD" "spec_has spec SPECIAL"
    unfolding spec_def by code_simp+
  have "number_text w spec = ''0x'' @ fmt_x (unat w)"
    by (simp add: number_text_def fl) (simp add: spec_def pad_left_def)
  then have t: "format_text ''%#lx'' spec_zero [VLong w] = Inr (''0x'' @ fmt_x (unat w))"
    by (simp add: format_text.simps d n) (simp add: spec_def n)
  then show ?thesis by (auto simp: fmt_hx_def unat_eq_zero)
qed

end
