(* ===== verification/Umove.thy ===== *)
theory Umove
  imports Prelude
begin

text \<open>
  Reading the tracee's memory: \<open>umoven\<close> and \<open>umovestr\<close> of \<^verbatim>\<open>src/strace/util.c\<close> (the x86_64
  build: 8-byte little-endian words). The kernel, that is \<open>process_vm_readv\<close> and
  \<open>ptrace(PTRACE_PEEKDATA)\<close> for the traced process, is a parameter; what the code relies on of it
  is \<open>honest\<close> (what is returned is what the tracee's memory holds, a read that succeeds makes
  progress, and \<open>ENOSYS\<close> is a property of the kernel, not of a call) and \<open>serves\<close> (mapped memory
  can be read). Lengths are non-negative.
\<close>

subsection \<open>The kernel\<close>

datatype errno = ENOSYS | ESRCH | EINVAL | EFAULT | EIO | EPERM | Errno nat

text \<open>
  \<open>process_vm_readv\<close> yields the bytes it stored or an error; \<open>stale_errno\<close> is what \<open>errno\<close> holds
  when it returns 0.
\<close>

record kernel =
  vm_readv :: "c_long \<Rightarrow> nat \<Rightarrow> errno + string"
  peekdata :: "c_long \<Rightarrow> errno + c_long"
  stale_errno :: errno

text \<open>The bytes of a word in memory order: the union \<open>u\<close> of the code.\<close>

definition word_bytes :: "c_long \<Rightarrow> string" where
  "word_bytes w = map (\<lambda>i. char_of (unat (take_bit 8 (drop_bit (8 * i) w)))) [0..<8]"

lemma word_bytes_div: "word_bytes w = map (\<lambda>i. char_of (unat w div 256 ^ i)) [0..<8]"
proof -
  have "unat (take_bit 8 (drop_bit (8 * i) w)) = unat w div 256 ^ i mod 256" for i
  proof -
    have "unat (take_bit 8 (drop_bit (8 * i) w)) = take_bit 8 (drop_bit (8 * i) (unat w))"
      by (simp only: unsigned_take_bit_eq unat_drop_bit_eq)
    then show ?thesis by (simp add: take_bit_eq_mod drop_bit_eq_div power_mult)
  qed
  moreover have "char_of (n mod 256) = char_of n" for n :: nat by simp
  ultimately show ?thesis unfolding word_bytes_def by simp
qed

lemma length_word_bytes [simp]: "length (word_bytes w) = 8"
  by (simp add: word_bytes_def)

type_synonym memory = "c_long \<Rightarrow> char option"

fun mem_bytes :: "memory \<Rightarrow> c_long \<Rightarrow> nat \<Rightarrow> string option" where
  "mem_bytes mem a 0 = Some []"
| "mem_bytes mem a (Suc n) =
    (case mem a of None \<Rightarrow> None | Some c \<Rightarrow> map_option ((#) c) (mem_bytes mem (a + 1) n))"

definition honest :: "kernel \<Rightarrow> memory \<Rightarrow> bool" where
  "honest k mem \<longleftrightarrow>
    (\<forall>a n bs. vm_readv k a n = Inr bs \<longrightarrow>
       length bs \<le> n \<and> mem_bytes mem a (length bs) = Some bs \<and> (0 < n \<longrightarrow> bs \<noteq> []))
    \<and> (\<forall>a n b m. vm_readv k a n = Inl ENOSYS \<longrightarrow> vm_readv k b m = Inl ENOSYS)
    \<and> (\<forall>a w. peekdata k a = Inr w \<longrightarrow> mem_bytes mem a 8 = Some (word_bytes w))"

definition serves :: "kernel \<Rightarrow> memory \<Rightarrow> bool" where
  "serves k mem \<longleftrightarrow>
    (\<forall>a n. mem_bytes mem a n \<noteq> None \<longrightarrow>
       vm_readv k a n = Inl ENOSYS \<or> (\<exists>bs. vm_readv k a n = Inr bs \<and> length bs = n))
    \<and> (\<forall>a i. a AND 7 = 0 \<longrightarrow> i < 8 \<longrightarrow> mem (a + of_nat i) \<noteq> None \<longrightarrow> (\<exists>w. peekdata k a = Inr w))"

subsection \<open>The program\<close>

text \<open>\<open>memcpy\<close> into the buffer at an offset.\<close>

definition blit :: "string \<Rightarrow> nat \<Rightarrow> string \<Rightarrow> fault + string" where
  "blit buf off bs =
    (if off + length bs \<le> length buf then Inr (take off buf @ bs @ drop (off + length bs) buf)
     else Inl OutOfBounds)"

text \<open>What is reported on the standard error.\<close>

datatype um_msg =
    ShortRead nat nat c_long
  | VmReadvError errno
  | PeekError c_long errno

fun inaccessible :: "errno \<Rightarrow> bool" where
  "inaccessible e \<longleftrightarrow> e = EFAULT \<or> e = EIO \<or> e = EPERM"

text \<open>The result: return value, buffer, \<open>process_vm_readv_not_supported\<close>, messages.\<close>

type_synonym um_result = "int \<times> string \<times> bool \<times> um_msg list"

text \<open>The word loop of \<open>umoven\<close>; \<open>off\<close> is how far \<open>laddr\<close> was advanced.\<close>

function umoven_words ::
  "kernel \<Rightarrow> c_long \<Rightarrow> nat \<Rightarrow> nat \<Rightarrow> nat \<Rightarrow> string \<Rightarrow> fault + int \<times> string \<times> um_msg list" where
  "umoven_words k addr len nread off buf =
    (if len = 0 then Inr (0, buf, [])
     else case peekdata k addr of
       Inl e \<Rightarrow> Inr (-1, buf,
         if e = ESRCH \<or> e = EINVAL then []
         else if inaccessible e then
           (if nread \<noteq> 0 then [ShortRead nread (nread + len) (addr - of_nat nread)] else [])
         else [PeekError addr e])
     | Inr w \<Rightarrow>
         (let m = min 8 len
          in sbind (blit buf off (take m (word_bytes w))) (\<lambda>buf.
             umoven_words k (addr + 8) (len - m) (nread + m) (off + m) buf)))"
  by pat_completeness auto
termination
  by (relation "measure (\<lambda>(k, addr, len, nread, off, buf). len)") auto

declare umoven_words.simps [simp del]

definition narrow_addr :: "nat \<Rightarrow> c_long \<Rightarrow> c_long" where
  "narrow_addr wordsize addr = (if wordsize < 8 then addr AND (push_bit (8 * wordsize) 1 - 1) else addr)"

definition umoven_peek :: "kernel \<Rightarrow> c_long \<Rightarrow> nat \<Rightarrow> string \<Rightarrow> fault + int \<times> string \<times> um_msg list" where
  "umoven_peek k addr len buf =
    (if addr AND 7 \<noteq> 0 then
       (let n = unat (addr - (addr AND - 8)); addr = addr AND - 8
        in case peekdata k addr of
             Inl e \<Rightarrow> Inr (-1, buf,
               if e = ESRCH \<or> e = EINVAL \<or> inaccessible e then [] else [PeekError addr e])
           | Inr w \<Rightarrow>
               (let m = min (8 - n) len
                in sbind (blit buf 0 (take m (drop n (word_bytes w)))) (\<lambda>buf.
                   umoven_words k (addr + 8) (len - m) m m buf)))
     else umoven_words k addr len 0 0 buf)"

definition umoven ::
  "kernel \<Rightarrow> nat \<Rightarrow> bool \<Rightarrow> c_long \<Rightarrow> nat \<Rightarrow> string \<Rightarrow> fault + um_result" where
  "umoven k wordsize notsup addr len buf =
    (let addr = narrow_addr wordsize addr;
         peek = sbind (umoven_peek k addr len buf) (\<lambda>(r, buf, ms). Inr (r, buf, True, ms))
     in if notsup then peek
        else case vm_readv k addr len of
          Inr bs \<Rightarrow> sbind (blit buf 0 bs) (\<lambda>buf.
            if length bs = len then Inr (0, buf, False, [])
            else Inr (-1, buf, False, [ShortRead (length bs) len addr]))
        | Inl e \<Rightarrow>
            if e = ENOSYS then peek
            else Inr (-1, buf, False, if e = ESRCH \<or> inaccessible e then [] else [VmReadvError e]))"

text \<open>\<open>umovestr\<close>: the test for a zero byte in a word, and the word loop.\<close>

definition has_zero_byte :: "c_long \<Rightarrow> bool" where
  "has_zero_byte v \<longleftrightarrow> (v - 0x0101010101010101) AND NOT v AND 0x8080808080808080 \<noteq> 0"

function umovestr_words ::
  "kernel \<Rightarrow> c_long \<Rightarrow> nat \<Rightarrow> nat \<Rightarrow> nat \<Rightarrow> string \<Rightarrow> fault + int \<times> string \<times> um_msg list" where
  "umovestr_words k addr len nread off buf =
    (if len = 0 then Inr (0, buf, [])
     else case peekdata k addr of
       Inl e \<Rightarrow> Inr (-1, buf,
         if e = ESRCH \<or> e = EINVAL then []
         else if inaccessible e then
           (if nread \<noteq> 0 then [ShortRead nread (nread + len) (addr - of_nat nread)] else [])
         else [PeekError addr e])
     | Inr w \<Rightarrow>
         (let m = min 8 len
          in sbind (blit buf off (take m (word_bytes w))) (\<lambda>buf.
             if has_zero_byte w then Inr (1, buf, [])
             else umovestr_words k (addr + 8) (len - m) (nread + m) (off + m) buf)))"
  by pat_completeness auto
termination
  by (relation "measure (\<lambda>(k, addr, len, nread, off, buf). len)") auto

declare umovestr_words.simps [simp del]

definition umovestr_peek ::
  "kernel \<Rightarrow> c_long \<Rightarrow> nat \<Rightarrow> nat \<Rightarrow> string \<Rightarrow> fault + int \<times> string \<times> um_msg list" where
  "umovestr_peek k addr len nread buf =
    (if addr AND 7 \<noteq> 0 then
       (let n = unat (addr - (addr AND - 8)); addr = addr AND - 8
        in case peekdata k addr of
             Inl e \<Rightarrow> Inr (-1, buf,
               if e = ESRCH \<or> e = EINVAL \<or> inaccessible e then [] else [PeekError addr e])
           | Inr w \<Rightarrow>
               (let m = min (8 - n) len
                in sbind (blit buf 0 (take m (drop n (word_bytes w)))) (\<lambda>buf.
                   if CHR 0x00 \<in> set (drop n (word_bytes w)) then Inr (1, buf, [])
                   else umovestr_words k (addr + 8) (len - m) (nread + m) m buf)))
     else umovestr_words k addr len nread 0 buf)"

text \<open>
  The chunk a turn of the \<open>process_vm_readv\<close> loop asks for. It is computed from \<open>addr\<close>, the start
  of the string, which the loop never advances.
\<close>

definition chunk_len :: "c_long \<Rightarrow> nat \<Rightarrow> nat" where
  "chunk_len addr len =
    (let c = min len 256; end_in_page = unat ((addr + of_nat c) AND 4095)
     in if c > end_in_page then c - end_in_page else c)"

lemma chunk_len_pos: "0 < len \<Longrightarrow> 0 < chunk_len addr len"
  by (simp add: chunk_len_def Let_def)

text \<open>
  The loop, with \<open>remote\<close> and \<open>nread\<close> advanced by what was read (\<open>nread\<close> is also the offset in the
  buffer). \<open>Inl\<close> of the inner sum is the jump to \<open>vm_readv_didnt_work\<close>.
\<close>

function umovestr_vm ::
  "kernel \<Rightarrow> c_long \<Rightarrow> c_long \<Rightarrow> nat \<Rightarrow> nat \<Rightarrow> string
   \<Rightarrow> fault + (nat \<times> nat \<times> string) + int \<times> string \<times> um_msg list" where
  "umovestr_vm k addr remote len nread buf =
    (if len = 0 then Inr (Inr (0, buf, []))
     else (let r = vm_readv k remote (chunk_len addr len);
               e = (case r of Inl e \<Rightarrow> e | Inr _ \<Rightarrow> stale_errno k);
               bs = (case r of Inl _ \<Rightarrow> [] | Inr bs \<Rightarrow> bs)
       in if bs \<noteq> [] then
            sbind (blit buf nread bs) (\<lambda>buf.
              if CHR 0x00 \<in> set bs then Inr (Inr (1, buf, []))
              else umovestr_vm k addr (remote + of_nat (length bs)) (len - length bs)
                     (nread + length bs) buf)
          else if e = ENOSYS then Inr (Inl (len, nread, buf))
          else Inr (Inr (-1, buf,
            if e = ESRCH then []
            else if inaccessible e then
              (if nread \<noteq> 0 then [ShortRead nread (nread + len) addr] else [])
            else [VmReadvError e]))))"
  by pat_completeness auto
termination
  by (relation "measure (\<lambda>(k, addr, remote, len, nread, buf). len)") auto

declare umovestr_vm.simps [simp del]

definition umovestr ::
  "kernel \<Rightarrow> nat \<Rightarrow> bool \<Rightarrow> c_long \<Rightarrow> nat \<Rightarrow> string \<Rightarrow> fault + um_result" where
  "umovestr k wordsize notsup addr len buf =
    (let addr = narrow_addr wordsize addr
     in if notsup then
          sbind (umovestr_peek k addr len 0 buf) (\<lambda>(r, buf, ms). Inr (r, buf, True, ms))
        else sbind (umovestr_vm k addr addr len 0 buf) (\<lambda>res. case res of
            Inr (r, buf, ms) \<Rightarrow> Inr (r, buf, False, ms)
          | Inl (len, nread, buf) \<Rightarrow>
              sbind (umovestr_peek k addr len nread buf) (\<lambda>(r, buf, ms). Inr (r, buf, True, ms))))"

subsection \<open>Ranges of memory\<close>

lemma mem_bytes_length: "mem_bytes mem a n = Some bs \<Longrightarrow> length bs = n"
  by (induction n arbitrary: a bs) (auto split: option.splits)

lemma mem_bytes_add:
  "mem_bytes mem a (m + n) = (case mem_bytes mem a m of
     None \<Rightarrow> None
   | Some bs \<Rightarrow> map_option ((@) bs) (mem_bytes mem (a + of_nat m) n))"
proof (induction m arbitrary: a)
  case (Suc m)
  have "mem_bytes mem (a + 1) (m + n) = (case mem_bytes mem (a + 1) m of
      None \<Rightarrow> None | Some bs \<Rightarrow> map_option ((@) bs) (mem_bytes mem (a + of_nat (Suc m)) n))"
    by (simp only: Suc.IH [of "a + 1"] add.assoc of_nat_Suc)
  then show ?case by (auto split: option.splits simp: map_option_case)
qed (simp add: map_option_case split: option.splits)

lemma mem_bytes_take: "mem_bytes mem a n = Some bs \<Longrightarrow> m \<le> n \<Longrightarrow> mem_bytes mem a m = Some (take m bs)"
  using mem_bytes_add [of mem a m "n - m"] mem_bytes_length [of mem a m]
  by (auto split: option.splits simp: map_option_case)

lemma mem_bytes_drop:
  "mem_bytes mem a n = Some bs \<Longrightarrow> m \<le> n \<Longrightarrow> mem_bytes mem (a + of_nat m) (n - m) = Some (drop m bs)"
  using mem_bytes_add [of mem a m "n - m"] mem_bytes_length [of mem a m]
  by (auto split: option.splits simp: map_option_case)

lemma mem_bytes_first: "mem_bytes mem a n \<noteq> None \<Longrightarrow> 0 < n \<Longrightarrow> mem a \<noteq> None"
  by (cases n) (auto split: option.splits)

lemma blit_fit: "off + length bs \<le> length buf \<Longrightarrow>
    blit buf off bs = Inr (take off buf @ bs @ drop (off + length bs) buf)"
  by (simp add: blit_def)

lemma mask_sum: "(a :: c_long) = (a AND m) + (a AND NOT m)"
proof -
  have "(a AND m) AND (a AND NOT m) = 0" "(a AND m) OR (a AND NOT m) = a"
    by (rule bit_eqI, auto simp: bit_simps)+
  then show ?thesis using disjunctive_add_eq_or [of "a AND m" "a AND NOT m"] by simp
qed

lemma unat_and_7: "unat ((a :: c_long) AND 7) = unat a mod 8"
proof -
  have "a AND 7 = take_bit 3 a" by (simp add: take_bit_eq_mask mask_eq_exp_minus_1)
  then have "unat (a AND 7) = take_bit 3 (unat a)" by (simp only: unsigned_take_bit_eq)
  then show ?thesis by (simp add: take_bit_eq_mod)
qed

text \<open>The first word of an unaligned address.\<close>

lemma aligned_split:
  fixes addr :: c_long
  defines "n \<equiv> unat (addr - (addr AND - 8))"
  shows "(addr AND - 8) + of_nat n = addr" "n < 8" "(addr AND - 8) AND 7 = 0"
    "addr AND 7 \<noteq> 0 \<Longrightarrow> 0 < n"
proof -
  have neg: "(- 8 :: c_long) = NOT 7" by (simp add: not_eq_complement)
  note sum = mask_sum [of addr 7]
  have u: "of_nat (unat x) = x" for x :: c_long by simp
  have "addr - (addr AND NOT 7) = addr AND 7" using sum by (metis add_diff_cancel_right')
  then have n: "n = unat (addr AND 7)" by (simp only: n_def neg)
  show "(addr AND - 8) + of_nat n = addr" 
    unfolding n neg u by (subst add.commute) (rule sum [symmetric])
  show "n < 8" by (simp add: n unat_and_7)
  have "(addr AND NOT m) AND m = 0" for m by (rule bit_eqI) (simp add: bit_simps)
  then show "(addr AND - 8) AND 7 = 0" unfolding neg .
  show "addr AND 7 \<noteq> 0 \<Longrightarrow> 0 < n" by (simp add: n unat_gt_0)
qed

lemma aligned_next: "(a :: c_long) AND 7 = 0 \<Longrightarrow> (a + 8) AND 7 = 0"
proof -
  assume "a AND 7 = 0"
  then have "unat a mod 8 = 0" using unat_and_7 [of a] by simp
  then have "unat (a + 8) mod 8 = 0"
    by (simp add: unat_word_ariths mod_mod_cancel)
  then show ?thesis using unat_and_7 [of "a + 8"] by (simp add: unat_eq_0)
qed

text \<open>The bytes of \<open>buf\<close> outside of \<open>[off, off + len)\<close> are kept.\<close>

definition keeps :: "string \<Rightarrow> nat \<Rightarrow> nat \<Rightarrow> string \<Rightarrow> bool" where
  "keeps buf off len buf' \<longleftrightarrow>
    length buf' = length buf \<and> take off buf' = take off buf \<and> drop (off + len) buf' = drop (off + len) buf"

lemma keeps_refl [simp]: "keeps buf off len buf"
  by (simp add: keeps_def)

lemma keeps_blit:
  assumes "off + len \<le> length buf" "length bs = m" "m \<le> len"
    and "keeps (take off buf @ bs @ drop (off + m) buf) (off + m) (len - m) buf'"
  shows "keeps buf off len buf'"
proof -
  let ?b = "take off buf @ bs @ drop (off + m) buf"
  have k: "length buf' = length ?b" "take (off + m) buf' = take (off + m) ?b"
    "drop (off + len) buf' = drop (off + len) ?b"
    using assms by (simp_all add: keeps_def)
  have "take off buf' = take off (take (off + m) buf')" by simp
  also have "\<dots> = take off buf" using assms(1-3) by (simp add: k(2))
  finally show ?thesis using assms(1-3) k by (simp add: keeps_def add.commute)
qed

lemma keeps_bytes:
  assumes "off + len \<le> length buf" "length bs = m" "m \<le> len" "length bs2 = len - m"
  shows "take (off + m) (take off buf @ bs @ drop (off + m) buf) @ bs2
      @ drop (off + m + (len - m)) (take off buf @ bs @ drop (off + m) buf)
    = take off buf @ (bs @ bs2) @ drop (off + len) buf"
  using assms by (simp add: add.commute)

lemma peek_mem:
  assumes "honest k mem" "peekdata k a = Inr w" "n + m \<le> 8"
  shows "mem_bytes mem (a + of_nat n) m = Some (take m (drop n (word_bytes w)))"
proof -
  have "mem_bytes mem a 8 = Some (word_bytes w)" using assms by (auto simp: honest_def)
  moreover have "n \<le> 8" "m \<le> 8 - n" using assms(3) by simp_all
  ultimately show ?thesis by (blast intro: mem_bytes_take mem_bytes_drop)
qed

text \<open>What a read of \<open>len\<close> bytes at \<open>a\<close> into \<open>buf\<close> at \<open>off\<close> promises.\<close>

definition read_ok :: "memory \<Rightarrow> c_long \<Rightarrow> nat \<Rightarrow> nat \<Rightarrow> string \<Rightarrow> int \<Rightarrow> string \<Rightarrow> bool" where
  "read_ok mem a len off buf r buf' \<longleftrightarrow>
    (r = 0 \<or> r = -1) \<and> keeps buf off len buf'
    \<and> (r = 0 \<longrightarrow> (\<exists>bs. mem_bytes mem a len = Some bs \<and> buf' = take off buf @ bs @ drop (off + len) buf))"

lemma read_ok_step:
  assumes "off + len \<le> length buf" "m \<le> len" "mem_bytes mem a m = Some b1"
    and "read_ok mem (a + of_nat m) (len - m) (off + m) (take off buf @ b1 @ drop (off + m) buf) r buf'"
  shows "read_ok mem a len off buf r buf'"
proof -
  have m: "length b1 = m" using assms(3) by (rule mem_bytes_length)
  have "mem_bytes mem a len = Some (b1 @ b2)" if "mem_bytes mem (a + of_nat m) (len - m) = Some b2" for b2
    using mem_bytes_add [of mem a m "len - m"] that assms(2,3) by simp
  moreover have "keeps buf off len buf'"
    using assms(4) keeps_blit [OF assms(1) m assms(2)] by (simp add: read_ok_def)
  ultimately show ?thesis
    using assms(4) keeps_bytes [OF assms(1) m assms(2)] mem_bytes_length
    unfolding read_ok_def by metis
qed

lemma umoven_words_ok:
  assumes "honest k mem" "off + len \<le> length buf"
  shows "\<exists>r buf' ms. umoven_words k a len nread off buf = Inr (r, buf', ms) \<and> read_ok mem a len off buf r buf'
    \<and> (serves k mem \<longrightarrow> a AND 7 = 0 \<longrightarrow> mem_bytes mem a len \<noteq> None \<longrightarrow> r = 0)"
  using assms(2)
proof (induction len arbitrary: a nread off buf rule: less_induct)
  case (less len)
  show ?case
  proof (cases "len = 0")
    case True
    then show ?thesis by (simp add: umoven_words.simps read_ok_def)
  next
    case False
    show ?thesis
    proof (cases "peekdata k a")
      case (Inl e)
      have "mem a = None" if "serves k mem" "a AND 7 = 0"
        using that Inl by (force simp: serves_def)
      then have "serves k mem \<longrightarrow> a AND 7 = 0 \<longrightarrow> mem_bytes mem a len = None"
        using False mem_bytes_first [of mem a len] by blast
      then show ?thesis using False Inl
        by (simp add: umoven_words.simps [of k a len] read_ok_def)
    next
      case (Inr w)
      define m where "m = min 8 len"
      let ?b1 = "take m (word_bytes w)"
      let ?buf = "take off buf @ ?b1 @ drop (off + m) buf"
      have b1: "mem_bytes mem a m = Some ?b1" "length ?b1 = m" "m \<le> len" "off + m \<le> length buf"
        using peek_mem [OF assms(1) Inr, of 0 m] less.prems by (auto simp: m_def)
      have "len - m < len" "off + m + (len - m) \<le> length ?buf"
        using False less.prems b1 by (auto simp: m_def)
      from less.IH [OF this, of "a + 8" "nread + m"] obtain r buf' ms where
        u: "umoven_words k (a + 8) (len - m) (nread + m) (off + m) ?buf = Inr (r, buf', ms)"
        and ok: "read_ok mem (a + 8) (len - m) (off + m) ?buf r buf'"
        and live: "serves k mem \<longrightarrow> (a + 8) AND 7 = 0 \<longrightarrow> mem_bytes mem (a + 8) (len - m) \<noteq> None \<longrightarrow> r = 0"
        by blast
      have eq: "umoven_words k a len nread off buf = Inr (r, buf', ms)"
        using False Inr u b1 by (simp add: umoven_words.simps [of k a len] blit_fit Let_def flip: m_def)
      have r0: "read_ok mem (a + 8) 0 (off + len) buf2 0 buf2" for buf2 by (simp add: read_ok_def)
      show ?thesis
      proof (cases "len \<le> 8")
        case True
        then have m: "m = len" by (simp add: m_def)
        then have r: "r = 0" "buf' = ?buf" using u by (simp_all add: umoven_words.simps [of k "a + 8"])
        show ?thesis using eq r b1 less.prems m
          by (auto simp: read_ok_def keeps_def)
      next
        case long: False
        then have m: "m = 8" by (simp add: m_def)
        have "read_ok mem a len off buf r buf'"
          using read_ok_step [OF less.prems b1(3) b1(1)] ok m by simp
        moreover have "mem_bytes mem (a + 8) (len - m) \<noteq> None" if "mem_bytes mem a len \<noteq> None"
          using that mem_bytes_add [of mem a m "len - m"] b1 m by auto
        ultimately show ?thesis using eq live aligned_next by blast
      qed
    qed
  qed
qed

subsection \<open>The zero-byte test\<close>

text \<open>The constant \<open>0x01..01\<close> with \<open>k\<close> bytes; on unbounded integers, byte by byte.\<close>

fun ones_bytes :: "nat \<Rightarrow> int" where
  "ones_bytes 0 = 0"
| "ones_bytes (Suc k) = 1 + 256 * ones_bytes k"

lemma bit_add_256: "0 \<le> b \<Longrightarrow> b < 256 \<Longrightarrow> bit (b + 256 * x :: int) (8 + j) = bit x j"
  by (simp add: bit_iff_odd power_add zdiv_zmult2_eq)

lemma bit_7_add_256: "0 \<le> b \<Longrightarrow> b < 256 \<Longrightarrow> bit (b + 256 * x :: int) 7 = (128 \<le> b)"
proof -
  assume b: "0 \<le> b" "b < 256"
  have "(b + 256 * x) div 128 = b div 128 + 2 * x"
    using div_mult_self1 [of 128 b "2 * x"] by simp
  moreover have "b div 128 = (if 128 \<le> b then 1 else 0)"
    using b by (auto intro: int_div_pos_eq [where r = "b - 128"])
  ultimately show ?thesis by (simp add: bit_iff_odd)
qed

definition high_zero :: "nat \<Rightarrow> int \<Rightarrow> bool" where
  "high_zero k v \<longleftrightarrow> (\<exists>i < k. bit (v - ones_bytes k) (8 * i + 7) \<and> \<not> bit v (8 * i + 7))"

lemma ex_less_Suc0: "(\<exists>i < Suc k. P i) \<longleftrightarrow> P 0 \<or> (\<exists>i < k. P (Suc i))"
  by (auto simp: less_Suc_eq_0_disj)

lemma high_zero_Suc:
  assumes b: "0 \<le> b" "b < 256"
  shows "high_zero (Suc k) (b + 256 * v) \<longleftrightarrow> b = 0 \<or> high_zero k v"
proof (cases "b = 0")
  case True
  have "0 + 256 * v - ones_bytes (Suc k) = 255 + 256 * (v - ones_bytes k - 1)" by simp
  then have "bit (0 + 256 * v - ones_bytes (Suc k)) 7" "\<not> bit (0 + 256 * v) 7"
    by (simp_all only: bit_7_add_256)
  then have "bit (0 + 256 * v - ones_bytes (Suc k)) (8 * 0 + 7) \<and> \<not> bit (0 + 256 * v) (8 * 0 + 7)" by simp
  with True show ?thesis unfolding high_zero_def by blast
next
  case False
  have sh: "8 * Suc i + 7 = 8 + (8 * i + 7)" for i by simp
  have d: "b + 256 * v - ones_bytes (Suc k) = (b - 1) + 256 * (v - ones_bytes k)" by simp
  have "\<not> (bit (b + 256 * v - ones_bytes (Suc k)) (8 * 0 + 7) \<and> \<not> bit (b + 256 * v) (8 * 0 + 7))"
  proof -
    have "bit ((b - 1) + 256 * (v - ones_bytes k)) 7 \<longleftrightarrow> 128 \<le> b - 1" "bit (b + 256 * v) 7 \<longleftrightarrow> 128 \<le> b"
      using b False by (intro bit_7_add_256; simp)+
    then show ?thesis unfolding d by simp
  qed
  moreover have "bit (b + 256 * v - ones_bytes (Suc k)) (8 * Suc i + 7) = bit (v - ones_bytes k) (8 * i + 7)"
    "bit (b + 256 * v) (8 * Suc i + 7) = bit v (8 * i + 7)" for i
    unfolding d sh using b False by (simp_all only: bit_add_256)
  ultimately show ?thesis using False unfolding high_zero_def ex_less_Suc0 by blast
qed

lemma high_zero_iff: "high_zero k v \<longleftrightarrow> (\<exists>i < k. v div 256 ^ i mod 256 = 0)"
proof (induction k arbitrary: v)
  case (Suc k)
  have v: "v = v mod 256 + 256 * (v div 256)" by simp
  have "high_zero (Suc k) v \<longleftrightarrow> v mod 256 = 0 \<or> high_zero k (v div 256)"
    by (subst v, subst high_zero_Suc) simp_all
  also have "\<dots> \<longleftrightarrow> (\<exists>i < Suc k. v div 256 ^ i mod 256 = 0)"
    unfolding ex_less_Suc0 by (simp add: Suc.IH zdiv_zmult2_eq)
  finally show ?case .
qed (simp add: high_zero_def)

lemma set_word_bytes_0: "CHR 0x00 \<in> set (word_bytes w) \<longleftrightarrow> (\<exists>i < 8. uint w div 256 ^ i mod 256 = 0)"
proof -
  have "char_of n = CHR 0x00 \<longleftrightarrow> n mod 256 = 0" for n :: nat
    using of_char_eq_iff [of "char_of n" "CHR 0x00", where ?'a = nat] by simp
  then have c: "CHR 0x00 = char_of n \<longleftrightarrow> n mod 256 = 0" for n :: nat by metis
  have "CHR 0x00 \<in> set (word_bytes w) \<longleftrightarrow> (\<exists>i < 8. unat w div 256 ^ i mod 256 = 0)"
    unfolding word_bytes_div set_map image_iff c by (simp add: Bex_def)
  also have "\<dots> \<longleftrightarrow> (\<exists>i < 8. int (unat w div 256 ^ i mod 256) = 0)" by simp
  finally have "CHR 0x00 \<in> set (word_bytes w) \<longleftrightarrow> (\<exists>i < 8. int (unat w div 256 ^ i mod 256) = 0)" .
  moreover have "int (unat w) = uint w" by simp
  ultimately show ?thesis by (simp only: zmod_int zdiv_int of_nat_power of_nat_numeral)
qed

lemma bit_80: "bit (0x8080808080808080 :: c_long) n \<longleftrightarrow> (\<exists>i < 8. n = 8 * i + 7)"
proof -
  have "\<forall>n \<in> set [0..<64]. bit (0x8080808080808080 :: c_long) n \<longleftrightarrow> (n mod 8 = 7)" by code_simp
  then have "n < 64 \<Longrightarrow> bit (0x8080808080808080 :: c_long) n \<longleftrightarrow> (n mod 8 = 7)" by simp
  moreover have "(\<exists>i < 8. n = 8 * i + 7) \<longleftrightarrow> n < 64 \<and> n mod 8 = 7" by presburger
  moreover have "bit (0x8080808080808080 :: c_long) n \<Longrightarrow> n < 64" using bit_imp_le_length [of "0x8080808080808080 :: c_long" n] by simp
  ultimately show ?thesis by blast
qed

lemma and_not_and_bits:
  "a AND NOT b AND c \<noteq> (0 :: c_long) \<longleftrightarrow> (\<exists>n. bit a n \<and> n < 64 \<and> \<not> bit b n \<and> bit c n)"
  by (auto simp: bit_eq_iff bit_simps dest: bit_imp_le_length)

lemma has_zero_byte_iff: "has_zero_byte w \<longleftrightarrow> CHR 0x00 \<in> set (word_bytes w)"
proof -
  have M: "ones_bytes 8 = 0x0101010101010101" by (simp add: numeral_eq_Suc [of num.One] eval_nat_numeral)
  have b: "bit (w - 0x0101010101010101) n = bit (uint w - 0x0101010101010101) n" "bit w n = bit (uint w) n" if "n < 64" for n
  proof -
    have "w - 0x0101010101010101 = word_of_int (uint w - 0x0101010101010101)" by simp
    then show "bit (w - 0x0101010101010101) n = bit (uint w - 0x0101010101010101) n"
      using that by (simp only: bit_word_of_int_iff) simp
    show "bit w n = bit (uint w) n" using that by (simp add: bit_uint_iff)
  qed
  have "has_zero_byte w \<longleftrightarrow> (\<exists>n. bit (w - 0x0101010101010101) n \<and> n < 64 \<and> \<not> bit w n \<and> bit (0x8080808080808080 :: c_long) n)"
    unfolding has_zero_byte_def by (rule and_not_and_bits)
  also have "\<dots> \<longleftrightarrow> high_zero 8 (uint w)"
  proof -
    have "8 * i + 7 < 64" if "i < 8" for i :: nat using that by simp
    then show ?thesis unfolding high_zero_def M bit_80 using b by metis
  qed
  finally show ?thesis unfolding high_zero_iff set_word_bytes_0 .
qed
end
