(* ===== verification/Umove_Correct.thy ===== *)
theory Umove_Correct
  imports Umove
begin

text \<open>
  Correctness of \<open>umoven\<close> and \<open>umovestr\<close> on an honest kernel, and the interface \<open>memory_reader\<close>
  through which the printing functions use them. The outcome of a read is described by \<open>read_ok\<close>
  and \<open>str_ok\<close>; both are composed chunk by chunk (\<open>read_ok_step\<close>, \<open>str_ok_step\<close>), for the words
  of \<open>PTRACE_PEEKDATA\<close> as for the chunks of \<open>process_vm_readv\<close>. Two theorems show where the code
  falls short of what its comments say.
\<close>

subsection \<open>Reading \<open>len\<close> bytes\<close>

lemma serves_vm:
  "serves k mem \<Longrightarrow> mem_bytes mem a n \<noteq> None \<Longrightarrow>
    vm_readv k a n = Inl ENOSYS \<or> (\<exists>bs. vm_readv k a n = Inr bs \<and> length bs = n)"
  by (simp add: serves_def)

lemma umoven_words_0: "umoven_words k a 0 nread off buf = Inr (0, buf, [])"
  by (simp add: umoven_words.simps)

lemma read_ok_full:
  "off + len \<le> length buf \<Longrightarrow> mem_bytes mem a len = Some bs \<Longrightarrow>
    read_ok mem a len off buf 0 (take off buf @ bs @ drop (off + len) buf)"
  using mem_bytes_length [of mem a len bs] by (simp add: read_ok_def keeps_def)

lemma umoven_peek_ok:
  assumes h: "honest k mem" and len: "len \<le> length buf"
  shows "\<exists>r buf' ms. umoven_peek k a len buf = Inr (r, buf', ms) \<and> read_ok mem a len 0 buf r buf'
    \<and> (serves k mem \<longrightarrow> mem_bytes mem a len \<noteq> None \<longrightarrow> 0 < len \<longrightarrow> r = 0)"
proof (cases "a AND 7 = 0")
  case True
  then show ?thesis using umoven_words_ok [OF h, of 0 len buf a 0] len by (auto simp: umoven_peek_def)
next
  case False
  define b where "b = a AND - 8"
  define n where "n = unat (a - b)"
  note al = aligned_split [of a, folded b_def, folded n_def]
  have n: "b + of_nat n = a" "n < 8" "b AND 7 = 0" "0 < n" using al False by auto
  show ?thesis
  proof (cases "peekdata k b")
    case (Inl e)
    have "mem a = None" if "serves k mem"
      using that Inl n unfolding serves_def by (metis sum.distinct(1))
    then have "serves k mem \<longrightarrow> 0 < len \<longrightarrow> mem_bytes mem a len = None"
      using mem_bytes_first [of mem a len] by blast
    then show ?thesis using False Inl by (auto simp: umoven_peek_def read_ok_def Let_def n_def [symmetric] b_def [symmetric])
  next
    case (Inr w)
    define m where "m = min (8 - n) len"
    let ?b1 = "take m (drop n (word_bytes w))"
    let ?buf = "take 0 buf @ ?b1 @ drop (0 + m) buf"
    have b1: "mem_bytes mem a m = Some ?b1" "length ?b1 = m" "m \<le> len" "m \<le> length buf"
      using peek_mem [OF h Inr, of n m] n len by (auto simp: m_def)
    have eq: "umoven_peek k a len buf = umoven_words k (b + 8) (len - m) m m ?buf"
      using False Inr b1 by (simp add: umoven_peek_def Let_def blit_fit flip: n_def b_def m_def)
    show ?thesis
    proof (cases "m = len")
      case True
      then show ?thesis using eq read_ok_full [of 0 len buf mem a ?b1] b1 len by (simp add: umoven_words_0)
    next
      case long: False
      then have "m = 8 - n" by (simp add: m_def)
      then have a8: "b + 8 = a + of_nat m" using n by (simp flip: n(1) add: of_nat_diff)
      have "m + (len - m) \<le> length ?buf" using b1 len by simp
      from umoven_words_ok [OF h this, of "b + 8" m] obtain r buf' ms where
        u: "umoven_words k (b + 8) (len - m) m m ?buf = Inr (r, buf', ms)"
        "read_ok mem (a + of_nat m) (len - m) m ?buf r buf'"
        "serves k mem \<longrightarrow> mem_bytes mem (a + of_nat m) (len - m) \<noteq> None \<longrightarrow> r = 0"
        unfolding a8 using aligned_next [OF n(3)] a8 by auto
      have "read_ok mem a len 0 buf r buf'"
        using read_ok_step [of 0 len buf m mem a ?b1] len b1 u(2) by simp
      moreover have "mem_bytes mem (a + of_nat m) (len - m) \<noteq> None" if "mem_bytes mem a len \<noteq> None"
        using that mem_bytes_add [of mem a m "len - m"] b1 by auto
      ultimately show ?thesis using eq u by auto
    qed
  qed
qed

lemma umoven_ok:
  assumes "honest k mem" "len \<le> length buf"
  shows "\<exists>r buf' ns ms. umoven k wordsize notsup addr len buf = Inr (r, buf', ns, ms)
    \<and> read_ok mem (narrow_addr wordsize addr) len 0 buf r buf'
    \<and> (serves k mem \<longrightarrow> 0 < len \<longrightarrow> (r = 0 \<longleftrightarrow> mem_bytes mem (narrow_addr wordsize addr) len \<noteq> None))"
proof -
  define a where "a = narrow_addr wordsize addr"
  obtain r buf' ms where p: "umoven_peek k a len buf = Inr (r, buf', ms)" "read_ok mem a len 0 buf r buf'"
    "serves k mem \<longrightarrow> mem_bytes mem a len \<noteq> None \<longrightarrow> 0 < len \<longrightarrow> r = 0"
    using umoven_peek_ok [OF assms] by blast
  have mapped: "read_ok mem a len 0 buf r' b \<Longrightarrow> r' = 0 \<Longrightarrow> mem_bytes mem a len \<noteq> None" for r' b
    by (auto simp: read_ok_def)
  have peek: "serves k mem \<longrightarrow> 0 < len \<longrightarrow> (r = 0 \<longleftrightarrow> mem_bytes mem a len \<noteq> None)"
    using p mapped by auto
  show ?thesis
  proof (cases "notsup \<or> vm_readv k a len = Inl ENOSYS")
    case True
    then show ?thesis using p peek
      by (auto simp: umoven_def Let_def simp flip: a_def)
  next
    case False
    show ?thesis
    proof (cases "vm_readv k a len")
      case (Inl e)
      then have "serves k mem \<longrightarrow> mem_bytes mem a len = None" using False serves_vm by fastforce
      then show ?thesis using False Inl
        by (auto simp: umoven_def Let_def read_ok_def simp flip: a_def)
    next
      case (Inr bs)
      then have bs: "length bs \<le> len" "mem_bytes mem a (length bs) = Some bs"
        using assms(1) by (auto simp: honest_def)
      have "serves k mem \<longrightarrow> mem_bytes mem a len \<noteq> None \<longrightarrow> length bs = len"
        using Inr serves_vm by fastforce
      moreover have "keeps buf 0 len (bs @ drop (length bs) buf)"
        using bs assms(2) by (simp add: keeps_def)
      ultimately show ?thesis using False Inr bs assms(2)
        by (auto simp: umoven_def Let_def blit_fit read_ok_def simp flip: a_def)
    qed
  qed
qed

text \<open>
  C10. \<open>umoven\<close> is correct on an honest kernel, by \<open>process_vm_readv\<close> or word by word, aligned or
  not: it never writes outside the first \<open>len\<close> bytes of the buffer; it returns 0 only after
  storing exactly the tracee's \<open>len\<close> bytes at the address (truncated to the word size of the
  personality); and if the kernel serves mapped memory, it returns 0 exactly when all of them
  are mapped (for \<open>len > 0\<close>), and -1 otherwise.
\<close>

theorem umoven_correct:
  assumes "honest k mem" "len \<le> length buf"
  shows "\<exists>r buf' ns ms. umoven k wordsize notsup addr len buf = Inr (r, buf', ns, ms)
    \<and> read_ok mem (narrow_addr wordsize addr) len 0 buf r buf'
    \<and> (serves k mem \<longrightarrow> 0 < len \<longrightarrow> (r = 0 \<longleftrightarrow> mem_bytes mem (narrow_addr wordsize addr) len \<noteq> None))"
  using assms by (rule umoven_ok)


subsection \<open>Reading a string\<close>

text \<open>
  What a read of a string promises: with 0, that \<open>len\<close> bytes without a NUL were stored; with 1,
  that a NUL was seen within \<open>len + e\<close> bytes and that the bytes fetched up to then, cut at \<open>len\<close>,
  were stored.
\<close>

definition str_ok :: "nat \<Rightarrow> memory \<Rightarrow> c_long \<Rightarrow> nat \<Rightarrow> nat \<Rightarrow> string \<Rightarrow> int \<Rightarrow> string \<Rightarrow> bool" where
  "str_ok e mem a len off buf r buf' \<longleftrightarrow>
    (r = 0 \<or> r = -1 \<or> r = 1) \<and> keeps buf off len buf'
    \<and> (r = 0 \<longrightarrow> (\<exists>bs. mem_bytes mem a len = Some bs \<and> CHR 0x00 \<notin> set bs
         \<and> buf' = take off buf @ bs @ drop (off + len) buf))
    \<and> (r = 1 \<longrightarrow> (\<exists>n bs. n \<le> len + e \<and> mem_bytes mem a n = Some bs \<and> CHR 0x00 \<in> set bs
         \<and> buf' = take off buf @ take len bs @ drop (off + min n len) buf))"

lemma str_ok_error: "str_ok e mem a len off buf (-1) buf"
  by (simp add: str_ok_def)

lemma str_ok_end: "str_ok e mem a 0 off buf 0 buf"
  by (simp add: str_ok_def)

lemma str_ok_hit:
  assumes "mem_bytes mem a n = Some bs" "CHR 0x00 \<in> set bs" "n \<le> len + e" "off + len \<le> length buf"
  shows "str_ok e mem a len off buf 1 (take off buf @ take len bs @ drop (off + min n len) buf)"
proof -
  have "length bs = n" using assms(1) by (rule mem_bytes_length)
  moreover from this assms have
    "keeps buf off len (take off buf @ take len bs @ drop (off + min n len) buf)"
    by (auto simp: keeps_def min_def add.commute)
  ultimately show ?thesis using assms unfolding str_ok_def by auto
qed

lemma str_ok_step:
  assumes "off + len \<le> length buf" "m \<le> len" "mem_bytes mem a m = Some b1" "CHR 0x00 \<notin> set b1"
    and ok: "str_ok e mem (a + of_nat m) (len - m) (off + m) (take off buf @ b1 @ drop (off + m) buf) r buf'"
  shows "str_ok e mem a len off buf r buf'"
proof -
  let ?buf = "take off buf @ b1 @ drop (off + m) buf"
  have m: "length b1 = m" using assms(3) by (rule mem_bytes_length)
  have add: "mem_bytes mem a (m + n) = Some (b1 @ b2)" if "mem_bytes mem (a + of_nat m) n = Some b2" for n b2
    using mem_bytes_add [of mem a m n] that assms(3) by simp
  have "keeps buf off len buf'"
    using ok keeps_blit [OF assms(1) m assms(2)] by (simp add: str_ok_def)
  moreover have "\<exists>bs. mem_bytes mem a len = Some bs \<and> CHR 0x00 \<notin> set bs
      \<and> buf' = take off buf @ bs @ drop (off + len) buf" if r: "r = 0"
  proof -
    obtain b2 where "mem_bytes mem (a + of_nat m) (len - m) = Some b2" "CHR 0x00 \<notin> set b2"
      "buf' = take (off + m) ?buf @ b2 @ drop (off + m + (len - m)) ?buf"
      using ok r unfolding str_ok_def by blast
    with add [of "len - m" b2] assms(2,4) keeps_bytes [OF assms(1) m assms(2)] mem_bytes_length
    show ?thesis by (intro exI [of _ "b1 @ b2"]) auto
  qed
  moreover have "\<exists>n bs. n \<le> len + e \<and> mem_bytes mem a n = Some bs \<and> CHR 0x00 \<in> set bs
      \<and> buf' = take off buf @ take len bs @ drop (off + min n len) buf" if r: "r = 1"
  proof -
    obtain n b2 where b2: "n \<le> len - m + e" "mem_bytes mem (a + of_nat m) n = Some b2" "CHR 0x00 \<in> set b2"
      "buf' = take (off + m) ?buf @ take (len - m) b2 @ drop (off + m + min n (len - m)) ?buf"
      using ok r unfolding str_ok_def by blast
    have "min (m + n) len = m + min n (len - m)" using assms(2) by arith
    moreover have "take (off + m) ?buf = take off buf @ b1" using assms(1,2) m by simp
    moreover have "drop (off + m + j) ?buf = drop (off + m + j) buf" for j
      using assms(1,2) m by (simp add: add.assoc add.commute)
    ultimately show ?thesis using b2 add [OF b2(2)] assms(2) m
      by (intro exI [of _ "m + n"] exI [of _ "b1 @ b2"]) (simp add: add.assoc)
  qed
  ultimately show ?thesis using ok unfolding str_ok_def by blast
qed

lemma umovestr_words_0: "umovestr_words k a 0 nread off buf = Inr (0, buf, [])"
  by (simp add: umovestr_words.simps)

lemma umovestr_words_ok:
  assumes "honest k mem" "off + len \<le> length buf"
  shows "\<exists>r buf' ms. umovestr_words k a len nread off buf = Inr (r, buf', ms) \<and> str_ok 7 mem a len off buf r buf'
    \<and> (serves k mem \<longrightarrow> a AND 7 = 0 \<longrightarrow> mem_bytes mem a len \<noteq> None \<longrightarrow> r \<noteq> -1)"
  using assms(2)
proof (induction len arbitrary: a nread off buf rule: less_induct)
  case (less len)
  show ?case
  proof (cases "len = 0 \<or> (\<exists>e. peekdata k a = Inl e)")
    case True
    have "mem a = None" if "serves k mem" "a AND 7 = 0" "\<exists>e. peekdata k a = Inl e"
      using that by (force simp: serves_def)
    then have "serves k mem \<longrightarrow> a AND 7 = 0 \<longrightarrow> 0 < len \<longrightarrow> mem_bytes mem a len = None"
      using True mem_bytes_first [of mem a len] by blast
    then show ?thesis using True
      by (auto simp: umovestr_words.simps [of k a len] str_ok_end str_ok_error)
  next
    case False
    then obtain w where len: "0 < len" and w: "peekdata k a = Inr w" by (cases "peekdata k a") auto
    define m where "m = min 8 len"
    let ?b1 = "take m (word_bytes w)"
    let ?buf = "take off buf @ ?b1 @ drop (off + m) buf"
    have b1: "mem_bytes mem a m = Some ?b1" "length ?b1 = m" "m \<le> len" "off + m \<le> length buf"
      "mem_bytes mem a 8 = Some (word_bytes w)"
      using peek_mem [OF assms(1) w, of 0 m] peek_mem [OF assms(1) w, of 0 8] less.prems by (auto simp: m_def)
    have eq: "umovestr_words k a len nread off buf = (if has_zero_byte w then Inr (1, ?buf, [])
        else umovestr_words k (a + 8) (len - m) (nread + m) (off + m) ?buf)"
      using len w b1 by (simp add: umovestr_words.simps [of k a len] blit_fit Let_def flip: m_def)
    show ?thesis
    proof (cases "has_zero_byte w")
      case True
      have "str_ok 7 mem a len off buf 1 (take off buf @ take len (word_bytes w) @ drop (off + min 8 len) buf)"
        using True len less.prems b1(5) by (intro str_ok_hit) (auto simp: has_zero_byte_iff)
      moreover have "take len (word_bytes w) = ?b1" by (simp add: m_def min_def)
      ultimately show ?thesis using True eq by (simp flip: m_def)
    next
      case nz: False
      have no: "CHR 0x00 \<notin> set ?b1" using nz by (auto simp: has_zero_byte_iff dest: in_set_takeD)
      have "len - m < len" "off + m + (len - m) \<le> length ?buf"
        using len less.prems b1 by (auto simp: m_def)
      from less.IH [OF this, of "a + 8" "nread + m"] obtain r buf' ms where
        u: "umovestr_words k (a + 8) (len - m) (nread + m) (off + m) ?buf = Inr (r, buf', ms)"
        "str_ok 7 mem (a + 8) (len - m) (off + m) ?buf r buf'"
        "serves k mem \<longrightarrow> (a + 8) AND 7 = 0 \<longrightarrow> mem_bytes mem (a + 8) (len - m) \<noteq> None \<longrightarrow> r \<noteq> -1"
        by blast
      have "str_ok 7 mem (a + of_nat m) (len - m) (off + m) ?buf r buf'"
        using u(1,2) str_ok_end by (cases "len \<le> 8") (auto simp: m_def umovestr_words_0)
      then have ok: "str_ok 7 mem a len off buf r buf'"
        using str_ok_step [OF less.prems b1(3,1) no] by blast
      have "mem_bytes mem (a + 8) (len - m) \<noteq> None" if "mem_bytes mem a len \<noteq> None"
        using that mem_bytes_add [of mem a m "len - m"] b1(1,3) by (cases "len \<le> 8") (auto simp: m_def)
      then show ?thesis using eq nz u ok aligned_next by auto
    qed
  qed
qed

lemma umovestr_peek_ok:
  assumes h: "honest k mem" and len: "len \<le> length buf"
  shows "\<exists>r buf' ms. umovestr_peek k a len nread buf = Inr (r, buf', ms) \<and> str_ok 7 mem a len 0 buf r buf'
    \<and> (serves k mem \<longrightarrow> mem_bytes mem a len \<noteq> None \<longrightarrow> 0 < len \<longrightarrow> r \<noteq> -1)"
proof (cases "a AND 7 = 0")
  case True
  then show ?thesis using umovestr_words_ok [OF h, of 0 len buf a nread] len by (auto simp: umovestr_peek_def)
next
  case False
  define b where "b = a AND - 8"
  define n where "n = unat (a - b)"
  note al = aligned_split [of a, folded b_def, folded n_def]
  have n: "b + of_nat n = a" "n < 8" "b AND 7 = 0" "0 < n" using al False by auto
  show ?thesis
  proof (cases "peekdata k b")
    case (Inl e)
    have "mem a = None" if "serves k mem"
      using that Inl n unfolding serves_def by (metis sum.distinct(1))
    then have "serves k mem \<longrightarrow> 0 < len \<longrightarrow> mem_bytes mem a len = None"
      using mem_bytes_first [of mem a len] by blast
    then show ?thesis using False Inl
      by (auto simp: umovestr_peek_def str_ok_error Let_def n_def [symmetric] b_def [symmetric])
  next
    case (Inr w)
    define m where "m = min (8 - n) len"
    let ?w = "drop n (word_bytes w)"
    let ?b1 = "take m ?w"
    let ?buf = "take 0 buf @ ?b1 @ drop (0 + m) buf"
    have b1: "mem_bytes mem a m = Some ?b1" "length ?b1 = m" "m \<le> len" "m \<le> length buf"
      "mem_bytes mem a (8 - n) = Some ?w"
      using peek_mem [OF h Inr, of n m] peek_mem [OF h Inr, of n "8 - n"] n len by (auto simp: m_def)
    have eq: "umovestr_peek k a len nread buf = (if CHR 0x00 \<in> set ?w then Inr (1, ?buf, [])
        else umovestr_words k (b + 8) (len - m) (nread + m) m ?buf)"
      using False Inr b1 by (simp add: umovestr_peek_def Let_def blit_fit flip: n_def b_def m_def)
    show ?thesis
    proof (cases "CHR 0x00 \<in> set ?w")
      case True
      have "str_ok 7 mem a len 0 buf 1 (take 0 buf @ take len ?w @ drop (0 + min (8 - n) len) buf)"
        using True n len b1(5) by (intro str_ok_hit) auto
      moreover have "take len ?w = ?b1" by (simp add: m_def min_def)
      ultimately show ?thesis using True eq by (simp flip: m_def)
    next
      case nz: False
      have no: "CHR 0x00 \<notin> set ?b1" using nz by (auto dest: in_set_takeD)
      have "m + (len - m) \<le> length ?buf" using b1 len by simp
      from umovestr_words_ok [OF h this, of "b + 8" "nread + m"] obtain r buf' ms where
        u: "umovestr_words k (b + 8) (len - m) (nread + m) m ?buf = Inr (r, buf', ms)"
        "str_ok 7 mem (b + 8) (len - m) m ?buf r buf'"
        "serves k mem \<longrightarrow> mem_bytes mem (b + 8) (len - m) \<noteq> None \<longrightarrow> r \<noteq> -1"
        using aligned_next [OF n(3)] by auto
      have a8: "b + 8 = a + of_nat m" if "m \<noteq> len"
        using that n by (simp flip: n(1) add: of_nat_diff m_def min_def split: if_splits)
      have "str_ok 7 mem (a + of_nat m) (len - m) m ?buf r buf'"
        using u(1,2) a8 str_ok_end by (cases "m = len") (auto simp: umovestr_words_0)
      then have ok: "str_ok 7 mem a len 0 buf r buf'"
        using str_ok_step [of 0 len buf m mem a ?b1] len b1 no by simp
      have "mem_bytes mem (b + 8) (len - m) \<noteq> None" if "mem_bytes mem a len \<noteq> None"
        using that mem_bytes_add [of mem a m "len - m"] b1(1,3) a8 by (cases "m = len") auto
      then show ?thesis using eq nz u ok by auto
    qed
  qed
qed

lemma chunk_len_le: "chunk_len addr len \<le> len"
  by (auto simp: chunk_len_def Let_def intro: le_trans [OF diff_le_self])

text \<open>The \<open>process_vm_readv\<close> loop; it gives up with \<open>ENOSYS\<close> only at once.\<close>

lemma umovestr_vm_ok:
  assumes "honest k mem" "vm_readv k b0 n0 \<noteq> Inl ENOSYS" "nread + len \<le> length buf"
  shows "\<exists>r buf' ms. umovestr_vm k addr a len nread buf = Inr (Inr (r, buf', ms)) \<and> str_ok 0 mem a len nread buf r buf'
    \<and> (serves k mem \<longrightarrow> mem_bytes mem a len \<noteq> None \<longrightarrow>
r \<noteq> -1)"
  using assms(3)
proof (induction len arbitrary: a nread buf rule: less_induct)
  case (less len)
  let ?c = "chunk_len addr len"
  have noENOSYS: "vm_readv k b n \<noteq> Inl ENOSYS" for b n using assms(1,2) unfolding honest_def by blast
  show ?case
  proof (cases "len = 0")
    case True
    then show ?thesis by (simp add: umovestr_vm.simps str_ok_end)
  next
    case False
    then have c: "0 < ?c" by (simp add: chunk_len_pos)
    show ?thesis
    proof (cases "vm_readv k a ?c")
      case (Inl e)
      then have e: "e \<noteq> ENOSYS" using noENOSYS by blast
      have cl: "?c \<le> len" by (rule chunk_len_le)
      have "mem_bytes mem a ?c = None" if "serves k mem" using that Inl e serves_vm by fastforce
      then have "serves k mem \<longrightarrow> mem_bytes mem a len = None"
        using cl mem_bytes_take [of mem a len _ ?c] by fastforce
      then show ?thesis using False Inl e
        by (auto simp: umovestr_vm.simps [of k addr a len] Let_def str_ok_error)
    next
      case (Inr bs)
      have bs: "length bs \<le> ?c" "mem_bytes mem a (length bs) = Some bs" "bs \<noteq> []"
        using assms(1) Inr c unfolding honest_def by blast+
      have cl: "?c \<le> len" by (rule chunk_len_le)
      let ?m = "length bs"
      let ?buf = "take nread buf @ bs @ drop (nread + ?m) buf"
      have ml: "?m \<le> len" "0 < ?m" "nread + ?m \<le> length buf" using bs cl less.prems by auto
      have eq: "umovestr_vm k addr a len nread buf = (if CHR 0x00 \<in> set bs then Inr (Inr (1, ?buf, []))
          else umovestr_vm k addr (a + of_nat ?m) (len - ?m) (nread + ?m) ?buf)"
        using Inr bs ml by (subst umovestr_vm.simps) (simp add: False Let_def blit_fit)
      show ?thesis
      proof (cases "CHR 0x00 \<in> set bs")
        case True
        then show ?thesis using str_ok_hit [OF bs(2) True, of len 0 nread buf] eq ml less.prems
          by (simp add: min_absorb1)
      next
        case nz: False
        have "len - ?m < len" using ml(1,2) by arith
        moreover have "nread + ?m + (len - ?m) \<le> length ?buf" using ml less.prems by auto
        ultimately obtain r buf' ms where
          u: "umovestr_vm k addr (a + of_nat ?m) (len - ?m) (nread + ?m) ?buf = Inr (Inr (r, buf', ms))"
          "str_ok 0 mem (a + of_nat ?m) (len - ?m) (nread + ?m) ?buf r buf'"
          "serves k mem \<longrightarrow> mem_bytes mem (a + of_nat ?m) (len - ?m) \<noteq> None \<longrightarrow> r \<noteq> -1"
          using less.IH by blast
        have "str_ok 0 mem a len nread buf r buf'"
          using str_ok_step [OF less.prems ml(1) bs(2) nz] u(2) by blast
        moreover have "mem_bytes mem (a + of_nat ?m) (len - ?m) \<noteq> None" if "mem_bytes mem a len \<noteq> None"
          using that mem_bytes_add [of mem a ?m "len - ?m"] bs(2) ml by auto
        ultimately show ?thesis using eq nz u by auto
      qed
    qed
  qed
qed

lemma umovestr_vm_ENOSYS:
  assumes "vm_readv k a (chunk_len addr len) = Inl ENOSYS"
  shows "umovestr_vm k addr a len nread buf =
    Inr (if len = 0 then Inr (0, buf, []) else Inl (len, nread, buf))"
  using assms by (simp add: umovestr_vm.simps [of k addr a len] Let_def)

lemma umovestr_ok:
  assumes "honest k mem" "len \<le> length buf"
  shows "\<exists>r buf' ns ms. umovestr k wordsize notsup addr len buf = Inr (r, buf', ns, ms)
    \<and> str_ok (if ns then 7 else 0) mem (narrow_addr wordsize addr) len 0 buf r buf'
    \<and> (serves k mem \<longrightarrow> 0 < len \<longrightarrow> mem_bytes mem (narrow_addr wordsize addr) len \<noteq> None \<longrightarrow> r \<noteq> -1)"
proof -
  define a where "a = narrow_addr wordsize addr"
  obtain r buf' ms where p: "umovestr_peek k a len 0 buf = Inr (r, buf', ms)" "str_ok 7 mem a len 0 buf r buf'"
    "serves k mem \<longrightarrow> mem_bytes mem a len \<noteq> None \<longrightarrow> 0 < len \<longrightarrow> r \<noteq> -1"
    using umovestr_peek_ok [OF assms] by blast
  show ?thesis
  proof (cases "notsup")
    case True
    then show ?thesis using p by (auto simp: umovestr_def Let_def simp flip: a_def)
  next
    case False
    show ?thesis
    proof (cases "vm_readv k a (chunk_len a len) = Inl ENOSYS")
      case True
      then show ?thesis using p False str_ok_end
        by (cases "len = 0") (auto simp: umovestr_def Let_def umovestr_vm_ENOSYS simp flip: a_def)
    next
      case ok: False
      obtain r' b' ms' where "umovestr_vm k a a len 0 buf = Inr (Inr (r', b', ms'))"
        "str_ok 0 mem a len 0 buf r' b'" "serves k mem \<longrightarrow> mem_bytes mem a len \<noteq> None \<longrightarrow> r' \<noteq> -1"
        using umovestr_vm_ok [OF assms(1) ok, of 0 len buf a a] assms(2) by auto
      with False show ?thesis by (auto simp: umovestr_def Let_def simp flip: a_def)
    qed
  qed
qed

text \<open>
  C11. \<open>umovestr\<close> is correct on an honest kernel: it writes only to the first \<open>len\<close> bytes of the
  buffer; 0 means that the \<open>len\<close> bytes at the address were stored and hold no NUL; 1 means that
  a NUL was seen and that the bytes up to it, cut at \<open>len\<close>, were stored. The NUL is within the
  \<open>len\<close> bytes if \<open>process_vm_readv\<close> is used, and within the seven bytes after them otherwise, since
  whole words are tested. If the kernel serves mapped memory and all \<open>len\<close> bytes are mapped, there
  is no error.
\<close>

theorem umovestr_correct:
  assumes "honest k mem" "len \<le> length buf"
  shows "\<exists>r buf' ns ms. umovestr k wordsize notsup addr len buf = Inr (r, buf', ns, ms)
    \<and> str_ok (if ns then 7 else 0) mem (narrow_addr wordsize addr) len 0 buf r buf'
    \<and> (serves k mem \<longrightarrow> 0 < len \<longrightarrow> mem_bytes mem (narrow_addr wordsize addr) len \<noteq> None \<longrightarrow> r \<noteq> -1)"
  using assms by (rule umovestr_ok)

subsection \<open>The interface for the printing functions\<close>

text \<open>
  What a caller of \<open>umoven\<close> and \<open>umovestr\<close> relies on: on an honest kernel and with a buffer that
  is large enough the call returns, and its outcome is a good one; \<open>good\<close> confines the changes to
  the first \<open>len\<close> bytes.
\<close>

locale memory_reader =
  fixes rd :: "kernel \<Rightarrow> nat \<Rightarrow> bool \<Rightarrow> c_long \<Rightarrow> nat \<Rightarrow> string \<Rightarrow> fault + um_result"
    and good :: "bool \<Rightarrow> memory \<Rightarrow> c_long \<Rightarrow> nat \<Rightarrow> string \<Rightarrow> int \<Rightarrow> string \<Rightarrow> bool"
  assumes returns: "honest k mem \<Longrightarrow> len \<le> length buf \<Longrightarrow>
      \<exists>r buf' ns ms. rd k wordsize notsup a len buf = Inr (r, buf', ns, ms)
        \<and> good ns mem (narrow_addr wordsize a) len buf r buf'"
    and confined: "good ns mem b len buf r buf' \<Longrightarrow> keeps buf 0 len buf'"
begin

lemma readE:
  assumes "honest k mem" "len \<le> length buf"
  obtains r buf' ns ms where "rd k wordsize notsup a len buf = Inr (r, buf', ns, ms)"
    "good ns mem (narrow_addr wordsize a) len buf r buf'"
    "length buf' = length buf" "drop len buf' = drop len buf"
proof -
  obtain r buf' ns ms where r: "rd k wordsize notsup a len buf = Inr (r, buf', ns, ms)"
    "good ns mem (narrow_addr wordsize a) len buf r buf'"
    using returns [OF assms] by blast
  from confined [OF r(2)] show thesis by (intro that [OF r]) (simp_all add: keeps_def)
qed

end

interpretation moven: memory_reader umoven "\<lambda>ns mem a len. read_ok mem a len 0"
proof unfold_locales
  fix k mem len and buf :: string and wordsize notsup a
  assume "honest k mem" "len \<le> length buf"
  from umoven_ok [OF this, of wordsize notsup a]
  show "\<exists>r buf' ns ms. umoven k wordsize notsup a len buf = Inr (r, buf', ns, ms)
      \<and> read_ok mem (narrow_addr wordsize a) len 0 buf r buf'" by blast
qed (simp add: read_ok_def)

interpretation movestr: memory_reader umovestr "\<lambda>ns mem a len. str_ok (if ns then 7 else 0) mem a len 0"
proof unfold_locales
  fix k mem len and buf :: string and wordsize notsup a
  assume "honest k mem" "len \<le> length buf"
  from umovestr_ok [OF this, of wordsize notsup a]
  show "\<exists>r buf' ns ms. umovestr k wordsize notsup a len buf = Inr (r, buf', ns, ms)
      \<and> str_ok (if ns then 7 else 0) mem (narrow_addr wordsize a) len 0 buf r buf'" by blast
qed (simp add: str_ok_def)

subsection \<open>Witness kernels and limits of the code\<close>

text \<open>A tracee whose whole memory is mapped and holds one byte, and its kernel.\<close>

definition uniform_mem :: "char \<Rightarrow> memory" where
  "uniform_mem c a = Some c"

definition uniform_kernel :: kernel where
  "uniform_kernel = \<lparr>vm_readv = (\<lambda>a n. Inr (replicate n CHR ''a'')),
     peekdata = (\<lambda>a. Inr 0x6161616161616161), stale_errno = EFAULT\<rparr>"

lemma uniform_bytes: "mem_bytes (uniform_mem c) a n = Some (replicate n c)"
  by (induction n arbitrary: a) (simp_all add: uniform_mem_def)

lemma uniform_honest: "honest uniform_kernel (uniform_mem CHR ''a'')"
proof -
  have "word_bytes 0x6161616161616161 = replicate 8 CHR ''a''" by code_simp
  then show ?thesis by (auto simp: honest_def uniform_kernel_def uniform_bytes)
qed

lemma uniform_serves: "serves uniform_kernel (uniform_mem CHR ''a'')"
  by (simp add: serves_def uniform_kernel_def)

theorem umoven_correct_witness:
  "\<exists>r buf' ns ms. umoven uniform_kernel 8 True 3 10 (replicate 12 CHR ''x'') = Inr (r, buf', ns, ms)
    \<and> read_ok (uniform_mem CHR ''a'') (narrow_addr 8 3) 10 0 (replicate 12 CHR ''x'') r buf'
    \<and> r = 0"
proof -
  have "(10 :: nat) \<le> length (replicate 12 CHR ''x'')" by simp
  from umoven_correct [OF uniform_honest this, of 8 True 3]
  show ?thesis using uniform_serves uniform_bytes by auto
qed

theorem umovestr_correct_witness:
  "\<exists>r buf' ns ms. umovestr uniform_kernel 8 False 3 10 (replicate 12 CHR ''x'') = Inr (r, buf', ns, ms)
    \<and> str_ok (if ns then 7 else 0) (uniform_mem CHR ''a'') (narrow_addr 8 3) 10 0 (replicate 12 CHR ''x'') r buf'
    \<and> r \<noteq> -1"
proof -
  have "(10 :: nat) \<le> length (replicate 12 CHR ''x'')" by simp
  from umovestr_correct [OF uniform_honest this, of 8 False 3]
  show ?thesis using uniform_serves uniform_bytes by fastforce
qed

text \<open>
  The word path of \<open>umovestr\<close> reports a NUL that lies behind the requested bytes: reading 3
  bytes of \<open>"abcd"\<close> yields 1 although none of the three is NUL, where the comment of the function
  announces 0.
\<close>

theorem umovestr_nul_beyond_len:
  "umovestr \<lparr>vm_readv = (\<lambda>a n. Inl ENOSYS), peekdata = (\<lambda>a. Inr 0x64636261), stale_errno = EFAULT\<rparr>
     8 False 0 3 ''xyz'' = Inr (1, ''abc'', True, [])"
  by code_simp

text \<open>
  A tracee with one mapped page, all \<open>a\<close> but for a NUL at offset 4050, and a kernel that, as
  documented, transfers the one element of the vector completely or not at all.
\<close>

definition page_mem :: memory where
  "page_mem a = (if unat a < 4096 then Some (if unat a = 4050 then CHR 0x00 else CHR ''a'') else None)"

definition page_kernel :: kernel where
  "page_kernel = \<lparr>vm_readv = (\<lambda>a n. case mem_bytes page_mem a n of Some bs \<Rightarrow> Inr bs | None \<Rightarrow> Inl EFAULT),
     peekdata = (\<lambda>a. Inl EIO), stale_errno = EFAULT\<rparr>"

lemma page_honest: "honest page_kernel page_mem"
  using mem_bytes_length by (fastforce simp: honest_def page_kernel_def split: option.splits)

lemma page_bytes: "a + n \<le> 4096 \<Longrightarrow>
    mem_bytes page_mem (of_nat a) n = Some (map (\<lambda>i. if i = 4050 then CHR 0x00 else CHR ''a'') [a..<a + n])"
proof (induction n arbitrary: a)
  case (Suc n)
  then have u: "unat (of_nat a :: c_long) = a" by (simp add: unat_of_nat take_bit_eq_mod)
  have s: "of_nat a + 1 = (of_nat (Suc a) :: c_long)" by simp
  have "[a..<a + Suc n] = a # [Suc a..<Suc a + n]" by (simp add: upt_rec)
  moreover have "page_mem (of_nat a) = Some (if a = 4050 then CHR 0x00 else CHR ''a'')"
    unfolding page_mem_def u using Suc.prems by simp
  ultimately show ?case using Suc.IH [of "Suc a"] Suc.prems by (simp only: mem_bytes.simps s) simp
qed simp

lemma page_string:
  assumes "a + n = 4050"
  shows "mem_bytes page_mem (of_nat a) (Suc n) = Some (replicate n CHR ''a'' @ [CHR 0x00])"
proof -
  have "map (\<lambda>i. if i = 4050 then CHR 0x00 else CHR ''a'') [a..<a + n] = replicate n CHR ''a''"
    using assms by (intro nth_equalityI) simp_all
  moreover have "[a..<a + Suc n] = [a..<a + n] @ [a + n]" by simp
  ultimately have "map (\<lambda>i. if i = 4050 then CHR 0x00 else CHR ''a'') [a..<a + Suc n]
      = replicate n CHR ''a'' @ [CHR 0x00]" using assms by (simp only: map_append) simp
  moreover have "a + Suc n \<le> 4096" using assms by simp
  ultimately show ?thesis using page_bytes [of a "Suc n"] by (simp only:)
qed

lemma page_end: "page_mem (4096 :: c_long) = None"
  by (simp add: page_mem_def)

lemma page_vm_steps:
  "i \<le> 15 \<Longrightarrow> length buf = 4096 \<Longrightarrow>
    \<exists>b. length b = 4096 \<and> umovestr_vm page_kernel 100 100 4096 0 buf
      = umovestr_vm page_kernel 100 (of_nat (100 + 256 * i)) (4096 - 256 * i) (256 * i) b"
proof (induction i)
  case (Suc i)
  then obtain b where b: "length b = 4096" "umovestr_vm page_kernel 100 100 4096 0 buf
      = umovestr_vm page_kernel 100 (of_nat (100 + 256 * i)) (4096 - 256 * i) (256 * i) b" by auto
  let ?bs = "map (\<lambda>i. if i = 4050 then CHR 0x00 else CHR ''a'') [100 + 256 * i..<100 + 256 * i + 256]"
  have i: "256 * i \<le> 3584" using Suc.prems(1) by simp
  have c: "chunk_len 100 (4096 - 256 * i) = 256"
    using i by (simp add: chunk_len_def Let_def min_absorb2)
  have r: "vm_readv page_kernel (of_nat (100 + 256 * i)) 256 = Inr ?bs"
    using page_bytes [of "100 + 256 * i" 256] i by (simp add: page_kernel_def del: of_nat_add of_nat_mult)
  have a: "of_nat (100 + 256 * i) + of_nat (length ?bs) = (of_nat (100 + 256 * Suc i) :: c_long)"
    by simp
  have nn: "CHR 0x00 \<notin> set ?bs" using i by auto
  have l: "length ?bs = 256" "4096 - 256 * i - 256 = 4096 - 256 * Suc i" "256 * i + 256 = 256 * Suc i"
    by simp_all
  have "blit b (256 * i) ?bs = Inr (take (256 * i) b @ ?bs @ drop (256 * i + 256) b)"
    using b(1) i by (simp add: blit_def)
  then have "umovestr_vm page_kernel 100 (of_nat (100 + 256 * i)) (4096 - 256 * i) (256 * i) b
      = umovestr_vm page_kernel 100 (of_nat (100 + 256 * Suc i)) (4096 - 256 * Suc i) (256 * Suc i)
          (take (256 * i) b @ ?bs @ drop (256 * i + 256) b)"
    using i nn by (subst umovestr_vm.simps) (simp only: c r Let_def sum.case sbind.simps a l, simp)
  moreover have "length (take (256 * i) b @ ?bs @ drop (256 * i + 256) b) = 4096"
    using b(1) i by simp
  ultimately show ?case using b(2) by metis
qed auto

text \<open>
  The chunks of the \<open>process_vm_readv\<close> loop cross a page boundary, which the code means to
  avoid: \<open>chunk_len\<close> looks at the address of the string, not at the address of the chunk. A string
  that starts at offset 100 of the last mapped page and ends with its NUL inside of that page is
  reported as unreadable.
\<close>

theorem umovestr_crosses_page:
  "mem_bytes page_mem 100 3951 = Some (replicate 3950 CHR ''a'' @ [CHR 0x00])
   \<and> honest page_kernel page_mem
   \<and> (\<exists>buf' ms. umovestr page_kernel 8 False 100 4096 (replicate 4096 CHR ''x'') = Inr (-1, buf', False, ms))"
proof (intro conjI)
  show "mem_bytes page_mem 100 3951 = Some (replicate 3950 CHR ''a'' @ [CHR 0x00])"
    using page_string [of 100 3950] by (simp only: of_nat_numeral) simp
  show "honest page_kernel page_mem" by (rule page_honest)
  obtain b where "umovestr_vm page_kernel 100 100 4096 0 (replicate 4096 CHR ''x'')
      = umovestr_vm page_kernel 100 (of_nat (100 + 256 * 15)) (4096 - 256 * 15) (256 * 15) b"
    using page_vm_steps [of 15 "replicate 4096 CHR ''x''"] by auto
  then have u: "umovestr_vm page_kernel 100 100 4096 0 (replicate 4096 CHR ''x'')
      = umovestr_vm page_kernel 100 3940 256 3840 b" by simp
  have "mem_bytes page_mem 4096 100 = None" using mem_bytes_first [of page_mem 4096 100] page_end by force
  then have "mem_bytes page_mem 3940 (156 + 100) = None"
    by (subst mem_bytes_add) (auto split: option.splits)
  then have v: "vm_readv page_kernel 3940 256 = Inl EFAULT" by (simp add: page_kernel_def)
  have "chunk_len 100 256 = 256" by (simp add: chunk_len_def)
  then have "\<exists>ms. umovestr_vm page_kernel 100 3940 256 3840 b = Inr (Inr (-1, b, ms))"
    by (subst umovestr_vm.simps) (simp add: v)
  with u show "\<exists>buf' ms. umovestr page_kernel 8 False 100 4096 (replicate 4096 CHR ''x'') = Inr (-1, buf', False, ms)"
    by (auto simp: umovestr_def narrow_addr_def)
qed

end
