(* ===== verification/Quote.thy ===== *)
theory Quote
  imports Prelude
begin

text \<open>
  Quoting of the tracee's strings: \<open>string_quote\<close> of \<^verbatim>\<open>src/strace/util.c\<close>. The reference is the
  meaning of a C string literal (\<open>c_unescape\<close>). The two printing loops share the interface
  \<open>escaper\<close>, which says that an escape, followed by what the loop writes next, is read back as
  the byte it stands for.
\<close>

abbreviation code :: "char \<Rightarrow> nat" where
  "code c \<equiv> of_char c"

lemma code_less [simp]: "code c < 256"
  using nat_of_char_less_256 [of c] by simp

subsection \<open>The program\<close>

text \<open>
  The first loop, with \<open>n = size - i\<close> bytes left at \<open>us = ustr + i\<close>: is there a byte that forces
  hexadecimal quoting? A read outside \<open>instr\<close> is a fault.
\<close>

fun needs_hex :: "nat \<Rightarrow> nat \<Rightarrow> string \<Rightarrow> fault + bool" where
  "needs_hex eol 0 us = Inr False"
| "needs_hex eol (Suc n) [] = Inl OutOfBounds"
| "needs_hex eol (Suc n) (c # us) =
    (if code c = eol then Inr False
     else if code c > 0x7e then Inr True
     else if code c < 0x20 \<and> unat (of_nat (code c) - 9 :: c_int) \<ge> 5 then Inr True
     else needs_hex eol n us)"

text \<open>The bodies of the two printing loops; \<open>nx\<close> is \<open>ustr[i + 1]\<close> if \<open>i + 1 < size\<close>.\<close>

definition esc_hex :: "char \<Rightarrow> char option \<Rightarrow> string" where
  "esc_hex c nx = [CHR 0x5C, CHR ''x'', digit_char (code c div 16), digit_char (code c mod 16)]"

definition oct_digit :: "nat \<Rightarrow> char" where
  "oct_digit d = char_of (48 + d)"

definition esc_octal :: "nat \<Rightarrow> char option \<Rightarrow> string" where
  "esc_octal c nx =
    CHR 0x5C #
    (case nx of
       Some d \<Rightarrow>
         if 48 \<le> code d \<and> code d \<le> 57 then [oct_digit (c div 64), oct_digit (c div 8 mod 8)]
         else if c div 8 \<noteq> 0 then
           (if c div 64 \<noteq> 0 then [oct_digit (c div 64)] else []) @ [oct_digit (c div 8 mod 8)]
         else []
     | None \<Rightarrow>
         if c div 8 \<noteq> 0 then
           (if c div 64 \<noteq> 0 then [oct_digit (c div 64)] else []) @ [oct_digit (c div 8 mod 8)]
         else []) @ [oct_digit (c mod 8)]"

definition esc_plain :: "char \<Rightarrow> char option \<Rightarrow> string" where
  "esc_plain c nx =
    (if c = CHR 0x22 \<or> c = CHR 0x5C then [CHR 0x5C, c]
     else if c = CHR 0x0C then [CHR 0x5C, CHR ''f'']
     else if c = CHR 0x0A then [CHR 0x5C, CHR ''n'']
     else if c = CHR 0x0D then [CHR 0x5C, CHR ''r'']
     else if c = CHR 0x09 then [CHR 0x5C, CHR ''t'']
     else if c = CHR 0x0B then [CHR 0x5C, CHR ''v'']
     else if 0x20 \<le> code c \<and> code c \<le> 0x7e then [c]
     else esc_octal (code c) nx)"

text \<open>
  A printing loop: the text it writes, and \<open>None\<close> for a jump to \<open>asciz_ended\<close>, otherwise the
  memory at \<open>ustr + i\<close> after the last turn.
\<close>

fun quote_loop ::
  "(char \<Rightarrow> char option \<Rightarrow> string) \<Rightarrow> nat \<Rightarrow> nat \<Rightarrow> string \<Rightarrow> fault + string \<times> string option" where
  "quote_loop esc eol 0 us = Inr ([], Some us)"
| "quote_loop esc eol (Suc n) [] = Inl OutOfBounds"
| "quote_loop esc eol (Suc n) (c # us) =
    (if code c = eol then Inr ([], None)
     else sbind (quote_loop esc eol n us) (\<lambda>(t, e).
       Inr (esc c (if n = 0 \<or> us = [] then None else Some (hd us)) @ t, e)))"

text \<open>
  The quoted text (without its terminating NUL) and the return value; \<open>xflag\<close> counts the
  options \<^verbatim>\<open>-x\<close>.
\<close>

definition string_quote :: "nat \<Rightarrow> string \<Rightarrow> int \<Rightarrow> int \<Rightarrow> fault + string \<times> int" where
  "string_quote xflag instr len sz =
    (let eol = (if len = -1 then 0 else 0x100);
         n = nat (if len = -1 then sz - 1 else sz)
     in sbind (if xflag > 1 then Inr True
               else if xflag \<noteq> 0 then needs_hex eol n instr else Inr False) (\<lambda>usehex.
        sbind (quote_loop (if usehex then esc_hex else esc_plain) eol n instr) (\<lambda>(t, e).
        (case e of
           None \<Rightarrow> Inr ([CHR 0x22] @ t @ [CHR 0x22], 0)
         | Some us \<Rightarrow>
             if len = -1 then
               (if us = [] then Inl OutOfBounds
                else Inr ([CHR 0x22] @ t @ [CHR 0x22], if hd us = CHR 0x00 then 0 else 1))
             else Inr ([CHR 0x22] @ t @ [CHR 0x22], 1)))))"

subsection \<open>The meaning of a C string literal\<close>

definition is_octal :: "char \<Rightarrow> bool" where
  "is_octal c \<longleftrightarrow> 48 \<le> code c \<and> code c \<le> 55"

definition is_xdigit :: "char \<Rightarrow> bool" where
  "is_xdigit c \<longleftrightarrow> (48 \<le> code c \<and> code c \<le> 57) \<or> (97 \<le> code c \<and> code c \<le> 102) \<or> (65 \<le> code c \<and> code c \<le> 70)"

definition xdigit_val :: "char \<Rightarrow> nat" where
  "xdigit_val c = (if code c \<le> 57 then code c - 48 else if code c \<le> 70 then code c - 55 else code c - 87)"

definition digits_val :: "nat \<Rightarrow> string \<Rightarrow> nat" where
  "digits_val b ds = foldl (\<lambda>v c. b * v + xdigit_val c) 0 ds"

text \<open>The escape sequences of ISO C after the backslash: the byte and the rest of the text.\<close>

fun c_escape :: "string \<Rightarrow> (char \<times> string) option" where
  "c_escape [] = None"
| "c_escape (c # t) =
    (if c = CHR ''x'' then
       (let ds = takeWhile is_xdigit t; v = digits_val 16 ds
        in if ds = [] \<or> v > 255 then None else Some (char_of v, dropWhile is_xdigit t))
     else if is_octal c then
       (let ds = take 3 (takeWhile is_octal (c # t)); v = digits_val 8 ds
        in if v > 255 then None else Some (char_of v, drop (length ds) (c # t)))
     else if c = CHR 0x22 \<or> c = CHR 0x5C \<or> c = CHR 0x27 \<or> c = CHR ''?'' then Some (c, t)
     else if c = CHR ''a'' then Some (CHR 0x07, t)
     else if c = CHR ''b'' then Some (CHR 0x08, t)
     else if c = CHR ''f'' then Some (CHR 0x0C, t)
     else if c = CHR ''n'' then Some (CHR 0x0A, t)
     else if c = CHR ''r'' then Some (CHR 0x0D, t)
     else if c = CHR ''t'' then Some (CHR 0x09, t)
     else if c = CHR ''v'' then Some (CHR 0x0B, t)
     else None)"

lemma c_escape_shorter: "c_escape s = Some (d, t) \<Longrightarrow> length t < length s"
proof (cases s)
  case (Cons c u)
  assume e: "c_escape s = Some (d, t)"
  have "length (dropWhile P u) < length s" for P
    using Cons length_dropWhile_le [of P u] by simp
  moreover have "is_octal c \<Longrightarrow> length (drop (length (take 3 (takeWhile is_octal s))) s) < length s"
    using Cons by simp
  ultimately show ?thesis using e Cons by (auto simp: Let_def split: if_splits)
qed simp

text \<open>The bytes of the literal with the given body; \<open>None\<close> if it is not a valid one.\<close>

function c_unescape :: "string \<Rightarrow> string option" where
  "c_unescape [] = Some []"
| "c_unescape (c # t) =
    (if c = CHR 0x5C then
       (case c_escape t of
          None \<Rightarrow> None
        | Some (d, u) \<Rightarrow> map_option ((#) d) (c_unescape u))
     else if c = CHR 0x22 \<or> c = CHR 0x0A then None
     else map_option ((#) c) (c_unescape t))"
  by pat_completeness auto
termination
  by (relation "measure length") (auto dest: c_escape_shorter simp: less_SucI)

subsection \<open>Escapes\<close>

text \<open>
  The interface of a printing loop. The text after an escape is empty or begins with the escape
  of the next byte, which the loop passes to \<open>esc\<close>.
\<close>

locale escaper =
  fixes esc :: "char \<Rightarrow> char option \<Rightarrow> string"
  assumes esc_short: "length (esc c nx) \<le> 4"
    and esc_last: "c_unescape (esc c nx) = Some [c]"
    and esc_next: "c_unescape (esc c (Some d) @ esc d nx @ t) = map_option ((#) c) (c_unescape (esc d nx @ t))"
begin

lemma loop_text:
  assumes "n \<le> length us"
  shows "\<exists>t. quote_loop esc eol n us = Inr (t, if eol \<in> code ` set (take n us) then None else Some (drop n us))
    \<and> length t \<le> 4 * n \<and> c_unescape t = Some (takeWhile (\<lambda>c. code c \<noteq> eol) (take n us))
    \<and> (t = [] \<or> (n > 0 \<and> (\<exists>nx u. t = esc (hd us) nx @ u)))"
  using assms
proof (induction n arbitrary: us)
  case (Suc n)
  then obtain c vs where us: "us = c # vs" "n \<le> length vs" by (cases us) auto
  show ?case
  proof (cases "code c = eol")
    case True
    then show ?thesis by (simp add: us)
  next
    case False
    let ?nx = "if n = 0 \<or> vs = [] then None else Some (hd vs)"
    from Suc.IH [OF us(2)] obtain t where t: "quote_loop esc eol n vs
        = Inr (t, if eol \<in> code ` set (take n vs) then None else Some (drop n vs))"
      "length t \<le> 4 * n" "c_unescape t = Some (takeWhile (\<lambda>c. code c \<noteq> eol) (take n vs))"
      "t = [] \<or> (n > 0 \<and> (\<exists>nx u. t = esc (hd vs) nx @ u))" by blast
    have "c_unescape (esc c ?nx @ t) = map_option ((#) c) (c_unescape t)"
    proof (cases "t = []")
      case True
      then show ?thesis by (simp add: esc_last)
    next
      case nt: False
      with t(4) obtain nx u where "n > 0" "t = esc (hd vs) nx @ u" by blast
      moreover from this us(2) have "vs \<noteq> []" by auto
      ultimately show ?thesis by (simp add: esc_next)
    qed
    then show ?thesis
      using False t esc_short [of c ?nx] by (auto simp: us)
  qed
qed simp

end

subsection \<open>Hexadecimal escapes\<close>

lemma xdigits: "d < 16 \<Longrightarrow> is_xdigit (digit_char d) \<and> xdigit_val (digit_char d) = d"
proof -
  have "\<forall>d \<in> set [0..<16]. is_xdigit (digit_char d) \<and> xdigit_val (digit_char d) = d" by code_simp
  then show "d < 16 \<Longrightarrow> ?thesis" by simp
qed

lemma not_xdigit_backslash [simp]: "\<not> is_xdigit CHR 0x5C" "\<not> is_octal CHR 0x5C" "\<not> is_octal CHR ''x''"
  by (simp_all add: is_xdigit_def is_octal_def)

lemma c_unescape_hex:
  assumes "t = [] \<or> \<not> is_xdigit (hd t)"
  shows "c_unescape (esc_hex c nx @ t) = map_option ((#) c) (c_unescape t)"
proof -
  let ?a = "digit_char (code c div 16)" and ?b = "digit_char (code c mod 16)"
  have "code c div 16 < 16" using code_less [of c] by (simp add: less_mult_imp_div_less del: code_less)
  then have x: "is_xdigit ?a" "xdigit_val ?a = code c div 16" "is_xdigit ?b" "xdigit_val ?b = code c mod 16"
    by (simp_all add: xdigits)
  have w: "takeWhile is_xdigit (?a # ?b # t) = [?a, ?b]" "dropWhile is_xdigit (?a # ?b # t) = t"
    using assms x by (cases t; simp)+
  have v: "digits_val 16 [?a, ?b] = code c" by (simp add: digits_val_def x)
  have "c_escape (CHR ''x'' # ?a # ?b # t) = Some (c, t)"
    using code_less [of c] by (simp only: c_escape.simps w v Let_def) (simp del: code_less)
  then show ?thesis by (simp add: esc_hex_def)
qed

interpretation hex: escaper esc_hex
proof unfold_locales
  show "length (esc_hex c nx) \<le> 4" for c nx by (simp add: esc_hex_def)
  show "c_unescape (esc_hex c nx) = Some [c]" for c nx using c_unescape_hex [of "[]" c nx] by simp
  show "c_unescape (esc_hex c (Some d) @ esc_hex d nx @ t) = map_option ((#) c) (c_unescape (esc_hex d nx @ t))"
    for c d nx t by (intro c_unescape_hex) (simp add: esc_hex_def)
qed

subsection \<open>Plain characters and octal escapes\<close>

lemma octal_digits: "d < 8 \<Longrightarrow> is_octal (oct_digit d) \<and> xdigit_val (oct_digit d) = d"
proof -
  have "\<forall>d \<in> set [0..<8]. is_octal (oct_digit d) \<and> xdigit_val (oct_digit d) = d" by code_simp
  then show "d < 8 \<Longrightarrow> ?thesis" by simp
qed

lemma c_escape_octal:
  assumes "ds \<noteq> []" "length ds \<le> 3" "\<forall>c \<in> set ds. is_octal c" "digits_val 8 ds \<le> 255"
    and "length ds = 3 \<or> t = [] \<or> \<not> is_octal (hd t)"
  shows "c_escape (ds @ t) = Some (char_of (digits_val 8 ds), t)"
proof -
  obtain c cs where "ds = c # cs" "is_octal c" using assms(1,3) by (cases ds) auto
  moreover have "c \<noteq> CHR ''x''" using \<open>is_octal c\<close> by (auto simp: is_octal_def)
  ultimately have ds: "ds = c # cs" "is_octal c" "c \<noteq> CHR ''x''" by simp_all
  have "take 3 (takeWhile is_octal (ds @ t)) = ds"
  proof (cases "length ds = 3")
    case True
    then show ?thesis using assms(3) by (simp add: takeWhile_append2)
  next
    case False
    then have "takeWhile is_octal t = []" using assms(5) by (cases t) auto
    then show ?thesis using assms(2,3) by (simp add: takeWhile_append2)
  qed
  then have w: "take 3 (takeWhile is_octal (c # cs @ t)) = c # cs" using ds by simp
  show ?thesis using ds assms(4)
    by (simp del: takeWhile.simps take_Suc_Cons take_Cons_numeral add: w Let_def)
qed

lemma esc_octal_digits:
  assumes "c < 256"
  shows "\<exists>ds. esc_octal c nx = CHR 0x5C # ds \<and> ds \<noteq> [] \<and> length ds \<le> 3 \<and> (\<forall>c \<in> set ds. is_octal c)
    \<and> digits_val 8 ds = c \<and> (\<forall>d. nx = Some d \<longrightarrow> 48 \<le> code d \<longrightarrow> code d \<le> 57 \<longrightarrow> length ds = 3)"
proof -
  define a where "a = c div 64"
  define b where "b = c div 8 mod 8"
  define e where "e = c mod 8"
  have "a < 8" using assms by (simp add: a_def less_mult_imp_div_less)
  then have o: "is_octal (oct_digit a)" "xdigit_val (oct_digit a) = a" by (simp_all add: octal_digits)
  have o2: "is_octal (oct_digit b)" "xdigit_val (oct_digit b) = b" "is_octal (oct_digit e)" "xdigit_val (oct_digit e) = e"
    by (simp_all add: octal_digits b_def e_def)
  have c8: "c = 8 * (c div 8) + e" "c div 8 = 8 * a + b" by (simp_all add: a_def b_def e_def div_mult2_eq [of c 8 8, simplified])
  note parts = a_def [symmetric] b_def [symmetric] e_def [symmetric]
  have full: "digits_val 8 [oct_digit a, oct_digit b, oct_digit e] = c"
    using c8 by (simp add: digits_val_def o o2)
  have two: "digits_val 8 [oct_digit b, oct_digit e] = c" if "a = 0"
    using c8 that by (simp add: digits_val_def o2)
  have one: "digits_val 8 [oct_digit e] = c" if "c div 8 = 0"
    using c8 that by (simp add: digits_val_def o2)
  show ?thesis
    unfolding esc_octal_def parts using o o2 full two one
    by (auto split: option.split)
qed

lemma c_unescape_octal:
  assumes "t = [] \<or> \<not> is_octal (hd t) \<or> (\<exists>d. nx = Some d \<and> 48 \<le> code d \<and> code d \<le> 57)"
  shows "c_unescape (esc_octal (code c) nx @ t) = map_option ((#) c) (c_unescape t)"
proof -
  obtain ds where ds: "esc_octal (code c) nx = CHR 0x5C # ds" "ds \<noteq> []" "length ds \<le> 3"
    "\<forall>c \<in> set ds. is_octal c" "digits_val 8 ds = code c"
    "\<forall>d. nx = Some d \<longrightarrow> 48 \<le> code d \<longrightarrow> code d \<le> 57 \<longrightarrow> length ds = 3"
    using esc_octal_digits [of "code c" nx] by auto
  have "c_escape (ds @ t) = Some (char_of (digits_val 8 ds), t)"
    using ds assms code_less [of c] by (intro c_escape_octal) (auto simp del: code_less)
  then show ?thesis using ds by simp
qed

lemma c_unescape_plain:
  assumes "t = [] \<or> \<not> is_octal (hd t) \<or> (\<exists>d. nx = Some d \<and> 48 \<le> code d \<and> code d \<le> 57)"
  shows "c_unescape (esc_plain c nx @ t) = map_option ((#) c) (c_unescape t)"
  by (simp add: esc_plain_def is_octal_def c_unescape_octal [OF assms])

lemma length_esc_plain: "length (esc_plain c nx) \<le> 4"
proof -
  obtain ds where "esc_octal (code c) nx = CHR 0x5C # ds" "length ds \<le> 3"
    using esc_octal_digits [of "code c" nx] by auto
  then show ?thesis by (simp add: esc_plain_def)
qed

lemma hd_esc_plain: "is_octal (hd (esc_plain d nx @ t)) \<Longrightarrow> 48 \<le> code d \<and> code d \<le> 57"
proof -
  have "hd (esc_octal (code d) nx @ t) = CHR 0x5C" by (simp add: esc_octal_def)
  then show "is_octal (hd (esc_plain d nx @ t)) \<Longrightarrow> ?thesis"
    by (auto simp: esc_plain_def is_octal_def split: if_splits)
qed

interpretation plain: escaper esc_plain
proof unfold_locales
  show "length (esc_plain c nx) \<le> 4" for c nx by (rule length_esc_plain)
  show "c_unescape (esc_plain c nx) = Some [c]" for c nx using c_unescape_plain [of "[]" nx c] by simp
  show "c_unescape (esc_plain c (Some d) @ esc_plain d nx @ t) = map_option ((#) c) (c_unescape (esc_plain d nx @ t))"
    for c d nx t using hd_esc_plain [of d nx t] by (intro c_unescape_plain) auto
qed

subsection \<open>The quoted string\<close>

lemma needs_hex_total: "n \<le> length us \<Longrightarrow> \<exists>b. needs_hex eol n us = Inr b"
proof (induction n arbitrary: us)
  case (Suc n)
  then show ?case by (cases us) auto
qed (auto intro: exI [of _ False])

text \<open>The bytes that are quoted: up to the NUL for a NUL-terminated string, else all of them.\<close>

definition quoted_bytes :: "string \<Rightarrow> int \<Rightarrow> int \<Rightarrow> string" where
  "quoted_bytes instr len sz =
    (if len = -1 then takeWhile (\<lambda>c. c \<noteq> CHR 0x00) (take (nat (sz - 1)) instr) else take (nat sz) instr)"

lemma quote_loop_any:
  assumes "n \<le> length us"
  shows "\<exists>t. quote_loop (if usehex then esc_hex else esc_plain) eol n us
      = Inr (t, if eol \<in> code ` set (take n us) then None else Some (drop n us))
    \<and> length t \<le> 4 * n \<and> c_unescape t = Some (takeWhile (\<lambda>c. code c \<noteq> eol) (take n us))"
  using hex.loop_text [OF assms, of eol] plain.loop_text [OF assms, of eol] by (cases usehex) auto

lemma code_0 [simp]: "code c = 0 \<longleftrightarrow> c = CHR 0x00" "0 = code c \<longleftrightarrow> c = CHR 0x00"
proof -
  show "code c = 0 \<longleftrightarrow> c = CHR 0x00" 
    using of_char_eq_iff [of c "CHR 0x00", where ?'a = nat] by simp
  then show "0 = code c \<longleftrightarrow> c = CHR 0x00" by metis
qed

lemma string_quote_ok:
  assumes "0 \<le> sz" "nat sz \<le> length instr" "len = -1 \<longrightarrow> 0 < sz"
  shows "\<exists>t r. string_quote xflag instr len sz = Inr ([CHR 0x22] @ t @ [CHR 0x22], r)
    \<and> c_unescape t = Some (quoted_bytes instr len sz)
    \<and> int (length ([CHR 0x22] @ t @ [CHR 0x22, CHR 0x00])) \<le> 3 + 4 * (if len = -1 then sz - 1 else sz)
    \<and> r = (if len = -1 \<and> CHR 0x00 \<in> set (take (nat sz) instr) then 0 else 1)"
proof -
  define eol :: nat where "eol = (if len = -1 then 0 else 0x100)"
  define n where "n = nat (if len = -1 then sz - 1 else sz)"
  have n: "n \<le> length instr" using assms by (auto simp: n_def)
  obtain usehex where h: "(if xflag > 1 then Inr True else if xflag \<noteq> 0 then needs_hex eol n instr
      else Inr False) = Inr usehex"
    using needs_hex_total [OF n, of eol] by (cases "xflag = 0"; cases "xflag > 1") auto
  obtain t where t: "quote_loop (if usehex then esc_hex else esc_plain) eol n instr
      = Inr (t, if eol \<in> code ` set (take n instr) then None else Some (drop n instr))"
    "length t \<le> 4 * n" "c_unescape t = Some (takeWhile (\<lambda>c. code c \<noteq> eol) (take n instr))"
    using quote_loop_any [OF n, of usehex eol] by auto
  note q = string_quote_def [of xflag instr len sz, folded eol_def n_def, unfolded Let_def h sbind.simps t(1)]
  show ?thesis
  proof (cases "len = -1")
    case True
    have e: "eol = 0" "n < length instr" "nat sz = Suc n" using True assms by (auto simp: eol_def n_def)
    then have "set (take (nat sz) instr) = insert (hd (drop n instr)) (set (take n instr))"
      by (simp add: take_Suc_conv_app_nth hd_drop_conv_nth)
    moreover have "drop n instr \<noteq> []" using e by simp
    moreover have "0 \<in> code ` set (take n instr) \<longleftrightarrow> CHR 0x00 \<in> set (take n instr)"
      by (auto simp: image_iff)
    moreover have "int (length t) \<le> 4 * (sz - 1)" using t(2) assms(3) True by (simp add: n_def)
    ultimately have "string_quote xflag instr len sz = Inr ([CHR 0x22] @ t @ [CHR 0x22],
        if CHR 0x00 \<in> set (take (nat sz) instr) then 0 else 1)"
      and "int (length t) \<le> 4 * (sz - 1)" unfolding q using True e(1) by auto
    then show ?thesis using True t(3) e by (simp add: quoted_bytes_def n_def)
  next
    case False
    then have "code c \<noteq> eol" for c using code_less [of c] by (auto simp: eol_def simp del: code_less)
    moreover from this have "eol \<notin> code ` A" for A by (metis imageE)
    moreover have "int (length t) \<le> 4 * sz" using t(2) assms(1) False by (simp add: n_def)
    ultimately show ?thesis
      unfolding q using False t(3) by (simp add: quoted_bytes_def n_def)
  qed
qed

text \<open>
  C5. \<open>string_quote\<close> is correct for every option \<^verbatim>\<open>-x\<close>: it never reads outside the first \<open>size\<close>
  bytes of its input, writes a C string literal whose bytes, read back by the rules of C, are
  the quoted bytes, and needs at most \<open>3 + 4 * size\<close> bytes for it with the terminating NUL
  (four bytes fewer for a NUL-terminated string, as \<open>printpathn\<close> relies on). It returns 0 exactly
  if a NUL-terminated string was expected and a NUL occurs in the \<open>size\<close> bytes.
\<close>

theorem string_quote_correct:
  assumes "0 \<le> sz" "nat sz \<le> length instr" "len = -1 \<longrightarrow> 0 < sz"
  shows "\<exists>t r. string_quote xflag instr len sz = Inr ([CHR 0x22] @ t @ [CHR 0x22], r)
    \<and> c_unescape t = Some (quoted_bytes instr len sz)
    \<and> int (length ([CHR 0x22] @ t @ [CHR 0x22, CHR 0x00])) \<le> 3 + 4 * (if len = -1 then sz - 1 else sz)
    \<and> r = (if len = -1 \<and> CHR 0x00 \<in> set (take (nat sz) instr) then 0 else 1)"
  using assms by (rule string_quote_ok)

theorem string_quote_correct_witness:
  "\<exists>t r. string_quote 0 (''a'' @ [CHR 0x01, CHR ''7'', CHR 0x0A, CHR 0xFF, CHR 0x00]) (-1) 6
      = Inr ([CHR 0x22] @ t @ [CHR 0x22], r)
    \<and> c_unescape t = Some (quoted_bytes (''a'' @ [CHR 0x01, CHR ''7'', CHR 0x0A, CHR 0xFF, CHR 0x00]) (-1) 6)
    \<and> int (length ([CHR 0x22] @ t @ [CHR 0x22, CHR 0x00])) \<le> 3 + 4 * (6 - 1)
    \<and> r = (0 :: int)"
proof -
  have "CHR 0x00 \<in> set (take (nat 6) (''a'' @ [CHR 0x01, CHR ''7'', CHR 0x0A, CHR 0xFF, CHR 0x00]))"
    by simp
  then show ?thesis
    using string_quote_correct [of 6 "''a'' @ [CHR 0x01, CHR ''7'', CHR 0x0A, CHR 0xFF, CHR 0x00]" "-1" 0]
    by simp
qed

end
