(* ===== verification/Print_Mem.thy ===== *)
theory Print_Mem
  imports Umove_Correct Quote
begin

text \<open>
  The printing functions of \<^verbatim>\<open>src/strace/util.c\<close> that fetch their operand from the tracee:
  \<open>printnum\<close>, \<open>printnum_int\<close>, \<open>printpathn\<close>, \<open>printpath\<close> and \<open>printstr\<close>, over \<open>umoven\<close>, \<open>umovestr\<close>
  and \<open>string_quote\<close>. A function yields the text it prints, the value of
  \<open>process_vm_readv_not_supported\<close> after it and the messages of the readers. Local and static
  buffers start with arbitrary contents, which are arguments here.
\<close>

subsection \<open>The program\<close>

type_synonym printed = "string \<times> bool \<times> um_msg list"

text \<open>The tracee as a printing function sees it: kernel, personality word size, the flag.\<close>

record tracee =
  tr_kernel :: kernel
  tr_wordsize :: nat
  tr_notsup :: bool

abbreviation tr_umoven :: "tracee \<Rightarrow> c_long \<Rightarrow> nat \<Rightarrow> string \<Rightarrow> fault + um_result" where
  "tr_umoven t \<equiv> umoven (tr_kernel t) (tr_wordsize t) (tr_notsup t)"

abbreviation tr_umovestr :: "tracee \<Rightarrow> c_long \<Rightarrow> nat \<Rightarrow> string \<Rightarrow> fault + um_result" where
  "tr_umovestr t \<equiv> umovestr (tr_kernel t) (tr_wordsize t) (tr_notsup t)"

text \<open>The number in memory order bytes.\<close>

definition bytes_num :: "string \<Rightarrow> nat" where
  "bytes_num bs = foldr (\<lambda>c v. code c + 256 * v) bs 0"

definition printnum :: "tracee \<Rightarrow> c_long \<Rightarrow> (c_long \<Rightarrow> string) \<Rightarrow> string \<Rightarrow> fault + printed" where
  "printnum t addr fmt num =
    (if addr = 0 then Inr (''NULL'', tr_notsup t, [])
     else sbind (tr_umoven t addr 8 num) (\<lambda>(r, num, ns, ms).
       if r < 0 then Inr (fmt_hx (unat addr), ns, ms)
       else Inr (''['' @ fmt (of_nat (bytes_num num)) @ '']'', ns, ms)))"

definition printnum_int :: "tracee \<Rightarrow> c_long \<Rightarrow> (c_int \<Rightarrow> string) \<Rightarrow> string \<Rightarrow> fault + printed" where
  "printnum_int t addr fmt num =
    (if addr = 0 then Inr (''NULL'', tr_notsup t, [])
     else sbind (tr_umoven t addr 4 num) (\<lambda>(r, num, ns, ms).
       if r < 0 then Inr (fmt_hx (unat addr), ns, ms)
       else Inr (''['' @ fmt (of_nat (bytes_num num)) @ '']'', ns, ms)))"

definition printuid :: "string \<Rightarrow> c_long \<Rightarrow> string" where
  "printuid txt uid = txt @ (if uid = - 1 then fmt_d (sint uid) else fmt_u (unat uid))"

text \<open>
  A quoted string written to a buffer of \<open>outsize\<close> bytes, with its terminating NUL, and printed.
\<close>

definition quote_into :: "nat \<Rightarrow> nat \<Rightarrow> string \<Rightarrow> int \<Rightarrow> int \<Rightarrow> fault + string \<times> int" where
  "quote_into outsize xflag instr len sz =
    sbind (string_quote xflag instr len sz) (\<lambda>(out, r).
      if length out + 1 \<le> outsize then Inr (out, r) else Inl OutOfBounds)"

abbreviation "MAXPATHLEN \<equiv> (4096 :: nat)"

text \<open>The comparison of \<open>n\<close> with \<open>sizeof path - 1\<close> is unsigned: a negative \<open>n\<close> is capped too.\<close>

definition printpathn :: "nat \<Rightarrow> tracee \<Rightarrow> c_long \<Rightarrow> int \<Rightarrow> string \<Rightarrow> fault + printed" where
  "printpathn xflag t addr n path =
    (if addr = 0 then Inr (''NULL'', tr_notsup t, [])
     else (let n = (if n < 0 \<or> n > int MAXPATHLEN then MAXPATHLEN else nat n)
       in sbind (tr_umovestr t addr (n + 1) path) (\<lambda>(nul_seen, path, ns, ms).
          if nul_seen < 0 then Inr (fmt_hx (unat addr), ns, ms)
          else if length path \<le> n then Inl OutOfBounds
          else sbind (quote_into (4 * (n + 1)) xflag (path[n := CHR 0x00]) (-1) (int n + 1)) (\<lambda>(out, _).
            Inr (out @ (if nul_seen = 0 then ''...'' else []), ns, ms)))))"

definition printpath :: "nat \<Rightarrow> tracee \<Rightarrow> c_long \<Rightarrow> string \<Rightarrow> fault + printed" where
  "printpath xflag t addr path = printpathn xflag t addr (int MAXPATHLEN) path"

text \<open>
  \<open>printstr\<close>: \<open>str\<close> is the static buffer of \<open>max_strlen + 1\<close> bytes, \<open>outstr_size\<close> the 32-bit size of
  the output buffer, whose overflow is checked. A negative \<open>len\<close> other than -1 is a large unsigned
  one.
\<close>

definition printstr :: "nat \<Rightarrow> nat \<Rightarrow> tracee \<Rightarrow> c_long \<Rightarrow> int \<Rightarrow> string \<Rightarrow> fault + printed" where
  "printstr max_strlen xflag t addr len str =
    (let outstr_size = unat (4 * of_nat max_strlen + 3 :: c_int)
     in if addr = 0 then Inr (''NULL'', tr_notsup t, [])
        else if outstr_size div 4 \<noteq> max_strlen then Inl OutOfMemory
        else (let sz = (if len = -1 then max_strlen + 1
                        else if len \<ge> 0 \<and> nat len < max_strlen then nat len else max_strlen)
          in sbind (if len = -1 then tr_umovestr t addr sz str else tr_umoven t addr sz str)
            (\<lambda>(r, str, ns, ms).
             if r < 0 then Inr (fmt_hx (unat addr), ns, ms)
             else sbind (quote_into outstr_size xflag str len (int sz)) (\<lambda>(out, q).
               Inr (out @ (if q \<noteq> 0 \<and> (len < 0 \<or> len > int max_strlen) then ''...'' else []), ns, ms)))))"

subsection \<open>Strings\<close>

text \<open>
  The bytes \<open>bs\<close> at \<open>a\<close> that a read of a string of at most \<open>len\<close> bytes has looked at: they include
  a NUL or are \<open>len\<close> many.
\<close>

definition fetched :: "nat \<Rightarrow> memory \<Rightarrow> c_long \<Rightarrow> nat \<Rightarrow> string \<Rightarrow> bool" where
  "fetched e mem a len bs \<longleftrightarrow> mem_bytes mem a (length bs) = Some bs \<and> length bs \<le> len + e
     \<and> (CHR 0x00 \<in> set bs \<or> length bs = len)"

lemma str_ok_fetched:
  assumes "str_ok e mem a len 0 buf r buf'" "r \<noteq> -1" "len \<le> length buf"
  obtains bs rest where "fetched e mem a len bs" "buf' = take len bs @ rest"
    "r = (if CHR 0x00 \<in> set bs then 1 else 0)" "length buf' = length buf"
proof (cases "r = 0")
  case True
  then obtain bs where "mem_bytes mem a len = Some bs" "CHR 0x00 \<notin> set bs" "buf' = bs @ drop len buf"
    using assms by (auto simp: str_ok_def)
  moreover from this have "length bs = len" by (auto dest: mem_bytes_length)
  ultimately show thesis using that [of bs "drop len buf"] True assms(3) by (simp add: fetched_def)
next
  case False
  then have "r = 1" using assms by (auto simp: str_ok_def)
  then obtain n bs where "n \<le> len + e" "mem_bytes mem a n = Some bs" "CHR 0x00 \<in> set bs"
    "buf' = take len bs @ drop (min n len) buf" "keeps buf 0 len buf'"
    using assms by (auto simp: str_ok_def)
  moreover from this have "length bs = n" by (auto dest: mem_bytes_length)
  ultimately show thesis using that [of bs "drop (min n len) buf"] \<open>r = 1\<close> assms(3)
    by (auto simp: fetched_def keeps_def)
qed

lemma fetched_asciz:
  assumes "fetched e mem a (Suc m) bs"
  shows "takeWhile (\<lambda>c. c \<noteq> CHR 0x00) (take m (take (Suc m) bs @ rest)) = takeWhile (\<lambda>c. c \<noteq> CHR 0x00) (take m bs)"
    and "CHR 0x00 \<in> set (take (Suc m) (take (Suc m) bs @ rest)) \<longleftrightarrow> CHR 0x00 \<in> set (take (Suc m) bs) \<or> 
      (length bs < Suc m)"
proof -
  have *: "length bs \<le> m \<Longrightarrow> CHR 0x00 \<in> set bs" using assms by (auto simp: fetched_def)
  show "takeWhile (\<lambda>c. c \<noteq> CHR 0x00) (take m (take (Suc m) bs @ rest)) = takeWhile (\<lambda>c. c \<noteq> CHR 0x00) (take m bs)"
  proof (cases "length bs \<le> m")
    case True
    then show ?thesis using takeWhile_append1 [OF * [OF True]] by simp
  next
    case False
    then show ?thesis by simp
  qed
  show "CHR 0x00 \<in> set (take (Suc m) (take (Suc m) bs @ rest)) \<longleftrightarrow> CHR 0x00 \<in> set (take (Suc m) bs) \<or> 
      (length bs < Suc m)"
    using * by (cases "length bs \<le> m") auto
qed

lemma quote_into_ok:
  assumes "0 \<le> sz" "nat sz \<le> length instr" "len = -1 \<longrightarrow> 0 < sz"
    and "3 + 4 * (if len = -1 then sz - 1 else sz) \<le> int outsize"
  obtains t where "quote_into outsize xflag instr len sz = Inr ([CHR 0x22] @ t @ [CHR 0x22],
      if len = -1 \<and> CHR 0x00 \<in> set (take (nat sz) instr) then 0 else 1)"
    "c_unescape t = Some (quoted_bytes instr len sz)"
proof -
  obtain t where t: "string_quote xflag instr len sz = Inr ([CHR 0x22] @ t @ [CHR 0x22],
      if len = -1 \<and> CHR 0x00 \<in> set (take (nat sz) instr) then 0 else 1)"
    "c_unescape t = Some (quoted_bytes instr len sz)"
    "int (length ([CHR 0x22] @ t @ [CHR 0x22, CHR 0x00])) \<le> 3 + 4 * (if len = -1 then sz - 1 else sz)"
    using string_quote_ok [OF assms(1-3), of xflag] by blast
  then have "length ([CHR 0x22] @ t @ [CHR 0x22]) + 1 \<le> outsize" using assms(4) by simp
  with t show thesis by (intro that) (simp_all add: quote_into_def)
qed

text \<open>
  What a printed string says of the tracee's bytes \<open>bs\<close>: a C literal of them, and dots.
\<close>

definition literal :: "string \<Rightarrow> string \<Rightarrow> bool \<Rightarrow> bool" where
  "literal out bs dots \<longleftrightarrow>
    (\<exists>t. out = [CHR 0x22] @ t @ [CHR 0x22] @ (if dots then ''...'' else []) \<and> c_unescape t = Some bs)"

lemma quoted_asciz:
  assumes "fetched e mem a (Suc m) bs" "buf' = take (Suc m) bs @ rest" "m < length buf'"
    and "4 * m + 3 \<le> outsize"
  shows "\<exists>out. quote_into outsize xflag buf' (-1) (int m + 1)
      = Inr (out, if CHR 0x00 \<in> set (take (Suc m) bs) then 0 else 1)
    \<and> literal out (takeWhile (\<lambda>c. c \<noteq> CHR 0x00) (take m bs)) False"
proof -
  have n: "nat (int m + 1) = Suc m" "nat (int m + 1 - 1) = m" by auto
  have "CHR 0x00 \<in> set bs" if "length bs \<le> m" using assms(1) that by (auto simp: fetched_def)
  then have seen: "CHR 0x00 \<in> set (take (Suc m) buf') \<longleftrightarrow> CHR 0x00 \<in> set (take (Suc m) bs)"
    using fetched_asciz(2) [OF assms(1), of rest] unfolding assms(2) by auto
  obtain t where "quote_into outsize xflag buf' (-1) (int m + 1) = Inr ([CHR 0x22] @ t @ [CHR 0x22],
      if -1 = (-1 :: int) \<and> CHR 0x00 \<in> set (take (nat (int m + 1)) buf') then 0 else 1)"
    "c_unescape t = Some (quoted_bytes buf' (-1) (int m + 1))"
    by (rule quote_into_ok [of "int m + 1" buf' "-1" outsize xflag]) (use assms(3,4) n in auto)
  then show ?thesis
    using fetched_asciz(1) [OF assms(1), of rest] seen
    by (auto simp: literal_def quoted_bytes_def n assms(2) simp del: take_append)
qed

lemma outstr_size: "m < 2 ^ 30 \<Longrightarrow> unat (4 * of_nat m + 3 :: c_int) = 4 * m + 3"
  by (simp add: unat_word_ariths unat_of_nat take_bit_eq_mod)

lemma printstr_asciz:
  assumes "honest (tr_kernel t) mem" "length str = max_strlen + 1" "max_strlen < 2 ^ 30" "addr \<noteq> 0"
  shows "\<exists>out ns ms. printstr max_strlen xflag t addr (-1) str = Inr (out, ns, ms)
    \<and> (out = fmt_hx (unat addr)
       \<or> (\<exists>bs. fetched 7 mem (narrow_addr (tr_wordsize t) addr) (Suc max_strlen) bs
            \<and> literal out (takeWhile (\<lambda>c. c \<noteq> CHR 0x00) (take max_strlen bs))
                (CHR 0x00 \<notin> set (take (Suc max_strlen) bs))))"
proof -
  note p = printstr_def [of max_strlen xflag t addr "-1" str, unfolded Let_def outstr_size [OF assms(3)]]
  obtain r str' ns ms where r: "tr_umovestr t addr (max_strlen + 1) str = Inr (r, str', ns, ms)"
    "str_ok (if ns then 7 else 0) mem (narrow_addr (tr_wordsize t) addr) (max_strlen + 1) 0 str r str'"
    by (rule movestr.readE [OF assms(1), of "max_strlen + 1" str "tr_wordsize t" "tr_notsup t" addr])
      (use assms(2) in simp)
  show ?thesis
  proof (cases "r = -1")
    case True
    then show ?thesis using r assms(4) by (simp add: p)
  next
    case False
    obtain bs rest where bs: "fetched (if ns then 7 else 0) mem (narrow_addr (tr_wordsize t) addr) (max_strlen + 1) bs"
      "str' = take (max_strlen + 1) bs @ rest" "r = (if CHR 0x00 \<in> set bs then 1 else 0)" "length str' = length str"
      by (rule str_ok_fetched [OF r(2) False]) (simp_all add: assms(2))
    obtain out where out: "quote_into (4 * max_strlen + 3) xflag str' (-1) (int max_strlen + 1)
        = Inr (out, if CHR 0x00 \<in> set (take (Suc max_strlen) bs) then 0 else 1)"
      "literal out (takeWhile (\<lambda>c. c \<noteq> CHR 0x00) (take max_strlen bs)) False"
      using quoted_asciz [of _ mem _ max_strlen bs str' rest] bs assms(2) by fastforce
    have "fetched 7 mem (narrow_addr (tr_wordsize t) addr) (Suc max_strlen) bs"
      using bs(1) by (auto simp: fetched_def split: if_splits)
    with r bs out assms(4) show ?thesis by (auto simp: p literal_def add.commute)
  qed
qed

lemma printstr_counted:
  assumes "honest (tr_kernel t) mem" "length str = max_strlen + 1" "max_strlen < 2 ^ 30" "addr \<noteq> 0"
    and "0 \<le> len"
  shows "\<exists>out ns ms. printstr max_strlen xflag t addr len str = Inr (out, ns, ms)
    \<and> (out = fmt_hx (unat addr)
       \<or> (\<exists>bs. mem_bytes mem (narrow_addr (tr_wordsize t) addr) (min (nat len) max_strlen) = Some bs
            \<and> literal out bs (nat len > max_strlen)))"
proof -
  define sz where "sz = min (nat len) max_strlen"
  have sz: "(if len \<ge> 0 \<and> nat len < max_strlen then nat len else max_strlen) = sz" "sz \<le> max_strlen"
    using assms(5) by (auto simp: sz_def)
  have "len \<noteq> -1" using assms(5) by simp
  note p = printstr_def [of max_strlen xflag t addr len str, unfolded Let_def outstr_size [OF assms(3)] sz(1)]
  obtain r str' ns ms where r: "tr_umoven t addr sz str = Inr (r, str', ns, ms)"
    "read_ok mem (narrow_addr (tr_wordsize t) addr) sz 0 str r str'" "length str' = length str"
    by (rule moven.readE [OF assms(1), of sz str "tr_wordsize t" "tr_notsup t" addr]) (use assms(2) sz in simp)
  show ?thesis
  proof (cases "r = 0")
    case True
    then obtain bs where bs: "mem_bytes mem (narrow_addr (tr_wordsize t) addr) sz = Some bs" "str' = bs @ drop sz str"
      using r(2) by (auto simp: read_ok_def)
    then have "length bs = sz" by (auto dest: mem_bytes_length)
    obtain u where u: "quote_into (4 * max_strlen + 3) xflag str' len (int sz) = Inr ([CHR 0x22] @ u @ [CHR 0x22],
        if len = -1 \<and> CHR 0x00 \<in> set (take (nat (int sz)) str') then 0 else 1)"
      "c_unescape u = Some (quoted_bytes str' len (int sz))"
      by (rule quote_into_ok [of "int sz" str' len "4 * max_strlen + 3" xflag])
        (use r(3) assms(2,5) sz in auto)
    have "quoted_bytes str' len (int sz) = bs"
      using assms(5) bs \<open>length bs = sz\<close> by (simp add: quoted_bytes_def)
    moreover have "printstr max_strlen xflag t addr len str = Inr ([CHR 0x22] @ u @ [CHR 0x22]
        @ (if nat len > max_strlen then ''...'' else []), ns, ms)"
      using True r(1) u(1) \<open>len \<noteq> -1\<close> assms(4,5) by (auto simp: p)
    ultimately show ?thesis using bs(1) u(2) by (auto simp: literal_def simp flip: sz_def)
  next
    case False
    then have "r = -1" using r(2) by (auto simp: read_ok_def)
    then show ?thesis using \<open>len \<noteq> -1\<close> r assms(4) by (simp add: p)
  qed
qed



text \<open>
  \<open>printpathn\<close> on an honest kernel never leaves its buffers and prints the address in
  hexadecimal if the memory is unreadable, otherwise a C literal of the path's bytes before its
  NUL, at most \<open>n\<close> of them, followed by dots exactly if no NUL was seen in the bytes that were
  fetched.
\<close>

theorem printpathn_correct:
  assumes "honest (tr_kernel t) mem" "length path = MAXPATHLEN + 1" "addr \<noteq> 0"
    and "m = (if n < 0 \<or> n > int MAXPATHLEN then MAXPATHLEN else nat n)"
  shows "\<exists>out ns ms. printpathn xflag t addr n path = Inr (out, ns, ms)
    \<and> (out = fmt_hx (unat addr)
       \<or> (\<exists>bs. fetched (if ns then 7 else 0) mem (narrow_addr (tr_wordsize t) addr) (Suc m) bs
            \<and> literal out (takeWhile (\<lambda>c. c \<noteq> CHR 0x00) (take m bs)) (CHR 0x00 \<notin> set bs)))"
proof -
  note p = printpathn_def [of xflag t addr n path, folded assms(4), unfolded Let_def]
  have m: "m + 1 \<le> length path" using assms(2,4) by auto
  obtain r path' ns ms where r: "tr_umovestr t addr (m + 1) path = Inr (r, path', ns, ms)"
    "str_ok (if ns then 7 else 0) mem (narrow_addr (tr_wordsize t) addr) (m + 1) 0 path r path'"
    by (rule movestr.readE [OF assms(1) m, of "tr_wordsize t" "tr_notsup t" addr])
  show ?thesis
  proof (cases "r = -1")
    case True
    then show ?thesis using r assms(3) by (simp add: p)
  next
    case False
    obtain bs rest where bs: "fetched (if ns then 7 else 0) mem (narrow_addr (tr_wordsize t) addr) (m + 1) bs"
      "path' = take (m + 1) bs @ rest" "r = (if CHR 0x00 \<in> set bs then 1 else 0)" "length path' = length path"
      by (rule str_ok_fetched [OF r(2) False m])
    let ?p = "path'[m := CHR 0x00]"
    have n: "nat (int m + 1) = Suc m" "nat (int m + 1 - 1) = m" by auto
    obtain u where u: "quote_into (4 * (m + 1)) xflag ?p (-1) (int m + 1) = Inr ([CHR 0x22] @ u @ [CHR 0x22],
        if -1 = (-1 :: int) \<and> CHR 0x00 \<in> set (take (nat (int m + 1)) ?p) then 0 else 1)"
      "c_unescape u = Some (quoted_bytes ?p (-1) (int m + 1))"
      by (rule quote_into_ok [of "int m + 1" ?p "-1" "4 * (m + 1)" xflag]) (use m bs(4) in auto)
    have "take m ?p = take m path'" by simp
    then have "quoted_bytes ?p (-1) (int m + 1) = takeWhile (\<lambda>c. c \<noteq> CHR 0x00) (take m bs)"
      using fetched_asciz(1) [of _ mem _ m bs rest] bs(1,2) by (simp add: quoted_bytes_def n del: take_append)
    with r u bs assms(3) m show ?thesis
      by (intro exI [of _ "[CHR 0x22] @ u @ [CHR 0x22] @ (if CHR 0x00 \<notin> set bs then ''...'' else [])"]
          exI [of _ ns] exI [of _ ms] conjI disjI2 exI [of _ bs]) (auto simp: p literal_def)
  qed
qed

theorem printpathn_correct_witness:
  "\<exists>out ns ms. printpathn 0 \<lparr>tr_kernel = uniform_kernel, tr_wordsize = 8, tr_notsup = False\<rparr> 1 5
      (replicate 4097 CHR ''x'') = Inr (out, ns, ms)
    \<and> (out = fmt_hx (unat (1 :: c_long))
       \<or> (\<exists>bs. fetched (if ns then 7 else 0) (uniform_mem CHR ''a'') (narrow_addr 8 1) (Suc 5) bs
            \<and> literal out (takeWhile (\<lambda>c. c \<noteq> CHR 0x00) (take 5 bs)) (CHR 0x00 \<notin> set bs)))"
  using printpathn_correct [of "\<lparr>tr_kernel = uniform_kernel, tr_wordsize = 8, tr_notsup = False\<rparr>"
      "uniform_mem CHR ''a''" "replicate 4097 CHR ''x''" 1 5 5 0] uniform_honest by simp

subsection \<open>Numbers\<close>

lemma read_num:
  assumes "honest (tr_kernel t) mem" "length num = n"
  obtains r num' ns ms where "tr_umoven t addr n num = Inr (r, num', ns, ms)"
    "r = -1 \<or> (r = 0 \<and> mem_bytes mem (narrow_addr (tr_wordsize t) addr) n = Some num')"
proof -
  obtain r num' ns ms where r: "tr_umoven t addr n num = Inr (r, num', ns, ms)"
    "read_ok mem (narrow_addr (tr_wordsize t) addr) n 0 num r num'"
    by (rule moven.readE [OF assms(1), of n num "tr_wordsize t" "tr_notsup t" addr]) (use assms(2) in simp)
  then show thesis using that assms(2) by (auto simp: read_ok_def)
qed

text \<open>
  \<open>printnum\<close> and \<open>printnum_int\<close> on an honest kernel print the tracee's number at the address in
  brackets, or the address if it cannot be read; the uninitialised local variable is never shown.
\<close>

theorem printnum_correct:
  assumes "honest (tr_kernel t) mem" "length num8 = 8" "length num4 = 4" "addr \<noteq> 0"
  shows "\<exists>out out' ns ns' ms ms'. printnum t addr fmt num8 = Inr (out, ns, ms)
    \<and> (out = fmt_hx (unat addr) \<or> (\<exists>bs. mem_bytes mem (narrow_addr (tr_wordsize t) addr) 8 = Some bs
         \<and> out = ''['' @ fmt (of_nat (bytes_num bs)) @ '']''))
    \<and> printnum_int t addr fmt' num4 = Inr (out', ns', ms')
    \<and> (out' = fmt_hx (unat addr) \<or> (\<exists>bs. mem_bytes mem (narrow_addr (tr_wordsize t) addr) 4 = Some bs
         \<and> out' = ''['' @ fmt' (of_nat (bytes_num bs)) @ '']''))"
proof -
  obtain r b ns ms where "tr_umoven t addr 8 num8 = Inr (r, b, ns, ms)"
    "r = -1 \<or> (r = 0 \<and> mem_bytes mem (narrow_addr (tr_wordsize t) addr) 8 = Some b)"
    using read_num [OF assms(1,2)] by metis
  moreover obtain r' b' ns' ms' where "tr_umoven t addr 4 num4 = Inr (r', b', ns', ms')"
    "r' = -1 \<or> (r' = 0 \<and> mem_bytes mem (narrow_addr (tr_wordsize t) addr) 4 = Some b')"
    using read_num [OF assms(1,3)] by metis
  ultimately show ?thesis using assms(4) by (auto simp: printnum_def printnum_int_def)
qed

theorem printnum_correct_witness:
  "\<exists>out out' ns ns' ms ms'.
     printnum \<lparr>tr_kernel = uniform_kernel, tr_wordsize = 8, tr_notsup = True\<rparr> 3 (\<lambda>w. fmt_d (sint w)) ''abcdefgh''
       = Inr (out, ns, ms)
    \<and> (out = fmt_hx (unat (3 :: c_long)) \<or> (\<exists>bs. mem_bytes (uniform_mem CHR ''a'') (narrow_addr 8 3) 8 = Some bs
         \<and> out = ''['' @ fmt_d (sint (of_nat (bytes_num bs) :: c_long)) @ '']''))
    \<and> printnum_int \<lparr>tr_kernel = uniform_kernel, tr_wordsize = 8, tr_notsup = True\<rparr> 3 (\<lambda>w. fmt_d (sint w)) ''abcd''
       = Inr (out', ns', ms')
    \<and> (out' = fmt_hx (unat (3 :: c_long)) \<or> (\<exists>bs. mem_bytes (uniform_mem CHR ''a'') (narrow_addr 8 3) 4 = Some bs
         \<and> out' = ''['' @ fmt_d (sint (of_nat (bytes_num bs) :: c_int)) @ '']''))"
  using printnum_correct [of "\<lparr>tr_kernel = uniform_kernel, tr_wordsize = 8, tr_notsup = True\<rparr>"
      "uniform_mem CHR ''a''" "''abcdefgh''" "''abcd''" 3 "\<lambda>w. fmt_d (sint w)" "\<lambda>w. fmt_d (sint w)"] uniform_honest
  by simp

end
