(* ===== verification/Dumpstr.thy ===== *)
theory Dumpstr
  imports Print_Mem
begin

text \<open>
  The hex dump of the data of a read or write (\<open>dumpstr\<close> of \<^verbatim>\<open>src/strace/util.c\<close>). Each line is
  composed in a 72-byte buffer that is filled with blanks once; the code skips the blanks
  between its columns. The reference is the text of a line, column by column.
\<close>

subsection \<open>The program\<close>

text \<open>Space-padding of the fetched bytes to a multiple of 16.\<close>

function pad_16 :: "string \<Rightarrow> nat \<Rightarrow> fault + string" where
  "pad_16 str i =
    (if i mod 16 = 0 then Inr str
     else sbind (blit str i '' '') (\<lambda>str. pad_16 str (i + 1)))"
  by pat_completeness auto
termination
proof (relation "measure (\<lambda>(str, i). (16 - i mod 16) mod 16)")
  fix str str' :: string and i :: nat
  assume "i mod 16 \<noteq> 0"
  then show "((str', i + 1), str, i) \<in> measure (\<lambda>(str, i). (16 - i mod 16) mod 16)"
    by (cases "i mod 16 = 15") (auto simp: mod_Suc)
qed simp

text \<open>
  One line's hexadecimal columns and its characters: \<open>i\<close> is the index of the byte, \<open>dst\<close> the
  position in \<open>outbuf\<close>. Both loops end when \<open>i\<close> reaches the next multiple of 16.
\<close>

function dump_hex :: "string \<Rightarrow> nat \<Rightarrow> nat \<Rightarrow> string \<Rightarrow> nat \<Rightarrow> fault + string \<times> nat" where
  "dump_hex str len i outbuf dst =
    (if length str \<le> i then Inl OutOfBounds
     else sbind (blit outbuf dst (if i < len then [digit_char (code (str ! i) div 16), digit_char (code (str ! i) mod 16)]
                                  else ''  '')) (\<lambda>outbuf.
       (let dst = dst + 3 + (if (i + 1) mod 8 = 0 then 1 else 0)
        in if (i + 1) mod 16 = 0 then Inr (outbuf, dst) else dump_hex str len (i + 1) outbuf dst)))"
  by pat_completeness auto
termination
  by (relation "measure (\<lambda>(str, len, i, outbuf, dst). 15 - i mod 16)") (auto simp: mod_Suc split: if_splits)

function dump_ascii :: "string \<Rightarrow> nat \<Rightarrow> string \<Rightarrow> nat \<Rightarrow> fault + string \<times> nat" where
  "dump_ascii str i outbuf dst =
    (if length str \<le> i then Inl OutOfBounds
     else sbind (blit outbuf dst [if 0x20 \<le> code (str ! i) \<and> code (str ! i) < 0x7f then str ! i else CHR ''.''])
       (\<lambda>outbuf. if (i + 1) mod 16 = 0 then Inr (outbuf, dst + 1) else dump_ascii str (i + 1) outbuf (dst + 1)))"
  by pat_completeness auto
termination
  by (relation "measure (\<lambda>(str, i, outbuf, dst). 15 - i mod 16)") (auto simp: mod_Suc split: if_splits)

declare pad_16.simps [simp del] dump_hex.simps [simp del] dump_ascii.simps [simp del]

function dump_lines :: "string \<Rightarrow> nat \<Rightarrow> nat \<Rightarrow> string \<Rightarrow> fault + string" where
  "dump_lines str len i outbuf =
    (if i < len then
       sbind (dump_hex str len i outbuf 0) (\<lambda>(outbuf, dst).
       sbind (dump_ascii str i outbuf dst) (\<lambda>(outbuf, dst).
       sbind (blit outbuf dst [CHR 0x00]) (\<lambda>outbuf.
       sbind (dump_lines str len (i + 16) outbuf) (\<lambda>rest.
         Inr ('' | '' @ pad_left 5 CHR ''0'' (fmt_x i) @ ''  '' @ takeWhile (\<lambda>c. c \<noteq> CHR 0x00) outbuf
              @ '' |'' @ [CHR 0x0A] @ rest)))))
     else Inr [])"
  by pat_completeness auto
termination
  by (relation "measure (\<lambda>(str, len, i, outbuf). len - i)") auto

declare dump_lines.simps [simp del]

text \<open>\<open>str\<close> is the static buffer, of at least \<open>len + 16\<close> bytes when it is read into.\<close>

definition dumpstr :: "tracee \<Rightarrow> c_long \<Rightarrow> nat \<Rightarrow> string \<Rightarrow> fault + printed" where
  "dumpstr t addr len str =
    sbind (tr_umoven t addr len str) (\<lambda>(r, str, ns, ms).
      if r < 0 then Inr ([], ns, ms)
      else sbind (pad_16 str len) (\<lambda>str.
           sbind (dump_lines str len 0 (replicate 72 CHR '' '')) (\<lambda>out.
             Inr (out, ns, ms))))"

subsection \<open>The text of a dump\<close>

definition hex_cell :: "string \<Rightarrow> nat \<Rightarrow> string" where
  "hex_cell bs i =
    (if i < length bs then [digit_char (code (bs ! i) div 16), digit_char (code (bs ! i) mod 16)] else ''  '')
    @ (if i mod 8 = 7 then ''  '' else '' '')"

definition ascii_cell :: "string \<Rightarrow> nat \<Rightarrow> char" where
  "ascii_cell bs i =
    (if i < length bs then (if 0x20 \<le> code (bs ! i) \<and> code (bs ! i) < 0x7f then bs ! i else CHR ''.'')
     else CHR '' '')"

definition dump_line :: "string \<Rightarrow> nat \<Rightarrow> string" where
  "dump_line bs q =
    '' | '' @ pad_left 5 CHR ''0'' (fmt_x (16 * q)) @ ''  ''
    @ concat (map (hex_cell bs) [16 * q..<16 * q + 16]) @ map (ascii_cell bs) [16 * q..<16 * q + 16]
    @ '' |'' @ [CHR 0x0A]"

definition dump_text :: "string \<Rightarrow> string" where
  "dump_text bs = concat (map (dump_line bs) [0..<(length bs + 15) div 16])"

subsection \<open>The dump is the text\<close>

lemma pad_16_ok:
  "16 * ((i + 15) div 16) \<le> length str \<Longrightarrow>
    pad_16 str i = Inr (take i str @ replicate (16 * ((i + 15) div 16) - i) CHR '' '' @ drop (16 * ((i + 15) div 16)) str)"
proof (induction str i rule: pad_16.induct)
  case (1 str i)
  show ?case
  proof (cases "i mod 16 = 0")
    case True
    then have "(i + 15) div 16 = i div 16" by (intro div_nat_eqI) (auto simp: mult_div_mod_eq)
    then have "16 * ((i + 15) div 16) = i" using True by (simp add: mod_eq_0_iff_dvd)
    with True show ?thesis by (simp add: pad_16.simps [of str i])
  next
    case False
    define n where "n = 16 * ((i + 15) div 16)"
    obtain d m where i: "i = 16 * d + m" "0 < m" "m < 16"
      using False by (metis mult_div_mod_eq mod_less_divisor gr0I zero_less_numeral)
    have "(i + 15) div 16 = d + 1" "(i + 1 + 15) div 16 = d + 1"
      by (rule div_nat_eqI; use i in simp)+
    then have n: "16 * ((i + 1 + 15) div 16) = n" "i + 1 \<le> n" using i by (simp_all add: n_def)
    let ?s = "take i str @ '' '' @ drop (i + 1) str"
    have len: "n \<le> length str" using "1.prems" by (simp add: n_def)
    have b: "blit str i '' '' = Inr ?s" using len n by (simp add: blit_fit)
    have "pad_16 ?s (i + 1) = Inr (take (i + 1) ?s @ replicate (n - (i + 1)) CHR '' '' @ drop n ?s)"
      using "1.IH" [OF False b] len n by simp
    moreover have "take (i + 1) ?s @ replicate (n - (i + 1)) CHR '' '' @ drop n ?s
        = take i str @ replicate (n - i) CHR '' '' @ drop n str"
    proof -
      obtain k where "n = Suc (i + k)" using n(2) by (auto simp: le_iff_add)
      then show ?thesis using len by (simp add: Suc_diff_le add.commute)
    qed
    ultimately show ?thesis using False b by (simp add: pad_16.simps [of str i] flip: n_def)
  qed
qed

text \<open>The column of the \<open>j\<close>-th byte of a line, and the blanks the code relies on.\<close>

definition col :: "nat \<Rightarrow> nat" where
  "col j = 3 * j + j div 8"

lemma col_Suc: "col (Suc j) = col j + 3 + (if Suc j mod 8 = 0 then 1 else 0)"
proof -
  have "Suc j div 8 = j div 8 + (if Suc j mod 8 = 0 then 1 else 0)" by (simp add: div_Suc)
  then show ?thesis by (simp add: col_def)
qed

lemma col_mono: "i \<le> j \<Longrightarrow> col i \<le> col j"
  by (simp add: col_def add_mono div_le_mono)

definition gaps :: "string \<Rightarrow> bool" where
  "gaps ob \<longleftrightarrow> length ob = 72 \<and> (\<forall>j < 16. \<forall>p. col j + 2 \<le> p \<longrightarrow> p < col (Suc j) \<longrightarrow> ob ! p = CHR '' '')"

lemma gaps_init: "gaps (replicate 72 CHR '' '')"
proof -
  have "p < 72" if "j < 16" "p < col (Suc j)" for p j
    using col_mono [of "Suc j" 16] that by (simp add: col_def)
  then show ?thesis by (auto simp: gaps_def)
qed

lemma gaps_blit:
  assumes "gaps ob" "j < 16" "length ab = 2"
  shows "gaps (take (col j) ob @ ab @ drop (col j + 2) ob)"
proof -
  have "(take (col j) ob @ ab @ drop (col j + 2) ob) ! p = ob ! p"
    if "i < 16" "col i + 2 \<le> p" "p < col (Suc i)" for i p
  proof (cases "i < j")
    case True
    then have "p < col j" using that col_mono [of "Suc i" j] by simp
    moreover have "col j \<le> 50" using col_mono [of j 16] assms(2) by (simp add: col_def)
    ultimately show ?thesis using assms(1) by (simp add: nth_append gaps_def)
  next
    case False
    then have "col j + 2 \<le> p" using that col_mono [of j i] by simp
    moreover have "p < 72" using that col_mono [of "Suc i" 16] by (simp add: col_def)
    moreover have "col j + 2 \<le> 72" using calculation by simp
    moreover obtain d where "p = col j + 2 + d" using calculation(1) by (auto simp: le_iff_add)
    ultimately show ?thesis
      using assms nth_append_length_plus [of "take (col j) ob @ ab" "drop (col j + 2) ob" d]
      by (simp add: gaps_def)
  qed
  moreover have "col j \<le> 48" using assms(2) col_mono [of j 15] by (simp add: col_def)
  ultimately show ?thesis using assms(1,3) by (simp add: gaps_def)
qed

lemma gaps_cell:
  assumes "gaps ob" "j < 16" "length ab = 2"
  shows "take (col (Suc j)) (take (col j) ob @ ab @ drop (col j + 2) ob)
    = take (col j) ob @ ab @ (if Suc j mod 8 = 0 then ''  '' else '' '')"
proof -
  let ?n = "1 + (if Suc j mod 8 = 0 then 1 else 0)"
  have c: "col (Suc j) = col j + 2 + ?n" by (simp add: col_Suc)
  have "col (Suc j) \<le> col 16" using assms(2) by (intro col_mono) simp
  then have l: "length ob = 72" "col j + 2 + ?n \<le> 50"
    using assms(1) by (simp_all add: gaps_def c col_def [of 16])
  have "take ?n (drop (col j + 2) ob) = replicate ?n CHR '' ''"
    using assms(1,2) l by (intro nth_equalityI) (auto simp: gaps_def c less_Suc_eq)
  moreover have "replicate ?n CHR '' '' = (if Suc j mod 8 = 0 then ''  '' else '' '')" by (simp add: numeral_eq_Suc [of "num.Bit0 num.One"])
  ultimately show ?thesis using l assms(3) by (simp add: c)
qed

lemma gaps_upper:
  assumes "gaps ob" "50 \<le> d" "d + length cs \<le> 72"
  shows "gaps (take d ob @ cs @ drop (d + length cs) ob)"
proof -
  have "p < d" if "j < 16" "p < col (Suc j)" for p j
    using col_mono [of "Suc j" 16] that assms(2) by (simp add: col_def [of 16])
  then show ?thesis using assms by (auto simp: gaps_def nth_append)
qed

lemma dump_hex_ok:
  assumes "16 * q + 16 \<le> length str" "len \<le> length str"
  shows "gaps ob \<Longrightarrow> j < 16 \<Longrightarrow> \<exists>ob'. dump_hex str len (16 * q + j) ob (col j) = Inr (ob', 50) \<and> gaps ob'
    \<and> take 50 ob' = take (col j) ob @ concat (map (hex_cell (take len str)) [16 * q + j..<16 * q + 16])"
proof (induction "15 - j" arbitrary: j ob rule: less_induct)
  case less
  define i where "i = 16 * q + j"
  define ab where "ab = (if i < len then [digit_char (code (str ! i) div 16), digit_char (code (str ! i) mod 16)] else ''  '')"
  let ?ob = "take (col j) ob @ ab @ drop (col j + 2) ob"
  have ab: "length ab = 2" by (simp add: ab_def)
  have mods: "(i + 1) mod 8 = Suc j mod 8" "(i + 1) mod 16 = Suc j mod 16" "i mod 8 = j mod 8"
    unfolding i_def using mod_mult_self4 [of 8 "2 * q" "Suc j"] mod_mult_self4 [of 8 "2 * q" j]
      mod_mult_self4 [of 16 q "Suc j"] by simp_all
  have cell: "hex_cell (take len str) i = ab @ (if Suc j mod 8 = 0 then ''  '' else '' '')"
    using assms(2) less.prems(2) by (simp add: hex_cell_def ab_def mods mod_Suc)
  have "col j \<le> 48" using less.prems(2) col_mono [of j 15] by (simp add: col_def)
  then have b: "blit ob (col j) ab = Inr ?ob" using less.prems(1) ab by (simp add: blit_fit gaps_def)
  have i: "i < length str" using assms(1) less.prems(2) by (simp add: i_def)
  have eq: "dump_hex str len i ob (col j) = (if Suc j mod 16 = 0 then Inr (?ob, col (Suc j))
      else dump_hex str len (Suc i) ?ob (col (Suc j)))"
    using i b mods by (simp add: dump_hex.simps [of str len i] col_Suc Let_def flip: ab_def)
  have g: "gaps ?ob" using gaps_blit [OF less.prems(1,2) ab] .
  have tk: "take (col (Suc j)) ?ob = take (col j) ob @ hex_cell (take len str) i"
    using gaps_cell [OF less.prems(1,2) ab] cell by simp
  show ?case
  proof (cases "j = 15")
    case True
    then have l: "[i..<16 * q + 16] = [i]" by (simp add: i_def upt_rec)
    have c: "col (Suc j) = 50" using True by (simp add: col_def)
    then have "dump_hex str len i ob (col j) = Inr (?ob, 50)" using eq True by simp
    moreover have "take 50 ?ob = take (col j) ob @ concat (map (hex_cell (take len str)) [i..<16 * q + 16])"
      using tk c l by simp
    ultimately show ?thesis using g unfolding i_def by blast
  next
    case False
    then have j: "Suc j < 16" "15 - Suc j < 15 - j" using less.prems(2) by auto
    have "[i..<16 * q + 16] = i # [Suc i..<16 * q + 16]" using j by (simp add: i_def upt_rec)
    then show ?thesis using less.hyps [OF j(2) g j(1)] eq j tk by (auto simp: i_def)
  qed
qed

lemma dump_ascii_ok:
  assumes "16 * q + 16 \<le> length str"
  shows "gaps ob \<Longrightarrow> j < 16 \<Longrightarrow> \<exists>ob'. dump_ascii str (16 * q + j) ob (50 + j) = Inr (ob', 66) \<and> gaps ob'
    \<and> take 66 ob' = take (50 + j) ob @ map (ascii_cell str) [16 * q + j..<16 * q + 16]"
proof (induction "15 - j" arbitrary: j ob rule: less_induct)
  case less
  define i where "i = 16 * q + j"
  have i: "i < length str" using assms(1) less.prems(2) by (simp add: i_def)
  let ?ob = "take (50 + j) ob @ [ascii_cell str i] @ drop (50 + j + 1) ob"
  have b: "blit ob (50 + j) [ascii_cell str i] = Inr ?ob"
    using less.prems by (simp add: blit_fit gaps_def)
  have m: "(i + 1) mod 16 = Suc j mod 16"
    unfolding i_def using mod_mult_self4 [of 16 q "Suc j"] by simp
  have eq: "dump_ascii str i ob (50 + j) = (if Suc j mod 16 = 0 then Inr (?ob, 50 + Suc j)
      else dump_ascii str (Suc i) ?ob (50 + Suc j))"
    using i b m by (simp add: dump_ascii.simps [of str i] ascii_cell_def)
  have g: "gaps ?ob" using gaps_upper [of ob "50 + j" "[ascii_cell str i]"] less.prems by simp
  have tk: "take (50 + Suc j) ?ob = take (50 + j) ob @ [ascii_cell str i]"
    using less.prems by (simp add: gaps_def)
  show ?case
  proof (cases "j = 15")
    case True
    then have l: "[i..<16 * q + 16] = [i]" by (simp add: i_def upt_rec)
    have "dump_ascii str i ob (50 + j) = Inr (?ob, 66)" using eq True by simp
    moreover have "take 66 ?ob = take (50 + j) ob @ map (ascii_cell str) [i..<16 * q + 16]"
      using tk True l by simp
    ultimately show ?thesis using g unfolding i_def by blast
  next
    case False
    then have j: "Suc j < 16" "15 - Suc j < 15 - j" using less.prems(2) by auto
    have "[i..<16 * q + 16] = i # [Suc i..<16 * q + 16]" using j by (simp add: i_def upt_rec)
    then show ?thesis using less.hyps [OF j(2) g j(1)] eq j tk by (auto simp: i_def)
  qed
qed

lemma digit_char_not_NUL: "d < 16 \<Longrightarrow> digit_char d \<noteq> CHR 0x00"
proof -
  have "\<forall>d \<in> set [0..<16]. digit_char d \<noteq> CHR 0x00" by code_simp
  then show "d < 16 \<Longrightarrow> ?thesis" by simp
qed

lemma cells_not_NUL: "CHR 0x00 \<notin> set (hex_cell bs i)" "ascii_cell bs i \<noteq> CHR 0x00"
proof -
  have "code c div 16 < 16" for c using code_less [of c] by (simp add: less_mult_imp_div_less del: code_less)
  then show "CHR 0x00 \<notin> set (hex_cell bs i)"
    by (auto simp: hex_cell_def dest!: sym [of "CHR 0x00"] simp: digit_char_not_NUL)
  show "ascii_cell bs i \<noteq> CHR 0x00" by (auto simp: ascii_cell_def)
qed
lemma dump_line_ok:
  assumes "16 * q + 16 \<le> length str" "len \<le> length str" "gaps ob" "16 * q < len"
    and "\<forall>i < 16 * q + 16. len \<le> i \<longrightarrow> str ! i = CHR '' ''"
  shows "\<exists>ob'. gaps ob' \<and> dump_lines str len (16 * q) ob
    = sbind (dump_lines str len (16 * Suc q) ob') (\<lambda>rest. Inr (dump_line (take len str) q @ rest))"
proof -
  let ?bs = "take len str"
  let ?hex = "concat (map (hex_cell ?bs) [16 * q..<16 * q + 16])"
  let ?asc = "map (ascii_cell str) [16 * q..<16 * q + 16]"
  obtain ob1 where 1: "dump_hex str len (16 * q) ob 0 = Inr (ob1, 50)" "gaps ob1" "take 50 ob1 = ?hex"
    using dump_hex_ok [OF assms(1-3), of 0] by (auto simp: col_def)
  obtain ob2 where 2: "dump_ascii str (16 * q) ob1 50 = Inr (ob2, 66)" "gaps ob2" "take 66 ob2 = ?hex @ ?asc"
    using dump_ascii_ok [OF assms(1) 1(2), of 0] 1(3) by auto
  define ob3 where "ob3 = take 66 ob2 @ [CHR 0x00] @ drop 67 ob2"
  have 3: "blit ob2 66 [CHR 0x00] = Inr ob3" "gaps ob3"
    using 2(2) gaps_upper [OF 2(2), of 66 "[CHR 0x00]"] by (simp_all add: blit_def gaps_def ob3_def)
  have "ascii_cell str i = ascii_cell ?bs i" if "i < 16 * q + 16" for i
    using that assms(1,2,5) by (auto simp: ascii_cell_def)
  then have asc: "?asc = map (ascii_cell ?bs) [16 * q..<16 * q + 16]" by simp
  have "CHR 0x00 \<notin> set (?hex @ ?asc)" 
    by (auto simp: cells_not_NUL(1) cells_not_NUL(2) [THEN not_sym])
  then have "takeWhile (\<lambda>c. c \<noteq> CHR 0x00) ob3 = ?hex @ map (ascii_cell ?bs) [16 * q..<16 * q + 16]"
    unfolding ob3_def 2(3) asc by (subst takeWhile_append2) auto
  then show ?thesis
    using 1(1) 2(1) 3 assms(4)
    by (intro exI [of _ ob3]) (simp add: dump_lines.simps [of str len "16 * q"] dump_line_def add.commute)
qed

lemma dump_lines_ok:
  assumes "16 * ((len + 15) div 16) \<le> length str" "len \<le> length str"
    and "\<forall>i < 16 * ((len + 15) div 16). len \<le> i \<longrightarrow> str ! i = CHR '' ''"
  shows "gaps ob \<Longrightarrow> dump_lines str len (16 * q) ob
    = Inr (concat (map (dump_line (take len str)) [q..<(len + 15) div 16]))"
proof (induction "(len + 15) div 16 - q" arbitrary: q ob)
  case 0
  then have "(len + 15) div 16 < Suc q" by simp
  then have "len + 15 < Suc q * 16" by (simp only: div_less_iff_less_mult zero_less_numeral)
  then have "len \<le> 16 * q" by simp
  with 0 show ?case by (simp add: dump_lines.simps [of str len "16 * q"])
next
  case (Suc n)
  then have q: "Suc q \<le> (len + 15) div 16" by simp
  then have "16 * Suc q \<le> len + 15" by (simp add: less_eq_div_iff_mult_less_eq mult.commute)
  then have ql: "16 * q < len" by simp
  have "16 * q + 16 \<le> 16 * ((len + 15) div 16)" using q by simp
  then obtain ob' where "gaps ob'" "dump_lines str len (16 * q) ob
    = sbind (dump_lines str len (16 * Suc q) ob') (\<lambda>rest. Inr (dump_line (take len str) q @ rest))"
    using dump_line_ok [of q str len ob] assms Suc.prems ql by fastforce
  moreover have "dump_lines str len (16 * Suc q) ob'
      = Inr (concat (map (dump_line (take len str)) [Suc q..<(len + 15) div 16]))"
    using Suc.hyps(1) [of "Suc q" ob'] Suc.hyps(2) \<open>gaps ob'\<close> by simp
  moreover have "[q..<(len + 15) div 16] = q # [Suc q..<(len + 15) div 16]" using q by (simp add: upt_rec)
  ultimately show ?case by simp
qed



end
