(* ===== verification/Timeval.thy ===== *)
theory Timeval
  imports Prelude
begin

text \<open>
  The time values of \<^verbatim>\<open>strace/util.c\<close>: \<open>struct timeval\<close> and the routines
  \<open>tv_nz\<close>, \<open>tv_cmp\<close>, \<open>tv_add\<close>, \<open>tv_sub\<close>, \<open>tv_div\<close>, \<open>tv_mul\<close>. The fields are
  64-bit signed integers whose overflow is undefined in C; they are \<open>int\<close> here, and
  \<open>tv_mul_fits\<close> and \<open>tv_div_fits\<close> give bounds under which no intermediate value leaves
  the 64-bit range. Division is C's truncating \<open>sdiv\<close>/\<open>smod\<close>. \<open>tv_usecs\<close> is the
  abstraction: the number of microseconds a value stands for.
\<close>

record timeval =
  tv_sec :: int
  tv_usec :: int

definition tv_nz :: "timeval \<Rightarrow> bool" where
  "tv_nz a \<longleftrightarrow> tv_sec a \<noteq> 0 \<or> tv_usec a \<noteq> 0"

definition tv_cmp :: "timeval \<Rightarrow> timeval \<Rightarrow> int" where
  "tv_cmp a b =
     (if tv_sec a < tv_sec b \<or> (tv_sec a = tv_sec b \<and> tv_usec a < tv_usec b) then -1
      else if tv_sec a > tv_sec b \<or> (tv_sec a = tv_sec b \<and> tv_usec a > tv_usec b) then 1
      else 0)"

definition tv_add :: "timeval \<Rightarrow> timeval \<Rightarrow> timeval" where
  "tv_add a b =
     (let s = tv_sec a + tv_sec b; u = tv_usec a + tv_usec b
      in if u \<ge> 1000000 then \<lparr>tv_sec = s + 1, tv_usec = u - 1000000\<rparr>
         else \<lparr>tv_sec = s, tv_usec = u\<rparr>)"

definition tv_sub :: "timeval \<Rightarrow> timeval \<Rightarrow> timeval" where
  "tv_sub a b =
     (let s = tv_sec a - tv_sec b; u = tv_usec a - tv_usec b
      in if u < 0 then \<lparr>tv_sec = s - 1, tv_usec = u + 1000000\<rparr>
         else \<lparr>tv_sec = s, tv_usec = u\<rparr>)"

definition tv_div :: "timeval \<Rightarrow> int \<Rightarrow> timeval" where
  "tv_div a n =
     (let u = (tv_sec a smod n * 1000000 + tv_usec a + n sdiv 2) sdiv n
      in \<lparr>tv_sec = tv_sec a sdiv n + u sdiv 1000000, tv_usec = u smod 1000000\<rparr>)"

definition tv_mul :: "timeval \<Rightarrow> int \<Rightarrow> timeval" where
  "tv_mul a n =
     (let u = tv_usec a * n
      in \<lparr>tv_sec = tv_sec a * n + u sdiv 1000000, tv_usec = u smod 1000000\<rparr>)"

subsection \<open>Normal form and abstraction to microseconds\<close>

definition tv_norm :: "timeval \<Rightarrow> bool" where
  "tv_norm a \<longleftrightarrow> 0 \<le> tv_usec a \<and> tv_usec a < 1000000"

definition tv_usecs :: "timeval \<Rightarrow> int" where
  "tv_usecs a = tv_sec a * 1000000 + tv_usec a"

definition tv_zero :: timeval where
  "tv_zero = \<lparr>tv_sec = 0, tv_usec = 0\<rparr>"

lemma tv_zero_simps [simp]:
  "tv_sec tv_zero = 0" "tv_usec tv_zero = 0" "tv_norm tv_zero" "tv_usecs tv_zero = 0"
  by (simp_all add: tv_zero_def tv_norm_def tv_usecs_def)

lemma tv_eqI: "tv_sec (a :: timeval) = tv_sec b \<Longrightarrow> tv_usec a = tv_usec b \<Longrightarrow> a = b"
  by simp

lemma tv_usecs_split:
  "tv_norm a \<Longrightarrow> tv_sec a = tv_usecs a div 1000000 \<and> tv_usec a = tv_usecs a mod 1000000"
  by (simp add: tv_norm_def tv_usecs_def)

lemma tv_usecs_inj: "tv_norm a \<Longrightarrow> tv_norm b \<Longrightarrow> tv_usecs a = tv_usecs b \<Longrightarrow> a = b"
  by (rule tv_eqI) (simp_all add: tv_usecs_split)

lemma tv_add_norm [tv_simps, intro]: "tv_norm a \<Longrightarrow> tv_norm b \<Longrightarrow> tv_norm (tv_add a b)"
  by (auto simp: tv_norm_def tv_add_def Let_def)

lemma tv_sub_norm [tv_simps, intro]: "tv_norm a \<Longrightarrow> tv_norm b \<Longrightarrow> tv_norm (tv_sub a b)"
  by (auto simp: tv_norm_def tv_sub_def Let_def)

lemma tv_usecs_add [tv_simps]: "tv_usecs (tv_add a b) = tv_usecs a + tv_usecs b"
  by (auto simp: tv_usecs_def tv_add_def Let_def algebra_simps)

lemma tv_usecs_sub [tv_simps]: "tv_usecs (tv_sub a b) = tv_usecs a - tv_usecs b"
  by (auto simp: tv_usecs_def tv_sub_def Let_def algebra_simps)

lemma tv_cmp_less [tv_simps]:
  "tv_norm a \<Longrightarrow> tv_norm b \<Longrightarrow> tv_cmp a b < 0 \<longleftrightarrow> tv_usecs a < tv_usecs b"
  by (auto simp: tv_cmp_def tv_norm_def tv_usecs_def)

lemma tv_cmp_greater [tv_simps]:
  "tv_norm a \<Longrightarrow> tv_norm b \<Longrightarrow> 0 < tv_cmp a b \<longleftrightarrow> tv_usecs b < tv_usecs a"
  by (auto simp: tv_cmp_def tv_norm_def tv_usecs_def)

lemma tv_cmp_eq_0: "tv_cmp a b = 0 \<longleftrightarrow> a = b"
  by (auto simp: tv_cmp_def)

lemma tv_mul_nonneg:
  assumes "tv_norm a" and "0 \<le> n"
  shows "tv_norm (tv_mul a n) \<and> tv_usecs (tv_mul a n) = tv_usecs a * n"
proof -
  let ?u = "tv_usec a * n"
  from assms have u: "0 \<le> ?u" by (simp add: tv_norm_def)
  then have "?u sdiv 1000000 = ?u div 1000000" "?u smod 1000000 = ?u mod 1000000"
    by (simp_all add: sdiv_nonneg_eq smod_nonneg_eq)
  moreover have "?u div 1000000 * 1000000 + ?u mod 1000000 = ?u" by simp
  ultimately show ?thesis
    by (simp add: tv_mul_def tv_norm_def tv_usecs_def Let_def distrib_right)
qed

lemma div_mod_combine:
  fixes s n r :: int
  assumes "0 < n"
  shows "s div n * k + ((s mod n) * k + r) div n = (s * k + r) div n"
proof -
  have "(s * k + r) = (s div n * k) * n + ((s mod n) * k + r)"
    by (simp add: algebra_simps flip: distrib_left [of k])
  then have "(s * k + r) div n = (s div n * k) + ((s mod n) * k + r) div n"
    using assms by (metis div_mult_self3 less_numeral_extra(3))
  then show ?thesis by simp
qed

lemma tv_div_pos:
  assumes "tv_norm a" and "0 \<le> tv_sec a" and "0 < n"
  shows "tv_norm (tv_div a n) \<and> tv_usecs (tv_div a n) = (tv_usecs a + n div 2) div n"
proof -
  let ?w = "tv_sec a mod n * 1000000 + tv_usec a + n div 2"
  from assms have w: "0 \<le> ?w" by (simp add: tv_norm_def)
  then have w': "0 \<le> ?w div n" using assms(3) by (simp add: pos_imp_zdiv_nonneg_iff)
  have eq: "tv_div a n = \<lparr>tv_sec = tv_sec a div n + ?w div n div 1000000,
                          tv_usec = ?w div n mod 1000000\<rparr>"
    using assms w w' by (simp add: tv_div_def Let_def sdiv_nonneg_eq smod_nonneg_eq)
  have "tv_sec a div n * 1000000 + ?w div n
      = (tv_sec a * 1000000 + (tv_usec a + n div 2)) div n"
    using div_mod_combine [OF assms(3), of "tv_sec a" 1000000 "tv_usec a + n div 2"]
    by (simp add: algebra_simps)
  moreover have "?w div n div 1000000 * 1000000 + ?w div n mod 1000000 = ?w div n" by simp
  ultimately show ?thesis
    by (simp add: eq tv_norm_def tv_usecs_def distrib_right algebra_simps)
qed

text \<open>
  The C code computes \<open>tv_div\<close> in 64-bit signed integers: with a 32-bit divisor no
  intermediate value overflows, and neither does \<open>tv_mul\<close> for less than \<open>2\<^sup>31\<close> seconds.
\<close>

lemma tv_div_fits:
  assumes "tv_norm a" and "0 \<le> tv_sec a" and "0 < n" and "n < 2 ^ 31"
  shows "tv_sec a smod n * 1000000 + tv_usec a + n sdiv 2 < 2 ^ 63"
proof -
  have "tv_sec a mod n < n" using assms(3) by simp
  then have "tv_sec a mod n < 2 ^ 31" using assms(4) by linarith
  moreover have "n div 2 < 2 ^ 31" using assms(3,4) by simp
  moreover have "tv_sec a smod n = tv_sec a mod n" "n sdiv 2 = n div 2"
    using assms by (simp_all add: sdiv_nonneg_eq smod_nonneg_eq)
  ultimately show ?thesis using assms(1) by (simp add: tv_norm_def)
qed

lemma tv_mul_fits:
  assumes "tv_norm a" and "0 \<le> tv_sec a" and "tv_sec a < 2 ^ 31" and "0 \<le> n" and "n < 2 ^ 31"
  shows "tv_usec a * n < 2 ^ 63 \<and> tv_sec a * n + tv_usec a * n sdiv 1000000 < 2 ^ 63"
proof -
  have u: "tv_usec a * n \<le> 999999 * (2 ^ 31 - 1)"
    using assms(1,4,5) by (intro mult_mono) (auto simp: tv_norm_def)
  have s: "tv_sec a * n \<le> (2 ^ 31 - 1) * (2 ^ 31 - 1)"
    using assms(2-5) by (intro mult_mono) auto
  have "0 \<le> tv_usec a * n" using assms(1,4) by (simp add: tv_norm_def)
  then have "tv_usec a * n sdiv 1000000 = tv_usec a * n div 1000000"
    by (simp add: sdiv_nonneg_eq)
  with u s show ?thesis by auto
qed

subsection \<open>The interface of time values\<close>

text \<open>
  What the accounting code relies on: addition and subtraction act on microseconds and
  keep the normal form, and the comparison decides the order of microseconds.
\<close>

locale time_value =
  fixes add :: "'t \<Rightarrow> 't \<Rightarrow> 't" and sub :: "'t \<Rightarrow> 't \<Rightarrow> 't"
    and cmp :: "'t \<Rightarrow> 't \<Rightarrow> int" and usecs :: "'t \<Rightarrow> int" and norm :: "'t \<Rightarrow> bool"
  assumes norm_add: "norm a \<Longrightarrow> norm b \<Longrightarrow> norm (add a b)"
    and norm_sub: "norm a \<Longrightarrow> norm b \<Longrightarrow> norm (sub a b)"
    and usecs_add: "usecs (add a b) = usecs a + usecs b"
    and usecs_sub: "usecs (sub a b) = usecs a - usecs b"
    and usecs_inj: "norm a \<Longrightarrow> norm b \<Longrightarrow> usecs a = usecs b \<Longrightarrow> a = b"
    and cmp_less: "norm a \<Longrightarrow> norm b \<Longrightarrow> cmp a b < 0 \<longleftrightarrow> usecs a < usecs b"
    and cmp_greater: "norm a \<Longrightarrow> norm b \<Longrightarrow> 0 < cmp a b \<longleftrightarrow> usecs b < usecs a"
begin

lemma add_sub_cancel: "norm a \<Longrightarrow> norm b \<Longrightarrow> add (sub a b) b = a"
  by (rule usecs_inj) (simp_all add: norm_add norm_sub usecs_add usecs_sub)

lemma add_assoc: "norm a \<Longrightarrow> norm b \<Longrightarrow> norm c \<Longrightarrow> add (add a b) c = add a (add b c)"
  by (rule usecs_inj) (simp_all add: norm_add usecs_add)

lemma norm_fold_add: "norm z \<Longrightarrow> (\<And>x. x \<in> set xs \<Longrightarrow> norm x) \<Longrightarrow> norm (fold (\<lambda>x t. add t x) xs z)"
  by (induction xs arbitrary: z) (auto simp: norm_add)

lemma usecs_fold_add: "usecs (fold (\<lambda>x t. add t x) xs z) = usecs z + (\<Sum>x\<leftarrow>xs. usecs x)"
  by (induction xs arbitrary: z) (auto simp: usecs_add)

lemma cmp_zero:
  assumes "norm a" and "norm b" and "cmp a b = 0"
  shows "a = b"
proof (rule usecs_inj [OF assms(1,2)])
  show "usecs a = usecs b"
    using cmp_less [OF assms(1,2)] cmp_greater [OF assms(1,2)] assms(3) by simp
qed

lemma cmp_trans:
  "norm a \<Longrightarrow> norm b \<Longrightarrow> norm c \<Longrightarrow> cmp a b < 0 \<Longrightarrow> cmp b c < 0 \<Longrightarrow> cmp a c < 0"
  by (simp add: cmp_less)

end

interpretation tv: time_value tv_add tv_sub tv_cmp tv_usecs tv_norm
  by unfold_locales
    (fact tv_add_norm tv_sub_norm tv_usecs_add tv_usecs_sub tv_usecs_inj tv_cmp_less tv_cmp_greater)+

text \<open>
  \<open>tv_div\<close> (used to print the average time per call) divides the microseconds of a
  non-negative normalised time by a positive count, rounding to nearest, and leaves the
  quotient normalised; no step of the computation leaves the 64-bit range for a 32-bit count.
\<close>

theorem tv_div_rounds:
  assumes "tv_norm a" and "0 \<le> tv_sec a" and "0 < n" and "n < 2 ^ 31"
  shows "tv_usecs (tv_div a n) = (tv_usecs a + n div 2) div n \<and> tv_norm (tv_div a n)
    \<and> tv_sec a smod n * 1000000 + tv_usec a + n sdiv 2 < 2 ^ 63"
  using tv_div_pos [OF assms(1-3)] tv_div_fits [OF assms] by blast

theorem tv_div_rounds_witness:
  "tv_usecs (tv_div \<lparr>tv_sec = 5, tv_usec = 500001\<rparr> 2) = 2750001"
proof -
  let ?a = "\<lparr>tv_sec = 5, tv_usec = 500001\<rparr>"
  have h: "tv_norm ?a" "0 \<le> tv_sec ?a" "0 < (2::int)" "(2::int) < 2 ^ 31"
    by (simp_all add: tv_norm_def)
  show ?thesis using tv_div_rounds [OF h] by (simp add: tv_usecs_def)
qed

text \<open>
  \<open>tv_sub\<close> and \<open>tv_add\<close> are exact on normalised times: adding back what was
  subtracted restores the time, and \<open>tv_cmp\<close> orders normalised times as their
  microsecond counts.
\<close>

theorem tv_add_sub_exact:
  assumes "tv_norm a" and "tv_norm b"
  shows "tv_add (tv_sub a b) b = a
    \<and> (tv_cmp a b < 0 \<longleftrightarrow> tv_usecs a < tv_usecs b)
    \<and> (tv_cmp a b > 0 \<longleftrightarrow> tv_usecs a > tv_usecs b)
    \<and> (tv_cmp a b = 0 \<longleftrightarrow> a = b)"
  using assms by (simp only: tv.add_sub_cancel tv.cmp_less tv.cmp_greater tv_cmp_eq_0 simp_thms)

theorem tv_add_sub_exact_witness:
  "tv_add (tv_sub \<lparr>tv_sec = 3, tv_usec = 1\<rparr> \<lparr>tv_sec = 1, tv_usec = 999999\<rparr>)
     \<lparr>tv_sec = 1, tv_usec = 999999\<rparr> = \<lparr>tv_sec = 3, tv_usec = 1\<rparr>"
proof -
  have h: "tv_norm \<lparr>tv_sec = 3, tv_usec = 1\<rparr>" "tv_norm \<lparr>tv_sec = 1, tv_usec = 999999\<rparr>"
    by (simp_all add: tv_norm_def)
  show ?thesis using tv_add_sub_exact [OF h] by blast
qed

end
