(* ===== verification/Tcb.thy ===== *)
theory Tcb
  imports Timeval
begin

text \<open>
  The tracer's state and its log (\<^verbatim>\<open>src/strace/strace.c\<close>): the table of trace control blocks
  (\<open>expand_tcbtab\<close>, \<open>alloctcb\<close>, \<open>droptcb\<close>, \<open>pid2tcb\<close>) and the output functions (\<open>tprintf\<close>,
  \<open>tprints\<close>, \<open>line_ended\<close>, \<open>printleader\<close>, \<open>tabto\<close>, \<open>newoutf\<close>). A \<open>struct tcb *\<close> is the index of
  its entry, which never moves: \<open>tcbtab\<close> is a table of pointers to blocks that are never freed.
\<close>

subsection \<open>State\<close>

text \<open>\<open>SharedLog\<close> is the one log without \<^verbatim>\<open>-ff\<close>, \<open>LogFile\<close> the log of one process with it.\<close>

datatype outfile = SharedLog | LogFile string

text \<open>\<open>sys_func\<close> is the name of the decoder function; unused numbers have neither a decoder nor a name.\<close>

record sysent =
  nargs :: nat
  sys_flags :: c_int
  sys_func :: "string option"
  sys_name :: "string option"

record tcb =
  t_flags :: c_int
  t_pid :: int
  t_qual_flg :: c_int
  t_u_error :: int
  t_scno :: c_long
  t_u_arg :: "c_long list"
  t_u_rval :: c_long
  t_currpers :: nat
  t_curcol :: nat
  t_outf :: "outfile option"
  t_auxstr :: "string option"
  t_s_ent :: "sysent option"
  t_stime :: timeval
  t_dtime :: timeval
  t_etime :: timeval
  t_inst :: "c_long list"

abbreviation "TCB_INUSE \<equiv> (1 :: c_int)"
abbreviation "TCB_STARTUP \<equiv> (2 :: c_int)"
abbreviation "TCB_IGNORE_ONE_SIGSTOP \<equiv> (4 :: c_int)"
abbreviation "TCB_INSYSCALL \<equiv> (8 :: c_int)"
abbreviation "TCB_ATTACHED \<equiv> (16 :: c_int)"
abbreviation "TCB_STRACE_CHILD \<equiv> (32 :: c_int)"
abbreviation "TCB_BPTSET \<equiv> (64 :: c_int)"
abbreviation "TCB_REPRINT \<equiv> (128 :: c_int)"
abbreviation "TCB_FILTERED \<equiv> (256 :: c_int)"

definition has_flag :: "tcb \<Rightarrow> c_int \<Rightarrow> bool" where
  "has_flag t f \<longleftrightarrow> t_flags t AND f \<noteq> 0"

definition set_flags :: "c_int \<Rightarrow> tcb \<Rightarrow> tcb" where
  "set_flags f t = t\<lparr>t_flags := t_flags t OR f\<rparr>"

definition clear_flags :: "c_int \<Rightarrow> tcb \<Rightarrow> tcb" where
  "clear_flags f t = t\<lparr>t_flags := t_flags t AND NOT f\<rparr>"

text \<open>A block after \<open>memset(tcp, 0, sizeof(*tcp))\<close>.\<close>

definition tcb_zero :: tcb where
  "tcb_zero = \<lparr>t_flags = 0, t_pid = 0, t_qual_flg = 0, t_u_error = 0, t_scno = 0,
     t_u_arg = replicate 6 0, t_u_rval = 0, t_currpers = 0, t_curcol = 0, t_outf = None,
     t_auxstr = None, t_s_ent = None, t_stime = \<lparr>tv_sec = 0, tv_usec = 0\<rparr>,
     t_dtime = \<lparr>tv_sec = 0, tv_usec = 0\<rparr>, t_etime = \<lparr>tv_sec = 0, tv_usec = 0\<rparr>, t_inst = [0, 0]\<rparr>"

text \<open>The registers of a stopped tracee, by the size of the register set the kernel delivered.\<close>

record i386_user_regs_struct =
  ebx :: "32 word"
  ecx :: "32 word"
  edx :: "32 word"
  esi :: "32 word"
  edi :: "32 word"
  ebp :: "32 word"
  eax :: "32 word"
  orig_eax :: "32 word"
  eip :: "32 word"
  esp :: "32 word"

record user_regs_struct =
  rbx :: "64 word"
  rcx :: "64 word"
  rdx :: "64 word"
  rsi :: "64 word"
  rdi :: "64 word"
  rbp :: "64 word"
  rax :: "64 word"
  r8 :: "64 word"
  r9 :: "64 word"
  r10 :: "64 word"
  orig_rax :: "64 word"
  rip :: "64 word"
  rsp :: "64 word"
  seg_cs :: "64 word"

datatype regs = I386_regs i386_user_regs_struct | X86_64_regs user_regs_struct

text \<open>Statistics of one system call (\<open>struct call_counts\<close> of \<^verbatim>\<open>count.c\<close>).\<close>

record call_counts =
  cc_time :: timeval
  cc_calls :: int
  cc_errors :: int

text \<open>The requests to the kernel that act on a tracee.\<close>

datatype ptrace_op = PTRACE_SYSCALL | PTRACE_CONT | PTRACE_DETACH | PTRACE_LISTEN

datatype request =
    Restart ptrace_op int int
  | SetOptions int
  | Detach_req int
  | Attach int
  | Kill int int

text \<open>
  The globals; \<open>out\<close> is what was written to each log, \<open>errs\<close> the messages on the standard error,
  \<open>reqs\<close> the requests issued so far, the latest last.
\<close>

record strace =
  tcbtab :: "tcb list"
  nprocs :: nat
  current_tcp :: "nat option"
  printing_tcp :: "nat option"
  out :: "outfile \<Rightarrow> string"
  errs :: "string list"
  otv :: timeval
  current_personality :: nat
  get_regs_error :: bool
  regs :: regs
  getregset_support :: int
  hide_log_until_execve :: bool
  skip_one_b_execve :: bool
  exit_code :: int
  popen_pid :: int
  countv :: "call_counts list option list"
  shortest :: timeval
  one_tick :: timeval
  reqs :: "request list"

text \<open>Options, and what the system lets succeed: allocations, opening a log, writing to it.\<close>

record config =
  followfork :: nat
  print_pid_pfx :: bool
  outfname :: "string option"
  tflag :: nat
  rflag :: bool
  iflag :: bool
  acolumn :: nat
  alloc_ok :: "nat \<Rightarrow> bool"
  fopen_ok :: "string \<Rightarrow> bool"
  write_ok :: "outfile \<Rightarrow> bool"

text \<open>The time of day, and the same as \<open>HH:MM:SS\<close>.\<close>

record moment =
  now :: timeval
  clock :: string

datatype abort = BugInAlloctcb | OutOfMemory_tcb | CannotOpen string

definition tcb_at :: "strace \<Rightarrow> nat \<Rightarrow> tcb" where
  "tcb_at st i = tcbtab st ! i"

definition upd_tcb :: "nat \<Rightarrow> (tcb \<Rightarrow> tcb) \<Rightarrow> strace \<Rightarrow> strace" where
  "upd_tcb i f st = st\<lparr>tcbtab := (tcbtab st)[i := f (tcb_at st i)]\<rparr>"

subsection \<open>Output\<close>

text \<open>\<open>fputs\<close> and \<open>fprintf\<close> to a log.\<close>

definition emit_out :: "config \<Rightarrow> outfile option \<Rightarrow> string \<Rightarrow> strace \<Rightarrow> strace" where
  "emit_out cfg f s st =
    (case f of
       Some f \<Rightarrow> if write_ok cfg f then st\<lparr>out := (out st)(f := out st f @ s)\<rparr> else st
     | None \<Rightarrow> st)"

definition can_write :: "config \<Rightarrow> outfile option \<Rightarrow> bool" where
  "can_write cfg f = (case f of Some f \<Rightarrow> write_ok cfg f | None \<Rightarrow> False)"

text \<open>
  \<open>tprints\<close> and, on a formatted text, \<open>tprintf\<close>. A failed write is reported unless the log is the
  standard error, which it is if there is no \<open>outfname\<close>.
\<close>

definition tprints :: "config \<Rightarrow> string \<Rightarrow> strace \<Rightarrow> strace" where
  "tprints cfg str st =
    (case current_tcp st of
       None \<Rightarrow> st
     | Some i \<Rightarrow>
         if can_write cfg (t_outf (tcb_at st i)) then
           upd_tcb i (\<lambda>t. t\<lparr>t_curcol := t_curcol t + length str\<rparr>) (emit_out cfg (t_outf (tcb_at st i)) str st)
         else (case outfname cfg of
             Some name \<Rightarrow> st\<lparr>errs := errs st @ [name]\<rparr>
           | None \<Rightarrow> st))"

abbreviation tprintf :: "config \<Rightarrow> string \<Rightarrow> strace \<Rightarrow> strace" where
  "tprintf \<equiv> tprints"

definition line_ended :: "strace \<Rightarrow> strace" where
  "line_ended st =
    (let st = (case current_tcp st of Some i \<Rightarrow> upd_tcb i (\<lambda>t. t\<lparr>t_curcol := 0\<rparr>) st | None \<Rightarrow> st)
     in case printing_tcp st of
          Some i \<Rightarrow> (upd_tcb i (\<lambda>t. t\<lparr>t_curcol := 0\<rparr>) st)\<lparr>printing_tcp := None\<rparr>
        | None \<Rightarrow> st)"

text \<open>\<open>%06ld\<close>\<close>

definition fmt_06 :: "int \<Rightarrow> string" where
  "fmt_06 i = (if i < 0 then CHR ''-'' # pad_left 5 CHR ''0'' (fmt_u (nat (- i)))
               else pad_left 6 CHR ''0'' (fmt_u (nat i)))"

definition printcall :: "config \<Rightarrow> strace \<Rightarrow> strace" where
  "printcall cfg st =
    tprintf cfg
     (if get_regs_error st then ''[????????????????] ''
      else case regs st of
        I386_regs r \<Rightarrow> ''['' @ pad_left 8 CHR ''0'' (fmt_x (unat (eip r))) @ ''] ''
      | X86_64_regs r \<Rightarrow> ''['' @ pad_left 16 CHR ''0'' (fmt_x (unat (rip r))) @ ''] '') st"

text \<open>The time stamp of a line.\<close>

definition print_time :: "config \<Rightarrow> moment \<Rightarrow> strace \<Rightarrow> strace" where
  "print_time cfg m st =
    (if rflag cfg then
       (let st = (if tv_sec (otv st) = 0 then st\<lparr>otv := now m\<rparr> else st);
            dtv = tv_sub (now m) (otv st)
        in (tprintf cfg (pad_left 6 CHR '' '' (fmt_d (tv_sec dtv)) @ ''.'' @ fmt_06 (tv_usec dtv) @ '' '') st)
             \<lparr>otv := now m\<rparr>)
     else if tflag cfg > 2 then
       tprintf cfg (fmt_d (tv_sec (now m)) @ ''.'' @ fmt_06 (tv_usec (now m)) @ '' '') st
     else if tflag cfg > 1 then tprintf cfg (clock m @ ''.'' @ fmt_06 (tv_usec (now m)) @ '' '') st
     else tprintf cfg (clock m @ '' '') st)"

text \<open>The first half of \<open>printleader\<close>: what is left of an unfinished line is closed.\<close>

definition finish_line :: "config \<Rightarrow> nat \<Rightarrow> strace \<Rightarrow> strace" where
  "finish_line cfg tcp st =
    (let st = (if followfork cfg \<ge> 2 then st\<lparr>printing_tcp := Some tcp\<rparr> else st)
     in case printing_tcp st of
          None \<Rightarrow> st
        | Some p \<Rightarrow>
            (let st = st\<lparr>current_tcp := Some p\<rparr>
             in if t_curcol (tcb_at st p) \<noteq> 0 \<and> (followfork cfg < 2 \<or> p = tcp)
                then upd_tcb p (\<lambda>t. t\<lparr>t_curcol := 0\<rparr>) (tprints cfg ('' <unfinished ...>'' @ [CHR 0x0A]) st)
                else st))"

definition printleader :: "config \<Rightarrow> moment \<Rightarrow> nat \<Rightarrow> strace \<Rightarrow> strace" where
  "printleader cfg m tcp st =
    (let st = finish_line cfg tcp st;
         st = upd_tcb tcp (\<lambda>t. t\<lparr>t_curcol := 0\<rparr>) (st\<lparr>printing_tcp := Some tcp, current_tcp := Some tcp\<rparr>);
         st = (if print_pid_pfx cfg then tprintf cfg (pad_right 5 (fmt_d (t_pid (tcb_at st tcp))) @ '' '') st
               else if nprocs st > 1 \<and> outfname cfg = None then
                 tprintf cfg (''[pid '' @ pad_left 5 CHR '' '' (fmt_u (nat (t_pid (tcb_at st tcp)))) @ ''] '') st
               else st);
         st = (if tflag cfg \<noteq> 0 then print_time cfg m st else st)
     in if iflag cfg then printcall cfg st else st)"

text \<open>\<open>tabto\<close>: the rest of \<open>acolumn_spaces\<close> from the current column on.\<close>

definition tabto :: "config \<Rightarrow> strace \<Rightarrow> strace" where
  "tabto cfg st =
    (case current_tcp st of
       Some i \<Rightarrow>
         (if t_curcol (tcb_at st i) < acolumn cfg
          then tprints cfg (replicate (acolumn cfg - t_curcol (tcb_at st i)) CHR '' '') st else st)
     | None \<Rightarrow> st)"

definition newoutf :: "config \<Rightarrow> nat \<Rightarrow> strace \<Rightarrow> abort + strace" where
  "newoutf cfg tcp st =
    (let st = upd_tcb tcp (\<lambda>t. t\<lparr>t_outf := Some SharedLog\<rparr>) st
     in if followfork cfg \<ge> 2 then
          (let name = take 512 (case outfname cfg of Some n \<Rightarrow> n | None \<Rightarrow> ''(null)'') @ ''.''
                        @ fmt_u (nat (t_pid (tcb_at st tcp)))
           in if fopen_ok cfg name then
                Inr (upd_tcb tcp (\<lambda>t. t\<lparr>t_outf := Some (LogFile name)\<rparr>)
                      (st\<lparr>out := (out st)(LogFile name := [])\<rparr>))
              else Inl (CannotOpen name))
        else Inr st)"

subsection \<open>The table\<close>

definition expand_tcbtab :: "config \<Rightarrow> strace \<Rightarrow> abort + strace" where
  "expand_tcbtab cfg st =
    (let n = length (tcbtab st)
     in if alloc_ok cfg (2 * n) then Inr (st\<lparr>tcbtab := tcbtab st @ replicate n tcb_zero\<rparr>)
        else Inl OutOfMemory_tcb)"

text \<open>The search of \<open>alloctcb\<close> from entry \<open>i\<close> on.\<close>

function find_free :: "tcb list \<Rightarrow> nat \<Rightarrow> nat option" where
  "find_free tab i =
    (if i < length tab then (if \<not> has_flag (tab ! i) TCB_INUSE then Some i else find_free tab (i + 1))
     else None)"
  by pat_completeness auto
termination
  by (relation "measure (\<lambda>(tab, i). length tab - i)") auto

declare find_free.simps [simp del]

definition new_tcb :: "nat \<Rightarrow> int \<Rightarrow> tcb" where
  "new_tcb pers pid = tcb_zero\<lparr>t_pid := pid, t_flags := TCB_INUSE, t_currpers := pers\<rparr>"

definition alloctcb :: "config \<Rightarrow> int \<Rightarrow> strace \<Rightarrow> abort + nat \<times> strace" where
  "alloctcb cfg pid st =
    sbind (if nprocs st = length (tcbtab st) then expand_tcbtab cfg st else Inr st) (\<lambda>st.
      case find_free (tcbtab st) 0 of
        Some i \<Rightarrow> Inr (i, (upd_tcb i (\<lambda>_. new_tcb (current_personality st) pid) st)\<lparr>nprocs := nprocs st + 1\<rparr>)
      | None \<Rightarrow> Inl BugInAlloctcb)"

definition droptcb :: "config \<Rightarrow> nat \<Rightarrow> strace \<Rightarrow> strace" where
  "droptcb cfg tcp st =
    (if t_pid (tcb_at st tcp) = 0 then st
     else
       (let st = st\<lparr>nprocs := nprocs st - 1\<rparr>;
            t = tcb_at st tcp;
            st = (if t_outf t \<noteq> None then
                    (if (if followfork cfg \<ge> 2 then t_curcol t \<noteq> 0
                         else printing_tcp st = Some tcp \<and> t_curcol t \<noteq> 0)
                     then emit_out cfg (t_outf t) ('' <detached ...>'' @ [CHR 0x0A]) st else st)
                  else st);
            st = (if current_tcp st = Some tcp then st\<lparr>current_tcp := None\<rparr> else st);
            st = (if printing_tcp st = Some tcp then st\<lparr>printing_tcp := None\<rparr> else st)
        in upd_tcb tcp (\<lambda>_. tcb_zero) st))"

function find_pid :: "tcb list \<Rightarrow> int \<Rightarrow> nat \<Rightarrow> nat option" where
  "find_pid tab pid i =
    (if i < length tab then
       (if t_pid (tab ! i) = pid \<and> has_flag (tab ! i) TCB_INUSE then Some i else find_pid tab pid (i + 1))
     else None)"
  by pat_completeness auto
termination
  by (relation "measure (\<lambda>(tab, pid, i). length tab - i)") auto

declare find_pid.simps [simp del]

definition pid2tcb :: "int \<Rightarrow> strace \<Rightarrow> nat option" where
  "pid2tcb pid st = (if pid \<le> 0 then None else find_pid (tcbtab st) pid 0)"

end
