(* ===== verification/Tcb_Table.thy ===== *)
theory Tcb_Table
  imports Tcb
begin

text \<open>
  The table of trace control blocks: the invariant \<open>tcb_ok\<close>, what \<open>alloctcb\<close> and \<open>droptcb\<close> do to
  it, and the interface \<open>process_table\<close> through which the rest of the tracer sees it as a finite
  set of processes.
\<close>

subsection \<open>Well-formed tables\<close>

abbreviation inuse :: "tcb \<Rightarrow> bool" where
  "inuse t \<equiv> has_flag t TCB_INUSE"

text \<open>
  The invariant: \<open>nprocs\<close> counts the used entries, an entry is used exactly if its pid is not 0,
  no pid occurs twice, and the two pointers point into the table, \<open>printing_tcp\<close> to a used entry.
\<close>

definition tab_ok :: "tcb list \<Rightarrow> nat \<Rightarrow> bool" where
  "tab_ok tab n \<longleftrightarrow> tab \<noteq> [] \<and> n = length (filter inuse tab)
    \<and> (\<forall>t \<in> set tab. 0 \<le> t_pid t \<and> (inuse t \<longleftrightarrow> t_pid t \<noteq> 0))
    \<and> (\<forall>i j. i < length tab \<longrightarrow> j < length tab \<longrightarrow> inuse (tab ! i) \<longrightarrow> t_pid (tab ! i) = t_pid (tab ! j) \<longrightarrow> i = j)"

definition ptr_ok :: "strace \<Rightarrow> bool" where
  "ptr_ok st \<longleftrightarrow> (\<forall>i. current_tcp st = Some i \<longrightarrow> i < length (tcbtab st))
    \<and> (\<forall>i. printing_tcp st = Some i \<longrightarrow> i < length (tcbtab st) \<and> inuse (tcb_at st i))"

definition tcb_ok :: "strace \<Rightarrow> bool" where
  "tcb_ok st \<longleftrightarrow> tab_ok (tcbtab st) (nprocs st) \<and> ptr_ok st"

lemma tab_ok_uniq:
  "tab_ok tab n \<Longrightarrow> i < length tab \<Longrightarrow> j < length tab \<Longrightarrow> inuse (tab ! i) \<Longrightarrow>
    t_pid (tab ! i) = t_pid (tab ! j) \<Longrightarrow> i = j"
  unfolding tab_ok_def by blast

lemma tab_ok_pid: "tab_ok tab n \<Longrightarrow> i < length tab \<Longrightarrow> inuse (tab ! i) \<longleftrightarrow> t_pid (tab ! i) \<noteq> 0"
  unfolding tab_ok_def by (meson nth_mem)

lemma inuse_zero [simp]: "\<not> inuse tcb_zero" "t_pid tcb_zero = 0"
  by (simp_all add: has_flag_def tcb_zero_def)

lemma inuse_new [simp]: "inuse (new_tcb cfg pid)" "t_pid (new_tcb cfg pid) = pid"
  by (simp_all add: has_flag_def new_tcb_def)

lemma find_free_Some: "find_free tab i = Some j \<Longrightarrow> i \<le> j \<and> j < length tab \<and> \<not> inuse (tab ! j)"
  by (induction tab i rule: find_free.induct) (subst (asm) (2) find_free.simps, auto split: if_splits)

lemma find_free_None: "find_free tab i = None \<Longrightarrow> i \<le> j \<Longrightarrow> j < length tab \<Longrightarrow> inuse (tab ! j)"
proof (induction tab i rule: find_free.induct)
  case (1 tab i)
  then show ?case by (cases "j = i") (auto simp: find_free.simps [of tab i] split: if_splits)
qed

lemma find_pid_Some:
  "find_pid tab pid i = Some j \<Longrightarrow> i \<le> j \<and> j < length tab \<and> inuse (tab ! j) \<and> t_pid (tab ! j) = pid"
  by (induction tab pid i rule: find_pid.induct) (subst (asm) (2) find_pid.simps, auto split: if_splits)

lemma find_pid_None:
  "find_pid tab pid i = None \<Longrightarrow> i \<le> j \<Longrightarrow> j < length tab \<Longrightarrow> inuse (tab ! j) \<Longrightarrow> t_pid (tab ! j) \<noteq> pid"
proof (induction tab pid i rule: find_pid.induct)
  case (1 tab pid i)
  then show ?case by (cases "j = i") (auto simp: find_pid.simps [of tab pid i] split: if_splits)
qed

text \<open>In a well-formed table the search is the inverse of the pid field.\<close>

lemma pid2tcb_iff:
  assumes "tab_ok (tcbtab st) n"
  shows "pid2tcb pid st = Some i \<longleftrightarrow> i < length (tcbtab st) \<and> inuse (tcb_at st i) \<and> t_pid (tcb_at st i) = pid"
proof
  assume "pid2tcb pid st = Some i"
  then show "i < length (tcbtab st) \<and> inuse (tcb_at st i) \<and> t_pid (tcb_at st i) = pid"
    by (auto simp: pid2tcb_def tcb_at_def dest: find_pid_Some split: if_splits)
next
  assume i: "i < length (tcbtab st) \<and> inuse (tcb_at st i) \<and> t_pid (tcb_at st i) = pid"
  then have "0 \<le> pid" "pid \<noteq> 0" using assms unfolding tab_ok_def tcb_at_def by (metis nth_mem)+
  then have "0 < pid" by simp
  moreover have "find_pid (tcbtab st) pid 0 \<noteq> None"
    using i find_pid_None [of "tcbtab st" pid 0 i] by (auto simp: tcb_at_def)
  moreover have "j = i" if "find_pid (tcbtab st) pid 0 = Some j" for j
    using find_pid_Some [OF that] i tab_ok_uniq [OF assms, of j i] by (simp add: tcb_at_def)
  ultimately show "pid2tcb pid st = Some i" by (auto simp: pid2tcb_def)
qed

lemma tab_ok_expand: "tab_ok tab n \<Longrightarrow> tab_ok (tab @ replicate k tcb_zero) n"
  unfolding tab_ok_def by (auto simp: nth_append split: if_splits)

lemma pid2tcb_None_iff:
  assumes "tab_ok (tcbtab st) n"
  shows "pid2tcb pid st = None \<longleftrightarrow> (\<forall>i < length (tcbtab st). inuse (tcb_at st i) \<longrightarrow> t_pid (tcb_at st i) \<noteq> pid)"
  using pid2tcb_iff [OF assms] by (metis option.exhaust option.distinct(1))

lemma tab_ok_new:
  assumes ok: "tab_ok tab n" and i: "i < length tab" "\<not> inuse (tab ! i)" and pid: "0 < pid"
    and fresh: "\<forall>j < length tab. inuse (tab ! j) \<longrightarrow> t_pid (tab ! j) \<noteq> pid"
  shows "tab_ok (tab[i := new_tcb cfg pid]) (n + 1)"
  unfolding tab_ok_def
proof (intro conjI ballI allI impI)
  show "n + 1 = length (filter inuse (tab[i := new_tcb cfg pid]))"
    using length_filter_update [OF i(1), of inuse "new_tcb cfg pid"] i(2) ok by (simp add: tab_ok_def)
  fix t assume "t \<in> set (tab[i := new_tcb cfg pid])"
  then have "0 \<le> t_pid t \<and> (inuse t \<longleftrightarrow> t_pid t \<noteq> 0)"
    using ok pid set_update_subset_insert [of tab i] by (fastforce simp: tab_ok_def)
  then show "0 \<le> t_pid t" "inuse t \<longleftrightarrow> t_pid t \<noteq> 0" by simp_all
next
  fix j k assume jk: "j < length (tab[i := new_tcb cfg pid])" "k < length (tab[i := new_tcb cfg pid])"
    "inuse (tab[i := new_tcb cfg pid] ! j)"
    "t_pid (tab[i := new_tcb cfg pid] ! j) = t_pid (tab[i := new_tcb cfg pid] ! k)"
  have used: "t_pid (tab ! k) \<noteq> 0 \<Longrightarrow> k < length tab \<Longrightarrow> inuse (tab ! k)" for k
    using ok by (auto simp: tab_ok_def)
  have uniq: "j < length tab \<Longrightarrow> k < length tab \<Longrightarrow> inuse (tab ! j) \<Longrightarrow> t_pid (tab ! j) = t_pid (tab ! k) \<Longrightarrow> j = k"
    by (rule tab_ok_uniq [OF ok])
  show "j = k"
  proof (cases "j = i \<or> k = i")
    case True
    then show ?thesis using jk i pid fresh used [of k] by (cases "j = i"; cases "k = i") auto
  next
    case False
    then show ?thesis using jk uniq by simp
  qed
qed (use ok in \<open>simp add: tab_ok_def\<close>)

lemma tab_ok_drop:
  assumes ok: "tab_ok tab n" and i: "i < length tab" "inuse (tab ! i)"
  shows "tab_ok (tab[i := tcb_zero]) (n - 1)"
  unfolding tab_ok_def
proof (intro conjI ballI allI impI)
  show "n - 1 = length (filter inuse (tab[i := tcb_zero]))"
    using length_filter_update [OF i(1), of inuse tcb_zero] i(2) ok by (simp add: tab_ok_def)
  fix t assume "t \<in> set (tab[i := tcb_zero])"
  then have "0 \<le> t_pid t \<and> (inuse t \<longleftrightarrow> t_pid t \<noteq> 0)"
    using ok set_update_subset_insert [of tab i] by (fastforce simp: tab_ok_def)
  then show "0 \<le> t_pid t" "inuse t \<longleftrightarrow> t_pid t \<noteq> 0" by simp_all
next
  fix j k assume jk: "j < length (tab[i := tcb_zero])" "k < length (tab[i := tcb_zero])"
    "inuse (tab[i := tcb_zero] ! j)" "t_pid (tab[i := tcb_zero] ! j) = t_pid (tab[i := tcb_zero] ! k)"
  then have "j \<noteq> i" by auto
  moreover have "t_pid (tab ! j) \<noteq> 0" using jk \<open>j \<noteq> i\<close> ok by (auto simp: tab_ok_def)
  ultimately show "j = k" using jk ok by (cases "k = i") (auto simp: tab_ok_def)
qed (use ok in \<open>simp add: tab_ok_def\<close>)

subsection \<open>Allocation and release\<close>

lemma expand_tcbtab_eq:
  "expand_tcbtab cfg st = Inr st' \<Longrightarrow> st' = st\<lparr>tcbtab := tcbtab st @ replicate (length (tcbtab st)) tcb_zero\<rparr>"
  by (auto simp: expand_tcbtab_def Let_def split: if_splits)

text \<open>The table \<open>alloctcb\<close> searches has a free entry.\<close>

lemma alloctcb_room:
  assumes "tab_ok (tcbtab st) (nprocs st)"
    and "(if nprocs st = length (tcbtab st) then expand_tcbtab cfg st else Inr st) = Inr st1"
  shows "find_free (tcbtab st1) 0 \<noteq> None"
proof
  assume none: "find_free (tcbtab st1) 0 = None"
  then have all: "\<forall>t \<in> set (tcbtab st1). inuse t" using find_free_None [OF none] by (auto simp: in_set_conv_nth)
  show False
  proof (cases "nprocs st = length (tcbtab st)")
    case True
    then have "st1 = st\<lparr>tcbtab := tcbtab st @ replicate (length (tcbtab st)) tcb_zero\<rparr>"
      using assms(2) expand_tcbtab_eq by simp
    moreover have "tcbtab st \<noteq> []" using assms(1) by (simp add: tab_ok_def)
    ultimately show False using all by simp
  next
    case False
    then have "st1 = st" using assms(2) by simp
    then have "nprocs st = length (tcbtab st)"
      using assms(1) all filter_all_length [of inuse "tcbtab st"] by (simp add: tab_ok_def)
    with False show False by simp
  qed
qed

lemma alloctcb_cases:
  assumes ok: "tcb_ok st" and pid: "0 < pid" "pid2tcb pid st = None"
  obtains (oom) "alloctcb cfg pid st = Inl OutOfMemory_tcb"
  | (fresh) i st' where "alloctcb cfg pid st = Inr (i, st')" "i < length (tcbtab st')" "tcb_ok st'"
      "tcb_at st' i = new_tcb (current_personality st) pid" "nprocs st' = nprocs st + 1"
      "\<And>j. j < length (tcbtab st) \<Longrightarrow> j \<noteq> i \<Longrightarrow> tcb_at st' j = tcb_at st j"
      "\<And>q. pid2tcb q st' = (if q = pid then Some i else pid2tcb q st)"
      "current_tcp st' = current_tcp st" "printing_tcp st' = printing_tcp st" "out st' = out st"
proof (cases "(if nprocs st = length (tcbtab st) then expand_tcbtab cfg st else Inr st)")
  case (Inl e)
  then have "e = OutOfMemory_tcb" by (auto simp: expand_tcbtab_def Let_def split: if_splits)
  with Inl show thesis by (intro oom) (simp add: alloctcb_def)
next
  case (Inr st1)
  have tab: "tab_ok (tcbtab st) (nprocs st)" using ok by (simp add: tcb_ok_def)
  have st1: "st1 = st \<or> st1 = st\<lparr>tcbtab := tcbtab st @ replicate (length (tcbtab st)) tcb_zero\<rparr>"
    using Inr expand_tcbtab_eq by (auto split: if_splits)
  then have old: "length (tcbtab st) \<le> length (tcbtab st1)" "\<And>j. j < length (tcbtab st) \<Longrightarrow> tcb_at st1 j = tcb_at st j"
    by (auto simp: tcb_at_def nth_append)
  have new: "j < length (tcbtab st1) \<Longrightarrow> inuse (tcb_at st1 j) \<Longrightarrow> j < length (tcbtab st)" for j
    using st1 by (auto simp: tcb_at_def nth_append split: if_splits)
  have same: "nprocs st1 = nprocs st" "current_tcp st1 = current_tcp st" "printing_tcp st1 = printing_tcp st" "out st1 = out st"
    "current_personality st1 = current_personality st"
    using st1 by auto
  have tab1: "tab_ok (tcbtab st1) (nprocs st)" using st1 tab tab_ok_expand by auto
  obtain i where i: "find_free (tcbtab st1) 0 = Some i" using alloctcb_room [OF tab Inr] by blast
  define st' where "st' = (upd_tcb i (\<lambda>_. new_tcb (current_personality st) pid) st1)\<lparr>nprocs := nprocs st1 + 1\<rparr>"
  have alloc: "alloctcb cfg pid st = Inr (i, st')" using Inr i same by (simp add: alloctcb_def st'_def)
  have il: "i < length (tcbtab st1)" "\<not> inuse (tcb_at st1 i)" using find_free_Some [OF i] by (auto simp: tcb_at_def)
  have tabs: "tcbtab st' = (tcbtab st1)[i := new_tcb (current_personality st) pid]" by (simp add: st'_def upd_tcb_def)
  have at: "tcb_at st' j = (if j = i then new_tcb (current_personality st) pid else tcb_at st1 j)" for j
    using il by (simp add: tabs tcb_at_def)
  have nobody: "\<forall>j < length (tcbtab st1). inuse (tcb_at st1 j) \<longrightarrow> t_pid (tcb_at st1 j) \<noteq> pid"
    using pid(2) [unfolded pid2tcb_None_iff [OF tab]] new old(2) by metis
  have tab': "tab_ok (tcbtab st') (nprocs st + 1)"
    unfolding tabs using tab_ok_new [OF tab1, of i pid "current_personality st"] il nobody pid(1) by (simp add: tcb_at_def)
  have n': "nprocs st' = nprocs st + 1" "current_tcp st' = current_tcp st" "printing_tcp st' = printing_tcp st" "out st' = out st"
    using same by (simp_all add: st'_def upd_tcb_def)
  have ptr: "ptr_ok st'"
    using ok old n' il at new by (fastforce simp: tcb_ok_def ptr_ok_def tabs)
  have look: "pid2tcb q st' = (if q = pid then Some i else pid2tcb q st)" for q
  proof (cases "q = pid")
    case True
    then show ?thesis using pid2tcb_iff [OF tab'] il at by (simp add: tabs)
  next
    case False
    have "pid2tcb q st' = Some j \<longleftrightarrow> pid2tcb q st = Some j" for j
    proof (cases "j = i")
      case True
      then show ?thesis unfolding pid2tcb_iff [OF tab'] pid2tcb_iff [OF tab] using False il at old by (auto simp: tabs)
    next
      case ji: False
      then show ?thesis unfolding pid2tcb_iff [OF tab'] pid2tcb_iff [OF tab] using at [of j] old(1) old(2) [of j] new [of j] by (auto simp: tabs)
    qed
    then have "pid2tcb q st' = pid2tcb q st" by (rule option_eqI)
    with False show ?thesis by simp
  qed
  show thesis
  proof (rule fresh [OF alloc])
    show "i < length (tcbtab st')" using il by (simp add: tabs)
    show "tcb_ok st'" using tab' ptr n' by (simp add: tcb_ok_def)
    show "tcb_at st' i = new_tcb (current_personality st) pid" by (simp add: at)
    show "tcb_at st' j = tcb_at st j" if "j < length (tcbtab st)" "j \<noteq> i" for j using that old at by simp
  qed (use n' look in auto)
qed

lemma emit_out_fields [simp]:
  "tcbtab (emit_out cfg f s st) = tcbtab st" "nprocs (emit_out cfg f s st) = nprocs st"
  "current_tcp (emit_out cfg f s st) = current_tcp st" "printing_tcp (emit_out cfg f s st) = printing_tcp st"
  "otv (emit_out cfg f s st) = otv st" "errs (emit_out cfg f s st) = errs st"
  by (simp_all add: emit_out_def split: option.split)

lemma droptcb_fields:
  assumes "t_pid (tcb_at st i) \<noteq> 0"
  shows "tcbtab (droptcb cfg i st) = (tcbtab st)[i := tcb_zero]" "nprocs (droptcb cfg i st) = nprocs st - 1"
    "current_tcp (droptcb cfg i st) = (if current_tcp st = Some i then None else current_tcp st)"
    "printing_tcp (droptcb cfg i st) = (if printing_tcp st = Some i then None else printing_tcp st)"
  using assms by (simp_all add: droptcb_def Let_def upd_tcb_def tcb_at_def)

lemma droptcb_ok:
  assumes ok: "tcb_ok st" and p: "pid2tcb pid st = Some i"
  shows "tcb_ok (droptcb cfg i st)" "nprocs st = Suc (nprocs (droptcb cfg i st))"
    "pid2tcb q (droptcb cfg i st) = (if q = pid then None else pid2tcb q st)"
    "j \<noteq> i \<Longrightarrow> tcb_at (droptcb cfg i st) j = tcb_at st j"
proof -
  have tab: "tab_ok (tcbtab st) (nprocs st)" using ok by (simp add: tcb_ok_def)
  have i: "i < length (tcbtab st)" "inuse (tcb_at st i)" "t_pid (tcb_at st i) = pid"
    using p by (simp_all add: pid2tcb_iff [OF tab])
  then have "t_pid (tcb_at st i) \<noteq> 0" using tab_ok_pid [OF tab] by (simp add: tcb_at_def)
  note d = droptcb_fields [OF this, of cfg]
  have tab': "tab_ok (tcbtab (droptcb cfg i st)) (nprocs (droptcb cfg i st))"
    unfolding d using tab_ok_drop [OF tab] i by (simp add: tcb_at_def)
  have at: "tcb_at (droptcb cfg i st) j = (if j = i then tcb_zero else tcb_at st j)" for j
    using i by (simp add: tcb_at_def d)
  have "ptr_ok (droptcb cfg i st)"
    using ok unfolding tcb_ok_def ptr_ok_def d at by simp
  with tab' show "tcb_ok (droptcb cfg i st)" by (simp add: tcb_ok_def)
  have "0 < length (filter inuse (tcbtab st))"
    using i by (auto simp: length_greater_0_conv filter_empty_conv tcb_at_def)
  then show "nprocs st = Suc (nprocs (droptcb cfg i st))" using tab by (simp add: d tab_ok_def)
  have uniq: "k = i" if "k < length (tcbtab st)" "t_pid (tcb_at st k) = pid" for k
    using tab_ok_uniq [OF tab, of i k] that i by (simp add: tcb_at_def)
  have "pid2tcb q (droptcb cfg i st) = Some k \<longleftrightarrow> q \<noteq> pid \<and> pid2tcb q st = Some k" for k
  proof (cases "k = i")
    case True
    then show ?thesis unfolding pid2tcb_iff [OF tab'] pid2tcb_iff [OF tab] using i at [of i] by auto
  next
    case False
    then show ?thesis unfolding pid2tcb_iff [OF tab'] pid2tcb_iff [OF tab] d(1) length_list_update
      using at [of k] uniq [of k] by auto
  qed
  then show "pid2tcb q (droptcb cfg i st) = (if q = pid then None else pid2tcb q st)"
    by (intro option_eqI) simp
  show "j \<noteq> i \<Longrightarrow> tcb_at (droptcb cfg i st) j = tcb_at st j" by (simp add: at)
qed

subsection \<open>The table as a set of processes\<close>

text \<open>
  The interface of a process table: allocation for a pid that is not in it and release of an
  entry, observed by the lookup and by the number of entries. The clients (the option \<^verbatim>\<open>-p\<close>, the
  main loop, \<open>cleanup\<close>) see it as a finite set of pids.
\<close>

locale process_table =
  fixes alloc :: "'c \<Rightarrow> int \<Rightarrow> 's \<Rightarrow> 'e + nat \<times> 's"
    and drop :: "'c \<Rightarrow> nat \<Rightarrow> 's \<Rightarrow> 's"
    and lookup :: "int \<Rightarrow> 's \<Rightarrow> nat option"
    and count :: "'s \<Rightarrow> nat"
    and ok :: "'s \<Rightarrow> bool"
  assumes alloc_law: "ok s \<Longrightarrow> 0 < p \<Longrightarrow> lookup p s = None \<Longrightarrow> alloc c p s = Inr (i, s') \<Longrightarrow>
      ok s' \<and> lookup q s' = (if q = p then Some i else lookup q s) \<and> count s' = Suc (count s)"
    and drop_law: "ok s \<Longrightarrow> lookup p s = Some i \<Longrightarrow>
      ok (drop c i s) \<and> lookup q (drop c i s) = (if q = p then None else lookup q s)
        \<and> count s = Suc (count (drop c i s))"
    and empty_law: "ok s \<Longrightarrow> count s = 0 \<longleftrightarrow> (\<forall>p. lookup p s = None)"
begin

definition pids :: "'s \<Rightarrow> int set" where
  "pids s = {p. lookup p s \<noteq> None}"

lemma pids_alloc:
  "ok s \<Longrightarrow> 0 < p \<Longrightarrow> p \<notin> pids s \<Longrightarrow> alloc c p s = Inr (i, s') \<Longrightarrow> ok s' \<and> pids s' = insert p (pids s)"
  using alloc_law [of s p c i s'] by (auto simp: pids_def)

lemma pids_drop: "ok s \<Longrightarrow> lookup p s = Some i \<Longrightarrow> ok (drop c i s) \<and> pids (drop c i s) = pids s - {p}"
  using drop_law [of s p i c] by (auto simp: pids_def split: if_splits)

lemma pids_finite: "ok s \<Longrightarrow> finite (pids s) \<and> card (pids s) = count s"
proof (induction "count s" arbitrary: s)
  case 0
  then have "pids s = {}" using empty_law [of s] by (auto simp: pids_def)
  with 0 show ?case by simp
next
  case (Suc n)
  then obtain p i where p: "lookup p s = Some i" using empty_law [of s] by auto
  define s' where "s' = drop undefined i s"
  have s': "ok s'" "pids s' = pids s - {p}" "count s = Suc (count s')"
    using pids_drop [OF Suc.prems p] drop_law [OF Suc.prems p] by (auto simp: s'_def)
  then have "finite (pids s - {p}) \<and> card (pids s - {p}) = n" using Suc.hyps by fastforce
  moreover have "p \<in> pids s" using p by (simp add: pids_def)
  ultimately show ?case using s'(3) Suc.hyps(2) card_Suc_Diff1 [of "pids s" p] by auto
qed

end

interpretation tcbs: process_table alloctcb droptcb pid2tcb nprocs tcb_ok
proof unfold_locales
  fix s p i q s' and c :: config
  assume "tcb_ok s" "0 < p" "pid2tcb p s = None" "alloctcb c p s = Inr (i, s')"
  then show "tcb_ok s' \<and> pid2tcb q s' = (if q = p then Some i else pid2tcb q s) \<and> nprocs s' = Suc (nprocs s)"
    by (elim alloctcb_cases [of s p c]) auto
next
  fix s p i q and c :: config
  assume "tcb_ok s" "pid2tcb p s = Some i"
  from droptcb_ok [OF this] show "tcb_ok (droptcb c i s)
      \<and> pid2tcb q (droptcb c i s) = (if q = p then None else pid2tcb q s) \<and> nprocs s = Suc (nprocs (droptcb c i s))"
    by blast
next
  fix s assume ok: "tcb_ok s"
  then have tab: "tab_ok (tcbtab s) (nprocs s)" by (simp add: tcb_ok_def)
  have "nprocs s = 0 \<longleftrightarrow> (\<forall>t \<in> set (tcbtab s). \<not> inuse t)" using tab by (auto simp: tab_ok_def filter_empty_conv)
  also have "\<dots> \<longleftrightarrow> (\<forall>p. pid2tcb p s = None)"
    unfolding pid2tcb_None_iff [OF tab] tcb_at_def by (metis in_set_conv_nth)
  finally show "nprocs s = 0 \<longleftrightarrow> (\<forall>p. pid2tcb p s = None)" .
qed

subsection \<open>Properties\<close>

definition live_pids :: "strace \<Rightarrow> int set" where
  "live_pids st = {p. pid2tcb p st \<noteq> None}"

lemma live_pids_eq: "live_pids = tcbs.pids"
  by (rule ext) (simp add: live_pids_def tcbs.pids_def)

text \<open>The tracer before its first process.\<close>

definition strace_init :: "nat \<Rightarrow> strace" where
  "strace_init n = \<lparr>tcbtab = replicate n tcb_zero, nprocs = 0, current_tcp = None, printing_tcp = None,
     out = (\<lambda>_. []), errs = [], otv = \<lparr>tv_sec = 0, tv_usec = 0\<rparr>, current_personality = 0,
     get_regs_error = True, regs = X86_64_regs \<lparr>rbx = 0, rcx = 0, rdx = 0, rsi = 0, rdi = 0, rbp = 0, rax = 0,
       r8 = 0, r9 = 0, r10 = 0, orig_rax = 0, rip = 0, rsp = 0, seg_cs = 0\<rparr>, getregset_support = 0,
     hide_log_until_execve = False, skip_one_b_execve = False, exit_code = 0, popen_pid = 0,
     countv = [None, None, None], shortest = \<lparr>tv_sec = 1000000, tv_usec = 0\<rparr>,
     one_tick = \<lparr>tv_sec = -1, tv_usec = 0\<rparr>, reqs = []\<rparr>"

lemma strace_init_ok: "0 < n \<Longrightarrow> tcb_ok (strace_init n)"
  by (auto simp: tcb_ok_def tab_ok_def ptr_ok_def strace_init_def)

lemma strace_init_none: "pid2tcb p (strace_init n) = None"
proof -
  have "find_pid (tcbtab (strace_init n)) p 0 \<noteq> Some i" for i
    using find_pid_Some [of "tcbtab (strace_init n)" p 0 i] by (auto simp: strace_init_def)
  then show ?thesis by (auto simp: pid2tcb_def)
qed

definition config_plain :: config where
  "config_plain = \<lparr>followfork = 1, print_pid_pfx = False, outfname = None, tflag = 0, rflag = False,
     iflag = False, acolumn = 40, alloc_ok = (\<lambda>_. True),
     fopen_ok = (\<lambda>_. True), write_ok = (\<lambda>_. True)\<rparr>"

text \<open>
  C26. \<open>alloctcb\<close> for a new pid, with memory to double the table, always finds a free entry (the
  message \<^verbatim>\<open>bug in alloctcb\<close> is unreachable) and keeps the table well-formed: the pid is found at
  the returned entry, which is zeroed but for pid, use flag and personality, and every other
  process keeps its entry and all of its contents. One process is added.
\<close>

theorem alloctcb_correct:
  assumes "tcb_ok st" "0 < pid" "pid \<notin> live_pids st" "alloc_ok cfg (2 * length (tcbtab st))"
  shows "\<exists>i st'. alloctcb cfg pid st = Inr (i, st') \<and> tcb_ok st'
    \<and> tcb_at st' i = new_tcb (current_personality st) pid \<and> nprocs st' = nprocs st + 1
    \<and> live_pids st' = insert pid (live_pids st)
    \<and> (\<forall>q. pid2tcb q st' = (if q = pid then Some i else pid2tcb q st))
    \<and> (\<forall>q j. pid2tcb q st = Some j \<longrightarrow> tcb_at st' j = tcb_at st j)"
proof -
  have none: "pid2tcb pid st = None" using assms(3) by (simp add: live_pids_def)
  show ?thesis
  proof (rule alloctcb_cases [OF assms(1,2) none, of cfg])
    assume "alloctcb cfg pid st = Inl OutOfMemory_tcb"
    then show ?thesis using assms(4) by (auto simp: alloctcb_def expand_tcbtab_def Let_def split: if_splits option.splits)
  next
    fix i st'
    assume a: "alloctcb cfg pid st = Inr (i, st')" "tcb_ok st'" "tcb_at st' i = new_tcb (current_personality st) pid" "nprocs st' = nprocs st + 1"
      and keep: "\<And>j. j < length (tcbtab st) \<Longrightarrow> j \<noteq> i \<Longrightarrow> tcb_at st' j = tcb_at st j"
      and look: "\<And>q. pid2tcb q st' = (if q = pid then Some i else pid2tcb q st)"
    have "tcb_at st' j = tcb_at st j" if q: "pid2tcb q st = Some j" for q j
    proof (rule keep)
      have tab: "tab_ok (tcbtab st) (nprocs st)" "tab_ok (tcbtab st') (nprocs st')"
        using assms(1) a(2) by (simp_all add: tcb_ok_def)
      show "j < length (tcbtab st)" using q by (simp add: pid2tcb_iff [OF tab(1)])
      have "q \<noteq> pid" using q none by auto
      then have "pid2tcb q st' = Some j" using look q by simp
      then show "j \<noteq> i" using \<open>q \<noteq> pid\<close> a(3) by (auto simp: pid2tcb_iff [OF tab(2)])
    qed
    moreover have "live_pids st' = insert pid (live_pids st)"
      using tcbs.pids_alloc [OF assms(1,2) _ a(1)] assms(3) by (simp add: live_pids_eq)
    ultimately show ?thesis using a look by auto
  qed
qed

theorem alloctcb_correct_witness:
  "\<exists>i st'. alloctcb config_plain 42 (strace_init 1) = Inr (i, st') \<and> tcb_ok st'
    \<and> tcb_at st' i = new_tcb (current_personality (strace_init 1)) 42 \<and> nprocs st' = nprocs (strace_init 1) + 1
    \<and> live_pids st' = insert 42 (live_pids (strace_init 1))
    \<and> (\<forall>q. pid2tcb q st' = (if q = 42 then Some i else pid2tcb q (strace_init 1)))
    \<and> (\<forall>q j. pid2tcb q (strace_init 1) = Some j \<longrightarrow> tcb_at st' j = tcb_at (strace_init 1) j)"
proof (rule alloctcb_correct)
  show "tcb_ok (strace_init 1)" by (simp add: strace_init_ok)
  show "(0 :: int) < 42" by simp
  show "42 \<notin> live_pids (strace_init 1)" by (simp add: live_pids_def strace_init_none)
  show "alloc_ok config_plain (2 * length (tcbtab (strace_init 1)))" by (simp add: config_plain_def)
qed

text \<open>
  \<open>droptcb\<close> removes exactly its process: the table stays well-formed, no pointer is left on
  the entry, and every other process keeps its entry and all of its contents.
\<close>

theorem droptcb_correct:
  assumes "tcb_ok st" "pid2tcb pid st = Some i"
  shows "tcb_ok (droptcb cfg i st) \<and> live_pids (droptcb cfg i st) = live_pids st - {pid}
    \<and> tcb_at (droptcb cfg i st) i = tcb_zero \<and> nprocs st = nprocs (droptcb cfg i st) + 1
    \<and> current_tcp (droptcb cfg i st) \<noteq> Some i \<and> printing_tcp (droptcb cfg i st) \<noteq> Some i
    \<and> (\<forall>j. j \<noteq> i \<longrightarrow> tcb_at (droptcb cfg i st) j = tcb_at st j)"
proof -
  have tab: "tab_ok (tcbtab st) (nprocs st)" using assms(1) by (simp add: tcb_ok_def)
  have i: "i < length (tcbtab st)" "inuse (tcb_at st i)" using assms(2) by (simp_all add: pid2tcb_iff [OF tab])
  then have "t_pid (tcb_at st i) \<noteq> 0" using tab_ok_pid [OF tab] by (simp add: tcb_at_def)
  note d = droptcb_fields [OF this, of cfg]
  have "tcb_at (droptcb cfg i st) i = tcb_zero" using i by (simp add: tcb_at_def d)
  moreover have "live_pids (droptcb cfg i st) = live_pids st - {pid}"
    using tcbs.pids_drop [OF assms] by (simp add: live_pids_eq)
  ultimately show ?thesis using droptcb_ok [OF assms] by (simp add: d(3,4))
qed

definition one_process :: strace where
  "one_process = snd (projr (alloctcb config_plain 42 (strace_init 1)))"

theorem droptcb_correct_witness:
  "tcb_ok one_process \<and> pid2tcb 42 one_process = Some 0 \<and> tcb_ok (droptcb config_plain 0 one_process)
   \<and> live_pids (droptcb config_plain 0 one_process) = live_pids one_process - {42}"
proof -

  have ok: "tcb_ok one_process \<and> pid2tcb 42 one_process = Some 0"
  proof (rule alloctcb_cases [of "strace_init 1" 42 config_plain])
    assume "alloctcb config_plain 42 (strace_init 1) = Inl OutOfMemory_tcb"
    then show ?thesis by (auto simp: alloctcb_def expand_tcbtab_def config_plain_def Let_def split: if_splits option.splits)
  next
    fix i st' assume a: "alloctcb config_plain 42 (strace_init 1) = Inr (i, st')" "tcb_ok st'"
      "\<And>q. pid2tcb q st' = (if q = 42 then Some i else pid2tcb q (strace_init 1))"
    have "alloctcb config_plain 42 (strace_init 1) = Inr (0, st')"
      using a(1) by (simp add: alloctcb_def strace_init_def find_free.simps upd_tcb_def)
    with a show ?thesis by (simp add: one_process_def)
  qed (simp_all add: strace_init_ok strace_init_none)
  then show ?thesis using droptcb_correct [of one_process 42 0 config_plain] by auto
qed

text \<open>
  In a well-formed table \<open>nprocs\<close> is the number of traced processes, so that the condition
  \<^verbatim>\<open>nprocs != 0\<close> of the main loop says that some process is traced.
\<close>

theorem nprocs_counts:
  assumes "tcb_ok st"
  shows "finite (live_pids st) \<and> card (live_pids st) = nprocs st \<and> (nprocs st \<noteq> 0 \<longleftrightarrow> live_pids st \<noteq> {})"
proof -
  have "finite (live_pids st) \<and> card (live_pids st) = nprocs st"
    using tcbs.pids_finite [OF assms] by (simp add: live_pids_eq)
  then show ?thesis by auto
qed

theorem nprocs_counts_witness:
  "tcb_ok (strace_init 2) \<and> finite (live_pids (strace_init 2)) \<and> card (live_pids (strace_init 2)) = nprocs (strace_init 2)"
  using nprocs_counts [of "strace_init 2"] strace_init_ok [of 2] by simp

end
