(* ===== verification/Qualify.thy ===== *)
theory Qualify
  imports Tcb Parse_Num
begin

text \<open>
  The filter expressions of option \<^verbatim>\<open>-e\<close> (\<^verbatim>\<open>src/strace/syscall.c\<close>, \<open>qualify\<close> and its helpers;
  \<open>signame\<close> of \<^verbatim>\<open>src/strace/signal.c\<close>). One byte of flags per number and personality says which system
  calls are traced, abbreviated, decoded, printed raw, which signals are reported and which
  descriptors are dumped. The arrays \<open>qual_vec[p]\<close> have \<open>num_quals\<close> entries each.
\<close>

abbreviation "SUPPORTED_PERSONALITIES \<equiv> (3 :: nat)"
abbreviation "QUAL_TRACE \<equiv> (0x01 :: c_int)"
abbreviation "QUAL_ABBREV \<equiv> (0x02 :: c_int)"
abbreviation "QUAL_VERBOSE \<equiv> (0x04 :: c_int)"
abbreviation "QUAL_RAW \<equiv> (0x08 :: c_int)"
abbreviation "QUAL_SIGNAL \<equiv> (0x10 :: c_int)"
abbreviation "QUAL_READ \<equiv> (0x20 :: c_int)"
abbreviation "QUAL_WRITE \<equiv> (0x40 :: c_int)"
abbreviation "TRACE_FILE \<equiv> (0x01 :: c_int)"
abbreviation "TRACE_IPC \<equiv> (0x02 :: c_int)"
abbreviation "TRACE_NETWORK \<equiv> (0x04 :: c_int)"
abbreviation "TRACE_PROCESS \<equiv> (0x08 :: c_int)"
abbreviation "TRACE_SIGNAL \<equiv> (0x10 :: c_int)"
abbreviation "TRACE_DESC \<equiv> (0x20 :: c_int)"
abbreviation "TRACE_MEMORY \<equiv> (0x40 :: c_int)"
abbreviation "NSIG \<equiv> (65 :: nat)"

subsection \<open>State\<close>

text \<open>\<open>sigbuf\<close> is the static buffer of \<open>signame\<close>, \<^verbatim>\<open>sizeof("SIGRT_%d") + sizeof(int)*3\<close> bytes.\<close>

record quals =
  num_quals :: nat
  qual_vec :: "byte list list"
  sigbuf :: string

definition quals_init :: quals where
  "quals_init = \<lparr>num_quals = 0, qual_vec = [[], [], []], sigbuf = replicate 21 (CHR 0x00)\<rparr>"

text \<open>The system call tables of the personalities, the signal names, and which allocations succeed.\<close>

record tables =
  sysent_vec :: "sysent list list"
  signalent :: "string list"
  realloc_ok :: "nat \<Rightarrow> bool"

datatype die = DieOutOfMemory | Invalid string string | DieOverrun

definition max_nsyscalls :: "tables \<Rightarrow> nat" where
  "max_nsyscalls tb =
    (let n0 = length (sysent_vec tb ! 0); n1 = length (sysent_vec tb ! 1); n2 = length (sysent_vec tb ! 2);
         m1 = (if n0 > n1 then n0 else n1)
     in if m1 > n2 then m1 else n2)"

definition min_quals :: "tables \<Rightarrow> nat" where
  "min_quals tb = (if max_nsyscalls tb > 255 then max_nsyscalls tb else 255)"

datatype qual_fun = Qual_syscall | Qual_signal | Qual_desc

record qual_option =
  bitflag :: c_int
  option_name :: string
  qual_how :: qual_fun
  argument_name :: string

definition qual_options :: "qual_option list" where
  "qual_options =
    [\<lparr>bitflag = QUAL_TRACE, option_name = ''trace'', qual_how = Qual_syscall, argument_name = ''system call''\<rparr>,
     \<lparr>bitflag = QUAL_TRACE, option_name = ''t'', qual_how = Qual_syscall, argument_name = ''system call''\<rparr>,
     \<lparr>bitflag = QUAL_ABBREV, option_name = ''abbrev'', qual_how = Qual_syscall, argument_name = ''system call''\<rparr>,
     \<lparr>bitflag = QUAL_ABBREV, option_name = ''a'', qual_how = Qual_syscall, argument_name = ''system call''\<rparr>,
     \<lparr>bitflag = QUAL_VERBOSE, option_name = ''verbose'', qual_how = Qual_syscall, argument_name = ''system call''\<rparr>,
     \<lparr>bitflag = QUAL_VERBOSE, option_name = ''v'', qual_how = Qual_syscall, argument_name = ''system call''\<rparr>,
     \<lparr>bitflag = QUAL_RAW, option_name = ''raw'', qual_how = Qual_syscall, argument_name = ''system call''\<rparr>,
     \<lparr>bitflag = QUAL_RAW, option_name = ''x'', qual_how = Qual_syscall, argument_name = ''system call''\<rparr>,
     \<lparr>bitflag = QUAL_SIGNAL, option_name = ''signal'', qual_how = Qual_signal, argument_name = ''signal''\<rparr>,
     \<lparr>bitflag = QUAL_SIGNAL, option_name = ''signals'', qual_how = Qual_signal, argument_name = ''signal''\<rparr>,
     \<lparr>bitflag = QUAL_SIGNAL, option_name = ''s'', qual_how = Qual_signal, argument_name = ''signal''\<rparr>,
     \<lparr>bitflag = QUAL_READ, option_name = ''read'', qual_how = Qual_desc, argument_name = ''descriptor''\<rparr>,
     \<lparr>bitflag = QUAL_READ, option_name = ''reads'', qual_how = Qual_desc, argument_name = ''descriptor''\<rparr>,
     \<lparr>bitflag = QUAL_READ, option_name = ''r'', qual_how = Qual_desc, argument_name = ''descriptor''\<rparr>,
     \<lparr>bitflag = QUAL_WRITE, option_name = ''write'', qual_how = Qual_desc, argument_name = ''descriptor''\<rparr>,
     \<lparr>bitflag = QUAL_WRITE, option_name = ''writes'', qual_how = Qual_desc, argument_name = ''descriptor''\<rparr>,
     \<lparr>bitflag = QUAL_WRITE, option_name = ''w'', qual_how = Qual_desc, argument_name = ''descriptor''\<rparr>]"

subsection \<open>Operations\<close>

definition reallocate_qual :: "tables \<Rightarrow> nat \<Rightarrow> quals \<Rightarrow> die + quals" where
  "reallocate_qual tb n q =
    (if realloc_ok tb n then
       Inr (q\<lparr>qual_vec := map (\<lambda>v. take n v @ replicate (n - num_quals q) 0) (qual_vec q), num_quals := n\<rparr>)
     else Inl DieOutOfMemory)"

definition set_qual :: "c_int \<Rightarrow> bool \<Rightarrow> byte \<Rightarrow> byte" where
  "set_qual flag neg b = (if neg then ucast (ucast b AND NOT flag) else ucast (ucast b OR flag))"

text \<open>The loop over the personalities; \<open>pers < 0\<close> stands for all of them.\<close>

definition qualify_one :: "tables \<Rightarrow> nat \<Rightarrow> c_int \<Rightarrow> bool \<Rightarrow> int \<Rightarrow> quals \<Rightarrow> die + quals" where
  "qualify_one tb n flag neg pers q =
    sbind (if num_quals q \<le> n then reallocate_qual tb (n + 1) q else Inr q) (\<lambda>q.
      Inr (q\<lparr>qual_vec :=
        map (\<lambda>p. if pers = int p \<or> pers < 0
                 then (qual_vec q ! p)[n := set_qual flag neg (qual_vec q ! p ! n)]
                 else qual_vec q ! p) [0..<SUPPORTED_PERSONALITIES]\<rparr>))"

text \<open>A loop that qualifies numbers of one personality, or of all, one after the other.\<close>

fun qualify_each :: "tables \<Rightarrow> nat list \<Rightarrow> c_int \<Rightarrow> bool \<Rightarrow> int \<Rightarrow> quals \<Rightarrow> die + quals" where
  "qualify_each tb [] flag neg pers q = Inr q"
| "qualify_each tb (n # ns) flag neg pers q =
    sbind (qualify_one tb n flag neg pers q) (qualify_each tb ns flag neg pers)"

definition starts_with_digit :: "string \<Rightarrow> bool" where
  "starts_with_digit s = (case s of c # _ \<Rightarrow> isdigit_c c | [] \<Rightarrow> False)"

text \<open>The numbers of a table with a given name, or with a class flag.\<close>

definition named :: "sysent list \<Rightarrow> string \<Rightarrow> nat list" where
  "named tab s = filter (\<lambda>i. sys_name (tab ! i) = Some s) [0..<length tab]"

definition in_class :: "sysent list \<Rightarrow> c_int \<Rightarrow> nat list" where
  "in_class tab n = filter (\<lambda>i. sys_flags (tab ! i) AND n \<noteq> 0) [0..<length tab]"

fun each_personality :: "tables \<Rightarrow> (sysent list \<Rightarrow> nat list) \<Rightarrow> nat list \<Rightarrow> c_int \<Rightarrow> bool \<Rightarrow> quals \<Rightarrow> die + quals" where
  "each_personality tb pick [] flag neg q = Inr q"
| "each_personality tb pick (p # ps) flag neg q =
    sbind (qualify_each tb (pick (sysent_vec tb ! p)) flag neg (int p) q)
          (each_personality tb pick ps flag neg)"

text \<open>The results are \<open>True\<close> for \<^verbatim>\<open>return 0\<close> and \<open>False\<close> for \<^verbatim>\<open>return -1\<close>.\<close>

definition qual_syscall :: "tables \<Rightarrow> string \<Rightarrow> c_int \<Rightarrow> bool \<Rightarrow> quals \<Rightarrow> die + bool \<times> quals" where
  "qual_syscall tb s flag neg q =
    (if starts_with_digit s then
       (let i = uint (word_of_int (string_to_uint s) :: c_int)
        in if i \<ge> int (max_nsyscalls tb) then Inr (False, q)
           else sbind (qualify_one tb (nat i) flag neg (-1) q) (\<lambda>q. Inr (True, q)))
     else
       sbind (each_personality tb (\<lambda>tab. named tab s) [0..<SUPPORTED_PERSONALITIES] flag neg q) (\<lambda>q'.
         Inr (\<exists>p \<in> set [0..<SUPPORTED_PERSONALITIES]. named (sysent_vec tb ! p) s \<noteq> [], q')))"

text \<open>
  \<open>signame\<close> returns an entry of the table (\<open>Inl\<close>) or its own buffer (\<open>Inr\<close>); \<open>sprintf\<close> leaves the
  bytes behind the terminating NUL as they were.
\<close>

definition into_sigbuf :: "string \<Rightarrow> string \<Rightarrow> string" where
  "into_sigbuf s buf = s @ [CHR 0x00] @ drop (length s + 1) buf"

definition signame :: "tables \<Rightarrow> int \<Rightarrow> string \<Rightarrow> string + string" where
  "signame tb sig buf =
    (if 0 \<le> sig \<and> sig < int (length (signalent tb)) then Inl (signalent tb ! nat sig)
     else if 32 \<le> sig \<and> sig \<le> 64 then Inr (into_sigbuf (''SIGRT_'' @ fmt_d (sig - 32)) buf)
     else Inr (into_sigbuf (fmt_d sig) buf))"

text \<open>\<^verbatim>\<open>signame(i) + 3\<close> as a C string, with the new contents of the buffer.\<close>

definition signame_3 :: "tables \<Rightarrow> nat \<Rightarrow> string \<Rightarrow> die + string \<times> string" where
  "signame_3 tb i buf =
    (case signame tb (int i) buf of
       Inl s \<Rightarrow> if length s < 3 then Inl DieOverrun else Inr (drop 3 s, buf)
     | Inr buf' \<Rightarrow> if CHR 0x00 \<in> set (drop 3 buf') then Inr (takeWhile (\<lambda>c. c \<noteq> CHR 0x00) (drop 3 buf'), buf')
                  else Inl DieOverrun)"

definition tolower :: "char \<Rightarrow> char" where
  "tolower c = (if 65 \<le> (of_char c :: nat) \<and> (of_char c :: nat) \<le> 90 then char_of ((of_char c :: nat) + 32) else c)"

definition strcaseeq :: "string \<Rightarrow> string \<Rightarrow> bool" where
  "strcaseeq s t \<longleftrightarrow> map tolower s = map tolower t"

function qual_signal_loop :: "tables \<Rightarrow> string \<Rightarrow> c_int \<Rightarrow> bool \<Rightarrow> nat \<Rightarrow> quals \<Rightarrow> die + bool \<times> quals" where
  "qual_signal_loop tb s flag neg i q =
    (if i \<le> NSIG then
       sbind (signame_3 tb i (sigbuf q)) (\<lambda>(name, buf).
         let q = q\<lparr>sigbuf := buf\<rparr>
         in if strcaseeq s name then sbind (qualify_one tb i flag neg (-1) q) (\<lambda>q. Inr (True, q))
            else qual_signal_loop tb s flag neg (i + 1) q)
     else Inr (False, q))"
  by pat_completeness auto
termination
  by (relation "measure (\<lambda>(tb, s, flag, neg, i, q). NSIG + 1 - i)") auto

declare qual_signal_loop.simps [simp del]

definition skip_sig :: "string \<Rightarrow> string" where
  "skip_sig s = (if strcaseeq (take 3 s) ''SIG'' then drop 3 s else s)"

definition qual_signal :: "tables \<Rightarrow> string \<Rightarrow> c_int \<Rightarrow> bool \<Rightarrow> quals \<Rightarrow> die + bool \<times> quals" where
  "qual_signal tb s flag neg q =
    (if starts_with_digit s then
       (let signo = string_to_uint s
        in if signo < 0 \<or> signo > 255 then Inr (False, q)
           else sbind (qualify_one tb (nat signo) flag neg (-1) q) (\<lambda>q. Inr (True, q)))
     else qual_signal_loop tb (skip_sig s) flag neg 0 q)"

definition qual_desc :: "tables \<Rightarrow> string \<Rightarrow> c_int \<Rightarrow> bool \<Rightarrow> quals \<Rightarrow> die + bool \<times> quals" where
  "qual_desc tb s flag neg q =
    (if starts_with_digit s then
       (let desc = string_to_uint s
        in if desc < 0 \<or> desc > 0x7fff then Inr (False, q)
           else sbind (qualify_one tb (nat desc) flag neg (-1) q) (\<lambda>q. Inr (True, q)))
     else Inr (False, q))"

definition lookup_class :: "string \<Rightarrow> c_int" where
  "lookup_class s =
    (if s = ''file'' then TRACE_FILE
     else if s = ''ipc'' then TRACE_IPC
     else if s = ''network'' then TRACE_NETWORK
     else if s = ''process'' then TRACE_PROCESS
     else if s = ''signal'' then TRACE_SIGNAL
     else if s = ''desc'' then TRACE_DESC
     else if s = ''memory'' then TRACE_MEMORY
     else -1)"

definition apply_qual :: "tables \<Rightarrow> qual_option \<Rightarrow> string \<Rightarrow> bool \<Rightarrow> quals \<Rightarrow> die + bool \<times> quals" where
  "apply_qual tb opt s neg q =
    (case qual_how opt of
       Qual_syscall \<Rightarrow> qual_syscall tb s (bitflag opt) neg q
     | Qual_signal \<Rightarrow> qual_signal tb s (bitflag opt) neg q
     | Qual_desc \<Rightarrow> qual_desc tb s (bitflag opt) neg q)"

text \<open>The tokens that \<open>strtok\<close> delivers for the separator \<^verbatim>\<open>","\<close>: empty ones are skipped.\<close>

function strtok_comma :: "string \<Rightarrow> string list" where
  "strtok_comma s =
    (let t = dropWhile (\<lambda>c. c = CHR '','') s
     in if t = [] then []
        else takeWhile (\<lambda>c. c \<noteq> CHR '','') t # strtok_comma (dropWhile (\<lambda>c. c \<noteq> CHR '','') t))"
  by pat_completeness auto
termination
proof (relation "measure length", goal_cases)
  case (2 s t)
  then obtain c u where t: "t = c # u" by (meson neq_Nil_conv)
  then have "c \<noteq> CHR '',''" using 2 hd_dropWhile [of "\<lambda>c. c = CHR '',''" s] by simp
  then have "length (dropWhile (\<lambda>c. c \<noteq> CHR '','') t) < length t"
    using length_dropWhile_le [of "\<lambda>c. c \<noteq> CHR '',''" u] by (simp add: t)
  moreover have "length t \<le> length s" using 2(1) length_dropWhile_le [of "\<lambda>c. c = CHR '',''" s] by simp
  ultimately show ?case by simp
qed simp

declare strtok_comma.simps [simp del]

fun qualify_tokens :: "tables \<Rightarrow> qual_option \<Rightarrow> bool \<Rightarrow> string list \<Rightarrow> quals \<Rightarrow> die + quals" where
  "qualify_tokens tb opt neg [] q = Inr q"
| "qualify_tokens tb opt neg (p # ps) q =
    sbind (if bitflag opt = QUAL_TRACE \<and> 0 <s lookup_class p then
             each_personality tb (\<lambda>tab. in_class tab (lookup_class p)) [0..<SUPPORTED_PERSONALITIES]
               (bitflag opt) neg q
           else
             sbind (apply_qual tb opt p neg q) (\<lambda>(ok, q).
               if ok then Inr q else Inl (Invalid (argument_name opt) p)))
      (qualify_tokens tb opt neg ps)"

text \<open>The option named before an equals sign, by default the first one, and the text behind it.\<close>

fun find_option :: "qual_option list \<Rightarrow> string \<Rightarrow> (qual_option \<times> string) option" where
  "find_option [] s = None"
| "find_option (opt # opts) s =
    (let n = length (option_name opt)
     in if take n s = option_name opt \<and> n < length s \<and> s ! n = CHR ''='' then Some (opt, drop (n + 1) s)
        else find_option opts s)"

definition qual_parse :: "string \<Rightarrow> qual_option \<times> bool \<times> string" where
  "qual_parse s =
    (let (opt, s) = (case find_option qual_options s of Some r \<Rightarrow> r | None \<Rightarrow> (hd qual_options, s));
         (neg, s) = (if s \<noteq> [] \<and> hd s = CHR ''!'' then (True, tl s) else (False, s))
     in if s = ''none'' then (opt, \<not> neg, ''all'') else (opt, neg, s))"

definition qualify :: "tables \<Rightarrow> string \<Rightarrow> quals \<Rightarrow> die + quals" where
  "qualify tb s q =
    sbind (if num_quals q = 0 then reallocate_qual tb (min_quals tb) q else Inr q) (\<lambda>q.
      case qual_parse s of (opt, neg, s) \<Rightarrow>
        if s = ''all'' then qualify_each tb [0..<num_quals q] (bitflag opt) neg (-1) q
        else
          sbind (qualify_each tb [0..<num_quals q] (bitflag opt) (\<not> neg) (-1) q) (\<lambda>q.
            if realloc_ok tb (length s + 1) then qualify_tokens tb opt neg (strtok_comma s) q
            else Inl DieOutOfMemory))"

end
