(* ===== verification/Count.thy ===== *)
theory Count
  imports Tcb_Table Qualify
begin

text \<open>
  The statistics of option \<^verbatim>\<open>-c\<close> (\<^verbatim>\<open>src/strace/count.c\<close>): \<open>count_syscall\<close> charges a finished call to
  its number, \<open>call_summary\<close> reports the counters of every personality in a chosen order. The rows of
  the report are modelled with their exact numbers; the floating-point columns (percentage and
  seconds) are functions of the times in a row and are not printed here.
\<close>

subsection \<open>Counting\<close>

abbreviation cur_sysent :: "tables \<Rightarrow> strace \<Rightarrow> sysent list" where
  "cur_sysent tb st \<equiv> sysent_vec tb ! current_personality st"

definition scno_in_range :: "tables \<Rightarrow> strace \<Rightarrow> c_long \<Rightarrow> bool" where
  "scno_in_range tb st scno \<longleftrightarrow> unat scno < length (cur_sysent tb st)"

definition cc_zero :: call_counts where
  "cc_zero = \<lparr>cc_time = tv_zero, cc_calls = 0, cc_errors = 0\<rparr>"

text \<open>
  The time charged for a call: \<open>tv\<close> is the wall clock time spent in it. The tick of the interval
  timer, \<open>tick\<close>, is asked for once.
\<close>

definition charge :: "timeval \<Rightarrow> timeval \<Rightarrow> timeval \<Rightarrow> timeval \<Rightarrow> timeval" where
  "charge tv dtime tick short =
    (if tv_cmp tv dtime > 0 then
       (if tv_nz dtime then dtime
        else if tv_cmp tv tick > 0 then (if tv_cmp short tick < 0 then short else tick)
        else tv)
     else tv)"

definition count_syscall :: "tables \<Rightarrow> timeval \<Rightarrow> nat \<Rightarrow> timeval \<Rightarrow> strace \<Rightarrow> die + strace" where
  "count_syscall tb tick tcp tv st =
    (let t = tcb_at st tcp; pers = current_personality st
     in if \<not> scno_in_range tb st (t_scno t) then Inr st
        else sbind (case countv st ! pers of
              Some cv \<Rightarrow> Inr cv
            | None \<Rightarrow> if realloc_ok tb (length (cur_sysent tb st)) then Inr (replicate (length (cur_sysent tb st)) cc_zero)
                     else Inl DieOutOfMemory) (\<lambda>cv.
          let scno = unat (t_scno t); cc = cv ! scno;
              wall = tv_sub tv (t_etime t);
              st = (if tv_cmp wall (t_dtime t) > 0 \<and> tv_sec (one_tick st) = -1 then st\<lparr>one_tick := tick\<rparr> else st);
              tv = charge wall (t_dtime t) (one_tick st) (shortest st);
              st = (if tv_cmp tv (shortest st) < 0 then st\<lparr>shortest := tv\<rparr> else st);
              cc = cc\<lparr>cc_calls := cc_calls cc + 1,
                      cc_errors := cc_errors cc + (if t_u_error t \<noteq> 0 then 1 else 0),
                      cc_time := tv_add (cc_time cc) tv\<rparr>
          in Inr (st\<lparr>countv := (countv st)[pers := Some (cv[scno := cc])]\<rparr>)))"

subsection \<open>Reporting\<close>

datatype sortby = By_time | By_calls | By_name | By_nothing

definition set_sortby :: "string \<Rightarrow> die + sortby" where
  "set_sortby s =
    (if s = ''time'' then Inr By_time
     else if s = ''calls'' then Inr By_calls
     else if s = ''name'' then Inr By_name
     else if s = ''nothing'' then Inr By_nothing
     else Inl (Invalid ''sortby'' s))"

definition set_overhead :: "int \<Rightarrow> timeval" where
  "set_overhead n = \<lparr>tv_sec = n sdiv 1000000, tv_usec = n smod 1000000\<rparr>"

definition time_cmp :: "call_counts list \<Rightarrow> nat \<Rightarrow> nat \<Rightarrow> int" where
  "time_cmp cv a b = - tv_cmp (cc_time (cv ! a)) (cc_time (cv ! b))"

definition count_cmp :: "call_counts list \<Rightarrow> nat \<Rightarrow> nat \<Rightarrow> int" where
  "count_cmp cv a b =
    (let m = cc_calls (cv ! a); n = cc_calls (cv ! b) in if m < n then 1 else if m > n then -1 else 0)"

text \<open>\<open>strcmp\<close> on byte strings; a missing name is dereferenced in C and is the empty one here.\<close>

fun strcmp :: "string \<Rightarrow> string \<Rightarrow> int" where
  "strcmp [] [] = 0"
| "strcmp [] (d # t) = -1"
| "strcmp (c # s) [] = 1"
| "strcmp (c # s) (d # t) =
    (if (of_char c :: nat) < of_char d then -1 else if (of_char d :: nat) < of_char c then 1 else strcmp s t)"

definition syscall_cmp :: "sysent list \<Rightarrow> nat \<Rightarrow> nat \<Rightarrow> int" where
  "syscall_cmp tab a b =
    strcmp (case sys_name (tab ! a) of Some s \<Rightarrow> s | None \<Rightarrow> []) (case sys_name (tab ! b) of Some s \<Rightarrow> s | None \<Rightarrow> [])"

definition sort_cmp :: "sortby \<Rightarrow> sysent list \<Rightarrow> call_counts list \<Rightarrow> (nat \<Rightarrow> nat \<Rightarrow> int) option" where
  "sort_cmp by tab cv =
    (case by of
       By_time \<Rightarrow> Some (time_cmp cv)
     | By_calls \<Rightarrow> Some (count_cmp cv)
     | By_name \<Rightarrow> Some (syscall_cmp tab)
     | By_nothing \<Rightarrow> None)"

text \<open>\<open>overhead\<close> is -1 seconds until option \<^verbatim>\<open>-O\<close> sets it.\<close>

definition the_overhead :: "timeval \<Rightarrow> timeval \<Rightarrow> timeval" where
  "the_overhead overhead short =
    (if tv_sec overhead = -1 then tv_div (tv_mul short 8) 10 else overhead)"

text \<open>The first loop: the overhead is taken off every used counter, and the totals are formed.\<close>

definition settle :: "timeval \<Rightarrow> call_counts \<Rightarrow> call_counts" where
  "settle overhead cc =
    (if cc_calls cc = 0 then cc else cc\<lparr>cc_time := tv_sub (cc_time cc) (tv_mul overhead (cc_calls cc))\<rparr>)"

record totals =
  tv_cum :: timeval
  call_cum :: int
  error_cum :: int

fun cumulate :: "call_counts list \<Rightarrow> totals \<Rightarrow> totals" where
  "cumulate [] s = s"
| "cumulate (cc # cv) s =
    cumulate cv (if cc_calls cc = 0 then s
      else \<lparr>tv_cum = tv_add (tv_cum s) (cc_time cc), call_cum = call_cum s + cc_calls cc,
            error_cum = error_cum s + cc_errors cc\<rparr>)"

text \<open>One line: number, time, microseconds per call, calls, errors (an empty field if there are none).\<close>

record row =
  r_idx :: nat
  r_time :: timeval
  r_usecs :: int
  r_calls :: int
  r_errors :: string

definition row_of :: "call_counts list \<Rightarrow> nat \<Rightarrow> row" where
  "row_of cv idx =
    (let cc = cv ! idx; dtv = tv_div (cc_time cc) (cc_calls cc)
     in \<lparr>r_idx = idx, r_time = cc_time cc, r_usecs = 1000000 * tv_sec dtv + tv_usec dtv,
         r_calls = cc_calls cc, r_errors = (if cc_errors cc \<noteq> 0 then fmt_d (cc_errors cc) else [])\<rparr>)"

text \<open>\<open>qsort\<close> is the C library's: a function from a comparison and a list to a list.\<close>

type_synonym sorter = "(nat \<Rightarrow> nat \<Rightarrow> int) \<Rightarrow> nat list \<Rightarrow> nat list"

definition call_summary_pers ::
  "sorter \<Rightarrow> sortby \<Rightarrow> timeval \<Rightarrow> sysent list \<Rightarrow> timeval \<Rightarrow> call_counts list option \<Rightarrow> row list \<times> totals \<times> call_counts list option" where
  "call_summary_pers qsort by overhead tab short cvo =
    (let overhead = the_overhead overhead short; zero = \<lparr>tv_cum = tv_zero, call_cum = 0, error_cum = 0\<rparr>
     in case cvo of
          None \<Rightarrow> ([], zero, None)
        | Some cv \<Rightarrow>
            (let cv = map (settle overhead) cv;
                 sorted_count = (case sort_cmp by tab cv of
                     Some cmp \<Rightarrow> qsort cmp [0..<length tab] | None \<Rightarrow> [0..<length tab])
             in (map (row_of cv) (filter (\<lambda>idx. cc_calls (cv ! idx) \<noteq> 0) sorted_count), cumulate cv zero, Some cv)))"

text \<open>
  \<open>call_summary\<close>: the personalities with counters, each with the word size its title names. The
  overhead is computed from the same shortest time for each of them, and the current personality is
  restored at the end.
\<close>

definition personality_wordsize :: "nat \<Rightarrow> nat" where
  "personality_wordsize p = (if p = 0 then 8 else 4)"

definition call_summary ::
  "sorter \<Rightarrow> sortby \<Rightarrow> timeval \<Rightarrow> tables \<Rightarrow> strace \<Rightarrow> (nat \<times> nat \<times> row list \<times> totals) list" where
  "call_summary qsort by overhead tb st =
    map (\<lambda>i. case call_summary_pers qsort by overhead (sysent_vec tb ! i) (shortest st) (countv st ! i) of
              (rows, tot, _) \<Rightarrow> (i, personality_wordsize i * 8, rows, tot))
        (filter (\<lambda>i. countv st ! i \<noteq> None) [0..<SUPPORTED_PERSONALITIES])"

end
