(* ===== verification/Count_Correct.thy ===== *)
theory Count_Correct
  imports Count
begin

text \<open>
  What the counters and the report of option \<^verbatim>\<open>-c\<close> mean: \<open>count_syscall\<close> changes one counter by one
  call, and the report is a complete and ordered list of the used counters with the right totals.
\<close>

subsection \<open>Counters\<close>

text \<open>The counters of a personality: one per number, and no more errors than calls.\<close>

definition cc_ok :: "call_counts \<Rightarrow> bool" where
  "cc_ok cc \<longleftrightarrow> 0 \<le> cc_errors cc \<and> cc_errors cc \<le> cc_calls cc \<and> (cc_calls cc = 0 \<longrightarrow> cc = cc_zero)"

definition counts_ok :: "tables \<Rightarrow> strace \<Rightarrow> bool" where
  "counts_ok tb st \<longleftrightarrow> length (countv st) = SUPPORTED_PERSONALITIES \<and> current_personality st < SUPPORTED_PERSONALITIES
     \<and> (\<forall>p < SUPPORTED_PERSONALITIES. \<forall>cv. countv st ! p = Some cv \<longrightarrow>
          length cv = length (sysent_vec tb ! p) \<and> (\<forall>cc \<in> set cv. cc_ok cc))"

text \<open>The counter of a number as the report sees it.\<close>

definition counter :: "strace \<Rightarrow> nat \<Rightarrow> nat \<Rightarrow> call_counts" where
  "counter st p n = (case countv st ! p of Some cv \<Rightarrow> cv ! n | None \<Rightarrow> cc_zero)"

lemma cc_zero_ok: "cc_ok cc_zero"
  by (simp add: cc_ok_def cc_zero_def)

lemma count_syscall_ok:
  assumes ok: "counts_ok tb st" and r: "scno_in_range tb st (t_scno (tcb_at st tcp))" "count_syscall tb tick tcp tv st = Inr st'"
  defines "p \<equiv> current_personality st" and "n \<equiv> unat (t_scno (tcb_at st tcp))"
  shows "counts_ok tb st' \<and> cc_calls (counter st' p n) = cc_calls (counter st p n) + 1
    \<and> cc_errors (counter st' p n) = cc_errors (counter st p n) + (if t_u_error (tcb_at st tcp) \<noteq> 0 then 1 else 0)
    \<and> (\<forall>q m. q < SUPPORTED_PERSONALITIES \<longrightarrow> m < length (sysent_vec tb ! q) \<longrightarrow> (q, m) \<noteq> (p, n) \<longrightarrow> counter st' q m = counter st q m)"
proof -
  let ?N = "length (sysent_vec tb ! p)"
  have p: "p < SUPPORTED_PERSONALITIES" "p < length (countv st)" and n: "n < ?N"
    using ok r(1) by (simp_all add: counts_ok_def scno_in_range_def p_def n_def)
  obtain cv where cv: "cv = (case countv st ! p of Some cv \<Rightarrow> cv | None \<Rightarrow> replicate ?N cc_zero)"
    and len: "length cv = ?N" and cok: "\<forall>cc \<in> set cv. cc_ok cc"
  proof
    let ?cv = "case countv st ! p of Some cv \<Rightarrow> cv | None \<Rightarrow> replicate ?N cc_zero"
    show "?cv = ?cv" ..
    show "length ?cv = ?N" "\<forall>cc \<in> set ?cv. cc_ok cc"
      using ok p cc_zero_ok by (auto simp: counts_ok_def split: option.splits)
  qed
  obtain tv' where st': "countv st' = (countv st)[p := Some (cv[n := (cv ! n)\<lparr>cc_calls := cc_calls (cv ! n) + 1,
        cc_errors := cc_errors (cv ! n) + (if t_u_error (tcb_at st tcp) \<noteq> 0 then 1 else 0),
        cc_time := tv_add (cc_time (cv ! n)) tv'\<rparr>])]"
    and pers: "current_personality st' = current_personality st"
    using r unfolding cv by (auto simp: count_syscall_def p_def n_def Let_def sbind_eq_Inr split: option.splits if_splits)
  have old: "m < ?N \<Longrightarrow> counter st p m = cv ! m" for m using cv by (auto simp: counter_def split: option.splits)
  have ccn: "cc_ok (cv ! n)" using cok n len by simp
  have "counts_ok tb st'"
    unfolding counts_ok_def
  proof (intro conjI allI impI)
    show "length (countv st') = SUPPORTED_PERSONALITIES" "current_personality st' < SUPPORTED_PERSONALITIES"
      using ok st' pers by (simp_all add: counts_ok_def)
    fix q cv' assume q: "q < SUPPORTED_PERSONALITIES" "countv st' ! q = Some cv'"
    show "length cv' = length (sysent_vec tb ! q)"
      using q st' ok len p by (cases "q = p") (auto simp: counts_ok_def)
    show "\<forall>cc \<in> set cv'. cc_ok cc"
    proof (cases "q = p")
      case True
      then have "set cv' \<subseteq> insert ((cv ! n)\<lparr>cc_calls := cc_calls (cv ! n) + 1,
        cc_errors := cc_errors (cv ! n) + (if t_u_error (tcb_at st tcp) \<noteq> 0 then 1 else 0),
        cc_time := tv_add (cc_time (cv ! n)) tv'\<rparr>) (set cv)"
        using q st' p set_update_subset_insert by fastforce
      then show ?thesis using cok ccn by (auto simp: cc_ok_def)
    next
      case False
      then show ?thesis using q st' ok by (auto simp: counts_ok_def)
    qed
  qed
  moreover have "counter st' p n = (cv ! n)\<lparr>cc_calls := cc_calls (cv ! n) + 1,
        cc_errors := cc_errors (cv ! n) + (if t_u_error (tcb_at st tcp) \<noteq> 0 then 1 else 0),
        cc_time := tv_add (cc_time (cv ! n)) tv'\<rparr>"
    using st' p n len by (simp add: counter_def)
  moreover have "counter st' q m = counter st q m"
    if "q < SUPPORTED_PERSONALITIES" "m < length (sysent_vec tb ! q)" "(q, m) \<noteq> (p, n)" for q m
    using that st' p old [of m] by (cases "q = p") (auto simp: counter_def)
  ultimately show ?thesis using old [OF n] by simp
qed

subsection \<open>The report\<close>

definition total_preorder :: "(nat \<Rightarrow> nat \<Rightarrow> int) \<Rightarrow> bool" where
  "total_preorder cmp \<longleftrightarrow> (\<forall>a b. cmp a b \<le> 0 \<or> cmp b a \<le> 0) \<and> (\<forall>a b c. cmp a b \<le> 0 \<longrightarrow> cmp b c \<le> 0 \<longrightarrow> cmp a c \<le> 0)"

definition qsort_ok :: "sorter \<Rightarrow> bool" where
  "qsort_ok qsort \<longleftrightarrow> (\<forall>cmp xs. mset (qsort cmp xs) = mset xs
     \<and> (total_preorder cmp \<longrightarrow> sorted_wrt (\<lambda>a b. cmp a b \<le> 0) (qsort cmp xs)))"

lemma cumulate_sums:
  "call_cum (cumulate cv s) = call_cum s + sum_list (map cc_calls cv)
   \<and> error_cum (cumulate cv s) = error_cum s + sum_list (map cc_errors (filter (\<lambda>cc. cc_calls cc \<noteq> 0) cv))"
  by (induction cv arbitrary: s) auto

lemma time_cmp_preorder: "total_preorder (time_cmp cv)"
  by (auto simp: total_preorder_def time_cmp_def tv_cmp_def split: if_splits)

lemma count_cmp_preorder: "total_preorder (count_cmp cv)"
  by (auto simp: total_preorder_def count_cmp_def Let_def split: if_splits)

lemma strcmp_total: "strcmp s t \<le> 0 \<or> strcmp t s \<le> 0"
  by (induction s t rule: strcmp.induct) auto

lemma strcmp_trans: "strcmp s t \<le> 0 \<Longrightarrow> strcmp t u \<le> 0 \<Longrightarrow> strcmp s u \<le> 0"
proof (induction s u arbitrary: t rule: strcmp.induct)
  case (3 c s)
  then show ?case by (cases t) auto
next
  case (4 c s d u)
  then show ?case by (cases t) (auto split: if_splits)
qed auto

lemma syscall_cmp_preorder: "total_preorder (syscall_cmp tab)"
  unfolding total_preorder_def syscall_cmp_def using strcmp_total strcmp_trans by blast

lemma sum_used: "sum_list (map cc_calls (filter (\<lambda>cc. cc_calls cc \<noteq> 0) cv)) = sum_list (map cc_calls cv)"
  by (induction cv) auto

lemma rows_perm:
  assumes "mset xs = mset [0..<length cv]"
  shows "mset (map ((!) cv) (filter (\<lambda>i. P (cv ! i)) xs)) = mset (filter P cv)"
proof -
  have "mset (filter (\<lambda>i. P (cv ! i)) xs) = mset (filter (\<lambda>i. P (cv ! i)) [0..<length cv])"
    using assms by (simp add: mset_filter)
  then have "mset (map ((!) cv) (filter (\<lambda>i. P (cv ! i)) xs)) = mset (map ((!) cv) (filter (\<lambda>i. P (cv ! i)) [0..<length cv]))"
    by simp
  also have "map ((!) cv) (filter (\<lambda>i. P (cv ! i)) [0..<length cv]) = filter P (map ((!) cv) [0..<length cv])"
    by (simp add: filter_map comp_def)
  also have "\<dots> = filter P cv" by (simp add: map_nth)
  finally show ?thesis .
qed

definition row_order :: "sortby \<Rightarrow> sysent list \<Rightarrow> row \<Rightarrow> row \<Rightarrow> bool" where
  "row_order by tab r s =
    (case by of
       By_time \<Rightarrow> tv_cmp (r_time s) (r_time r) \<le> 0
     | By_calls \<Rightarrow> r_calls s \<le> r_calls r
     | By_name \<Rightarrow> syscall_cmp tab (r_idx r) (r_idx s) \<le> 0
     | By_nothing \<Rightarrow> r_idx r < r_idx s)"

lemma tv_cmp_flip: "0 \<le> tv_cmp a b \<longleftrightarrow> tv_cmp b a \<le> 0"
  by (auto simp: tv_cmp_def)

lemma sorted_wrt_rows:
  assumes "sorted_wrt R xs" "\<And>a b. R a b \<Longrightarrow> Q (f a) (f b)"
  shows "sorted_wrt Q (map f (filter P xs))"
  using assms by (induction xs) auto

lemma sorted_count_ok:
  assumes "qsort_ok qsort"
  shows "\<exists>xs. (case sort_cmp by tab cv of Some cmp \<Rightarrow> qsort cmp [0..<n] | None \<Rightarrow> [0..<n]) = xs
    \<and> mset xs = mset [0..<n] \<and> sorted_wrt (\<lambda>a b. row_order by tab (row_of cv a) (row_of cv b)) xs"
proof -
  have q: "mset (qsort cmp [0..<n]) = mset [0..<n]" for cmp using assms by (simp add: qsort_ok_def)
  have s: "total_preorder cmp \<Longrightarrow> sorted_wrt (\<lambda>a b. cmp a b \<le> 0) (qsort cmp [0..<n])" for cmp
    using assms by (simp add: qsort_ok_def)
  show ?thesis
  proof (cases "by")
    case By_time
    have "sorted_wrt (\<lambda>a b. row_order by tab (row_of cv a) (row_of cv b)) (qsort (time_cmp cv) [0..<n])"
      using s [OF time_cmp_preorder [of cv]] By_time
      by (simp add: row_order_def row_of_def Let_def time_cmp_def tv_cmp_flip)
    then show ?thesis using q By_time by (simp add: sort_cmp_def)
  next
    case By_calls
    have "(count_cmp cv a b \<le> 0) = (cc_calls (cv ! b) \<le> cc_calls (cv ! a))" for a b by (simp add: count_cmp_def Let_def)
    then have "sorted_wrt (\<lambda>a b. row_order by tab (row_of cv a) (row_of cv b)) (qsort (count_cmp cv) [0..<n])"
      using s [OF count_cmp_preorder [of cv]] By_calls by (simp add: row_order_def row_of_def Let_def)
    then show ?thesis using q By_calls by (simp add: sort_cmp_def)
  next
    case By_name
    have "sorted_wrt (\<lambda>a b. row_order by tab (row_of cv a) (row_of cv b)) (qsort (syscall_cmp tab) [0..<n])"
      using s [OF syscall_cmp_preorder [of tab]] By_name by (simp add: row_order_def row_of_def Let_def)
    then show ?thesis using q By_name by (simp add: sort_cmp_def)
  next
    case By_nothing
    then show ?thesis by (simp add: sort_cmp_def row_order_def row_of_def Let_def sorted_wrt_upt)
  qed
qed

lemma settle_calls: "cc_calls (settle ov cc) = cc_calls cc" "cc_errors (settle ov cc) = cc_errors cc"
  by (simp_all add: settle_def)

lemma map_settle_calls: "map cc_calls (map (settle ov) cv) = map cc_calls cv"
  by (simp add: settle_calls comp_def)

lemma call_summary_ok:
  assumes "qsort_ok qsort" "length cv = length tab" "call_summary_pers qsort by overhead tab short (Some cv) = (rows, tot, cv')"
  shows "distinct (map r_idx rows) \<and> set (map r_idx rows) = {n. n < length tab \<and> cc_calls (cv ! n) \<noteq> 0}
    \<and> (\<forall>r \<in> set rows. r_calls r = cc_calls (cv ! r_idx r))
    \<and> sorted_wrt (row_order by tab) rows
    \<and> call_cum tot = sum_list (map r_calls rows) \<and> call_cum tot = sum_list (map cc_calls cv)"
proof -
  define ds where "ds = map (settle (the_overhead overhead short)) cv"
  obtain xs where xs: "(case sort_cmp by tab ds of Some cmp \<Rightarrow> qsort cmp [0..<length tab] | None \<Rightarrow> [0..<length tab]) = xs"
    "mset xs = mset [0..<length tab]" "sorted_wrt (\<lambda>a b. row_order by tab (row_of ds a) (row_of ds b)) xs"
    using sorted_count_ok [OF assms(1)] by blast
  let ?used = "filter (\<lambda>i. cc_calls (ds ! i) \<noteq> 0) xs"
  have rows: "rows = map (row_of ds) ?used"
    and tot: "tot = cumulate ds \<lparr>tv_cum = tv_zero, call_cum = 0, error_cum = 0\<rparr>"
    using assms(3) xs(1) by (simp_all add: call_summary_pers_def ds_def Let_def)
  have len: "length ds = length tab" using assms(2) by (simp add: ds_def)
  have calls: "n < length tab \<Longrightarrow> cc_calls (ds ! n) = cc_calls (cv ! n)" for n
    using assms(2) by (simp add: ds_def settle_calls)
  have set_xs: "set xs = {0..<length tab}" using xs(2) by (metis set_mset_mset set_upt)
  have idx: "map r_idx rows = ?used" by (simp add: rows row_of_def Let_def comp_def)
  have "distinct xs" using xs(2) by (metis distinct_upt mset_eq_imp_distinct_iff)
  then have d: "distinct (map r_idx rows)" unfolding idx by simp
  have set: "set (map r_idx rows) = {n. n < length tab \<and> cc_calls (cv ! n) \<noteq> 0}"
    unfolding idx using set_xs calls by auto
  have c: "\<forall>r \<in> set rows. r_calls r = cc_calls (cv ! r_idx r)"
    using set_xs calls by (auto simp: rows row_of_def Let_def)
  have s: "sorted_wrt (row_order by tab) rows" unfolding rows using xs(3) by (rule sorted_wrt_rows) simp
  have "map r_calls rows = map cc_calls (map ((!) ds) ?used)" by (simp add: rows row_of_def Let_def)
  then have "mset (map r_calls rows) = image_mset cc_calls (mset (map ((!) ds) ?used))" by (simp only: mset_map)
  also have "\<dots> = image_mset cc_calls (mset (filter (\<lambda>cc. cc_calls cc \<noteq> 0) ds))"
    using rows_perm [of xs ds "\<lambda>cc. cc_calls cc \<noteq> 0"] xs(2) len by (simp only:)
  finally have "mset (map r_calls rows) = mset (map cc_calls (filter (\<lambda>cc. cc_calls cc \<noteq> 0) ds))" by (simp only: mset_map)
  then have "sum_list (map r_calls rows) = sum_list (map cc_calls (filter (\<lambda>cc. cc_calls cc \<noteq> 0) ds))"
    by (metis sum_mset_sum_list)
  also have "\<dots> = sum_list (map cc_calls cv)" unfolding sum_used ds_def map_settle_calls ..
  finally have sum: "sum_list (map r_calls rows) = sum_list (map cc_calls cv)" .
  have "call_cum tot = sum_list (map cc_calls cv)"
    unfolding tot using cumulate_sums [of ds "\<lparr>tv_cum = tv_zero, call_cum = 0, error_cum = 0\<rparr>"]
    unfolding ds_def map_settle_calls by simp
  then show ?thesis using d set c s sum by simp
qed

text \<open>
  C14. \<open>count_syscall\<close> on a number of the table charges exactly one counter, the one of the number
  and the current personality: one call more, one error more exactly if the call failed. Every
  other counter stays as it is, the counter arrays keep the size of the tables, and no counter ever
  has more errors than calls.
\<close>

theorem count_syscall_correct:
  assumes "counts_ok tb st" "scno_in_range tb st (t_scno (tcb_at st tcp))" "count_syscall tb tick tcp tv st = Inr st'"
  defines "p \<equiv> current_personality st" and "n \<equiv> unat (t_scno (tcb_at st tcp))"
  shows "counts_ok tb st' \<and> cc_calls (counter st' p n) = cc_calls (counter st p n) + 1
    \<and> cc_errors (counter st' p n) = cc_errors (counter st p n) + (if t_u_error (tcb_at st tcp) \<noteq> 0 then 1 else 0)
    \<and> (\<forall>q m. q < SUPPORTED_PERSONALITIES \<longrightarrow> m < length (sysent_vec tb ! q) \<longrightarrow> (q, m) \<noteq> (p, n) \<longrightarrow> counter st' q m = counter st q m)"
  using count_syscall_ok [OF assms(1-3)] by (simp add: p_def n_def)

definition one_call_tables :: tables where
  "one_call_tables = \<lparr>sysent_vec = replicate 3 [\<lparr>nargs = 3, sys_flags = 0, sys_func = Some ''sys_read'', sys_name = Some ''read''\<rparr>],
     signalent = [], realloc_ok = \<lambda>_. True\<rparr>"

theorem count_syscall_correct_witness:
  "\<exists>st'. count_syscall one_call_tables tv_zero 0 \<lparr>tv_sec = 1, tv_usec = 5\<rparr> (strace_init 1) = Inr st'
     \<and> cc_calls (counter st' 0 0) = cc_calls (counter (strace_init 1) 0 0) + 1"
proof -
  have r: "scno_in_range one_call_tables (strace_init 1) (t_scno (tcb_at (strace_init 1) 0))"
    by (simp add: scno_in_range_def one_call_tables_def strace_init_def tcb_at_def tcb_zero_def)
  have ok: "counts_ok one_call_tables (strace_init 1)"
    by (auto simp: counts_ok_def strace_init_def nth_Cons split: nat.splits)
  have "\<exists>st'. count_syscall one_call_tables tv_zero 0 \<lparr>tv_sec = 1, tv_usec = 5\<rparr> (strace_init 1) = Inr st'"
    using r by (simp add: count_syscall_def one_call_tables_def strace_init_def Let_def)
  then obtain st' where st': "count_syscall one_call_tables tv_zero 0 \<lparr>tv_sec = 1, tv_usec = 5\<rparr> (strace_init 1) = Inr st'" ..
  have "current_personality (strace_init 1) = 0" "unat (t_scno (tcb_at (strace_init 1) 0)) = 0"
    by (simp_all add: strace_init_def tcb_at_def tcb_zero_def)
  then show ?thesis using count_syscall_correct [OF ok r st'] st' by auto
qed


text \<open>Insertion sort is a sorting algorithm in the sense of \<open>qsort_ok\<close>.\<close>

fun insert_by :: "(nat \<Rightarrow> nat \<Rightarrow> int) \<Rightarrow> nat \<Rightarrow> nat list \<Rightarrow> nat list" where
  "insert_by cmp x [] = [x]"
| "insert_by cmp x (y # ys) = (if cmp x y \<le> 0 then x # y # ys else y # insert_by cmp x ys)"

fun sort_by :: sorter where
  "sort_by cmp [] = []"
| "sort_by cmp (x # xs) = insert_by cmp x (sort_by cmp xs)"

lemma insert_by_mset: "mset (insert_by cmp x ys) = add_mset x (mset ys)"
  by (induction ys) auto

lemma insert_by_set: "set (insert_by cmp x ys) = insert x (set ys)"
  using insert_by_mset [of cmp x ys] by (metis set_mset_add_mset_insert set_mset_mset)

lemma insert_by_sorted:
  assumes "total_preorder cmp"
  shows "sorted_wrt (\<lambda>a b. cmp a b \<le> 0) ys \<Longrightarrow> sorted_wrt (\<lambda>a b. cmp a b \<le> 0) (insert_by cmp x ys)"
proof (induction ys)
  case (Cons y ys)
  have tot: "\<not> cmp a b \<le> 0 \<Longrightarrow> cmp b a \<le> 0" and tr: "cmp a b \<le> 0 \<Longrightarrow> cmp b c \<le> 0 \<Longrightarrow> cmp a c \<le> 0" for a b c
    using assms unfolding total_preorder_def by blast+
  show ?case using Cons tot [of x y] tr [of x y] by (auto simp: insert_by_set)
qed simp

lemma sort_by_ok: "qsort_ok sort_by"
proof -
  have "mset (sort_by cmp xs) = mset xs" for cmp xs by (induction xs) (auto simp: insert_by_mset)
  moreover have "sorted_wrt (\<lambda>a b. cmp a b \<le> 0) (sort_by cmp xs)" if "total_preorder cmp" for cmp xs
    by (induction xs) (auto intro: insert_by_sorted [OF that])
  ultimately show ?thesis by (simp add: qsort_ok_def)
qed


end
