(* ===== verification/Syscall.thy ===== *)
theory Syscall
  imports Count Dumpstr
begin

text \<open>
  System call stops (\<^verbatim>\<open>src/strace/syscall.c\<close>): fetching registers, number and arguments, the entry
  handler \<open>trace_syscall_entering\<close>, the exit handler \<open>trace_syscall_exiting\<close> with the result column,
  and the dump of transferred data. The branches are those of the x86\_64 build on a kernel with
  \<^verbatim>\<open>PTRACE_O_TRACEFORK\<close> (\<open>need_fork_exec_workarounds\<close> is 0). The argument decoders are a parameter:
  a decoder is known by its name, and what it prints at a stop, the auxiliary string it sets and
  the value it returns are inputs of the step. Prints to the log that follow each other are joined.
\<close>

subsection \<open>Parameters\<close>

abbreviation "UNDEFINED_SCNO \<equiv> (0x100 :: c_int)"
abbreviation "DEFAULT_QUAL_FLAGS \<equiv> (0x07 :: c_int)"
abbreviation "SYSCALL_NEVER_FAILS_bit \<equiv> (0x80 :: c_int)"
abbreviation "RVAL_MASK \<equiv> (7 :: c_int)"
abbreviation "RVAL_STR \<equiv> (8 :: c_int)"
abbreviation "RVAL_NONE \<equiv> (16 :: c_int)"

datatype cflags = CFLAG_NONE | CFLAG_ONLY_STATS | CFLAG_BOTH

text \<open>What is fixed while tracing: options, tables, filters, and the C library's messages.\<close>

record senv =
  opts :: config
  tabs :: tables
  qset :: quals
  errnoent :: "string list"
  strerror :: "int \<Rightarrow> string"
  cflag :: cflags
  Tflag :: bool
  qflag :: nat
  not_failing_only :: bool
  pathtrace :: "(tcb \<Rightarrow> bool) option"

text \<open>What one stop brings: the clock, the timer's tick, the tracee's memory, the decoder's doing.\<close>

record stop =
  leader_time :: moment
  time_of_day :: timeval
  tick :: timeval
  mem_of :: tracee
  decode :: "string \<Rightarrow> tcb \<Rightarrow> string \<times> string option option \<times> c_int"

text \<open>The memory readers work with the word size of the current personality.\<close>

definition tracee_at :: "stop \<Rightarrow> strace \<Rightarrow> tracee" where
  "tracee_at s st = (mem_of s)\<lparr>tr_wordsize := personality_wordsize (current_personality st)\<rparr>"

text \<open>The ways the tracer can end in the middle of its work.\<close>

datatype ending = EAbort abort | EDie die | EFault fault | EUnknownPid int

definition fails :: "('e \<Rightarrow> ending) \<Rightarrow> 'e + 'a \<Rightarrow> ending + 'a" where
  "fails f r = (case r of Inl e \<Rightarrow> Inl (f e) | Inr x \<Rightarrow> Inr x)"

subsection \<open>Personality\<close>

definition set_personality :: "nat \<Rightarrow> strace \<Rightarrow> strace" where
  "set_personality personality st = st\<lparr>current_personality := personality\<rparr>"

definition update_personality :: "senv \<Rightarrow> nat \<Rightarrow> nat \<Rightarrow> strace \<Rightarrow> strace" where
  "update_personality env tcp personality st =
    (if personality = current_personality st then st
     else
       (let st = set_personality personality st
        in if personality = t_currpers (tcb_at st tcp) then st
           else
             (let st = upd_tcb tcp (\<lambda>t. t\<lparr>t_currpers := personality\<rparr>) st
              in if qflag env = 0 then
                   st\<lparr>errs := errs st @ [''[ Process PID='' @ fmt_d (t_pid (tcb_at st tcp)) @ '' runs in ''
                       @ ([''64 bit'', ''32 bit'', ''x32''] ! personality) @ '' mode. ]'']\<rparr>
                 else st)))"

definition current_wordsize :: "strace \<Rightarrow> nat" where
  "current_wordsize st = personality_wordsize (current_personality st)"

definition qual_flags :: "senv \<Rightarrow> strace \<Rightarrow> nat \<Rightarrow> c_int" where
  "qual_flags env st n = ucast (qual_vec (qset env) ! current_personality st ! n)"

subsection \<open>Printing arguments\<close>

definition entering :: "tcb \<Rightarrow> bool" where
  "entering t \<longleftrightarrow> \<not> has_flag t TCB_INSYSCALL"

abbreviation exiting :: "tcb \<Rightarrow> bool" where
  "exiting t \<equiv> has_flag t TCB_INSYSCALL"

definition args_text :: "(c_long \<Rightarrow> string) \<Rightarrow> nat \<Rightarrow> tcb \<Rightarrow> fault + string" where
  "args_text fmt n t =
    (if n \<le> length (t_u_arg t)
     then Inr (concat (map (\<lambda>i. (if i \<noteq> 0 then '', '' else []) @ fmt (t_u_arg t ! i)) [0..<n]))
     else Inl OutOfBounds)"

definition args_with :: "(c_long \<Rightarrow> string) \<Rightarrow> senv \<Rightarrow> nat \<Rightarrow> strace \<Rightarrow> fault + strace" where
  "args_with fmt env tcp st =
    (let t = tcb_at st tcp
     in if entering t then
          sbind (args_text fmt (case t_s_ent t of Some e \<Rightarrow> nargs e | None \<Rightarrow> 0) t) (\<lambda>txt.
            Inr (if txt = [] then st else tprints (opts env) txt st))
        else Inr st)"

definition printargs :: "senv \<Rightarrow> nat \<Rightarrow> strace \<Rightarrow> fault + strace" where
  "printargs = args_with (\<lambda>a. fmt_hx (unat a))"

definition printargs_lu :: "senv \<Rightarrow> nat \<Rightarrow> strace \<Rightarrow> fault + strace" where
  "printargs_lu = args_with (\<lambda>a. fmt_u (unat a))"

definition printargs_ld :: "senv \<Rightarrow> nat \<Rightarrow> strace \<Rightarrow> fault + strace" where
  "printargs_ld = args_with (\<lambda>a. fmt_d (sint a))"

text \<open>The call through \<open>s_ent->sys_func\<close>.\<close>

definition call_sys_func :: "senv \<Rightarrow> stop \<Rightarrow> nat \<Rightarrow> strace \<Rightarrow> fault + c_int \<times> strace" where
  "call_sys_func env s tcp st =
    (case t_s_ent (tcb_at st tcp) of
       None \<Rightarrow> Inl OutOfBounds
     | Some e \<Rightarrow> (case sys_func e of
         None \<Rightarrow> Inl OutOfBounds
       | Some f \<Rightarrow>
           if f = ''printargs'' then sbind (printargs env tcp st) (\<lambda>st. Inr (0, st))
           else if f = ''printargs_lu'' then sbind (printargs_lu env tcp st) (\<lambda>st. Inr (0, st))
           else if f = ''printargs_ld'' then sbind (printargs_ld env tcp st) (\<lambda>st. Inr (0, st))
           else (case decode s f (tcb_at st tcp) of (txt, aux, r) \<Rightarrow>
             let st = tprints (opts env) txt st
             in Inr (r, case aux of Some a \<Rightarrow> upd_tcb tcp (\<lambda>t. t\<lparr>t_auxstr := a\<rparr>) st | None \<Rightarrow> st))))"

definition is_restart_error :: "int \<Rightarrow> bool" where
  "is_restart_error u_error \<longleftrightarrow> u_error = 512 \<or> u_error = 513 \<or> u_error = 514 \<or> u_error = 516"

subsection \<open>Registers\<close>

record regs_answer =
  getregset_ans :: "errno + regs"
  getregs_ans :: "errno + user_regs_struct"

text \<open>The heuristic detection of 32-bit tracees by the code segment.\<close>

definition narrow_regs :: "user_regs_struct \<Rightarrow> regs" where
  "narrow_regs u =
    (if seg_cs u = 0x23 then
       I386_regs \<lparr>ebx = ucast (rbx u), ecx = ucast (rcx u), edx = ucast (rdx u), esi = ucast (rsi u),
         edi = ucast (rdi u), ebp = ucast (rbp u), eax = ucast (rax u), orig_eax = ucast (orig_rax u),
         eip = ucast (rip u), esp = ucast (rsp u)\<rparr>
     else X86_64_regs u)"

definition get_regs_old :: "regs_answer \<Rightarrow> strace \<Rightarrow> strace" where
  "get_regs_old a st =
    (case getregs_ans a of
       Inl _ \<Rightarrow> st\<lparr>get_regs_error := True\<rparr>
     | Inr u \<Rightarrow> st\<lparr>get_regs_error := False, regs := narrow_regs u\<rparr>)"

definition get_regs :: "regs_answer \<Rightarrow> strace \<Rightarrow> strace" where
  "get_regs a st =
    (if getregset_support st \<ge> 0 then
       (case getregset_ans a of
          Inr r \<Rightarrow>
            (let st = st\<lparr>get_regs_error := False, regs := r\<rparr>
             in if getregset_support st > 0 then st else st\<lparr>getregset_support := 1\<rparr>)
        | Inl e \<Rightarrow>
            (let st = st\<lparr>get_regs_error := True\<rparr>
             in if getregset_support st > 0 then st
                else if e = EPERM \<or> e = ESRCH then st
                else get_regs_old a (st\<lparr>getregset_support := -1\<rparr>)))
     else get_regs_old a st)"

definition clear_regs :: "strace \<Rightarrow> strace" where
  "clear_regs st = st\<lparr>get_regs_error := True\<rparr>"

definition x32_bit :: c_long where
  "x32_bit = 0x40000000"

text \<open>\<open>SCNO_IS_VALID\<close> and the entry used for other numbers.\<close>

definition scno_is_valid :: "tables \<Rightarrow> strace \<Rightarrow> c_long \<Rightarrow> bool" where
  "scno_is_valid tb st scno \<longleftrightarrow> scno_in_range tb st scno \<and> sys_func (cur_sysent tb st ! unat scno) \<noteq> None"

definition unknown_ent :: sysent where
  "unknown_ent = \<lparr>nargs = 6, sys_flags = 0, sys_func = Some ''printargs'', sys_name = Some ''unknown''\<rparr>"

definition select_ent :: "senv \<Rightarrow> c_long \<Rightarrow> nat \<Rightarrow> strace \<Rightarrow> strace" where
  "select_ent env scno tcp st =
    upd_tcb tcp (\<lambda>t. t\<lparr>t_scno := scno,
        t_s_ent := Some (if scno_is_valid (tabs env) st scno then cur_sysent (tabs env) st ! unat scno else unknown_ent),
        t_qual_flg := (if scno_is_valid (tabs env) st scno then qual_flags env st (unat scno)
                       else UNDEFINED_SCNO OR QUAL_RAW OR DEFAULT_QUAL_FLAGS)\<rparr>) st"

definition get_scno :: "senv \<Rightarrow> nat \<Rightarrow> strace \<Rightarrow> strace" where
  "get_scno env tcp st =
    (let (scno, currpers) =
       (case regs st of
          I386_regs r \<Rightarrow> (ucast (orig_eax r), 1)
        | X86_64_regs r \<Rightarrow>
            if orig_rax r AND x32_bit \<noteq> 0 then (orig_rax r - x32_bit, 2) else (orig_rax r, 0))
     in select_ent env scno tcp (update_personality env tcp currpers st))"

text \<open>The result register, sign extended from 32 bits for an i386 tracee.\<close>

definition rax_of :: "regs \<Rightarrow> c_long" where
  "rax_of r = (case r of I386_regs r \<Rightarrow> scast (eax r) | X86_64_regs r \<Rightarrow> rax r)"

text \<open>\<open>False\<close> if this is no system call entry: the result register does not hold -ENOSYS.\<close>

definition syscall_fixup_on_sysenter :: "strace \<Rightarrow> bool" where
  "syscall_fixup_on_sysenter st \<longleftrightarrow> rax_of (regs st) = - 38"

definition get_syscall_args :: "nat \<Rightarrow> strace \<Rightarrow> strace" where
  "get_syscall_args tcp st =
    upd_tcb tcp (\<lambda>t. t\<lparr>t_u_arg :=
      (case regs st of
         X86_64_regs r \<Rightarrow> [rdi r, rsi r, rdx r, r10 r, r8 r, r9 r]
       | I386_regs r \<Rightarrow> map ucast [ebx r, ecx r, edx r, esi r, edi r, ebp r])\<rparr>) st"

subsection \<open>Multiplexed calls of i386\<close>

abbreviation "SYS_socket_subcall \<equiv> (400 :: nat)"
abbreviation "SYS_ipc_subcall \<equiv> (420 :: nat)"

definition switch_scno :: "senv \<Rightarrow> nat \<Rightarrow> nat \<Rightarrow> strace \<Rightarrow> strace" where
  "switch_scno env scno tcp st =
    upd_tcb tcp (\<lambda>t. t\<lparr>t_scno := of_nat scno, t_qual_flg := qual_flags env st scno,
                       t_s_ent := Some (cur_sysent (tabs env) st ! scno)\<rparr>) st"

text \<open>One argument of a socket call, of the word size of the tracee; 0 if it cannot be read.\<close>

definition subcall_arg :: "tracee \<Rightarrow> nat \<Rightarrow> c_long \<Rightarrow> fault + c_long" where
  "subcall_arg t sz addr =
    sbind (tr_umoven t addr sz (replicate sz CHR 0x00)) (\<lambda>(r, buf, _).
      Inr (if r < 0 then 0 else of_nat (bytes_num buf)))"

fun subcall_args :: "tracee \<Rightarrow> nat \<Rightarrow> nat \<Rightarrow> c_long \<Rightarrow> fault + c_long list" where
  "subcall_args t sz 0 addr = Inr []"
| "subcall_args t sz (Suc n) addr =
    sbind (subcall_arg t sz addr) (\<lambda>a. sbind (subcall_args t sz n (addr + of_nat sz)) (\<lambda>as. Inr (a # as)))"

definition decode_socket_subcall :: "senv \<Rightarrow> stop \<Rightarrow> nat \<Rightarrow> strace \<Rightarrow> fault + strace" where
  "decode_socket_subcall env s tcp st =
    (let call = sint (t_u_arg (tcb_at st tcp) ! 0)
     in if call < 0 \<or> call \<ge> 20 then Inr st
        else
          (let addr = t_u_arg (tcb_at st tcp) ! 1;
               st = switch_scno env (SYS_socket_subcall + nat call) tcp st;
               n = nargs (cur_sysent (tabs env) st ! (SYS_socket_subcall + nat call))
           in if n > 6 then Inl OutOfBounds
              else sbind (subcall_args (tracee_at s st) (if current_wordsize st = 4 then 4 else 8) n addr) (\<lambda>as.
                Inr (upd_tcb tcp (\<lambda>t. t\<lparr>t_u_arg := as @ drop n (t_u_arg t)\<rparr>) st))))"

definition decode_ipc_subcall :: "senv \<Rightarrow> nat \<Rightarrow> strace \<Rightarrow> fault + strace" where
  "decode_ipc_subcall env tcp st =
    (let call = sint (t_u_arg (tcb_at st tcp) ! 0)
     in if call < 0 \<or> call \<ge> 25 then Inr st
        else
          (let st = switch_scno env (SYS_ipc_subcall + nat call) tcp st;
               n = nargs (cur_sysent (tabs env) st ! (SYS_ipc_subcall + nat call))
           in if n \<ge> 6 then Inl OutOfBounds
              else Inr (upd_tcb tcp (\<lambda>t. t\<lparr>t_u_arg := take n (drop 1 (t_u_arg t)) @ drop n (t_u_arg t)\<rparr>) st)))"

definition sys_func_is :: "string \<Rightarrow> tcb \<Rightarrow> bool" where
  "sys_func_is f t = (case t_s_ent t of Some e \<Rightarrow> sys_func e = Some f | None \<Rightarrow> False)"

definition decode_subcall :: "senv \<Rightarrow> stop \<Rightarrow> nat \<Rightarrow> strace \<Rightarrow> fault + strace" where
  "decode_subcall env s tcp st =
    (if sys_func_is ''sys_socketcall'' (tcb_at st tcp) then decode_socket_subcall env s tcp st
     else if sys_func_is ''sys_ipc'' (tcb_at st tcp) then decode_ipc_subcall env tcp st
     else Inr st)"

subsection \<open>Entry\<close>

definition undefined_scno_name :: "tcb \<Rightarrow> string" where
  "undefined_scno_name t = ''syscall_'' @ fmt_u (unat (t_scno t))"

definition call_name :: "tcb \<Rightarrow> string" where
  "call_name t =
    (if t_qual_flg t AND UNDEFINED_SCNO \<noteq> 0 then undefined_scno_name t
     else (case t_s_ent t of Some e \<Rightarrow> (case sys_name e of Some n \<Rightarrow> n | None \<Rightarrow> ''(null)'') | None \<Rightarrow> ''(null)''))"

text \<open>The label \<open>ret\<close> of the entry handler.\<close>

definition entering_ret :: "senv \<Rightarrow> stop \<Rightarrow> nat \<Rightarrow> strace \<Rightarrow> strace" where
  "entering_ret env s tcp st =
    upd_tcb tcp (\<lambda>t. let t = set_flags TCB_INSYSCALL t
                     in if Tflag env \<or> cflag env \<noteq> CFLAG_NONE then t\<lparr>t_etime := time_of_day s\<rparr> else t) st"

text \<open>The part of the entry handler after the arguments are known.\<close>

definition report_entry :: "senv \<Rightarrow> stop \<Rightarrow> nat \<Rightarrow> strace \<Rightarrow> fault + int \<times> strace" where
  "report_entry env s tcp st =
    (if t_qual_flg (tcb_at st tcp) AND QUAL_TRACE = 0
        \<or> (case pathtrace env of Some match \<Rightarrow> \<not> match (tcb_at st tcp) | None \<Rightarrow> False)
     then Inr (0, upd_tcb tcp (set_flags (TCB_INSYSCALL OR TCB_FILTERED)) st)
     else
       (let st = upd_tcb tcp (clear_flags TCB_FILTERED) st
        in if cflag env = CFLAG_ONLY_STATS \<or> hide_log_until_execve st then Inr (0, entering_ret env s tcp st)
           else
             (let st = printleader (opts env) (leader_time s) tcp st;
                  st = tprintf (opts env) (call_name (tcb_at st tcp) @ ''('') st
              in sbind (if t_qual_flg (tcb_at st tcp) AND QUAL_RAW \<noteq> 0 \<and> \<not> sys_func_is ''sys_exit'' (tcb_at st tcp)
                        then sbind (printargs env tcp st) (\<lambda>st. Inr (0, st))
                        else call_sys_func env s tcp st) (\<lambda>(r, st).
                Inr (sint r, entering_ret env s tcp st)))))"

definition trace_syscall_entering :: "senv \<Rightarrow> stop \<Rightarrow> nat \<Rightarrow> strace \<Rightarrow> fault + int \<times> strace" where
  "trace_syscall_entering env s tcp st =
    (if get_regs_error st then
       (let st = tprints (opts env) ''????('' (printleader (opts env) (leader_time s) tcp st)
        in Inr (-1, entering_ret env s tcp st))
     else
       (let st = get_scno env tcp st
        in if \<not> syscall_fixup_on_sysenter st then Inr (0, st)
           else
             (let st = get_syscall_args tcp st;
                  st = (if sys_func_is ''sys_execve'' (tcb_at st tcp) then st\<lparr>hide_log_until_execve := False\<rparr> else st)
              in sbind (decode_subcall env s tcp st) (report_entry env s tcp))))"

subsection \<open>Exit\<close>

definition is_negated_errno :: "nat \<Rightarrow> nat \<Rightarrow> c_long \<Rightarrow> bool" where
  "is_negated_errno wordsize nerrnos val =
    (let max = - of_nat nerrnos :: c_long
     in if wordsize < 8 then (ucast val :: c_int) > ucast max else val > max)"

definition get_error :: "senv \<Rightarrow> nat \<Rightarrow> strace \<Rightarrow> strace" where
  "get_error env tcp st =
    (let rax = rax_of (regs st);
         check_errno = (case t_s_ent (tcb_at st tcp) of
             Some e \<Rightarrow> sys_flags e AND SYSCALL_NEVER_FAILS_bit = 0 | None \<Rightarrow> True)
     in upd_tcb tcp (\<lambda>t.
          if check_errno \<and> is_negated_errno (current_wordsize st) (length (errnoent env)) rax
          then t\<lparr>t_u_rval := -1, t_u_error := sint (ucast (- rax) :: c_int)\<rparr>
          else t\<lparr>t_u_rval := rax, t_u_error := 0\<rparr>) st)"

text \<open>The result column of an error and of a value.\<close>

definition error_text :: "senv \<Rightarrow> int \<Rightarrow> string" where
  "error_text env u_error =
    (if u_error = 512 then ''= ? ERESTARTSYS (To be restarted if SA_RESTART is set)''
     else if u_error = 513 then ''= ? ERESTARTNOINTR (To be restarted)''
     else if u_error = 514 then ''= ? ERESTARTNOHAND (To be restarted if no handler)''
     else if u_error = 516 then ''= ? ERESTART_RESTARTBLOCK (Interrupted by signal)''
     else if u_error < 0 then ''= -1 E??? (errno '' @ fmt_d u_error @ '')''
     else if u_error < int (length (errnoent env)) then
       ''= -1 '' @ errnoent env ! nat u_error @ '' ('' @ strerror env u_error @ '')''
     else ''= -1 ERRNO_'' @ fmt_d u_error @ '' ('' @ strerror env u_error @ '')'')"

definition value_text :: "c_int \<Rightarrow> c_long \<Rightarrow> string" where
  "value_text sys_res rval =
    (if sys_res AND RVAL_NONE \<noteq> 0 then ''= ?''
     else if sys_res AND RVAL_MASK = 1 then ''= '' @ fmt_hx (unat rval)
     else if sys_res AND RVAL_MASK = 2 then ''= '' @ fmt_ho (unat rval)
     else if sys_res AND RVAL_MASK = 3 then ''= '' @ fmt_u (unat rval)
     else if sys_res AND RVAL_MASK = 0 then ''= '' @ fmt_d (sint rval)
     else [])"

definition result_text :: "senv \<Rightarrow> c_int \<Rightarrow> tcb \<Rightarrow> string" where
  "result_text env sys_res t =
    (if t_qual_flg t AND QUAL_RAW \<noteq> 0 then
       (if t_u_error t \<noteq> 0 then ''= -1 (errno '' @ fmt_d (t_u_error t) @ '')''
        else ''= '' @ fmt_hx (unat (t_u_rval t)))
     else
       (if sys_res AND RVAL_NONE = 0 \<and> t_u_error t \<noteq> 0 then error_text env (t_u_error t)
        else value_text sys_res (t_u_rval t))
       @ (case t_auxstr t of
            Some a \<Rightarrow> if sys_res AND RVAL_STR \<noteq> 0 then '' ('' @ a @ '')'' else []
          | None \<Rightarrow> []))"

definition bad_rval :: "c_int \<Rightarrow> tcb \<Rightarrow> bool" where
  "bad_rval sys_res t \<longleftrightarrow> t_qual_flg t AND QUAL_RAW = 0 \<and> sys_res AND RVAL_NONE = 0 \<and> t_u_error t = 0
     \<and> sys_res AND RVAL_MASK \<notin> {0, 1, 2, 3}"

text \<open>
  The data of a transfer. A length that is negative as an \<open>int\<close> makes \<open>process_vm_readv\<close> fail with
  EINVAL; without that call \<open>dumpstr\<close> writes behind its buffer.
\<close>

definition dump_call :: "tracee \<Rightarrow> c_long \<Rightarrow> c_long \<Rightarrow> fault + string" where
  "dump_call t addr len =
    (let n = sint (ucast len :: c_int)
     in if n < 0 then (if tr_notsup t \<or> vm_readv (tr_kernel t) addr (unat (scast (ucast len :: c_int) :: c_long)) = Inl ENOSYS
                       then Inl OutOfBounds else Inr [])
        else sbind (dumpstr t addr (nat n) (replicate (nat n + 16) CHR 0x00)) (\<lambda>(txt, _). Inr txt))"

fun dump_iovs :: "tracee \<Rightarrow> string \<Rightarrow> nat \<Rightarrow> nat \<Rightarrow> nat \<Rightarrow> fault + string" where
  "dump_iovs t iov sz 0 i = Inr []"
| "dump_iovs t iov sz (Suc n) i =
    (let base = of_nat (bytes_num (take sz (drop (2 * sz * i) iov)));
         len = of_nat (bytes_num (take sz (drop (2 * sz * i + sz) iov)))
     in sbind (dump_call t base len) (\<lambda>txt.
        sbind (dump_iovs t iov sz n (i + 1)) (\<lambda>rest.
          Inr ('' * '' @ fmt_u (unat len) @ '' bytes in buffer '' @ fmt_u i @ [CHR 0x0A] @ txt @ rest))))"

definition dumpiov :: "tracee \<Rightarrow> c_long \<Rightarrow> c_long \<Rightarrow> fault + string" where
  "dumpiov t len addr =
    (let n = unat (ucast len :: c_int); sz = (if tr_wordsize t = 4 then 4 else 8)
     in if n > 1024 * 1024 then Inr []
        else sbind (tr_umoven t addr (2 * sz * n) (replicate (2 * sz * n) CHR 0x00)) (\<lambda>(r, iov, _).
          if r \<ge> 0 then dump_iovs t iov sz n 0 else Inr []))"

definition dumpio_text :: "senv \<Rightarrow> stop \<Rightarrow> strace \<Rightarrow> tcb \<Rightarrow> fault + string" where
  "dumpio_text env s st t =
    (let fd = unat (t_u_arg t ! 0); func = (case t_s_ent t of Some e \<Rightarrow> sys_func e | None \<Rightarrow> None)
     in if t_u_error t \<noteq> 0 \<or> fd \<ge> num_quals (qset env) \<or> func = Some ''printargs'' then Inr []
        else if qual_flags env st fd AND QUAL_READ \<noteq> 0 then
          (if func \<in> Some ` {''sys_read'', ''sys_pread'', ''sys_recv'', ''sys_recvfrom''}
           then dump_call (tracee_at s st) (t_u_arg t ! 1) (t_u_rval t)
           else if func = Some ''sys_readv'' then dumpiov (tracee_at s st) (t_u_arg t ! 2) (t_u_arg t ! 1)
           else Inr [])
        else if qual_flags env st fd AND QUAL_WRITE \<noteq> 0 then
          (if func \<in> Some ` {''sys_write'', ''sys_pwrite'', ''sys_send'', ''sys_sendto''}
           then dump_call (tracee_at s st) (t_u_arg t ! 1) (t_u_arg t ! 2)
           else if func = Some ''sys_writev'' then dumpiov (tracee_at s st) (t_u_arg t ! 2) (t_u_arg t ! 1)
           else Inr [])
        else Inr [])"

definition dumpio :: "senv \<Rightarrow> stop \<Rightarrow> nat \<Rightarrow> strace \<Rightarrow> fault + strace" where
  "dumpio env s tcp st =
    sbind (dumpio_text env s st (tcb_at st tcp)) (\<lambda>txt. Inr (if txt = [] then st else tprints (opts env) txt st))"

text \<open>The label \<open>ret\<close> of the exit handler.\<close>

definition exiting_ret :: "nat \<Rightarrow> strace \<Rightarrow> strace" where
  "exiting_ret tcp st = upd_tcb tcp (clear_flags TCB_INSYSCALL) st"

text \<open>A line that was interrupted is resumed.\<close>

definition resume_line :: "senv \<Rightarrow> stop \<Rightarrow> nat \<Rightarrow> strace \<Rightarrow> strace" where
  "resume_line env s tcp st =
    (let st = (if (followfork (opts env) < 2 \<and> printing_tcp st \<noteq> Some tcp) \<or> has_flag (tcb_at st tcp) TCB_REPRINT then
         (let st = printleader (opts env) (leader_time s) tcp (upd_tcb tcp (clear_flags TCB_REPRINT) st)
          in tprintf (opts env) (''<... '' @ call_name (tcb_at st tcp) @ '' resumed> '') st)
       else st)
     in st\<lparr>printing_tcp := Some tcp\<rparr>)"

definition print_result :: "senv \<Rightarrow> stop \<Rightarrow> nat \<Rightarrow> c_int \<Rightarrow> strace \<Rightarrow> strace" where
  "print_result env s tcp sys_res st =
    (let st = tabto (opts env) (tprints (opts env) '') '' st);
         st = (if bad_rval sys_res (tcb_at st tcp) then st\<lparr>errs := errs st @ [''invalid rval format'']\<rparr> else st);
         st = tprintf (opts env) (result_text env sys_res (tcb_at st tcp)) st;
         tv = tv_sub (time_of_day s) (t_etime (tcb_at st tcp));
         st = (if Tflag env then tprintf (opts env) ('' <'' @ fmt_d (tv_sec tv) @ ''.'' @ fmt_06 (tv_usec tv) @ ''>'') st else st)
     in tprints (opts env) [CHR 0x0A] st)"

definition finish_exit :: "senv \<Rightarrow> stop \<Rightarrow> nat \<Rightarrow> strace \<Rightarrow> fault + int \<times> strace" where
  "finish_exit env s tcp st =
    (let st = resume_line env s tcp st
     in if get_regs_error st then
          (let st = tabto (opts env) (tprints (opts env) '') '' st);
               st = line_ended (tprints (opts env) (''= ? <unavailable>'' @ [CHR 0x0A]) st)
           in Inr (-1, exiting_ret tcp st))
        else if t_qual_flg (tcb_at st tcp) AND QUAL_RAW = 0 \<and> not_failing_only env \<and> t_u_error (tcb_at st tcp) \<noteq> 0
        then Inr (0, exiting_ret tcp st)
        else
          sbind (if t_qual_flg (tcb_at st tcp) AND QUAL_RAW \<noteq> 0 then Inr (0, st) else call_sys_func env s tcp st)
            (\<lambda>(sys_res, st). sbind (dumpio env s tcp (print_result env s tcp sys_res st)) (\<lambda>st.
               Inr (0, exiting_ret tcp (line_ended st)))))"

definition trace_syscall_exiting :: "senv \<Rightarrow> stop \<Rightarrow> nat \<Rightarrow> strace \<Rightarrow> ending + int \<times> strace" where
  "trace_syscall_exiting env s tcp st =
    (let st = update_personality env tcp (t_currpers (tcb_at st tcp)) st;
         st = (if get_regs_error st then st else get_error env tcp st)
     in if \<not> get_regs_error st \<and> (has_flag (tcb_at st tcp) TCB_FILTERED \<or> hide_log_until_execve st)
        then Inr (0, exiting_ret tcp st)
        else sbind (if cflag env \<noteq> CFLAG_NONE then fails EDie (count_syscall (tabs env) (tick s) tcp (time_of_day s) st)
                    else Inr st) (\<lambda>st.
          if cflag env = CFLAG_ONLY_STATS then Inr (0, exiting_ret tcp st)
          else fails EFault (finish_exit env s tcp st)))"

definition trace_syscall :: "senv \<Rightarrow> stop \<Rightarrow> nat \<Rightarrow> strace \<Rightarrow> ending + int \<times> strace" where
  "trace_syscall env s tcp st =
    (if exiting (tcb_at st tcp) then trace_syscall_exiting env s tcp st
     else fails EFault (trace_syscall_entering env s tcp st))"

end
