(* ===== verification/Tcb_Log.thy ===== *)
theory Tcb_Log
  imports Tcb_Table
begin

text \<open>
  The discipline of the shared log (without \<^verbatim>\<open>-ff\<close> all processes write to one file): a line that
  another process interrupts is closed with \<^verbatim>\<open><unfinished ...>\<close> before a new one is begun, so that
  every leader stands at the beginning of a line. The columns of the blocks and \<open>printing_tcp\<close> are
  what the program knows of the log.
\<close>

subsection \<open>The invariant\<close>

definition at_bol :: "string \<Rightarrow> bool" where
  "at_bol s \<longleftrightarrow> s = [] \<or> last s = CHR 0x0A"

text \<open>
  Only the block in \<open>printing_tcp\<close> may have an unfinished line, a block with an unfinished line has
  the log open, and the log is at the beginning of a line unless that block says otherwise.
\<close>

definition log_ok :: "strace \<Rightarrow> bool" where
  "log_ok st \<longleftrightarrow>
    (\<forall>i < length (tcbtab st). t_outf (tcb_at st i) \<in> {None, Some SharedLog})
    \<and> (\<forall>i < length (tcbtab st). t_curcol (tcb_at st i) \<noteq> 0 \<longrightarrow>
         printing_tcp st = Some i \<and> t_outf (tcb_at st i) = Some SharedLog)
    \<and> (at_bol (out st SharedLog) \<or> (\<exists>i. printing_tcp st = Some i \<and> t_curcol (tcb_at st i) \<noteq> 0))"

text \<open>The configuration: no \<^verbatim>\<open>-ff\<close>, and writing to the log succeeds.\<close>

definition shared_cfg :: "config \<Rightarrow> bool" where
  "shared_cfg cfg \<longleftrightarrow> followfork cfg < 2 \<and> write_ok cfg SharedLog"

text \<open>What the table sees of a block.\<close>

definition core :: "tcb \<Rightarrow> int \<times> bool \<times> outfile option" where
  "core t = (t_pid t, inuse t, t_outf t)"

definition same_cores :: "strace \<Rightarrow> strace \<Rightarrow> bool" where
  "same_cores st st' \<longleftrightarrow> length (tcbtab st') = length (tcbtab st) \<and> nprocs st' = nprocs st
     \<and> (\<forall>j < length (tcbtab st). core (tcb_at st' j) = core (tcb_at st j))"

lemma same_cores_refl [simp]: "same_cores st st"
  by (simp add: same_cores_def)

lemma same_cores_trans: "same_cores st st' \<Longrightarrow> same_cores st' st'' \<Longrightarrow> same_cores st st''"
  by (simp add: same_cores_def)

lemma same_cores_D:
  assumes "same_cores st st'" "j < length (tcbtab st)"
  shows "t_pid (tcb_at st' j) = t_pid (tcb_at st j)" "inuse (tcb_at st' j) = inuse (tcb_at st j)"
    "t_outf (tcb_at st' j) = t_outf (tcb_at st j)"
  using assms by (simp_all add: same_cores_def core_def)

lemma filter_length_cong:
  assumes "length xs = length ys" "\<And>i. i < length xs \<Longrightarrow> P (xs ! i) = P (ys ! i)"
  shows "length (filter P xs) = length (filter P ys)"
  using assms
proof (induction xs ys rule: list_induct2)
  case (Cons x xs y ys)
  from Cons.prems [of 0] have "P x = P y" by simp
  moreover have "length (filter P xs) = length (filter P ys)"
    using Cons.prems [of "Suc i" for i] by (intro Cons.IH) auto
  ultimately show ?case by simp
qed simp

lemma tab_ok_cong:
  assumes len: "length tab' = length tab" and d: "\<And>j. j < length tab \<Longrightarrow> t_pid (tab' ! j) = t_pid (tab ! j)"
    "\<And>j. j < length tab \<Longrightarrow> inuse (tab' ! j) = inuse (tab ! j)" and ok: "tab_ok tab n"
  shows "tab_ok tab' n"
proof -
  have "length (filter inuse tab') = length (filter inuse tab)"
    using len d(2) by (intro filter_length_cong) simp_all
  moreover have "\<forall>t \<in> set tab'. 0 \<le> t_pid t \<and> (inuse t \<longleftrightarrow> t_pid t \<noteq> 0)"
    using ok len d unfolding tab_ok_def by (metis in_set_conv_nth)
  moreover have "tab' \<noteq> []" using ok len by (auto simp: tab_ok_def)
  moreover have "\<forall>i j. i < length tab' \<longrightarrow> j < length tab' \<longrightarrow> inuse (tab' ! i) \<longrightarrow> t_pid (tab' ! i) = t_pid (tab' ! j) \<longrightarrow> i = j"
    using tab_ok_uniq [OF ok] len d by metis
  ultimately show ?thesis using ok by (simp add: tab_ok_def)
qed

lemma same_cores_tab_ok:
  assumes "same_cores st st'" "tab_ok (tcbtab st) (nprocs st)"
  shows "tab_ok (tcbtab st') (nprocs st')"
proof -
  note d = same_cores_D [OF assms(1), unfolded tcb_at_def]
  have "tab_ok (tcbtab st') (nprocs st)"
    using assms(1) d(1,2) by (intro tab_ok_cong [OF _ _ _ assms(2)]) (simp_all add: same_cores_def)
  then show ?thesis using assms(1) by (simp add: same_cores_def)
qed

lemma same_cores_pid2tcb:
  assumes "same_cores st st'" "tab_ok (tcbtab st) (nprocs st)"
  shows "pid2tcb q st' = pid2tcb q st"
proof (rule option_eqI)
  fix k
  show "pid2tcb q st' = Some k \<longleftrightarrow> pid2tcb q st = Some k"
    unfolding pid2tcb_iff [OF same_cores_tab_ok [OF assms]] pid2tcb_iff [OF assms(2)]
    using assms(1) same_cores_D [OF assms(1)] by (auto simp: same_cores_def)
qed

subsection \<open>Updates of one block\<close>

lemma tcb_at_upd [tcb_simps]:
  "i < length (tcbtab st) \<Longrightarrow> tcb_at (upd_tcb i f st) j = (if j = i then f (tcb_at st i) else tcb_at st j)"
  by (simp add: tcb_at_def upd_tcb_def)

lemma upd_tcb_fields [simp]:
  "length (tcbtab (upd_tcb i f st)) = length (tcbtab st)" "nprocs (upd_tcb i f st) = nprocs st"
  "current_tcp (upd_tcb i f st) = current_tcp st" "printing_tcp (upd_tcb i f st) = printing_tcp st"
  "out (upd_tcb i f st) = out st" "errs (upd_tcb i f st) = errs st" "otv (upd_tcb i f st) = otv st"
  "current_personality (upd_tcb i f st) = current_personality st" "regs (upd_tcb i f st) = regs st"
  "get_regs_error (upd_tcb i f st) = get_regs_error st" "reqs (upd_tcb i f st) = reqs st"
  "hide_log_until_execve (upd_tcb i f st) = hide_log_until_execve st" "countv (upd_tcb i f st) = countv st"
  by (simp_all add: upd_tcb_def)

lemma same_cores_upd:
  "i < length (tcbtab st) \<Longrightarrow> core (f (tcb_at st i)) = core (tcb_at st i) \<Longrightarrow> same_cores st (upd_tcb i f st)"
  by (auto simp: same_cores_def tcb_simps)

lemma tcb_ok_upd:
  assumes "tcb_ok st" "i < length (tcbtab st)" "t_pid (f (tcb_at st i)) = t_pid (tcb_at st i)" "inuse (f (tcb_at st i)) = inuse (tcb_at st i)"
  shows "tcb_ok (upd_tcb i f st)"
proof -
  have at: "inuse (tcb_at (upd_tcb i f st) j) = inuse (tcb_at st j)" "t_pid (tcb_at (upd_tcb i f st) j) = t_pid (tcb_at st j)" for j
    using assms(2-4) by (simp_all add: tcb_simps)
  have t: "tab_ok (tcbtab st) (nprocs st)" using assms(1) by (simp add: tcb_ok_def)
  have "tab_ok (tcbtab (upd_tcb i f st)) (nprocs st)"
    by (rule tab_ok_cong [OF _ _ _ t]) (simp_all only: at [unfolded tcb_at_def] upd_tcb_fields)
  moreover have "ptr_ok (upd_tcb i f st)" using assms(1) at unfolding tcb_ok_def ptr_ok_def by simp
  ultimately show ?thesis unfolding tcb_ok_def by simp
qed

subsection \<open>Writing on a line\<close>

definition writes :: "nat \<Rightarrow> string \<Rightarrow> strace \<Rightarrow> strace \<Rightarrow> bool" where
  "writes tcp txt st st' \<longleftrightarrow> same_cores st st' \<and> current_tcp st' = current_tcp st \<and> printing_tcp st' = printing_tcp st
     \<and> (\<forall>j. j \<noteq> tcp \<longrightarrow> tcb_at st' j = tcb_at st j)
     \<and> t_curcol (tcb_at st' tcp) = t_curcol (tcb_at st tcp) + length txt
     \<and> out st' = (out st)(SharedLog := out st SharedLog @ txt)"

definition ready :: "nat \<Rightarrow> strace \<Rightarrow> bool" where
  "ready tcp st \<longleftrightarrow> current_tcp st = Some tcp \<and> tcp < length (tcbtab st) \<and> t_outf (tcb_at st tcp) = Some SharedLog"

lemma writes_trans: "writes tcp a st st' \<Longrightarrow> writes tcp b st' st'' \<Longrightarrow> writes tcp (a @ b) st st''"
  unfolding writes_def by (auto intro: same_cores_trans)

lemma writes_ready: "writes tcp a st st' \<Longrightarrow> ready tcp st \<Longrightarrow> ready tcp st'"
  by (auto simp: writes_def ready_def dest: same_cores_D) (simp_all add: same_cores_def)

lemma writes_same:
  "tcbtab st' = tcbtab st \<Longrightarrow> nprocs st' = nprocs st \<Longrightarrow> current_tcp st' = current_tcp st \<Longrightarrow>
   printing_tcp st' = printing_tcp st \<Longrightarrow> out st' = out st \<Longrightarrow> writes tcp [] st st'"
  by (auto simp: writes_def same_cores_def tcb_at_def)

lemma writes_upd:
  "tcp < length (tcbtab st) \<Longrightarrow> core (f (tcb_at st tcp)) = core (tcb_at st tcp) \<Longrightarrow>
   t_curcol (f (tcb_at st tcp)) = t_curcol (tcb_at st tcp) \<Longrightarrow> writes tcp [] st (upd_tcb tcp f st)"
  by (auto simp: writes_def same_cores_upd tcb_simps)

lemma writes_tprints:
  assumes "shared_cfg cfg" "ready tcp st"
  shows "writes tcp txt st (tprints cfg txt st)"
proof -
  let ?st = "emit_out cfg (Some SharedLog) txt st"
  have o: "?st = st\<lparr>out := (out st)(SharedLog := out st SharedLog @ txt)\<rparr>"
    using assms(1) by (simp add: emit_out_def shared_cfg_def)
  have "tprints cfg txt st = upd_tcb tcp (\<lambda>t. t\<lparr>t_curcol := t_curcol t + length txt\<rparr>) ?st"
    using assms by (simp add: tprints_def ready_def can_write_def shared_cfg_def)
  moreover have "tcp < length (tcbtab ?st)" using assms(2) by (simp add: o ready_def)
  ultimately show ?thesis
    by (auto simp: writes_def same_cores_def tcb_simps o core_def has_flag_def) (simp_all add: tcb_at_def)
qed

lemma writes_tabto:
  assumes "shared_cfg cfg" "ready tcp st"
  shows "\<exists>n. writes tcp (replicate n CHR '' '') st (tabto cfg st)"
proof (cases "t_curcol (tcb_at st tcp) < acolumn cfg")
  case True
  then show ?thesis using writes_tprints [OF assms, of "replicate (acolumn cfg - t_curcol (tcb_at st tcp)) CHR '' ''"] assms(2)
    by (auto simp: tabto_def ready_def)
next
  case False
  then have "tabto cfg st = st" using assms(2) by (simp add: tabto_def ready_def)
  then show ?thesis using writes_same [of st st tcp] by (intro exI [of _ 0]) simp
qed

subsection \<open>Lines\<close>

text \<open>The state while a line of \<open>tcp\<close> is written: no other block has an unfinished line.\<close>

definition in_line :: "nat \<Rightarrow> strace \<Rightarrow> bool" where
  "in_line tcp st \<longleftrightarrow> ready tcp st \<and> printing_tcp st = Some tcp
     \<and> (\<forall>i < length (tcbtab st). t_outf (tcb_at st i) \<in> {None, Some SharedLog})
     \<and> (\<forall>i < length (tcbtab st). i \<noteq> tcp \<longrightarrow> t_curcol (tcb_at st i) = 0)
     \<and> (at_bol (out st SharedLog) \<or> t_curcol (tcb_at st tcp) \<noteq> 0)"

lemma in_line_log_ok: "in_line tcp st \<Longrightarrow> log_ok st"
  by (auto simp: in_line_def log_ok_def ready_def)

lemma log_ok_in_line: "log_ok st \<Longrightarrow> ready tcp st \<Longrightarrow> printing_tcp st = Some tcp \<Longrightarrow> in_line tcp st"
  by (auto simp: in_line_def log_ok_def)

lemma in_line_writes:
  assumes "in_line tcp st" "writes tcp txt st st'"
  shows "in_line tcp st'"
proof -
  have r: "ready tcp st'" using assms writes_ready by (auto simp: in_line_def)
  have len: "length (tcbtab st') = length (tcbtab st)" using assms(2) by (simp add: writes_def same_cores_def)
  have o: "i < length (tcbtab st) \<Longrightarrow> t_outf (tcb_at st' i) = t_outf (tcb_at st i)" for i
    using assms(2) same_cores_D by (auto simp: writes_def)
  show ?thesis using assms r len o unfolding in_line_def by (cases "txt = []") (auto simp: writes_def)
qed

lemma in_line_ended:
  assumes "in_line tcp st" "at_bol (out st SharedLog)"
  shows "log_ok (line_ended st) \<and> same_cores st (line_ended st) \<and> out (line_ended st) = out st
    \<and> printing_tcp (line_ended st) = None \<and> current_tcp (line_ended st) = current_tcp st"
proof -
  let ?f = "\<lambda>t::tcb. t\<lparr>t_curcol := 0\<rparr>"
  have p: "tcp < length (tcbtab st)" "current_tcp st = Some tcp" "printing_tcp st = Some tcp"
    using assms(1) by (auto simp: in_line_def ready_def)
  then have e: "line_ended st = (upd_tcb tcp ?f (upd_tcb tcp ?f st))\<lparr>printing_tcp := None\<rparr>"
    by (simp add: line_ended_def Let_def)
  have at: "tcb_at (line_ended st) j = (if j = tcp then ?f (tcb_at st tcp) else tcb_at st j)" for j
    using p by (simp add: e tcb_at_def upd_tcb_def)
  have sc: "same_cores st (line_ended st)" unfolding same_cores_def using at by (auto simp: e core_def has_flag_def)
  have len: "length (tcbtab (line_ended st)) = length (tcbtab st)" by (simp add: e)
  have "log_ok (line_ended st)"
    using assms at len unfolding log_ok_def in_line_def by (auto simp: e)
  then show ?thesis using sc by (simp add: e)
qed

subsection \<open>Leaders\<close>

lemma finish_line_ok:
  assumes cfg: "shared_cfg cfg" and ok: "log_ok st" "ptr_ok st"
  shows "\<exists>pre st'. finish_line cfg tcp st = st' \<and> pre \<in> {[], '' <unfinished ...>'' @ [CHR 0x0A]}
    \<and> same_cores st st' \<and> out st' = (out st)(SharedLog := out st SharedLog @ pre) \<and> at_bol (out st' SharedLog)
    \<and> (\<forall>i < length (tcbtab st). t_curcol (tcb_at st' i) = 0)"
proof -
  have ff: "\<not> followfork cfg \<ge> 2" using cfg by (simp add: shared_cfg_def)
  show ?thesis
  proof (cases "printing_tcp st")
    case None
    then have "finish_line cfg tcp st = st" using ff by (simp add: finish_line_def Let_def)
    moreover have "at_bol (out st SharedLog)" "\<forall>i < length (tcbtab st). t_curcol (tcb_at st i) = 0"
      using ok None by (auto simp: log_ok_def)
    ultimately show ?thesis by (intro exI [of _ "[]"] exI [of _ st]) simp
  next
    case (Some p)
    define st1 where "st1 = st\<lparr>current_tcp := Some p\<rparr>"
    have p: "p < length (tcbtab st)" using ok(2) Some by (simp add: ptr_ok_def)
    have others: "\<forall>i < length (tcbtab st). i \<noteq> p \<longrightarrow> t_curcol (tcb_at st i) = 0"
      using ok(1) Some by (auto simp: log_ok_def)
    have at1: "tcb_at st1 j = tcb_at st j" for j by (simp add: st1_def tcb_at_def)
    show ?thesis
    proof (cases "t_curcol (tcb_at st p) = 0")
      case True
      then have "finish_line cfg tcp st = st1" using ff Some by (simp add: finish_line_def Let_def st1_def tcb_at_def)
      moreover have "at_bol (out st SharedLog)" using ok Some True by (auto simp: log_ok_def)
      moreover have "same_cores st st1" by (simp add: st1_def same_cores_def tcb_at_def)
      moreover have "\<forall>i < length (tcbtab st). t_curcol (tcb_at st1 i) = 0" using others True at1 by metis
      ultimately show ?thesis by (intro exI [of _ "[]"] exI [of _ st1]) (simp add: st1_def)
    next
      case False
      let ?u = "'' <unfinished ...>'' @ [CHR 0x0A]"
      define st2 where "st2 = tprints cfg ?u st1"
      have "t_outf (tcb_at st p) = Some SharedLog" using ok(1) p False by (auto simp: log_ok_def)
      then have "ready p st1" using p at1 by (simp add: ready_def st1_def)
      from writes_tprints [OF cfg this, of ?u] have w: "writes p ?u st1 st2" unfolding st2_def .
      have f: "finish_line cfg tcp st = upd_tcb p (\<lambda>t. t\<lparr>t_curcol := 0\<rparr>) st2"
        using ff Some False by (simp add: finish_line_def Let_def st1_def st2_def tcb_at_def)
      have p2: "p < length (tcbtab st2)" using w p by (simp add: writes_def same_cores_def st1_def)
      have sc: "same_cores st (upd_tcb p (\<lambda>t. t\<lparr>t_curcol := 0\<rparr>) st2)"
      proof (rule same_cores_trans)
        show "same_cores st st2" using w by (auto simp: writes_def same_cores_def st1_def tcb_at_def)
        show "same_cores st2 (upd_tcb p (\<lambda>t. t\<lparr>t_curcol := 0\<rparr>) st2)"
          using p2 by (intro same_cores_upd) (simp_all add: core_def has_flag_def)
      qed
      moreover have "\<forall>i < length (tcbtab st). t_curcol (tcb_at (upd_tcb p (\<lambda>t. t\<lparr>t_curcol := 0\<rparr>) st2) i) = 0"
        using others p2 w at1 by (auto simp: tcb_simps writes_def)
      moreover have "out st2 = (out st)(SharedLog := out st SharedLog @ ?u)" using w by (simp add: writes_def st1_def)
      ultimately show ?thesis unfolding f by (intro exI [of _ ?u]) (simp add: at_bol_def)
    qed
  qed
qed

text \<open>Some text is written on the line.\<close>

definition written :: "nat \<Rightarrow> strace \<Rightarrow> strace \<Rightarrow> bool" where
  "written tcp st st' \<longleftrightarrow> (\<exists>u. writes tcp u st st')"

lemma writtenI: "writes tcp u st st' \<Longrightarrow> written tcp st st'"
  by (auto simp: written_def)

lemma written_refl [simp, intro]: "written tcp st st"
  using writes_same [of st st tcp] by (auto simp: written_def)

lemma written_trans [trans]: "written tcp st st' \<Longrightarrow> written tcp st' st'' \<Longrightarrow> written tcp st st''"
  unfolding written_def using writes_trans by blast

lemma written_if:
  "(b \<Longrightarrow> written tcp st x) \<Longrightarrow> (\<not> b \<Longrightarrow> written tcp st y) \<Longrightarrow> written tcp st (if b then x else y)"
  by simp

lemma written_tprints: "shared_cfg cfg \<Longrightarrow> ready tcp st \<Longrightarrow> written tcp st (tprints cfg u st)"
  by (rule writtenI [OF writes_tprints])

lemma written_tabto: "shared_cfg cfg \<Longrightarrow> ready tcp st \<Longrightarrow> written tcp st (tabto cfg st)"
  using writes_tabto [of cfg tcp st] by (auto simp: written_def)

lemma written_ready: "written tcp st st' \<Longrightarrow> ready tcp st \<Longrightarrow> ready tcp st'"
  by (auto simp: written_def writes_ready)

lemma written_same_cores: "written tcp st st' \<Longrightarrow> same_cores st st'"
  by (auto simp: written_def writes_def)

lemma in_line_written: "in_line tcp st \<Longrightarrow> written tcp st st' \<Longrightarrow> in_line tcp st'"
  by (auto simp: written_def in_line_writes)

lemma written_time:
  assumes "shared_cfg cfg" "ready tcp st"
  shows "written tcp st (print_time cfg m st)"
proof (cases "rflag cfg")
  case True
  define st1 where "st1 = (if tv_sec (otv st) = 0 then st\<lparr>otv := now m\<rparr> else st)"
  define u where "u = pad_left 6 CHR '' '' (fmt_d (tv_sec (tv_sub (now m) (otv st1)))) @ ''.'' @ fmt_06 (tv_usec (tv_sub (now m) (otv st1))) @ '' ''"
  have 1: "written tcp st st1" by (rule writtenI [OF writes_same]) (simp_all add: st1_def)
  then have "written tcp st1 (tprints cfg u st1)" using assms by (intro written_tprints written_ready [OF 1])
  moreover have "written tcp s (s\<lparr>otv := now m\<rparr>)" for s by (rule writtenI [OF writes_same]) simp_all
  moreover have "print_time cfg m st = (tprints cfg u st1)\<lparr>otv := now m\<rparr>"
    using True by (simp add: print_time_def st1_def u_def Let_def)
  ultimately show ?thesis using 1 written_trans by metis
next
  case False
  then show ?thesis using assms by (simp add: print_time_def Let_def written_tprints)
qed

text \<open>
  \<open>printleader\<close> closes what is unfinished, so that what it then writes for \<open>tcp\<close> begins a line.
\<close>

lemma printleader_line:
  assumes cfg: "shared_cfg cfg" and ok: "log_ok st" "ptr_ok st" and tcp: "tcp < length (tcbtab st)" "t_outf (tcb_at st tcp) = Some SharedLog"
  shows "\<exists>pre lead. pre \<in> {[], '' <unfinished ...>'' @ [CHR 0x0A]} \<and> at_bol (out st SharedLog @ pre)
     \<and> out (printleader cfg m tcp st) = (out st)(SharedLog := out st SharedLog @ pre @ lead)
     \<and> in_line tcp (printleader cfg m tcp st) \<and> same_cores st (printleader cfg m tcp st)"
proof -
  obtain pre st1 where st1: "finish_line cfg tcp st = st1" "pre \<in> {[], '' <unfinished ...>'' @ [CHR 0x0A]}"
    "same_cores st st1" "out st1 = (out st)(SharedLog := out st SharedLog @ pre)" "at_bol (out st1 SharedLog)"
    "\<forall>i < length (tcbtab st). t_curcol (tcb_at st1 i) = 0"
    using finish_line_ok [OF cfg ok] by blast
  define st2 where "st2 = upd_tcb tcp (\<lambda>t. t\<lparr>t_curcol := 0\<rparr>) (st1\<lparr>printing_tcp := Some tcp, current_tcp := Some tcp\<rparr>)"
  have len1: "length (tcbtab st1) = length (tcbtab st)" using st1(3) by (simp add: same_cores_def)
  have at2: "tcb_at st2 j = (if j = tcp then (tcb_at st1 tcp)\<lparr>t_curcol := 0\<rparr> else tcb_at st1 j)" for j
    using tcp len1 by (simp add: st2_def tcb_at_def upd_tcb_def)
  have sc2: "same_cores st st2"
    using st1(3) at2 by (auto simp: same_cores_def st2_def core_def has_flag_def)
  have o: "i < length (tcbtab st) \<Longrightarrow> t_outf (tcb_at st2 i) = t_outf (tcb_at st i)" for i
    using same_cores_D [OF sc2] by simp
  have r2: "ready tcp st2" using tcp o [of tcp] len1 by (simp add: ready_def st2_def)
  have "\<forall>i < length (tcbtab st). t_outf (tcb_at st i) \<in> {None, Some SharedLog}" using ok(1) by (simp add: log_ok_def)
  then have l2: "in_line tcp st2"
    using r2 o st1(5,6) len1 at2 unfolding in_line_def by (auto simp: st2_def)
  define st3 where "st3 = (if print_pid_pfx cfg then tprintf cfg (pad_right 5 (fmt_d (t_pid (tcb_at st2 tcp))) @ '' '') st2
               else if nprocs st2 > 1 \<and> outfname cfg = None then
                 tprintf cfg (''[pid '' @ pad_left 5 CHR '' '' (fmt_u (nat (t_pid (tcb_at st2 tcp)))) @ ''] '') st2
               else st2)"
  have a: "written tcp st2 st3" unfolding st3_def using cfg r2 by (intro written_if written_tprints written_refl)
  have r3: "ready tcp st3" using a r2 by (rule written_ready)
  define st4 where "st4 = (if tflag cfg \<noteq> 0 then print_time cfg m st3 else st3)"
  have b: "written tcp st3 st4" unfolding st4_def using cfg r3 by (intro written_if written_time written_refl)
  have r4: "ready tcp st4" using b r3 by (rule written_ready)
  define st5 where "st5 = (if iflag cfg then printcall cfg st4 else st4)"
  have c: "written tcp st4 st5"
    unfolding st5_def printcall_def using cfg r4 by (intro written_if written_tprints written_refl)
  obtain u where w: "writes tcp u st2 st5" using written_trans [OF a written_trans [OF b c]] by (auto simp: written_def)
  have e: "printleader cfg m tcp st = st5"
    unfolding printleader_def Let_def st1(1) st5_def st4_def st3_def st2_def ..
  have "out st5 = (out st)(SharedLog := out st SharedLog @ pre @ u)"
    using w st1(4) by (simp add: writes_def st2_def)
  moreover have "in_line tcp st5" using l2 w by (rule in_line_writes)
  moreover have "same_cores st st5" using sc2 w same_cores_trans by (auto simp: writes_def)
  ultimately show ?thesis unfolding e using st1(2,4,5) by (intro exI [of _ pre] exI [of _ u]) simp
qed

subsection \<open>The table operations and the log\<close>

lemma log_ok_newoutf:
  assumes "shared_cfg cfg" "log_ok st" "tcp < length (tcbtab st)" "newoutf cfg tcp st = Inr st'"
  shows "log_ok st' \<and> st' = upd_tcb tcp (\<lambda>t. t\<lparr>t_outf := Some SharedLog\<rparr>) st"
proof -
  have st': "st' = upd_tcb tcp (\<lambda>t. t\<lparr>t_outf := Some SharedLog\<rparr>) st"
    using assms by (simp add: newoutf_def shared_cfg_def Let_def)
  have "log_ok st'"
    using assms(2,3) unfolding log_ok_def st' by (auto simp: tcb_simps)
  then show ?thesis using st' by simp
qed

lemma log_ok_alloctcb:
  assumes "log_ok st" "tcb_ok st" "alloctcb cfg pid st = Inr (i, st')"
  shows "log_ok st'"
proof -
  obtain st1 where e: "(if nprocs st = length (tcbtab st) then expand_tcbtab cfg st else Inr st) = Inr st1"
    and i: "find_free (tcbtab st1) 0 = Some i"
    and st': "st' = (upd_tcb i (\<lambda>_. new_tcb (current_personality st1) pid) st1)\<lparr>nprocs := nprocs st1 + 1\<rparr>"
    using assms(3) unfolding alloctcb_def sbind_eq_Inr by (auto split: option.splits)
  have st1: "st1 = st \<or> st1 = st\<lparr>tcbtab := tcbtab st @ replicate (length (tcbtab st)) tcb_zero\<rparr>"
    using e expand_tcbtab_eq by (auto split: if_splits)
  have il: "i < length (tcbtab st1)" "\<not> inuse (tcb_at st1 i)" using find_free_Some [OF i] by (auto simp: tcb_at_def)
  have zero: "t_curcol tcb_zero = 0" "t_outf tcb_zero = None" "t_curcol (new_tcb p q) = 0" "t_outf (new_tcb p q) = None" for p q
    by (simp_all add: tcb_zero_def new_tcb_def)
  have print: "p < length (tcbtab st) \<and> inuse (tcb_at st p)" if "printing_tcp st = Some p" for p
    using assms(2) that by (auto simp: tcb_ok_def ptr_ok_def)
  have at1: "tcb_at st1 j = (if j < length (tcbtab st) then tcb_at st j else tcb_zero)" if "j < length (tcbtab st1)" for j
    using that st1 by (auto simp: tcb_at_def nth_append)
  have same: "out st1 = out st" "printing_tcp st1 = printing_tcp st" "length (tcbtab st) \<le> length (tcbtab st1)"
    using st1 by auto
  have pi: "printing_tcp st \<noteq> Some i" using print [of i] il at1 [of i] same(3) by auto
  have at': "tcb_at st' j = (if j = i then new_tcb (current_personality st1) pid else tcb_at st1 j)" for j
    using il by (simp add: st' tcb_at_def upd_tcb_def)
  have f': "length (tcbtab st') = length (tcbtab st1)" "out st' = out st" "printing_tcp st' = printing_tcp st"
    using same by (simp_all add: st')
  have "\<forall>j < length (tcbtab st'). t_outf (tcb_at st' j) \<in> {None, Some SharedLog}"
    using assms(1) at1 zero by (simp add: at' log_ok_def f')
  moreover have "\<forall>j < length (tcbtab st'). t_curcol (tcb_at st' j) \<noteq> 0 \<longrightarrow> printing_tcp st' = Some j \<and> t_outf (tcb_at st' j) = Some SharedLog"
    using assms(1) at1 zero same pi by (simp add: at' log_ok_def f')
  moreover have "at_bol (out st' SharedLog) \<or> (\<exists>p. printing_tcp st' = Some p \<and> t_curcol (tcb_at st' p) \<noteq> 0)"
  proof (cases "at_bol (out st SharedLog)")
    case True
    then show ?thesis by (simp add: f')
  next
    case False
    then obtain p where p: "printing_tcp st = Some p" "t_curcol (tcb_at st p) \<noteq> 0" using assms(1) by (auto simp: log_ok_def)
    moreover have "p \<noteq> i" using pi p by auto
    ultimately have "printing_tcp st' = Some p" "t_curcol (tcb_at st' p) \<noteq> 0"
      using print [of p] at1 [of p] same by (simp_all add: at' f')
    then show ?thesis by blast
  qed
  ultimately show ?thesis by (simp add: log_ok_def)
qed

lemma droptcb_out:
  assumes "shared_cfg cfg" "log_ok st" "t_pid (tcb_at st i) \<noteq> 0" "i < length (tcbtab st)"
  shows "out (droptcb cfg i st) = (out st)(SharedLog := out st SharedLog
     @ (if t_curcol (tcb_at st i) \<noteq> 0 then '' <detached ...>'' @ [CHR 0x0A] else []))"
proof -
  have c: "t_curcol (tcb_at st i) \<noteq> 0 \<Longrightarrow> printing_tcp st = Some i \<and> t_outf (tcb_at st i) = Some SharedLog"
    using assms(2,4) by (auto simp: log_ok_def)
  have n: "tcb_at (st\<lparr>nprocs := k\<rparr>) i = tcb_at st i" for k by (simp add: tcb_at_def)
  show ?thesis
    using assms(1,3) c by (auto simp: droptcb_def Let_def n emit_out_def shared_cfg_def upd_tcb_def split: option.splits)
qed

lemma log_ok_droptcb:
  assumes "shared_cfg cfg" "log_ok st" "t_pid (tcb_at st i) \<noteq> 0" "i < length (tcbtab st)"
  shows "log_ok (droptcb cfg i st)"
proof -
  note d = droptcb_fields [OF assms(3), of cfg] and o = droptcb_out [OF assms]
  have at: "tcb_at (droptcb cfg i st) j = (if j = i then tcb_zero else tcb_at st j)" for j
    using assms(4) by (simp add: tcb_at_def d)
  have zero: "t_curcol tcb_zero = 0" "t_outf tcb_zero = None" by (simp_all add: tcb_zero_def)
  have bol: "at_bol (out (droptcb cfg i st) SharedLog)"
    if "\<not> (\<exists>p. printing_tcp (droptcb cfg i st) = Some p \<and> t_curcol (tcb_at (droptcb cfg i st) p) \<noteq> 0)"
  proof (cases "t_curcol (tcb_at st i) \<noteq> 0")
    case True
    then show ?thesis by (simp add: o at_bol_def)
  next
    case False
    have "at_bol (out st SharedLog)"
      using that assms(2) False unfolding log_ok_def by (auto simp: d at split: if_splits)
    then show ?thesis using False by (simp add: o)
  qed
  have "at_bol (out (droptcb cfg i st) SharedLog)
      \<or> (\<exists>p. printing_tcp (droptcb cfg i st) = Some p \<and> t_curcol (tcb_at (droptcb cfg i st) p) \<noteq> 0)"
    using bol by blast
  moreover have "\<forall>j < length (tcbtab (droptcb cfg i st)). t_curcol (tcb_at (droptcb cfg i st) j) \<noteq> 0 \<longrightarrow>
      printing_tcp (droptcb cfg i st) = Some j \<and> t_outf (tcb_at (droptcb cfg i st) j) = Some SharedLog"
    using assms(2) zero by (auto simp: log_ok_def d at)
  moreover have "\<forall>j < length (tcbtab (droptcb cfg i st)). t_outf (tcb_at (droptcb cfg i st) j) \<in> {None, Some SharedLog}"
    using assms(2) zero by (simp add: log_ok_def d at)
  ultimately show ?thesis by (simp add: log_ok_def)
qed

text \<open>
  C27. In a log shared by all processes, \<open>printleader\<close> never begins in the middle of a line: it writes
  nothing or \<^verbatim>\<open><unfinished ...>\<close> and a newline, after which the log is at the beginning of a line, and then
  the leader of its process, which is the only one with an unfinished line from there on.
\<close>

theorem printleader_starts_line:
  assumes "shared_cfg cfg" "log_ok st" "ptr_ok st" "tcp < length (tcbtab st)" "t_outf (tcb_at st tcp) = Some SharedLog"
  shows "\<exists>pre lead. pre \<in> {[], '' <unfinished ...>'' @ [CHR 0x0A]} \<and> at_bol (out st SharedLog @ pre)
     \<and> out (printleader cfg m tcp st) SharedLog = out st SharedLog @ pre @ lead
     \<and> log_ok (printleader cfg m tcp st) \<and> printing_tcp (printleader cfg m tcp st) = Some tcp
     \<and> (\<forall>i < length (tcbtab st). i \<noteq> tcp \<longrightarrow> t_curcol (tcb_at (printleader cfg m tcp st) i) = 0)"
proof -
  obtain pre lead where l: "pre \<in> {[], '' <unfinished ...>'' @ [CHR 0x0A]}" "at_bol (out st SharedLog @ pre)"
     "out (printleader cfg m tcp st) = (out st)(SharedLog := out st SharedLog @ pre @ lead)"
     "in_line tcp (printleader cfg m tcp st)" "same_cores st (printleader cfg m tcp st)"
    using printleader_line [OF assms] by blast
  have "length (tcbtab (printleader cfg m tcp st)) = length (tcbtab st)" using l(5) by (simp add: same_cores_def)
  then show ?thesis using l(1-4) in_line_log_ok [OF l(4)]
    by (intro exI [of _ pre] exI [of _ lead]) (simp add: in_line_def)
qed

definition two_processes :: strace where
  "two_processes = (strace_init 2)\<lparr>tcbtab := map (\<lambda>i. (new_tcb 0 (int i + 7))\<lparr>t_outf := Some SharedLog, t_curcol := 3 - 3 * i\<rparr>) [0..<2],
     nprocs := 2, printing_tcp := Some 0, out := (\<lambda>_. [])(SharedLog := ''op('')\<rparr>"

theorem printleader_starts_line_witness:
  "\<exists>pre lead. at_bol (''op('' @ pre) \<and>
     out (printleader config_plain \<lparr>now = tv_zero, clock = ''00:00:00''\<rparr> 1 two_processes) SharedLog = ''op('' @ pre @ lead"
proof -
  have len: "length (tcbtab two_processes) = 2" and o: "out two_processes SharedLog = ''op(''"
    and pr: "printing_tcp two_processes = Some 0" "current_tcp two_processes = None"
    by (simp_all add: two_processes_def strace_init_def)
  have at: "tcb_at two_processes 0 = (new_tcb 0 7)\<lparr>t_outf := Some SharedLog, t_curcol := 3\<rparr>"
    "tcb_at two_processes 1 = (new_tcb 0 8)\<lparr>t_outf := Some SharedLog, t_curcol := 0\<rparr>"
    by (simp_all add: tcb_at_def two_processes_def)
  have l: "log_ok two_processes" using at by (simp add: log_ok_def len o pr less_2_cases_iff)
  have p: "ptr_ok two_processes" using at by (simp add: ptr_ok_def len pr has_flag_def new_tcb_def)
  have "shared_cfg config_plain" by (simp add: shared_cfg_def config_plain_def)
  then show ?thesis
    using printleader_starts_line [OF _ l p, of config_plain 1 "\<lparr>now = tv_zero, clock = ''00:00:00''\<rparr>"] at(2) o len by auto
qed

end
