(* ===== verification/Syscallent.thy ===== *)
theory Syscallent
  imports Qualify
begin

text \<open>
  The system call tables of the three personalities of the x86\_64 build (\<^verbatim>\<open>src/strace/linux\<close>:
  \<^verbatim>\<open>x86_64/syscallent.h\<close>, \<^verbatim>\<open>i386/syscallent.h\<close>, \<^verbatim>\<open>x32/syscallent.h\<close>) and the table of signal names
  (\<^verbatim>\<open>signalent.h\<close>), entry by entry, with the decoder functions by name. A table is cut into pieces of
  at most 150 entries.
\<close>

abbreviation "SYSCALL_NEVER_FAILS \<equiv> (0x80 :: c_int)"
abbreviation "TD \<equiv> TRACE_DESC"
abbreviation "TF \<equiv> TRACE_FILE"
abbreviation "TI \<equiv> TRACE_IPC"
abbreviation "TN \<equiv> TRACE_NETWORK"
abbreviation "TP \<equiv> TRACE_PROCESS"
abbreviation "TS \<equiv> TRACE_SIGNAL"
abbreviation "TM \<equiv> TRACE_MEMORY"
abbreviation "NF \<equiv> SYSCALL_NEVER_FAILS"

definition ent :: "nat \<Rightarrow> c_int \<Rightarrow> string \<Rightarrow> string \<Rightarrow> sysent" where
  "ent n fl f name = \<lparr>nargs = n, sys_flags = fl, sys_func = Some f, sys_name = Some name\<rparr>"

definition no_ent :: "nat \<Rightarrow> c_int \<Rightarrow> sysent" where
  "no_ent n fl = \<lparr>nargs = n, sys_flags = fl, sys_func = None, sys_name = None\<rparr>"

subsection \<open>x86\_64\<close>

definition sysent0_a :: "sysent list" where
  "sysent0_a =
    [ent 3 (TD) ''sys_read'' ''read'',
     ent 3 (TD) ''sys_write'' ''write'',
     ent 3 (TD OR TF) ''sys_open'' ''open'',
     ent 1 (TD) ''sys_close'' ''close'',
     ent 2 (TF) ''sys_stat'' ''stat'',
     ent 2 (TD) ''sys_fstat'' ''fstat'',
     ent 2 (TF) ''sys_lstat'' ''lstat'',
     ent 3 (TD) ''sys_poll'' ''poll'',
     ent 3 (TD) ''sys_lseek'' ''lseek'',
     ent 6 (TD OR TM) ''sys_mmap'' ''mmap'',
     ent 3 (TM) ''sys_mprotect'' ''mprotect'',
     ent 2 (TM) ''sys_munmap'' ''munmap'',
     ent 1 (TM) ''sys_brk'' ''brk'',
     ent 4 (TS) ''sys_rt_sigaction'' ''rt_sigaction'',
     ent 4 (TS) ''sys_rt_sigprocmask'' ''rt_sigprocmask'',
     ent 0 (TS) ''sys_rt_sigreturn'' ''rt_sigreturn'',
     ent 3 (TD) ''sys_ioctl'' ''ioctl'',
     ent 4 (TD) ''sys_pread'' ''pread'',
     ent 4 (TD) ''sys_pwrite'' ''pwrite'',
     ent 3 (TD) ''sys_readv'' ''readv'',
     ent 3 (TD) ''sys_writev'' ''writev'',
     ent 2 (TF) ''sys_access'' ''access'',
     ent 1 (TD) ''sys_pipe'' ''pipe'',
     ent 5 (TD) ''sys_select'' ''select'',
     ent 0 (0) ''sys_sched_yield'' ''sched_yield'',
     ent 5 (TM) ''sys_mremap'' ''mremap'',
     ent 3 (TM) ''sys_msync'' ''msync'',
     ent 3 (TM) ''sys_mincore'' ''mincore'',
     ent 3 (TM) ''sys_madvise'' ''madvise'',
     ent 4 (TI) ''sys_shmget'' ''shmget'',
     ent 4 (TI) ''sys_shmat'' ''shmat'',
     ent 4 (TI) ''sys_shmctl'' ''shmctl'',
     ent 1 (TD) ''sys_dup'' ''dup'',
     ent 2 (TD) ''sys_dup2'' ''dup2'',
     ent 0 (TS) ''sys_pause'' ''pause'',
     ent 2 (0) ''sys_nanosleep'' ''nanosleep'',
     ent 2 (0) ''sys_getitimer'' ''getitimer'',
     ent 1 (0) ''sys_alarm'' ''alarm'',
     ent 3 (0) ''sys_setitimer'' ''setitimer'',
     ent 0 (0) ''sys_getpid'' ''getpid'',
     ent 4 (TD OR TN) ''sys_sendfile64'' ''sendfile'',
     ent 3 (TN) ''sys_socket'' ''socket'',
     ent 3 (TN) ''sys_connect'' ''connect'',
     ent 3 (TN) ''sys_accept'' ''accept'',
     ent 6 (TN) ''sys_sendto'' ''sendto'',
     ent 6 (TN) ''sys_recvfrom'' ''recvfrom'',
     ent 3 (TN) ''sys_sendmsg'' ''sendmsg'',
     ent 3 (TN) ''sys_recvmsg'' ''recvmsg'',
     ent 2 (TN) ''sys_shutdown'' ''shutdown'',
     ent 3 (TN) ''sys_bind'' ''bind'',
     ent 2 (TN) ''sys_listen'' ''listen'',
     ent 3 (TN) ''sys_getsockname'' ''getsockname'',
     ent 3 (TN) ''sys_getpeername'' ''getpeername'',
     ent 4 (TN) ''sys_socketpair'' ''socketpair'',
     ent 5 (TN) ''sys_setsockopt'' ''setsockopt'',
     ent 5 (TN) ''sys_getsockopt'' ''getsockopt'',
     ent 5 (TP) ''sys_clone'' ''clone'',
     ent 0 (TP) ''sys_fork'' ''fork'',
     ent 0 (TP) ''sys_vfork'' ''vfork'',
     ent 3 (TF OR TP) ''sys_execve'' ''execve'',
     ent 1 (TP) ''sys_exit'' ''_exit'',
     ent 4 (TP) ''sys_wait4'' ''wait4'',
     ent 2 (TS) ''sys_kill'' ''kill'',
     ent 1 (0) ''sys_uname'' ''uname'',
     ent 4 (TI) ''sys_semget'' ''semget'',
     ent 4 (TI) ''sys_semop'' ''semop'',
     ent 4 (TI) ''sys_semctl'' ''semctl'',
     ent 4 (TI) ''sys_shmdt'' ''shmdt'',
     ent 4 (TI) ''sys_msgget'' ''msgget'',
     ent 4 (TI) ''sys_msgsnd'' ''msgsnd'',
     ent 5 (TI) ''sys_msgrcv'' ''msgrcv'',
     ent 3 (TI) ''sys_msgctl'' ''msgctl'',
     ent 3 (TD) ''sys_fcntl'' ''fcntl'',
     ent 2 (TD) ''sys_flock'' ''flock'',
     ent 1 (TD) ''sys_fsync'' ''fsync'',
     ent 1 (TD) ''sys_fdatasync'' ''fdatasync'',
     ent 2 (TF) ''sys_truncate'' ''truncate'',
     ent 2 (TD) ''sys_ftruncate'' ''ftruncate'',
     ent 3 (TD) ''sys_getdents'' ''getdents'',
     ent 2 (TF) ''sys_getcwd'' ''getcwd'',
     ent 1 (TF) ''sys_chdir'' ''chdir'',
     ent 1 (TD) ''sys_fchdir'' ''fchdir'',
     ent 2 (TF) ''sys_rename'' ''rename'',
     ent 2 (TF) ''sys_mkdir'' ''mkdir'',
     ent 1 (TF) ''sys_rmdir'' ''rmdir'',
     ent 2 (TD OR TF) ''sys_creat'' ''creat'',
     ent 2 (TF) ''sys_link'' ''link'',
     ent 1 (TF) ''sys_unlink'' ''unlink'',
     ent 2 (TF) ''sys_symlink'' ''symlink'',
     ent 3 (TF) ''sys_readlink'' ''readlink'',
     ent 2 (TF) ''sys_chmod'' ''chmod'',
     ent 2 (TD) ''sys_fchmod'' ''fchmod'',
     ent 3 (TF) ''sys_chown'' ''chown'',
     ent 3 (TD) ''sys_fchown'' ''fchown'',
     ent 3 (TF) ''sys_chown'' ''lchown'',
     ent 1 (0) ''sys_umask'' ''umask'',
     ent 2 (0) ''sys_gettimeofday'' ''gettimeofday'',
     ent 2 (0) ''sys_getrlimit'' ''getrlimit'',
     ent 2 (0) ''sys_getrusage'' ''getrusage'',
     ent 1 (0) ''sys_sysinfo'' ''sysinfo'',
     ent 1 (0) ''sys_times'' ''times'',
     ent 4 (0) ''sys_ptrace'' ''ptrace'',
     ent 0 (NF) ''sys_getuid'' ''getuid'',
     ent 3 (0) ''sys_syslog'' ''syslog'',
     ent 0 (NF) ''sys_getgid'' ''getgid'',
     ent 1 (0) ''sys_setuid'' ''setuid'',
     ent 1 (0) ''sys_setgid'' ''setgid'',
     ent 0 (NF) ''sys_geteuid'' ''geteuid'',
     ent 0 (NF) ''sys_getegid'' ''getegid'',
     ent 2 (0) ''sys_setpgid'' ''setpgid'',
     ent 0 (0) ''sys_getppid'' ''getppid'',
     ent 0 (0) ''sys_getpgrp'' ''getpgrp'',
     ent 0 (0) ''sys_setsid'' ''setsid'',
     ent 2 (0) ''sys_setreuid'' ''setreuid'',
     ent 2 (0) ''sys_setregid'' ''setregid'',
     ent 2 (0) ''sys_getgroups'' ''getgroups'',
     ent 2 (0) ''sys_setgroups'' ''setgroups'',
     ent 3 (0) ''sys_setresuid'' ''setresuid'',
     ent 3 (0) ''sys_getresuid'' ''getresuid'',
     ent 3 (0) ''sys_setresgid'' ''setresgid'',
     ent 3 (0) ''sys_getresgid'' ''getresgid'',
     ent 1 (0) ''sys_getpgid'' ''getpgid'',
     ent 1 (NF) ''sys_setfsuid'' ''setfsuid'',
     ent 1 (NF) ''sys_setfsgid'' ''setfsgid'',
     ent 1 (0) ''sys_getsid'' ''getsid'',
     ent 2 (0) ''sys_capget'' ''capget'',
     ent 2 (0) ''sys_capset'' ''capset'',
     ent 2 (TS) ''sys_rt_sigpending'' ''rt_sigpending'',
     ent 4 (TS) ''sys_rt_sigtimedwait'' ''rt_sigtimedwait'',
     ent 3 (TS) ''sys_rt_sigqueueinfo'' ''rt_sigqueueinfo'',
     ent 2 (TS) ''sys_rt_sigsuspend'' ''rt_sigsuspend'',
     ent 2 (TS) ''sys_sigaltstack'' ''sigaltstack'',
     ent 2 (TF) ''sys_utime'' ''utime'',
     ent 3 (TF) ''sys_mknod'' ''mknod'',
     ent 1 (TF) ''sys_uselib'' ''uselib'',
     ent 1 (0) ''sys_personality'' ''personality'',
     ent 2 (0) ''sys_ustat'' ''ustat'',
     ent 2 (TF) ''sys_statfs'' ''statfs'',
     ent 2 (TD) ''sys_fstatfs'' ''fstatfs'',
     ent 3 (0) ''sys_sysfs'' ''sysfs'',
     ent 2 (0) ''sys_getpriority'' ''getpriority'',
     ent 3 (0) ''sys_setpriority'' ''setpriority'',
     ent 0 (0) ''sys_sched_setparam'' ''sched_setparam'',
     ent 2 (0) ''sys_sched_getparam'' ''sched_getparam'',
     ent 3 (0) ''sys_sched_setscheduler'' ''sched_setscheduler'',
     ent 1 (0) ''sys_sched_getscheduler'' ''sched_getscheduler'',
     ent 1 (0) ''sys_sched_get_priority_max'' ''sched_get_priority_max'',
     ent 1 (0) ''sys_sched_get_priority_min'' ''sched_get_priority_min'',
     ent 2 (0) ''sys_sched_rr_get_interval'' ''sched_rr_get_interval'',
     ent 2 (TM) ''sys_mlock'' ''mlock'']"

definition sysent0_b :: "sysent list" where
  "sysent0_b =
    [ent 2 (TM) ''sys_munlock'' ''munlock'',
     ent 1 (TM) ''sys_mlockall'' ''mlockall'',
     ent 0 (TM) ''sys_munlockall'' ''munlockall'',
     ent 0 (0) ''sys_vhangup'' ''vhangup'',
     ent 3 (0) ''sys_modify_ldt'' ''modify_ldt'',
     ent 2 (TF) ''sys_pivotroot'' ''pivot_root'',
     ent 1 (0) ''sys_sysctl'' ''_sysctl'',
     ent 5 (0) ''sys_prctl'' ''prctl'',
     ent 2 (TP) ''sys_arch_prctl'' ''arch_prctl'',
     ent 1 (0) ''sys_adjtimex'' ''adjtimex'',
     ent 2 (0) ''sys_setrlimit'' ''setrlimit'',
     ent 1 (TF) ''sys_chroot'' ''chroot'',
     ent 0 (0) ''sys_sync'' ''sync'',
     ent 1 (TF) ''sys_acct'' ''acct'',
     ent 2 (0) ''sys_settimeofday'' ''settimeofday'',
     ent 5 (TF) ''sys_mount'' ''mount'',
     ent 2 (TF) ''sys_umount2'' ''umount'',
     ent 2 (TF) ''sys_swapon'' ''swapon'',
     ent 1 (TF) ''sys_swapoff'' ''swapoff'',
     ent 4 (0) ''sys_reboot'' ''reboot'',
     ent 2 (0) ''sys_sethostname'' ''sethostname'',
     ent 2 (0) ''sys_setdomainname'' ''setdomainname'',
     ent 1 (0) ''sys_iopl'' ''iopl'',
     ent 3 (0) ''sys_ioperm'' ''ioperm'',
     ent 2 (0) ''sys_create_module'' ''create_module'',
     ent 3 (0) ''sys_init_module'' ''init_module'',
     ent 2 (0) ''sys_delete_module'' ''delete_module'',
     ent 1 (0) ''sys_get_kernel_syms'' ''get_kernel_syms'',
     ent 5 (0) ''sys_query_module'' ''query_module'',
     ent 4 (TF) ''sys_quotactl'' ''quotactl'',
     ent 3 (0) ''sys_nfsservctl'' ''nfsservctl'',
     ent 5 (0) ''sys_getpmsg'' ''getpmsg'',
     ent 5 (0) ''sys_putpmsg'' ''putpmsg'',
     ent 5 (0) ''sys_afs_syscall'' ''afs_syscall'',
     ent 3 (0) ''sys_tuxcall'' ''tuxcall'',
     ent 3 (0) ''sys_security'' ''security'',
     ent 0 (0) ''sys_gettid'' ''gettid'',
     ent 3 (TD) ''sys_readahead'' ''readahead'',
     ent 5 (TF) ''sys_setxattr'' ''setxattr'',
     ent 5 (TF) ''sys_setxattr'' ''lsetxattr'',
     ent 5 (TD) ''sys_fsetxattr'' ''fsetxattr'',
     ent 4 (TF) ''sys_getxattr'' ''getxattr'',
     ent 4 (TF) ''sys_getxattr'' ''lgetxattr'',
     ent 4 (TD) ''sys_fgetxattr'' ''fgetxattr'',
     ent 3 (TF) ''sys_listxattr'' ''listxattr'',
     ent 3 (TF) ''sys_listxattr'' ''llistxattr'',
     ent 3 (TD) ''sys_flistxattr'' ''flistxattr'',
     ent 2 (TF) ''sys_removexattr'' ''removexattr'',
     ent 2 (TF) ''sys_removexattr'' ''lremovexattr'',
     ent 2 (TD) ''sys_fremovexattr'' ''fremovexattr'',
     ent 2 (TS) ''sys_kill'' ''tkill'',
     ent 1 (0) ''sys_time'' ''time'',
     ent 6 (0) ''sys_futex'' ''futex'',
     ent 3 (0) ''sys_sched_setaffinity'' ''sched_setaffinity'',
     ent 3 (0) ''sys_sched_getaffinity'' ''sched_getaffinity'',
     ent 1 (0) ''sys_set_thread_area'' ''set_thread_area'',
     ent 2 (0) ''sys_io_setup'' ''io_setup'',
     ent 1 (0) ''sys_io_destroy'' ''io_destroy'',
     ent 5 (0) ''sys_io_getevents'' ''io_getevents'',
     ent 3 (0) ''sys_io_submit'' ''io_submit'',
     ent 3 (0) ''sys_io_cancel'' ''io_cancel'',
     ent 1 (0) ''sys_get_thread_area'' ''get_thread_area'',
     ent 3 (0) ''sys_lookup_dcookie'' ''lookup_dcookie'',
     ent 1 (TD) ''sys_epoll_create'' ''epoll_create'',
     ent 4 (0) ''printargs'' ''epoll_ctl_old'',
     ent 4 (0) ''printargs'' ''epoll_wait_old'',
     ent 5 (TM) ''sys_remap_file_pages'' ''remap_file_pages'',
     ent 3 (TD) ''sys_getdents64'' ''getdents64'',
     ent 1 (0) ''sys_set_tid_address'' ''set_tid_address'',
     ent 0 (0) ''sys_restart_syscall'' ''restart_syscall'',
     ent 5 (TI) ''sys_semtimedop'' ''semtimedop'',
     ent 4 (TD) ''sys_fadvise64'' ''fadvise64'',
     ent 3 (0) ''sys_timer_create'' ''timer_create'',
     ent 4 (0) ''sys_timer_settime'' ''timer_settime'',
     ent 2 (0) ''sys_timer_gettime'' ''timer_gettime'',
     ent 1 (0) ''sys_timer_getoverrun'' ''timer_getoverrun'',
     ent 1 (0) ''sys_timer_delete'' ''timer_delete'',
     ent 2 (0) ''sys_clock_settime'' ''clock_settime'',
     ent 2 (0) ''sys_clock_gettime'' ''clock_gettime'',
     ent 2 (0) ''sys_clock_getres'' ''clock_getres'',
     ent 4 (0) ''sys_clock_nanosleep'' ''clock_nanosleep'',
     ent 1 (TP) ''sys_exit'' ''exit_group'',
     ent 4 (TD) ''sys_epoll_wait'' ''epoll_wait'',
     ent 4 (TD) ''sys_epoll_ctl'' ''epoll_ctl'',
     ent 3 (TS) ''sys_tgkill'' ''tgkill'',
     ent 2 (TF) ''sys_utimes'' ''utimes'',
     ent 5 (0) ''sys_vserver'' ''vserver'',
     ent 6 (TM) ''sys_mbind'' ''mbind'',
     ent 3 (TM) ''sys_set_mempolicy'' ''set_mempolicy'',
     ent 5 (TM) ''sys_get_mempolicy'' ''get_mempolicy'',
     ent 4 (0) ''sys_mq_open'' ''mq_open'',
     ent 1 (0) ''sys_mq_unlink'' ''mq_unlink'',
     ent 5 (0) ''sys_mq_timedsend'' ''mq_timedsend'',
     ent 5 (0) ''sys_mq_timedreceive'' ''mq_timedreceive'',
     ent 2 (0) ''sys_mq_notify'' ''mq_notify'',
     ent 3 (0) ''sys_mq_getsetattr'' ''mq_getsetattr'',
     ent 4 (0) ''sys_kexec_load'' ''kexec_load'',
     ent 5 (TP) ''sys_waitid'' ''waitid'',
     ent 5 (0) ''sys_add_key'' ''add_key'',
     ent 4 (0) ''sys_request_key'' ''request_key'',
     ent 5 (0) ''sys_keyctl'' ''keyctl'',
     ent 3 (0) ''sys_ioprio_set'' ''ioprio_set'',
     ent 2 (0) ''sys_ioprio_get'' ''ioprio_get'',
     ent 0 (TD) ''sys_inotify_init'' ''inotify_init'',
     ent 3 (TD) ''sys_inotify_add_watch'' ''inotify_add_watch'',
     ent 2 (TD) ''sys_inotify_rm_watch'' ''inotify_rm_watch'',
     ent 4 (TM) ''sys_migrate_pages'' ''migrate_pages'',
     ent 4 (TD OR TF) ''sys_openat'' ''openat'',
     ent 3 (TD OR TF) ''sys_mkdirat'' ''mkdirat'',
     ent 4 (TD OR TF) ''sys_mknodat'' ''mknodat'',
     ent 5 (TD OR TF) ''sys_fchownat'' ''fchownat'',
     ent 3 (TD OR TF) ''sys_futimesat'' ''futimesat'',
     ent 4 (TD OR TF) ''sys_newfstatat'' ''newfstatat'',
     ent 3 (TD OR TF) ''sys_unlinkat'' ''unlinkat'',
     ent 4 (TD OR TF) ''sys_renameat'' ''renameat'',
     ent 5 (TD OR TF) ''sys_linkat'' ''linkat'',
     ent 3 (TD OR TF) ''sys_symlinkat'' ''symlinkat'',
     ent 4 (TD OR TF) ''sys_readlinkat'' ''readlinkat'',
     ent 3 (TD OR TF) ''sys_fchmodat'' ''fchmodat'',
     ent 3 (TD OR TF) ''sys_faccessat'' ''faccessat'',
     ent 6 (TD) ''sys_pselect6'' ''pselect6'',
     ent 5 (TD) ''sys_ppoll'' ''ppoll'',
     ent 1 (TP) ''sys_unshare'' ''unshare'',
     ent 2 (0) ''sys_set_robust_list'' ''set_robust_list'',
     ent 3 (0) ''sys_get_robust_list'' ''get_robust_list'',
     ent 6 (TD) ''sys_splice'' ''splice'',
     ent 4 (TD) ''sys_tee'' ''tee'',
     ent 4 (TD) ''sys_sync_file_range'' ''sync_file_range'',
     ent 4 (TD) ''sys_vmsplice'' ''vmsplice'',
     ent 6 (TM) ''sys_move_pages'' ''move_pages'',
     ent 4 (TD OR TF) ''sys_utimensat'' ''utimensat'',
     ent 6 (TD) ''sys_epoll_pwait'' ''epoll_pwait'',
     ent 3 (TD OR TS) ''sys_signalfd'' ''signalfd'',
     ent 2 (TD) ''sys_timerfd_create'' ''timerfd_create'',
     ent 1 (TD) ''sys_eventfd'' ''eventfd'',
     ent 4 (TD) ''sys_fallocate'' ''fallocate'',
     ent 4 (TD) ''sys_timerfd_settime'' ''timerfd_settime'',
     ent 2 (TD) ''sys_timerfd_gettime'' ''timerfd_gettime'',
     ent 4 (TN) ''sys_accept4'' ''accept4'',
     ent 4 (TD OR TS) ''sys_signalfd4'' ''signalfd4'',
     ent 2 (TD) ''sys_eventfd2'' ''eventfd2'',
     ent 1 (TD) ''sys_epoll_create1'' ''epoll_create1'',
     ent 3 (TD) ''sys_dup3'' ''dup3'',
     ent 2 (TD) ''sys_pipe2'' ''pipe2'',
     ent 1 (TD) ''sys_inotify_init1'' ''inotify_init1'',
     ent 4 (TD) ''sys_preadv'' ''preadv'',
     ent 4 (TD) ''sys_pwritev'' ''pwritev'',
     ent 4 (TP OR TS) ''sys_rt_tgsigqueueinfo'' ''rt_tgsigqueueinfo'',
     ent 5 (TD) ''sys_perf_event_open'' ''perf_event_open'',
     ent 5 (TN) ''sys_recvmmsg'' ''recvmmsg'']"

definition sysent0_c :: "sysent list" where
  "sysent0_c =
    [ent 2 (TD) ''sys_fanotify_init'' ''fanotify_init'',
     ent 5 (TD OR TF) ''sys_fanotify_mark'' ''fanotify_mark'',
     ent 4 (0) ''sys_prlimit64'' ''prlimit64'',
     ent 5 (TD OR TF) ''sys_name_to_handle_at'' ''name_to_handle_at'',
     ent 3 (TD) ''sys_open_by_handle_at'' ''open_by_handle_at'',
     ent 2 (0) ''sys_clock_adjtime'' ''clock_adjtime'',
     ent 1 (TD) ''sys_syncfs'' ''syncfs'',
     ent 4 (TN) ''sys_sendmmsg'' ''sendmmsg'',
     ent 2 (TD) ''sys_setns'' ''setns'',
     ent 3 (0) ''sys_getcpu'' ''getcpu'',
     ent 6 (0) ''sys_process_vm_readv'' ''process_vm_readv'',
     ent 6 (0) ''sys_process_vm_writev'' ''process_vm_writev'',
     ent 5 (0) ''sys_kcmp'' ''kcmp'',
     ent 3 (TD) ''sys_finit_module'' ''finit_module'']"

definition sysent0 :: "sysent list" where
  "sysent0 = sysent0_a @ sysent0_b @ sysent0_c"

subsection \<open>i386\<close>

definition sysent1_a :: "sysent list" where
  "sysent1_a =
    [ent 0 (0) ''sys_restart_syscall'' ''restart_syscall'',
     ent 1 (TP) ''sys_exit'' ''_exit'',
     ent 0 (TP) ''sys_fork'' ''fork'',
     ent 3 (TD) ''sys_read'' ''read'',
     ent 3 (TD) ''sys_write'' ''write'',
     ent 3 (TD OR TF) ''sys_open'' ''open'',
     ent 1 (TD) ''sys_close'' ''close'',
     ent 3 (TP) ''sys_waitpid'' ''waitpid'',
     ent 2 (TD OR TF) ''sys_creat'' ''creat'',
     ent 2 (TF) ''sys_link'' ''link'',
     ent 1 (TF) ''sys_unlink'' ''unlink'',
     ent 3 (TF OR TP) ''sys_execve'' ''execve'',
     ent 1 (TF) ''sys_chdir'' ''chdir'',
     ent 1 (0) ''sys_time'' ''time'',
     ent 3 (TF) ''sys_mknod'' ''mknod'',
     ent 2 (TF) ''sys_chmod'' ''chmod'',
     ent 3 (TF) ''sys_chown'' ''lchown'',
     ent 0 (TM) ''sys_break'' ''break'',
     ent 2 (TF) ''sys_oldstat'' ''oldstat'',
     ent 3 (TD) ''sys_lseek'' ''lseek'',
     ent 0 (0) ''sys_getpid'' ''getpid'',
     ent 5 (TF) ''sys_mount'' ''mount'',
     ent 1 (TF) ''sys_umount'' ''oldumount'',
     ent 1 (0) ''sys_setuid'' ''setuid'',
     ent 0 (NF) ''sys_getuid'' ''getuid'',
     ent 1 (0) ''sys_stime'' ''stime'',
     ent 4 (0) ''sys_ptrace'' ''ptrace'',
     ent 1 (0) ''sys_alarm'' ''alarm'',
     ent 2 (TD) ''sys_oldfstat'' ''oldfstat'',
     ent 0 (TS) ''sys_pause'' ''pause'',
     ent 2 (TF) ''sys_utime'' ''utime'',
     ent 2 (0) ''sys_stty'' ''stty'',
     ent 2 (0) ''sys_gtty'' ''gtty'',
     ent 2 (TF) ''sys_access'' ''access'',
     ent 1 (0) ''sys_nice'' ''nice'',
     ent 0 (0) ''sys_ftime'' ''ftime'',
     ent 0 (0) ''sys_sync'' ''sync'',
     ent 2 (TS) ''sys_kill'' ''kill'',
     ent 2 (TF) ''sys_rename'' ''rename'',
     ent 2 (TF) ''sys_mkdir'' ''mkdir'',
     ent 1 (TF) ''sys_rmdir'' ''rmdir'',
     ent 1 (TD) ''sys_dup'' ''dup'',
     ent 1 (TD) ''sys_pipe'' ''pipe'',
     ent 1 (0) ''sys_times'' ''times'',
     ent 0 (0) ''sys_prof'' ''prof'',
     ent 1 (TM) ''sys_brk'' ''brk'',
     ent 1 (0) ''sys_setgid'' ''setgid'',
     ent 0 (NF) ''sys_getgid'' ''getgid'',
     ent 3 (TS) ''sys_signal'' ''signal'',
     ent 0 (NF) ''sys_geteuid'' ''geteuid'',
     ent 0 (NF) ''sys_getegid'' ''getegid'',
     ent 1 (TF) ''sys_acct'' ''acct'',
     ent 2 (TF) ''sys_umount2'' ''umount'',
     ent 0 (0) ''sys_lock'' ''lock'',
     ent 3 (TD) ''sys_ioctl'' ''ioctl'',
     ent 3 (TD) ''sys_fcntl'' ''fcntl'',
     ent 0 (0) ''sys_mpx'' ''mpx'',
     ent 2 (0) ''sys_setpgid'' ''setpgid'',
     ent 2 (0) ''sys_ulimit'' ''ulimit'',
     ent 1 (0) ''sys_oldolduname'' ''oldolduname'',
     ent 1 (0) ''sys_umask'' ''umask'',
     ent 1 (TF) ''sys_chroot'' ''chroot'',
     ent 2 (0) ''sys_ustat'' ''ustat'',
     ent 2 (TD) ''sys_dup2'' ''dup2'',
     ent 0 (0) ''sys_getppid'' ''getppid'',
     ent 0 (0) ''sys_getpgrp'' ''getpgrp'',
     ent 0 (0) ''sys_setsid'' ''setsid'',
     ent 3 (TS) ''sys_sigaction'' ''sigaction'',
     ent 0 (TS) ''sys_siggetmask'' ''sgetmask'',
     ent 1 (TS) ''sys_sigsetmask'' ''ssetmask'',
     ent 2 (0) ''sys_setreuid'' ''setreuid'',
     ent 2 (0) ''sys_setregid'' ''setregid'',
     ent 3 (TS) ''sys_sigsuspend'' ''sigsuspend'',
     ent 1 (TS) ''sys_sigpending'' ''sigpending'',
     ent 2 (0) ''sys_sethostname'' ''sethostname'',
     ent 2 (0) ''sys_setrlimit'' ''setrlimit'',
     ent 2 (0) ''sys_getrlimit'' ''old_getrlimit'',
     ent 2 (0) ''sys_getrusage'' ''getrusage'',
     ent 2 (0) ''sys_gettimeofday'' ''gettimeofday'',
     ent 2 (0) ''sys_settimeofday'' ''settimeofday'',
     ent 2 (0) ''sys_getgroups'' ''getgroups'',
     ent 2 (0) ''sys_setgroups'' ''setgroups'',
     ent 1 (TD) ''sys_oldselect'' ''oldselect'',
     ent 2 (TF) ''sys_symlink'' ''symlink'',
     ent 2 (TF) ''sys_oldlstat'' ''oldlstat'',
     ent 3 (TF) ''sys_readlink'' ''readlink'',
     ent 1 (TF) ''sys_uselib'' ''uselib'',
     ent 2 (TF) ''sys_swapon'' ''swapon'',
     ent 4 (0) ''sys_reboot'' ''reboot'',
     ent 3 (TD) ''sys_readdir'' ''readdir'',
     ent 6 (TD OR TM) ''sys_old_mmap'' ''old_mmap'',
     ent 2 (TM) ''sys_munmap'' ''munmap'',
     ent 2 (TF) ''sys_truncate'' ''truncate'',
     ent 2 (TD) ''sys_ftruncate'' ''ftruncate'',
     ent 2 (TD) ''sys_fchmod'' ''fchmod'',
     ent 3 (TD) ''sys_fchown'' ''fchown'',
     ent 2 (0) ''sys_getpriority'' ''getpriority'',
     ent 3 (0) ''sys_setpriority'' ''setpriority'',
     ent 4 (0) ''sys_profil'' ''profil'',
     ent 2 (TF) ''sys_statfs'' ''statfs'',
     ent 2 (TD) ''sys_fstatfs'' ''fstatfs'',
     ent 3 (0) ''sys_ioperm'' ''ioperm'',
     ent 2 (TD) ''sys_socketcall'' ''socketcall'',
     ent 3 (0) ''sys_syslog'' ''syslog'',
     ent 3 (0) ''sys_setitimer'' ''setitimer'',
     ent 2 (0) ''sys_getitimer'' ''getitimer'',
     ent 2 (TF) ''sys_stat'' ''stat'',
     ent 2 (TF) ''sys_lstat'' ''lstat'',
     ent 2 (TD) ''sys_fstat'' ''fstat'',
     ent 1 (0) ''sys_olduname'' ''olduname'',
     ent 1 (0) ''sys_iopl'' ''iopl'',
     ent 0 (0) ''sys_vhangup'' ''vhangup'',
     ent 0 (0) ''sys_idle'' ''idle'',
     ent 1 (0) ''sys_vm86old'' ''vm86old'',
     ent 4 (TP) ''sys_wait4'' ''wait4'',
     ent 1 (TF) ''sys_swapoff'' ''swapoff'',
     ent 1 (0) ''sys_sysinfo'' ''sysinfo'',
     ent 6 (TI) ''sys_ipc'' ''ipc'',
     ent 1 (TD) ''sys_fsync'' ''fsync'',
     ent 0 (TS) ''sys_sigreturn'' ''sigreturn'',
     ent 5 (TP) ''sys_clone'' ''clone'',
     ent 2 (0) ''sys_setdomainname'' ''setdomainname'',
     ent 1 (0) ''sys_uname'' ''uname'',
     ent 3 (0) ''sys_modify_ldt'' ''modify_ldt'',
     ent 1 (0) ''sys_adjtimex'' ''adjtimex'',
     ent 3 (TM) ''sys_mprotect'' ''mprotect'',
     ent 3 (TS) ''sys_sigprocmask'' ''sigprocmask'',
     ent 2 (0) ''sys_create_module'' ''create_module'',
     ent 3 (0) ''sys_init_module'' ''init_module'',
     ent 2 (0) ''sys_delete_module'' ''delete_module'',
     ent 1 (0) ''sys_get_kernel_syms'' ''get_kernel_syms'',
     ent 4 (TF) ''sys_quotactl'' ''quotactl'',
     ent 1 (0) ''sys_getpgid'' ''getpgid'',
     ent 1 (TD) ''sys_fchdir'' ''fchdir'',
     ent 0 (0) ''sys_bdflush'' ''bdflush'',
     ent 3 (0) ''sys_sysfs'' ''sysfs'',
     ent 1 (0) ''sys_personality'' ''personality'',
     ent 5 (0) ''sys_afs_syscall'' ''afs_syscall'',
     ent 1 (NF) ''sys_setfsuid'' ''setfsuid'',
     ent 1 (NF) ''sys_setfsgid'' ''setfsgid'',
     ent 5 (TD) ''sys_llseek'' ''_llseek'',
     ent 3 (TD) ''sys_getdents'' ''getdents'',
     ent 5 (TD) ''sys_select'' ''select'',
     ent 2 (TD) ''sys_flock'' ''flock'',
     ent 3 (TM) ''sys_msync'' ''msync'',
     ent 3 (TD) ''sys_readv'' ''readv'',
     ent 3 (TD) ''sys_writev'' ''writev'',
     ent 1 (0) ''sys_getsid'' ''getsid'',
     ent 1 (TD) ''sys_fdatasync'' ''fdatasync'',
     ent 1 (0) ''sys_sysctl'' ''_sysctl'']"

definition sysent1_b :: "sysent list" where
  "sysent1_b =
    [ent 2 (TM) ''sys_mlock'' ''mlock'',
     ent 2 (TM) ''sys_munlock'' ''munlock'',
     ent 1 (TM) ''sys_mlockall'' ''mlockall'',
     ent 0 (TM) ''sys_munlockall'' ''munlockall'',
     ent 0 (0) ''sys_sched_setparam'' ''sched_setparam'',
     ent 2 (0) ''sys_sched_getparam'' ''sched_getparam'',
     ent 3 (0) ''sys_sched_setscheduler'' ''sched_setscheduler'',
     ent 1 (0) ''sys_sched_getscheduler'' ''sched_getscheduler'',
     ent 0 (0) ''sys_sched_yield'' ''sched_yield'',
     ent 1 (0) ''sys_sched_get_priority_max'' ''sched_get_priority_max'',
     ent 1 (0) ''sys_sched_get_priority_min'' ''sched_get_priority_min'',
     ent 2 (0) ''sys_sched_rr_get_interval'' ''sched_rr_get_interval'',
     ent 2 (0) ''sys_nanosleep'' ''nanosleep'',
     ent 5 (TM) ''sys_mremap'' ''mremap'',
     ent 3 (0) ''sys_setresuid'' ''setresuid'',
     ent 3 (0) ''sys_getresuid'' ''getresuid'',
     ent 5 (0) ''sys_vm86'' ''vm86'',
     ent 5 (0) ''sys_query_module'' ''query_module'',
     ent 3 (TD) ''sys_poll'' ''poll'',
     ent 3 (0) ''sys_nfsservctl'' ''nfsservctl'',
     ent 3 (0) ''sys_setresgid'' ''setresgid'',
     ent 3 (0) ''sys_getresgid'' ''getresgid'',
     ent 5 (0) ''sys_prctl'' ''prctl'',
     ent 0 (TS) ''sys_rt_sigreturn'' ''rt_sigreturn'',
     ent 4 (TS) ''sys_rt_sigaction'' ''rt_sigaction'',
     ent 4 (TS) ''sys_rt_sigprocmask'' ''rt_sigprocmask'',
     ent 2 (TS) ''sys_rt_sigpending'' ''rt_sigpending'',
     ent 4 (TS) ''sys_rt_sigtimedwait'' ''rt_sigtimedwait'',
     ent 3 (TS) ''sys_rt_sigqueueinfo'' ''rt_sigqueueinfo'',
     ent 2 (TS) ''sys_rt_sigsuspend'' ''rt_sigsuspend'',
     ent 5 (TD) ''sys_pread'' ''pread64'',
     ent 5 (TD) ''sys_pwrite'' ''pwrite64'',
     ent 3 (TF) ''sys_chown'' ''chown'',
     ent 2 (TF) ''sys_getcwd'' ''getcwd'',
     ent 2 (0) ''sys_capget'' ''capget'',
     ent 2 (0) ''sys_capset'' ''capset'',
     ent 2 (TS) ''sys_sigaltstack'' ''sigaltstack'',
     ent 4 (TD OR TN) ''sys_sendfile'' ''sendfile'',
     ent 5 (0) ''sys_getpmsg'' ''getpmsg'',
     ent 5 (0) ''sys_putpmsg'' ''putpmsg'',
     ent 0 (TP) ''sys_vfork'' ''vfork'',
     ent 2 (0) ''sys_getrlimit'' ''getrlimit'',
     ent 6 (TD OR TM) ''sys_mmap_pgoff'' ''mmap2'',
     ent 3 (TF) ''sys_truncate64'' ''truncate64'',
     ent 3 (TD) ''sys_ftruncate64'' ''ftruncate64'',
     ent 2 (TF) ''sys_stat64'' ''stat64'',
     ent 2 (TF) ''sys_lstat64'' ''lstat64'',
     ent 2 (TD) ''sys_fstat64'' ''fstat64'',
     ent 3 (TF) ''sys_chown'' ''lchown32'',
     ent 0 (NF) ''sys_getuid'' ''getuid32'',
     ent 0 (NF) ''sys_getgid'' ''getgid32'',
     ent 0 (NF) ''sys_geteuid'' ''geteuid32'',
     ent 0 (NF) ''sys_getegid'' ''getegid32'',
     ent 2 (0) ''sys_setreuid'' ''setreuid32'',
     ent 2 (0) ''sys_setregid'' ''setregid32'',
     ent 2 (0) ''sys_getgroups32'' ''getgroups32'',
     ent 2 (0) ''sys_setgroups32'' ''setgroups32'',
     ent 3 (TD) ''sys_fchown'' ''fchown32'',
     ent 3 (0) ''sys_setresuid'' ''setresuid32'',
     ent 3 (0) ''sys_getresuid'' ''getresuid32'',
     ent 3 (0) ''sys_setresgid'' ''setresgid32'',
     ent 3 (0) ''sys_getresgid'' ''getresgid32'',
     ent 3 (TF) ''sys_chown'' ''chown32'',
     ent 1 (0) ''sys_setuid'' ''setuid32'',
     ent 1 (0) ''sys_setgid'' ''setgid32'',
     ent 1 (NF) ''sys_setfsuid'' ''setfsuid32'',
     ent 1 (NF) ''sys_setfsgid'' ''setfsgid32'',
     ent 2 (TF) ''sys_pivotroot'' ''pivot_root'',
     ent 3 (TM) ''sys_mincore'' ''mincore'',
     ent 3 (TM) ''sys_madvise'' ''madvise'',
     ent 3 (TD) ''sys_getdents64'' ''getdents64'',
     ent 3 (TD) ''sys_fcntl'' ''fcntl64'',
     no_ent 6 (0),
     ent 5 (0) ''sys_security'' ''security'',
     ent 0 (0) ''sys_gettid'' ''gettid'',
     ent 4 (TD) ''sys_readahead'' ''readahead'',
     ent 5 (TF) ''sys_setxattr'' ''setxattr'',
     ent 5 (TF) ''sys_setxattr'' ''lsetxattr'',
     ent 5 (TD) ''sys_fsetxattr'' ''fsetxattr'',
     ent 4 (TF) ''sys_getxattr'' ''getxattr'',
     ent 4 (TF) ''sys_getxattr'' ''lgetxattr'',
     ent 4 (TD) ''sys_fgetxattr'' ''fgetxattr'',
     ent 3 (TF) ''sys_listxattr'' ''listxattr'',
     ent 3 (TF) ''sys_listxattr'' ''llistxattr'',
     ent 3 (TD) ''sys_flistxattr'' ''flistxattr'',
     ent 2 (TF) ''sys_removexattr'' ''removexattr'',
     ent 2 (TF) ''sys_removexattr'' ''lremovexattr'',
     ent 2 (TD) ''sys_fremovexattr'' ''fremovexattr'',
     ent 2 (TS) ''sys_kill'' ''tkill'',
     ent 4 (TD OR TN) ''sys_sendfile64'' ''sendfile64'',
     ent 6 (0) ''sys_futex'' ''futex'',
     ent 3 (0) ''sys_sched_setaffinity'' ''sched_setaffinity'',
     ent 3 (0) ''sys_sched_getaffinity'' ''sched_getaffinity'',
     ent 1 (0) ''sys_set_thread_area'' ''set_thread_area'',
     ent 1 (0) ''sys_get_thread_area'' ''get_thread_area'',
     ent 2 (0) ''sys_io_setup'' ''io_setup'',
     ent 1 (0) ''sys_io_destroy'' ''io_destroy'',
     ent 5 (0) ''sys_io_getevents'' ''io_getevents'',
     ent 3 (0) ''sys_io_submit'' ''io_submit'',
     ent 3 (0) ''sys_io_cancel'' ''io_cancel'',
     ent 5 (TD) ''sys_fadvise64'' ''fadvise64'',
     no_ent 6 (0),
     ent 1 (TP) ''sys_exit'' ''exit_group'',
     ent 4 (0) ''sys_lookup_dcookie'' ''lookup_dcookie'',
     ent 1 (TD) ''sys_epoll_create'' ''epoll_create'',
     ent 4 (TD) ''sys_epoll_ctl'' ''epoll_ctl'',
     ent 4 (TD) ''sys_epoll_wait'' ''epoll_wait'',
     ent 5 (TM) ''sys_remap_file_pages'' ''remap_file_pages'',
     ent 1 (0) ''sys_set_tid_address'' ''set_tid_address'',
     ent 3 (0) ''sys_timer_create'' ''timer_create'',
     ent 4 (0) ''sys_timer_settime'' ''timer_settime'',
     ent 2 (0) ''sys_timer_gettime'' ''timer_gettime'',
     ent 1 (0) ''sys_timer_getoverrun'' ''timer_getoverrun'',
     ent 1 (0) ''sys_timer_delete'' ''timer_delete'',
     ent 2 (0) ''sys_clock_settime'' ''clock_settime'',
     ent 2 (0) ''sys_clock_gettime'' ''clock_gettime'',
     ent 2 (0) ''sys_clock_getres'' ''clock_getres'',
     ent 4 (0) ''sys_clock_nanosleep'' ''clock_nanosleep'',
     ent 3 (TF) ''sys_statfs64'' ''statfs64'',
     ent 3 (TD) ''sys_fstatfs64'' ''fstatfs64'',
     ent 3 (TS) ''sys_tgkill'' ''tgkill'',
     ent 2 (TF) ''sys_utimes'' ''utimes'',
     ent 6 (TD) ''sys_fadvise64_64'' ''fadvise64_64'',
     ent 5 (0) ''sys_vserver'' ''vserver'',
     ent 6 (TM) ''sys_mbind'' ''mbind'',
     ent 5 (TM) ''sys_get_mempolicy'' ''get_mempolicy'',
     ent 3 (TM) ''sys_set_mempolicy'' ''set_mempolicy'',
     ent 4 (0) ''sys_mq_open'' ''mq_open'',
     ent 1 (0) ''sys_mq_unlink'' ''mq_unlink'',
     ent 5 (0) ''sys_mq_timedsend'' ''mq_timedsend'',
     ent 5 (0) ''sys_mq_timedreceive'' ''mq_timedreceive'',
     ent 2 (0) ''sys_mq_notify'' ''mq_notify'',
     ent 3 (0) ''sys_mq_getsetattr'' ''mq_getsetattr'',
     ent 4 (0) ''sys_kexec_load'' ''kexec_load'',
     ent 5 (TP) ''sys_waitid'' ''waitid'',
     no_ent 6 (0),
     ent 5 (0) ''sys_add_key'' ''add_key'',
     ent 4 (0) ''sys_request_key'' ''request_key'',
     ent 5 (0) ''sys_keyctl'' ''keyctl'',
     ent 3 (0) ''sys_ioprio_set'' ''ioprio_set'',
     ent 2 (0) ''sys_ioprio_get'' ''ioprio_get'',
     ent 0 (TD) ''sys_inotify_init'' ''inotify_init'',
     ent 3 (TD) ''sys_inotify_add_watch'' ''inotify_add_watch'',
     ent 2 (TD) ''sys_inotify_rm_watch'' ''inotify_rm_watch'',
     ent 4 (TM) ''sys_migrate_pages'' ''migrate_pages'',
     ent 4 (TD OR TF) ''sys_openat'' ''openat'',
     ent 3 (TD OR TF) ''sys_mkdirat'' ''mkdirat'',
     ent 4 (TD OR TF) ''sys_mknodat'' ''mknodat'']"

definition sysent1_c :: "sysent list" where
  "sysent1_c =
    [ent 5 (TD OR TF) ''sys_fchownat'' ''fchownat'',
     ent 3 (TD OR TF) ''sys_futimesat'' ''futimesat'',
     ent 4 (TD OR TF) ''sys_newfstatat'' ''fstatat64'',
     ent 3 (TD OR TF) ''sys_unlinkat'' ''unlinkat'',
     ent 4 (TD OR TF) ''sys_renameat'' ''renameat'',
     ent 5 (TD OR TF) ''sys_linkat'' ''linkat'',
     ent 3 (TD OR TF) ''sys_symlinkat'' ''symlinkat'',
     ent 4 (TD OR TF) ''sys_readlinkat'' ''readlinkat'',
     ent 3 (TD OR TF) ''sys_fchmodat'' ''fchmodat'',
     ent 3 (TD OR TF) ''sys_faccessat'' ''faccessat'',
     ent 6 (TD) ''sys_pselect6'' ''pselect6'',
     ent 5 (TD) ''sys_ppoll'' ''ppoll'',
     ent 1 (TP) ''sys_unshare'' ''unshare'',
     ent 2 (0) ''sys_set_robust_list'' ''set_robust_list'',
     ent 3 (0) ''sys_get_robust_list'' ''get_robust_list'',
     ent 6 (TD) ''sys_splice'' ''splice'',
     ent 6 (TD) ''sys_sync_file_range'' ''sync_file_range'',
     ent 4 (TD) ''sys_tee'' ''tee'',
     ent 4 (TD) ''sys_vmsplice'' ''vmsplice'',
     ent 6 (TM) ''sys_move_pages'' ''move_pages'',
     ent 3 (0) ''sys_getcpu'' ''getcpu'',
     ent 6 (TD) ''sys_epoll_pwait'' ''epoll_pwait'',
     ent 4 (TD OR TF) ''sys_utimensat'' ''utimensat'',
     ent 3 (TD OR TS) ''sys_signalfd'' ''signalfd'',
     ent 2 (TD) ''sys_timerfd_create'' ''timerfd_create'',
     ent 1 (TD) ''sys_eventfd'' ''eventfd'',
     ent 6 (TD) ''sys_fallocate'' ''fallocate'',
     ent 4 (TD) ''sys_timerfd_settime'' ''timerfd_settime'',
     ent 2 (TD) ''sys_timerfd_gettime'' ''timerfd_gettime'',
     ent 4 (TD OR TS) ''sys_signalfd4'' ''signalfd4'',
     ent 2 (TD) ''sys_eventfd2'' ''eventfd2'',
     ent 1 (TD) ''sys_epoll_create1'' ''epoll_create1'',
     ent 3 (TD) ''sys_dup3'' ''dup3'',
     ent 2 (TD) ''sys_pipe2'' ''pipe2'',
     ent 1 (TD) ''sys_inotify_init1'' ''inotify_init1'',
     ent 5 (TD) ''sys_preadv'' ''preadv'',
     ent 5 (TD) ''sys_pwritev'' ''pwritev'',
     ent 4 (TP OR TS) ''sys_rt_tgsigqueueinfo'' ''rt_tgsigqueueinfo'',
     ent 5 (TD) ''sys_perf_event_open'' ''perf_event_open'',
     ent 5 (TN) ''sys_recvmmsg'' ''recvmmsg'',
     ent 2 (TD) ''sys_fanotify_init'' ''fanotify_init'',
     ent 5 (TD OR TF) ''sys_fanotify_mark'' ''fanotify_mark'',
     ent 4 (0) ''sys_prlimit64'' ''prlimit64'',
     ent 5 (TD OR TF) ''sys_name_to_handle_at'' ''name_to_handle_at'',
     ent 3 (TD) ''sys_open_by_handle_at'' ''open_by_handle_at'',
     ent 2 (0) ''sys_clock_adjtime'' ''clock_adjtime'',
     ent 1 (TD) ''sys_syncfs'' ''syncfs'',
     ent 4 (TN) ''sys_sendmmsg'' ''sendmmsg'',
     ent 2 (TD) ''sys_setns'' ''setns'',
     ent 6 (0) ''sys_process_vm_readv'' ''process_vm_readv'',
     ent 6 (0) ''sys_process_vm_writev'' ''process_vm_writev'',
     ent 5 (0) ''sys_kcmp'' ''kcmp'',
     ent 3 (TD) ''sys_finit_module'' ''finit_module'',
     no_ent 5 (0),
     no_ent 5 (0),
     no_ent 5 (0),
     no_ent 5 (0),
     no_ent 5 (0),
     no_ent 5 (0),
     no_ent 5 (0),
     no_ent 5 (0),
     no_ent 5 (0),
     no_ent 5 (0),
     no_ent 5 (0),
     no_ent 5 (0),
     no_ent 5 (0),
     no_ent 5 (0),
     no_ent 5 (0),
     no_ent 5 (0),
     no_ent 5 (0),
     no_ent 5 (0),
     no_ent 5 (0),
     no_ent 5 (0),
     no_ent 5 (0),
     no_ent 5 (0),
     no_ent 5 (0),
     no_ent 5 (0),
     no_ent 5 (0),
     no_ent 5 (0),
     no_ent 5 (0),
     no_ent 5 (0),
     no_ent 5 (0),
     no_ent 5 (0),
     no_ent 5 (0),
     no_ent 5 (0),
     no_ent 5 (0),
     no_ent 5 (0),
     no_ent 5 (0),
     no_ent 5 (0),
     no_ent 5 (0),
     no_ent 5 (0),
     no_ent 5 (0),
     no_ent 5 (0),
     no_ent 5 (0),
     no_ent 5 (0),
     no_ent 5 (0),
     no_ent 5 (0),
     no_ent 5 (0),
     no_ent 5 (0),
     no_ent 5 (0),
     no_ent 5 (0),
     no_ent 5 (0),
     ent 6 (0) ''printargs'' ''socket_subcall'',
     ent 3 (TN) ''sys_socket'' ''socket'',
     ent 3 (TN) ''sys_bind'' ''bind'',
     ent 3 (TN) ''sys_connect'' ''connect'',
     ent 2 (TN) ''sys_listen'' ''listen'',
     ent 3 (TN) ''sys_accept'' ''accept'',
     ent 3 (TN) ''sys_getsockname'' ''getsockname'',
     ent 3 (TN) ''sys_getpeername'' ''getpeername'',
     ent 4 (TN) ''sys_socketpair'' ''socketpair'',
     ent 4 (TN) ''sys_send'' ''send'',
     ent 4 (TN) ''sys_recv'' ''recv'',
     ent 6 (TN) ''sys_sendto'' ''sendto'',
     ent 6 (TN) ''sys_recvfrom'' ''recvfrom'',
     ent 2 (TN) ''sys_shutdown'' ''shutdown'',
     ent 5 (TN) ''sys_setsockopt'' ''setsockopt'',
     ent 5 (TN) ''sys_getsockopt'' ''getsockopt'',
     ent 3 (TN) ''sys_sendmsg'' ''sendmsg'',
     ent 3 (TN) ''sys_recvmsg'' ''recvmsg'',
     ent 4 (TN) ''sys_accept4'' ''accept4'',
     ent 5 (TN) ''sys_recvmmsg'' ''recvmmsg'',
     ent 4 (0) ''printargs'' ''ipc_subcall'',
     ent 4 (TI) ''sys_semop'' ''semop'',
     ent 4 (TI) ''sys_semget'' ''semget'',
     ent 4 (TI) ''sys_semctl'' ''semctl'',
     ent 5 (TI) ''sys_semtimedop'' ''semtimedop'',
     ent 4 (0) ''printargs'' ''ipc_subcall'',
     ent 4 (0) ''printargs'' ''ipc_subcall'',
     ent 4 (0) ''printargs'' ''ipc_subcall'',
     ent 4 (0) ''printargs'' ''ipc_subcall'',
     ent 4 (0) ''printargs'' ''ipc_subcall'',
     ent 4 (0) ''printargs'' ''ipc_subcall'',
     ent 4 (TI) ''sys_msgsnd'' ''msgsnd'',
     ent 4 (TI) ''sys_msgrcv'' ''msgrcv'',
     ent 4 (TI) ''sys_msgget'' ''msgget'',
     ent 4 (TI) ''sys_msgctl'' ''msgctl'',
     ent 4 (0) ''printargs'' ''ipc_subcall'',
     ent 4 (0) ''printargs'' ''ipc_subcall'',
     ent 4 (0) ''printargs'' ''ipc_subcall'',
     ent 4 (0) ''printargs'' ''ipc_subcall'',
     ent 4 (0) ''printargs'' ''ipc_subcall'',
     ent 4 (0) ''printargs'' ''ipc_subcall'',
     ent 4 (TI) ''sys_shmat'' ''shmat'']"

definition sysent1_d :: "sysent list" where
  "sysent1_d =
    [ent 4 (TI) ''sys_shmdt'' ''shmdt'',
     ent 4 (TI) ''sys_shmget'' ''shmget'',
     ent 4 (TI) ''sys_shmctl'' ''shmctl'']"

definition sysent1 :: "sysent list" where
  "sysent1 = sysent1_a @ sysent1_b @ sysent1_c @ sysent1_d"

subsection \<open>x32\<close>

definition sysent2_a :: "sysent list" where
  "sysent2_a =
    [ent 3 (TD) ''sys_read'' ''read'',
     ent 3 (TD) ''sys_write'' ''write'',
     ent 3 (TD OR TF) ''sys_open'' ''open'',
     ent 1 (TD) ''sys_close'' ''close'',
     ent 2 (TF) ''sys_stat'' ''stat'',
     ent 2 (TD) ''sys_fstat'' ''fstat'',
     ent 2 (TF) ''sys_lstat'' ''lstat'',
     ent 3 (TD) ''sys_poll'' ''poll'',
     ent 3 (TD) ''sys_lseek'' ''lseek'',
     ent 6 (TD OR TM) ''sys_mmap'' ''mmap'',
     ent 3 (TM) ''sys_mprotect'' ''mprotect'',
     ent 2 (TM) ''sys_munmap'' ''munmap'',
     ent 1 (TM) ''sys_brk'' ''brk'',
     ent 4 (TS) ''printargs'' ''64:rt_sigaction'',
     ent 4 (TS) ''sys_rt_sigprocmask'' ''rt_sigprocmask'',
     ent 0 (TS) ''printargs'' ''64:rt_sigreturn'',
     ent 3 (TD) ''printargs'' ''64:ioctl'',
     ent 4 (TD) ''sys_pread'' ''pread'',
     ent 4 (TD) ''sys_pwrite'' ''pwrite'',
     ent 3 (TD) ''printargs'' ''64:readv'',
     ent 3 (TD) ''printargs'' ''64:writev'',
     ent 2 (TF) ''sys_access'' ''access'',
     ent 1 (TD) ''sys_pipe'' ''pipe'',
     ent 5 (TD) ''sys_select'' ''select'',
     ent 0 (0) ''sys_sched_yield'' ''sched_yield'',
     ent 5 (TM) ''sys_mremap'' ''mremap'',
     ent 3 (TM) ''sys_msync'' ''msync'',
     ent 3 (TM) ''sys_mincore'' ''mincore'',
     ent 3 (TM) ''sys_madvise'' ''madvise'',
     ent 4 (TI) ''sys_shmget'' ''shmget'',
     ent 4 (TI) ''sys_shmat'' ''shmat'',
     ent 4 (TI) ''sys_shmctl'' ''shmctl'',
     ent 1 (TD) ''sys_dup'' ''dup'',
     ent 2 (TD) ''sys_dup2'' ''dup2'',
     ent 0 (TS) ''sys_pause'' ''pause'',
     ent 2 (0) ''sys_nanosleep'' ''nanosleep'',
     ent 2 (0) ''sys_getitimer'' ''getitimer'',
     ent 1 (0) ''sys_alarm'' ''alarm'',
     ent 3 (0) ''sys_setitimer'' ''setitimer'',
     ent 0 (0) ''sys_getpid'' ''getpid'',
     ent 4 (TD OR TN) ''sys_sendfile64'' ''sendfile'',
     ent 3 (TN) ''sys_socket'' ''socket'',
     ent 3 (TN) ''sys_connect'' ''connect'',
     ent 3 (TN) ''sys_accept'' ''accept'',
     ent 6 (TN) ''sys_sendto'' ''sendto'',
     ent 6 (TN) ''printargs'' ''64:recvfrom'',
     ent 3 (TN) ''printargs'' ''64:sendmsg'',
     ent 5 (TN) ''printargs'' ''64:recvmsg'',
     ent 2 (TN) ''sys_shutdown'' ''shutdown'',
     ent 3 (TN) ''sys_bind'' ''bind'',
     ent 2 (TN) ''sys_listen'' ''listen'',
     ent 3 (TN) ''sys_getsockname'' ''getsockname'',
     ent 3 (TN) ''sys_getpeername'' ''getpeername'',
     ent 4 (TN) ''sys_socketpair'' ''socketpair'',
     ent 5 (TN) ''printargs'' ''64:setsockopt'',
     ent 5 (TN) ''printargs'' ''64:getsockopt'',
     ent 5 (TP) ''sys_clone'' ''clone'',
     ent 0 (TP) ''sys_fork'' ''fork'',
     ent 0 (TP) ''sys_vfork'' ''vfork'',
     ent 3 (TF OR TP) ''printargs'' ''64:execve'',
     ent 1 (TP) ''sys_exit'' ''_exit'',
     ent 4 (TP) ''sys_wait4'' ''wait4'',
     ent 2 (TS) ''sys_kill'' ''kill'',
     ent 1 (0) ''sys_uname'' ''uname'',
     ent 4 (TI) ''sys_semget'' ''semget'',
     ent 4 (TI) ''sys_semop'' ''semop'',
     ent 4 (TI) ''sys_semctl'' ''semctl'',
     ent 4 (TI) ''sys_shmdt'' ''shmdt'',
     ent 4 (TI) ''sys_msgget'' ''msgget'',
     ent 4 (TI) ''sys_msgsnd'' ''msgsnd'',
     ent 5 (TI) ''sys_msgrcv'' ''msgrcv'',
     ent 3 (TI) ''sys_msgctl'' ''msgctl'',
     ent 3 (TD) ''sys_fcntl'' ''fcntl'',
     ent 2 (TD) ''sys_flock'' ''flock'',
     ent 1 (TD) ''sys_fsync'' ''fsync'',
     ent 1 (TD) ''sys_fdatasync'' ''fdatasync'',
     ent 2 (TF) ''sys_truncate64'' ''truncate'',
     ent 2 (TD) ''sys_ftruncate64'' ''ftruncate'',
     ent 3 (TD) ''sys_getdents'' ''getdents'',
     ent 2 (TF) ''sys_getcwd'' ''getcwd'',
     ent 1 (TF) ''sys_chdir'' ''chdir'',
     ent 1 (TD) ''sys_fchdir'' ''fchdir'',
     ent 2 (TF) ''sys_rename'' ''rename'',
     ent 2 (TF) ''sys_mkdir'' ''mkdir'',
     ent 1 (TF) ''sys_rmdir'' ''rmdir'',
     ent 2 (TD OR TF) ''sys_creat'' ''creat'',
     ent 2 (TF) ''sys_link'' ''link'',
     ent 1 (TF) ''sys_unlink'' ''unlink'',
     ent 2 (TF) ''sys_symlink'' ''symlink'',
     ent 3 (TF) ''sys_readlink'' ''readlink'',
     ent 2 (TF) ''sys_chmod'' ''chmod'',
     ent 2 (TD) ''sys_fchmod'' ''fchmod'',
     ent 3 (TF) ''sys_chown'' ''chown'',
     ent 3 (TD) ''sys_fchown'' ''fchown'',
     ent 3 (TF) ''sys_chown'' ''lchown'',
     ent 1 (0) ''sys_umask'' ''umask'',
     ent 2 (0) ''sys_gettimeofday'' ''gettimeofday'',
     ent 2 (0) ''sys_getrlimit'' ''getrlimit'',
     ent 2 (0) ''sys_getrusage'' ''getrusage'',
     ent 1 (0) ''sys_sysinfo'' ''sysinfo'',
     ent 1 (0) ''sys_times'' ''times'',
     ent 4 (0) ''printargs'' ''64:ptrace'',
     ent 0 (NF) ''sys_getuid'' ''getuid'',
     ent 3 (0) ''sys_syslog'' ''syslog'',
     ent 0 (NF) ''sys_getgid'' ''getgid'',
     ent 1 (0) ''sys_setuid'' ''setuid'',
     ent 1 (0) ''sys_setgid'' ''setgid'',
     ent 0 (NF) ''sys_geteuid'' ''geteuid'',
     ent 0 (NF) ''sys_getegid'' ''getegid'',
     ent 2 (0) ''sys_setpgid'' ''setpgid'',
     ent 0 (0) ''sys_getppid'' ''getppid'',
     ent 0 (0) ''sys_getpgrp'' ''getpgrp'',
     ent 0 (0) ''sys_setsid'' ''setsid'',
     ent 2 (0) ''sys_setreuid'' ''setreuid'',
     ent 2 (0) ''sys_setregid'' ''setregid'',
     ent 2 (0) ''sys_getgroups'' ''getgroups'',
     ent 2 (0) ''sys_setgroups'' ''setgroups'',
     ent 3 (0) ''sys_setresuid'' ''setresuid'',
     ent 3 (0) ''sys_getresuid'' ''getresuid'',
     ent 3 (0) ''sys_setresgid'' ''setresgid'',
     ent 3 (0) ''sys_getresgid'' ''getresgid'',
     ent 1 (0) ''sys_getpgid'' ''getpgid'',
     ent 1 (NF) ''sys_setfsuid'' ''setfsuid'',
     ent 1 (NF) ''sys_setfsgid'' ''setfsgid'',
     ent 1 (0) ''sys_getsid'' ''getsid'',
     ent 2 (0) ''sys_capget'' ''capget'',
     ent 2 (0) ''sys_capset'' ''capset'',
     ent 2 (TS) ''printargs'' ''64:rt_sigpending'',
     ent 4 (TS) ''printargs'' ''64:rt_sigtimedwait'',
     ent 3 (TS) ''printargs'' ''64:rt_sigqueueinfo'',
     ent 2 (TS) ''sys_rt_sigsuspend'' ''rt_sigsuspend'',
     ent 2 (TS) ''printargs'' ''64:sigaltstack'',
     ent 2 (TF) ''sys_utime'' ''utime'',
     ent 3 (TF) ''sys_mknod'' ''mknod'',
     ent 1 (TF) ''printargs'' ''64:uselib'',
     ent 1 (0) ''sys_personality'' ''personality'',
     ent 2 (0) ''sys_ustat'' ''ustat'',
     ent 2 (TF) ''sys_statfs'' ''statfs'',
     ent 2 (TD) ''sys_fstatfs'' ''fstatfs'',
     ent 3 (0) ''sys_sysfs'' ''sysfs'',
     ent 2 (0) ''sys_getpriority'' ''getpriority'',
     ent 3 (0) ''sys_setpriority'' ''setpriority'',
     ent 0 (0) ''sys_sched_setparam'' ''sched_setparam'',
     ent 2 (0) ''sys_sched_getparam'' ''sched_getparam'',
     ent 3 (0) ''sys_sched_setscheduler'' ''sched_setscheduler'',
     ent 1 (0) ''sys_sched_getscheduler'' ''sched_getscheduler'',
     ent 1 (0) ''sys_sched_get_priority_max'' ''sched_get_priority_max'',
     ent 1 (0) ''sys_sched_get_priority_min'' ''sched_get_priority_min'',
     ent 2 (0) ''sys_sched_rr_get_interval'' ''sched_rr_get_interval'',
     ent 2 (TM) ''sys_mlock'' ''mlock'']"

definition sysent2_b :: "sysent list" where
  "sysent2_b =
    [ent 2 (TM) ''sys_munlock'' ''munlock'',
     ent 1 (TM) ''sys_mlockall'' ''mlockall'',
     ent 0 (TM) ''sys_munlockall'' ''munlockall'',
     ent 0 (0) ''sys_vhangup'' ''vhangup'',
     ent 3 (0) ''sys_modify_ldt'' ''modify_ldt'',
     ent 2 (TF) ''sys_pivotroot'' ''pivot_root'',
     ent 1 (0) ''printargs'' ''64:_sysctl'',
     ent 5 (0) ''sys_prctl'' ''prctl'',
     ent 2 (TP) ''sys_arch_prctl'' ''arch_prctl'',
     ent 1 (0) ''sys_adjtimex'' ''adjtimex'',
     ent 2 (0) ''sys_setrlimit'' ''setrlimit'',
     ent 1 (TF) ''sys_chroot'' ''chroot'',
     ent 0 (0) ''sys_sync'' ''sync'',
     ent 1 (TF) ''sys_acct'' ''acct'',
     ent 2 (0) ''sys_settimeofday'' ''settimeofday'',
     ent 5 (TF) ''sys_mount'' ''mount'',
     ent 2 (TF) ''sys_umount2'' ''umount'',
     ent 2 (TF) ''sys_swapon'' ''swapon'',
     ent 1 (TF) ''sys_swapoff'' ''swapoff'',
     ent 4 (0) ''sys_reboot'' ''reboot'',
     ent 2 (0) ''sys_sethostname'' ''sethostname'',
     ent 2 (0) ''sys_setdomainname'' ''setdomainname'',
     ent 1 (0) ''sys_iopl'' ''iopl'',
     ent 3 (0) ''sys_ioperm'' ''ioperm'',
     ent 2 (0) ''printargs'' ''64:create_module'',
     ent 3 (0) ''sys_init_module'' ''init_module'',
     ent 2 (0) ''sys_delete_module'' ''delete_module'',
     ent 1 (0) ''printargs'' ''64:get_kernel_syms'',
     ent 5 (0) ''printargs'' ''64:query_module'',
     ent 4 (TF) ''sys_quotactl'' ''quotactl'',
     ent 3 (0) ''printargs'' ''64:nfsservctl'',
     ent 5 (0) ''sys_getpmsg'' ''getpmsg'',
     ent 5 (0) ''sys_putpmsg'' ''putpmsg'',
     ent 5 (0) ''sys_afs_syscall'' ''afs_syscall'',
     ent 3 (0) ''sys_tuxcall'' ''tuxcall'',
     ent 3 (0) ''sys_security'' ''security'',
     ent 0 (0) ''sys_gettid'' ''gettid'',
     ent 3 (TD) ''sys_readahead'' ''readahead'',
     ent 5 (TF) ''sys_setxattr'' ''setxattr'',
     ent 5 (TF) ''sys_setxattr'' ''lsetxattr'',
     ent 5 (TD) ''sys_fsetxattr'' ''fsetxattr'',
     ent 4 (TF) ''sys_getxattr'' ''getxattr'',
     ent 4 (TF) ''sys_getxattr'' ''lgetxattr'',
     ent 4 (TD) ''sys_fgetxattr'' ''fgetxattr'',
     ent 3 (TF) ''sys_listxattr'' ''listxattr'',
     ent 3 (TF) ''sys_listxattr'' ''llistxattr'',
     ent 3 (TD) ''sys_flistxattr'' ''flistxattr'',
     ent 2 (TF) ''sys_removexattr'' ''removexattr'',
     ent 2 (TF) ''sys_removexattr'' ''lremovexattr'',
     ent 2 (TD) ''sys_fremovexattr'' ''fremovexattr'',
     ent 2 (TS) ''sys_kill'' ''tkill'',
     ent 1 (0) ''sys_time'' ''time'',
     ent 6 (0) ''sys_futex'' ''futex'',
     ent 3 (0) ''sys_sched_setaffinity'' ''sched_setaffinity'',
     ent 3 (0) ''sys_sched_getaffinity'' ''sched_getaffinity'',
     ent 1 (0) ''printargs'' ''64:set_thread_area'',
     ent 2 (0) ''sys_io_setup'' ''io_setup'',
     ent 1 (0) ''sys_io_destroy'' ''io_destroy'',
     ent 5 (0) ''sys_io_getevents'' ''io_getevents'',
     ent 3 (0) ''sys_io_submit'' ''io_submit'',
     ent 3 (0) ''sys_io_cancel'' ''io_cancel'',
     ent 1 (0) ''printargs'' ''64:get_thread_area'',
     ent 4 (0) ''sys_lookup_dcookie'' ''lookup_dcookie'',
     ent 1 (TD) ''sys_epoll_create'' ''epoll_create'',
     ent 4 (0) ''printargs'' ''64:epoll_ctl_old'',
     ent 4 (0) ''printargs'' ''64:epoll_wait_old'',
     ent 5 (TM) ''sys_remap_file_pages'' ''remap_file_pages'',
     ent 3 (TD) ''sys_getdents64'' ''getdents64'',
     ent 1 (0) ''sys_set_tid_address'' ''set_tid_address'',
     ent 0 (0) ''sys_restart_syscall'' ''restart_syscall'',
     ent 5 (TI) ''sys_semtimedop'' ''semtimedop'',
     ent 4 (TD) ''sys_fadvise64_64'' ''fadvise64'',
     ent 3 (0) ''printargs'' ''64:timer_create'',
     ent 4 (0) ''sys_timer_settime'' ''timer_settime'',
     ent 2 (0) ''sys_timer_gettime'' ''timer_gettime'',
     ent 1 (0) ''sys_timer_getoverrun'' ''timer_getoverrun'',
     ent 1 (0) ''sys_timer_delete'' ''timer_delete'',
     ent 2 (0) ''sys_clock_settime'' ''clock_settime'',
     ent 2 (0) ''sys_clock_gettime'' ''clock_gettime'',
     ent 2 (0) ''sys_clock_getres'' ''clock_getres'',
     ent 4 (0) ''sys_clock_nanosleep'' ''clock_nanosleep'',
     ent 1 (TP) ''sys_exit'' ''exit_group'',
     ent 4 (TD) ''sys_epoll_wait'' ''epoll_wait'',
     ent 4 (TD) ''sys_epoll_ctl'' ''epoll_ctl'',
     ent 3 (TS) ''sys_tgkill'' ''tgkill'',
     ent 2 (TF) ''sys_utimes'' ''utimes'',
     ent 5 (0) ''printargs'' ''64:vserver'',
     ent 6 (TM) ''sys_mbind'' ''mbind'',
     ent 3 (TM) ''sys_set_mempolicy'' ''set_mempolicy'',
     ent 5 (TM) ''sys_get_mempolicy'' ''get_mempolicy'',
     ent 4 (0) ''sys_mq_open'' ''mq_open'',
     ent 1 (0) ''sys_mq_unlink'' ''mq_unlink'',
     ent 5 (0) ''sys_mq_timedsend'' ''mq_timedsend'',
     ent 5 (0) ''sys_mq_timedreceive'' ''mq_timedreceive'',
     ent 2 (0) ''printargs'' ''64:mq_notify'',
     ent 3 (0) ''sys_mq_getsetattr'' ''mq_getsetattr'',
     ent 4 (0) ''printargs'' ''64:kexec_load'',
     ent 5 (TP) ''printargs'' ''64:waitid'',
     ent 5 (0) ''sys_add_key'' ''add_key'',
     ent 4 (0) ''sys_request_key'' ''request_key'',
     ent 5 (0) ''sys_keyctl'' ''keyctl'',
     ent 3 (0) ''sys_ioprio_set'' ''ioprio_set'',
     ent 2 (0) ''sys_ioprio_get'' ''ioprio_get'',
     ent 0 (TD) ''sys_inotify_init'' ''inotify_init'',
     ent 3 (TD) ''sys_inotify_add_watch'' ''inotify_add_watch'',
     ent 2 (TD) ''sys_inotify_rm_watch'' ''inotify_rm_watch'',
     ent 4 (TM) ''sys_migrate_pages'' ''migrate_pages'',
     ent 4 (TD OR TF) ''sys_openat'' ''openat'',
     ent 3 (TD OR TF) ''sys_mkdirat'' ''mkdirat'',
     ent 4 (TD OR TF) ''sys_mknodat'' ''mknodat'',
     ent 5 (TD OR TF) ''sys_fchownat'' ''fchownat'',
     ent 3 (TD OR TF) ''sys_futimesat'' ''futimesat'',
     ent 4 (TD OR TF) ''sys_newfstatat'' ''newfstatat'',
     ent 3 (TD OR TF) ''sys_unlinkat'' ''unlinkat'',
     ent 4 (TD OR TF) ''sys_renameat'' ''renameat'',
     ent 5 (TD OR TF) ''sys_linkat'' ''linkat'',
     ent 3 (TD OR TF) ''sys_symlinkat'' ''symlinkat'',
     ent 4 (TD OR TF) ''sys_readlinkat'' ''readlinkat'',
     ent 3 (TD OR TF) ''sys_fchmodat'' ''fchmodat'',
     ent 3 (TD OR TF) ''sys_faccessat'' ''faccessat'',
     ent 6 (TD) ''sys_pselect6'' ''pselect6'',
     ent 5 (TD) ''sys_ppoll'' ''ppoll'',
     ent 1 (TP) ''sys_unshare'' ''unshare'',
     ent 2 (0) ''printargs'' ''64:set_robust_list'',
     ent 3 (0) ''printargs'' ''64:get_robust_list'',
     ent 6 (TD) ''sys_splice'' ''splice'',
     ent 4 (TD) ''sys_tee'' ''tee'',
     ent 4 (TD) ''sys_sync_file_range'' ''sync_file_range'',
     ent 4 (TD) ''printargs'' ''64:vmsplice'',
     ent 6 (TM) ''printargs'' ''64:move_pages'',
     ent 4 (TD OR TF) ''sys_utimensat'' ''utimensat'',
     ent 6 (TD) ''sys_epoll_pwait'' ''epoll_pwait'',
     ent 3 (TD OR TS) ''sys_signalfd'' ''signalfd'',
     ent 2 (TD) ''sys_timerfd_create'' ''timerfd_create'',
     ent 1 (TD) ''sys_eventfd'' ''eventfd'',
     ent 4 (TD) ''sys_fallocate'' ''fallocate'',
     ent 4 (TD) ''sys_timerfd_settime'' ''timerfd_settime'',
     ent 2 (TD) ''sys_timerfd_gettime'' ''timerfd_gettime'',
     ent 4 (TN) ''sys_accept4'' ''accept4'',
     ent 4 (TD OR TS) ''sys_signalfd4'' ''signalfd4'',
     ent 2 (TD) ''sys_eventfd2'' ''eventfd2'',
     ent 1 (TD) ''sys_epoll_create1'' ''epoll_create1'',
     ent 3 (TD) ''sys_dup3'' ''dup3'',
     ent 2 (TD) ''sys_pipe2'' ''pipe2'',
     ent 1 (TD) ''sys_inotify_init1'' ''inotify_init1'',
     ent 4 (TD) ''printargs'' ''64:preadv'',
     ent 4 (TD) ''printargs'' ''64:pwritev'',
     ent 4 (TP OR TS) ''printargs'' ''64:rt_tgsigqueueinfo'',
     ent 5 (TD) ''sys_perf_event_open'' ''perf_event_open'',
     ent 5 (TN) ''printargs'' ''64:recvmmsg'']"

definition sysent2_c :: "sysent list" where
  "sysent2_c =
    [ent 2 (TD) ''sys_fanotify_init'' ''fanotify_init'',
     ent 5 (TD OR TF) ''sys_fanotify_mark'' ''fanotify_mark'',
     ent 4 (0) ''sys_prlimit64'' ''prlimit64'',
     ent 5 (TD OR TF) ''sys_name_to_handle_at'' ''name_to_handle_at'',
     ent 3 (TD) ''sys_open_by_handle_at'' ''open_by_handle_at'',
     ent 2 (0) ''sys_clock_adjtime'' ''clock_adjtime'',
     ent 1 (TD) ''sys_syncfs'' ''syncfs'',
     ent 4 (TN) ''printargs'' ''64:sendmmsg'',
     ent 2 (TD) ''sys_setns'' ''setns'',
     ent 3 (0) ''sys_getcpu'' ''getcpu'',
     ent 6 (0) ''printargs'' ''64:process_vm_readv'',
     ent 6 (0) ''printargs'' ''64:process_vm_writev'',
     ent 5 (0) ''sys_kcmp'' ''kcmp'',
     ent 3 (TD) ''sys_finit_module'' ''finit_module'']"

definition sysent2_d :: "sysent list" where
  "sysent2_d = replicate 198 (no_ent 0 0)"

definition sysent2_e :: "sysent list" where
  "sysent2_e =
    [ent 4 (TS) ''sys_rt_sigaction'' ''rt_sigaction'',
     ent 0 (TS) ''sys_rt_sigreturn'' ''rt_sigreturn'',
     ent 3 (TD) ''sys_ioctl'' ''ioctl'',
     ent 3 (TD) ''sys_readv'' ''readv'',
     ent 3 (TD) ''sys_writev'' ''writev'',
     ent 6 (TN) ''sys_recvfrom'' ''recvfrom'',
     ent 3 (TN) ''sys_sendmsg'' ''sendmsg'',
     ent 3 (TN) ''sys_recvmsg'' ''recvmsg'',
     ent 3 (TF OR TP) ''sys_execve'' ''execve'',
     ent 4 (0) ''sys_ptrace'' ''ptrace'',
     ent 2 (TS) ''sys_rt_sigpending'' ''rt_sigpending'',
     ent 4 (TS) ''sys_rt_sigtimedwait'' ''rt_sigtimedwait'',
     ent 3 (TS) ''sys_rt_sigqueueinfo'' ''rt_sigqueueinfo'',
     ent 2 (TS) ''sys_sigaltstack'' ''sigaltstack'',
     ent 3 (0) ''sys_timer_create'' ''timer_create'',
     ent 2 (0) ''sys_mq_notify'' ''mq_notify'',
     ent 4 (0) ''sys_kexec_load'' ''kexec_load'',
     ent 5 (TP) ''sys_waitid'' ''waitid'',
     ent 2 (0) ''sys_set_robust_list'' ''set_robust_list'',
     ent 3 (0) ''sys_get_robust_list'' ''get_robust_list'',
     ent 4 (TD) ''sys_vmsplice'' ''vmsplice'',
     ent 6 (TM) ''sys_move_pages'' ''move_pages'',
     ent 4 (TD) ''sys_preadv'' ''preadv'',
     ent 4 (TD) ''sys_pwritev'' ''pwritev'',
     ent 4 (TP OR TS) ''sys_rt_tgsigqueueinfo'' ''rt_tgsigqueueinfo'',
     ent 5 (TN) ''sys_recvmmsg'' ''recvmmsg'',
     ent 4 (TN) ''sys_sendmmsg'' ''sendmmsg'',
     ent 6 (0) ''sys_process_vm_readv'' ''process_vm_readv'',
     ent 6 (0) ''sys_process_vm_writev'' ''process_vm_writev'',
     ent 5 (TN) ''sys_setsockopt'' ''setsockopt'',
     ent 5 (TN) ''sys_getsockopt'' ''getsockopt'']"

definition sysent2 :: "sysent list" where
  "sysent2 = sysent2_a @ sysent2_b @ sysent2_c @ sysent2_d @ sysent2_e"

subsection \<open>Signals\<close>

definition signalent0 :: "string list" where
  "signalent0 =
    [''SIG_0'',
     ''SIGHUP'',
     ''SIGINT'',
     ''SIGQUIT'',
     ''SIGILL'',
     ''SIGTRAP'',
     ''SIGABRT'',
     ''SIGBUS'',
     ''SIGFPE'',
     ''SIGKILL'',
     ''SIGUSR1'',
     ''SIGSEGV'',
     ''SIGUSR2'',
     ''SIGPIPE'',
     ''SIGALRM'',
     ''SIGTERM'',
     ''SIGSTKFLT'',
     ''SIGCHLD'',
     ''SIGCONT'',
     ''SIGSTOP'',
     ''SIGTSTP'',
     ''SIGTTIN'',
     ''SIGTTOU'',
     ''SIGURG'',
     ''SIGXCPU'',
     ''SIGXFSZ'',
     ''SIGVTALRM'',
     ''SIGPROF'',
     ''SIGWINCH'',
     ''SIGIO'',
     ''SIGPWR'',
     ''SIGSYS'',
     ''SIGRTMIN'']"

lemmas sysent0_defs = sysent0_def sysent0_a_def sysent0_b_def sysent0_c_def
lemmas sysent1_defs = sysent1_def sysent1_a_def sysent1_b_def sysent1_c_def sysent1_d_def
lemmas sysent2_defs = sysent2_def sysent2_a_def sysent2_b_def sysent2_c_def sysent2_d_def sysent2_e_def

lemma length_sysents: "length sysent0 = 314" "length sysent1 = 445" "length sysent2 = 543"
  by (simp_all add: sysent0_defs sysent1_defs sysent2_defs)

lemma list_all_replicate: "list_all P (replicate n x) \<longleftrightarrow> n = 0 \<or> P x"
  by (induction n) auto

lemma sysent_nargs:
  "list_all (\<lambda>e. nargs e \<le> 6) sysent0" "list_all (\<lambda>e. nargs e \<le> 6) sysent1" "list_all (\<lambda>e. nargs e \<le> 6) sysent2"
  by (simp_all add: sysent0_defs sysent1_defs sysent2_defs ent_def no_ent_def list_all_replicate)

end
