(* ===== verification/Qualify_Correct.thy ===== *)
theory Qualify_Correct
  imports Syscallent
begin

text \<open>
  What \<open>qualify\<close> does: every token denotes a set of pairs of a personality and a number, and the
  expression sets the flag of its option on exactly the denoted entries, or on all the others if it
  is negated. The three ways to read a token are instances of one contract.
\<close>

subsection \<open>Shape of the arrays\<close>

definition quals_ok :: "quals \<Rightarrow> bool" where
  "quals_ok q \<longleftrightarrow> length (qual_vec q) = SUPPORTED_PERSONALITIES
     \<and> (\<forall>v \<in> set (qual_vec q). length v = num_quals q) \<and> length (sigbuf q) = 21"

definition qual_bit :: "quals \<Rightarrow> nat \<Rightarrow> nat \<Rightarrow> nat \<Rightarrow> bool" where
  "qual_bit q p n j \<longleftrightarrow> n < num_quals q \<and> bit (qual_vec q ! p ! n) j"

definition marks :: "(nat \<times> nat) set \<Rightarrow> c_int \<Rightarrow> bool \<Rightarrow> quals \<Rightarrow> quals \<Rightarrow> bool" where
  "marks S flag neg q q' \<longleftrightarrow> quals_ok q' \<and> num_quals q \<le> num_quals q'
     \<and> (\<forall>p < SUPPORTED_PERSONALITIES. \<forall>n. \<forall>j < 8.
          qual_bit q' p n j \<longleftrightarrow> (if bit flag j \<and> (p, n) \<in> S then \<not> neg else qual_bit q p n j))"

lemma quals_init_ok: "quals_ok quals_init"
  by (simp add: quals_ok_def quals_init_def)

lemma quals_ok_vec: "quals_ok q \<Longrightarrow> p < SUPPORTED_PERSONALITIES \<Longrightarrow> length (qual_vec q ! p) = num_quals q"
  by (simp add: quals_ok_def)

lemma bit_set_qual: "j < 8 \<Longrightarrow> bit (set_qual flag neg b) j \<longleftrightarrow> (if bit flag j then \<not> neg else bit b j)"
  by (auto simp: set_qual_def bit_simps)

lemma marks_empty: "quals_ok q \<Longrightarrow> marks {} flag neg q q"
  by (simp add: marks_def)

lemma marks_trans: "marks S flag neg q q' \<Longrightarrow> marks T flag neg q' q'' \<Longrightarrow> marks (S \<union> T) flag neg q q''"
  by (auto simp: marks_def)

lemma marks_cong: "marks S flag neg q q' \<Longrightarrow> (\<And>p n. p < SUPPORTED_PERSONALITIES \<Longrightarrow> (p, n) \<in> S \<longleftrightarrow> (p, n) \<in> T) \<Longrightarrow> marks T flag neg q q'"
  by (simp add: marks_def)

lemma reallocate_marks:
  assumes "quals_ok q" "num_quals q \<le> n" "reallocate_qual tb n q = Inr q'"
  shows "marks {} flag neg q q' \<and> num_quals q' = n \<and> sigbuf q' = sigbuf q"
proof -
  have q': "q' = q\<lparr>qual_vec := map (\<lambda>v. take n v @ replicate (n - num_quals q) 0) (qual_vec q), num_quals := n\<rparr>"
    using assms(3) by (simp add: reallocate_qual_def split: if_splits)
  have len: "v \<in> set (qual_vec q) \<Longrightarrow> length v = num_quals q" for v using assms(1) by (simp add: quals_ok_def)
  have ok: "quals_ok q'" using assms(1,2) len by (simp add: q' quals_ok_def)
  have "qual_bit q' p m j = qual_bit q p m j" if p: "p < SUPPORTED_PERSONALITIES" and "j < 8" for p m j
  proof -
    have l: "length (qual_vec q) = 3" using assms(1) by (simp add: quals_ok_def)
    have "length (qual_vec q ! p) = num_quals q" using assms(1) p by (rule quals_ok_vec)
    then show ?thesis using p l assms(2) by (auto simp: qual_bit_def q' nth_append)
  qed
  then show ?thesis using ok assms(2) by (simp add: marks_def) (simp add: q')
qed

definition pers_set :: "int \<Rightarrow> nat list \<Rightarrow> (nat \<times> nat) set" where
  "pers_set pers ns = {(p, n). (pers = int p \<or> pers < 0) \<and> n \<in> set ns}"

lemma store_marks:
  assumes "quals_ok q" "n < num_quals q"
  shows "marks (pers_set pers [n]) flag neg q
    (q\<lparr>qual_vec := map (\<lambda>p. if pers = int p \<or> pers < 0
                 then (qual_vec q ! p)[n := set_qual flag neg (qual_vec q ! p ! n)]
                 else qual_vec q ! p) [0..<SUPPORTED_PERSONALITIES]\<rparr>)"
  using assms quals_ok_vec [OF assms(1)]
  by (auto simp: marks_def quals_ok_def qual_bit_def pers_set_def bit_set_qual nth_list_update simp del: upt_rec_numeral)

lemma qualify_one_cases:
  assumes "quals_ok q"
  shows "(\<exists>q'. qualify_one tb n flag neg pers q = Inr q' \<and> marks (pers_set pers [n]) flag neg q q' \<and> sigbuf q' = sigbuf q)
    \<or> qualify_one tb n flag neg pers q = Inl DieOutOfMemory \<and> \<not> realloc_ok tb (n + 1)"
proof (cases "num_quals q \<le> n")
  case False
  then show ?thesis using store_marks [OF assms, of n pers flag neg] by (simp add: qualify_one_def del: upt_rec_numeral)
next
  case True
  show ?thesis
  proof (cases "reallocate_qual tb (n + 1) q")
    case (Inl e)
    then show ?thesis using True by (simp add: qualify_one_def reallocate_qual_def split: if_splits)
  next
    case (Inr q1)
    have r: "marks {} flag neg q q1 \<and> num_quals q1 = n + 1 \<and> sigbuf q1 = sigbuf q"
      using assms True Inr by (intro reallocate_marks) auto
    then have "quals_ok q1" "n < num_quals q1" by (simp_all add: marks_def)
    from marks_trans [OF conjunct1 [OF r] store_marks [OF this]] r
    show ?thesis using True Inr by (simp add: qualify_one_def del: upt_rec_numeral)
  qed
qed

text \<open>
  What a step of \<open>qualify\<close> may do: mark a set of entries if there is no bad token, complain about a
  bad token, or stop because memory is exhausted.
\<close>

definition verdict :: "tables \<Rightarrow> string \<Rightarrow> string set \<Rightarrow> (nat \<times> nat) set \<Rightarrow> c_int \<Rightarrow> bool \<Rightarrow> quals \<Rightarrow> die + quals \<Rightarrow> bool" where
  "verdict tb what bad S flag neg q r =
    (case r of
       Inr q' \<Rightarrow> bad = {} \<and> marks S flag neg q q'
     | Inl DieOutOfMemory \<Rightarrow> \<exists>n. \<not> realloc_ok tb n
     | Inl (Invalid w t) \<Rightarrow> w = what \<and> t \<in> bad
     | Inl DieOverrun \<Rightarrow> False)"

lemma verdict_simps [simp]:
  "verdict tb what bad S flag neg q (Inr q') \<longleftrightarrow> bad = {} \<and> marks S flag neg q q'"
  "verdict tb what bad S flag neg q (Inl DieOutOfMemory) \<longleftrightarrow> (\<exists>n. \<not> realloc_ok tb n)"
  "verdict tb what bad S flag neg q (Inl (Invalid w t)) \<longleftrightarrow> w = what \<and> t \<in> bad"
  "\<not> verdict tb what bad S flag neg q (Inl DieOverrun)"
  by (simp_all add: verdict_def)

lemma verdict_error: "verdict tb what bad S flag neg q (Inl e) \<Longrightarrow> verdict tb what (bad \<union> bad') S' flag' neg' q'' (Inl e)"
  by (cases e) auto

lemma verdict_bind:
  assumes "verdict tb what bad S flag neg q r" "\<And>q'. quals_ok q' \<Longrightarrow> verdict tb what bad' T flag neg q' (f q')"
  shows "verdict tb what (bad \<union> bad') (S \<union> T) flag neg q (sbind r f)"
proof (cases r)
  case (Inl e)
  then show ?thesis using assms(1) verdict_error by simp
next
  case (Inr q')
  then have m: "bad = {}" "marks S flag neg q q'" using assms(1) by simp_all
  then have v: "verdict tb what bad' T flag neg q' (f q')" by (intro assms(2)) (simp add: marks_def)
  show ?thesis
  proof (cases "f q'")
    case e: (Inl e)
    then show ?thesis using v Inr verdict_error [of tb what bad' T flag neg q' e bad] by (simp add: Un_commute)
  next
    case (Inr q'')
    then show ?thesis using v m \<open>r = Inr q'\<close> marks_trans by simp
  qed
qed

lemma verdict_cong:
  "verdict tb what bad S flag neg q r \<Longrightarrow> (\<And>p n. p < SUPPORTED_PERSONALITIES \<Longrightarrow> (p, n) \<in> S \<longleftrightarrow> (p, n) \<in> T)
    \<Longrightarrow> verdict tb what bad T flag neg q r"
  by (auto simp: verdict_def marks_cong split: sum.splits die.splits)

lemma qualify_one_verdict: "quals_ok q \<Longrightarrow> verdict tb what {} (pers_set pers [n]) flag neg q (qualify_one tb n flag neg pers q)"
  using qualify_one_cases [of q tb n flag neg pers] by auto

lemma qualify_each_verdict:
  "quals_ok q \<Longrightarrow> verdict tb what {} (pers_set pers ns) flag neg q (qualify_each tb ns flag neg pers q)"
proof (induction ns arbitrary: q)
  case Nil
  then show ?case by (simp add: pers_set_def marks_empty)
next
  case (Cons n ns)
  have "pers_set pers (n # ns) = pers_set pers [n] \<union> pers_set pers ns" by (auto simp: pers_set_def)
  then show ?case using verdict_bind [OF qualify_one_verdict [OF Cons.prems] Cons.IH] by simp
qed

lemma each_personality_verdict:
  "quals_ok q \<Longrightarrow> verdict tb what {} {(p, n). p \<in> set ps \<and> n \<in> set (pick (sysent_vec tb ! p))} flag neg q
     (each_personality tb pick ps flag neg q)"
proof (induction ps arbitrary: q)
  case Nil
  then show ?case by (simp add: marks_empty)
next
  case (Cons p ps)
  have "{(p', n). p' \<in> set (p # ps) \<and> n \<in> set (pick (sysent_vec tb ! p'))}
      = pers_set (int p) (pick (sysent_vec tb ! p)) \<union> {(p, n). p \<in> set ps \<and> n \<in> set (pick (sysent_vec tb ! p))}"
    by (auto simp: pers_set_def)
  then show ?case
    using verdict_bind [OF qualify_each_verdict [OF Cons.prems] Cons.IH] by simp
qed

subsection \<open>Selections\<close>

text \<open>The numbers a token denotes, as pairs of personality and number.\<close>

definition numbered :: "string \<Rightarrow> int \<Rightarrow> (nat \<times> nat) set" where
  "numbered s lim = {(p, n). int n = string_to_uint s \<and> int n < lim}"

definition sel_syscall :: "tables \<Rightarrow> string \<Rightarrow> (nat \<times> nat) set" where
  "sel_syscall tb s =
    (if starts_with_digit s then numbered s (int (max_nsyscalls tb))
     else {(p, n). p < SUPPORTED_PERSONALITIES \<and> n < length (sysent_vec tb ! p) \<and> sys_name (sysent_vec tb ! p ! n) = Some s})"

definition sel_desc :: "string \<Rightarrow> (nat \<times> nat) set" where
  "sel_desc s = (if starts_with_digit s then numbered s 0x8000 else {})"

definition signal_name :: "tables \<Rightarrow> nat \<Rightarrow> string" where
  "signal_name tb i = (if i < length (signalent tb) then signalent tb ! i else ''SIGRT_'' @ fmt_u (i - 32))"

definition signal_number :: "tables \<Rightarrow> string \<Rightarrow> nat option" where
  "signal_number tb s = find (\<lambda>i. strcaseeq s (drop 3 (signal_name tb i))) [0..<NSIG]"

definition sel_signal :: "tables \<Rightarrow> string \<Rightarrow> (nat \<times> nat) set" where
  "sel_signal tb s = (if starts_with_digit s then numbered s 256 else {(p, n). signal_number tb (skip_sig s) = Some n})"

definition sel_class :: "tables \<Rightarrow> c_int \<Rightarrow> (nat \<times> nat) set" where
  "sel_class tb c = {(p, n). p < SUPPORTED_PERSONALITIES \<and> n < length (sysent_vec tb ! p)
     \<and> sys_flags (sysent_vec tb ! p ! n) AND c \<noteq> 0}"

definition tables_ok :: "tables \<Rightarrow> bool" where
  "tables_ok tb \<longleftrightarrow> 32 \<le> length (signalent tb) \<and> length (signalent tb) < NSIG
     \<and> (\<forall>s \<in> set (signalent tb). 3 \<le> length s)
     \<and> int (max_nsyscalls tb) < 2 ^ 31"

locale qualifier =
  fixes act :: "tables \<Rightarrow> string \<Rightarrow> c_int \<Rightarrow> bool \<Rightarrow> quals \<Rightarrow> die + bool \<times> quals"
    and sel :: "tables \<Rightarrow> string \<Rightarrow> (nat \<times> nat) set"
  assumes act_verdict: "tables_ok tb \<Longrightarrow> quals_ok q \<Longrightarrow>
      verdict tb what {} (sel tb s) flag neg q (map_sum id snd (act tb s flag neg q))"
    and act_accepts: "tables_ok tb \<Longrightarrow> quals_ok q \<Longrightarrow> act tb s flag neg q = Inr (b, q') \<Longrightarrow> b \<longleftrightarrow> sel tb s \<noteq> {}"
begin

text \<open>One token of the list: an accepted one marks its selection, any other one ends the program.\<close>

lemma token_verdict:
  assumes "tables_ok tb" "quals_ok q"
  shows "verdict tb what (if sel tb s = {} then {s} else {}) (sel tb s) flag neg q
            (sbind (act tb s flag neg q) (\<lambda>(ok, q). if ok then Inr q else Inl (Invalid what s)))"
proof (cases "act tb s flag neg q")
  case (Inl e)
  then have "verdict tb what {} (sel tb s) flag neg q (Inl e)"
    using act_verdict [OF assms, of what s flag neg] by simp
  then show ?thesis using verdict_error [of tb what "{}"] Inl by simp
next
  case (Inr r)
  obtain b q' where r: "r = (b, q')" by (cases r)
  have "b \<longleftrightarrow> sel tb s \<noteq> {}" using assms Inr unfolding r by (rule act_accepts)
  then show ?thesis using act_verdict [OF assms, of what s flag neg] Inr r by simp
qed

end

lemma string_to_uint_range: "string_to_uint s = -1 \<or> 0 \<le> string_to_uint s \<and> string_to_uint s < 2 ^ 31"
proof -
  have "v \<noteq> -1 \<Longrightarrow> 0 \<le> v \<Longrightarrow> sint (word_of_int v :: c_int) = v \<Longrightarrow> v < 2 ^ 31" for v :: int
    using sint_c_int_eq_iff by blast
  then show ?thesis
    by (auto simp: string_to_uint_def not_less split: prod.splits if_splits)
qed

lemma pairs_nonempty: "{(p, n). p \<in> A \<and> n \<in> set (f p)} \<noteq> {} \<longleftrightarrow> (\<exists>p \<in> A. f p \<noteq> [])"
  unfolding set_empty [symmetric] by auto

lemma number_verdict:
  assumes "quals_ok q" "\<not> neg_range \<longleftrightarrow> 0 \<le> string_to_uint s \<and> string_to_uint s < lim"
  shows "verdict tb what {} (numbered s lim) flag neg q
     (map_sum id snd (if neg_range then Inr (False, q)
        else sbind (qualify_one tb (nat (string_to_uint s)) flag neg (-1) q) (\<lambda>q. Inr (True, q))))"
proof (cases neg_range)
  case True
  then have "numbered s lim = {}" using assms(2) by (auto simp: numbered_def)
  then show ?thesis using True marks_empty [OF assms(1)] by simp
next
  case False
  then have "numbered s lim = pers_set (-1) [nat (string_to_uint s)]"
    using assms(2) by (auto simp: numbered_def pers_set_def)
  then show ?thesis
    using False qualify_one_verdict [OF assms(1), of tb what "-1" "nat (string_to_uint s)" flag neg]
    by (cases "qualify_one tb (nat (string_to_uint s)) flag neg (- 1) q") auto
qed

lemma number_accepts:
  assumes "\<not> neg_range \<longleftrightarrow> 0 \<le> string_to_uint s \<and> string_to_uint s < lim"
    "(if neg_range then Inr (False, q)
        else sbind (qualify_one tb (nat (string_to_uint s)) flag neg (-1) q) (\<lambda>q. Inr (True, q))) = Inr (b, q')"
  shows "b \<longleftrightarrow> numbered s lim \<noteq> {}"
proof -
  have "b \<longleftrightarrow> \<not> neg_range" using assms(2) by (auto simp: sbind_eq_Inr split: if_splits)
  moreover have "numbered s lim \<noteq> {} \<longleftrightarrow> 0 \<le> string_to_uint s \<and> string_to_uint s < lim"
    by (auto simp: numbered_def intro!: exI [of _ "nat (string_to_uint s)"])
  ultimately show ?thesis using assms(1) by simp
qed

interpretation sysq: qualifier qual_syscall sel_syscall
proof
  fix tb q s flag neg b q' and what
  assume tb: "tables_ok tb" and q: "quals_ok q"
  let ?v = "string_to_uint s"
  have i: "uint (word_of_int ?v :: c_int) = (if ?v = -1 then 2 ^ 32 - 1 else ?v)"
    using string_to_uint_range [of s] by (auto simp: uint_word_of_int take_bit_int_eq_self)
  have r: "\<not> int (max_nsyscalls tb) \<le> uint (word_of_int ?v :: c_int) \<longleftrightarrow> 0 \<le> ?v \<and> ?v < int (max_nsyscalls tb)"
    using tb string_to_uint_range [of s] unfolding i by (auto simp: tables_ok_def)
  have d: "qual_syscall tb s flag neg q = (if int (max_nsyscalls tb) \<le> uint (word_of_int ?v :: c_int) then Inr (False, q)
        else sbind (qualify_one tb (nat ?v) flag neg (-1) q) (\<lambda>q. Inr (True, q)))" if "starts_with_digit s"
    using that r by (auto simp: qual_syscall_def Let_def i)
  have n: "sel_syscall tb s = {(p, n). p \<in> set [0..<SUPPORTED_PERSONALITIES] \<and> n \<in> set (named (sysent_vec tb ! p) s)}"
    if "\<not> starts_with_digit s"
    using that by (auto simp: sel_syscall_def named_def simp del: upt_rec_numeral)
  show "verdict tb what {} (sel_syscall tb s) flag neg q (map_sum id snd (qual_syscall tb s flag neg q))"
  proof (cases "starts_with_digit s")
    case True
    then show ?thesis using number_verdict [OF q r, of tb what flag neg] by (simp add: d sel_syscall_def)
  next
    case False
    have "verdict tb what {} (sel_syscall tb s) flag neg q
       (each_personality tb (\<lambda>tab. named tab s) [0..<SUPPORTED_PERSONALITIES] flag neg q)"
      unfolding n [OF False] by (rule each_personality_verdict [OF q])
    then show ?thesis using False
      by (cases "each_personality tb (\<lambda>tab. named tab s) [0..<SUPPORTED_PERSONALITIES] flag neg q")
         (auto simp: qual_syscall_def simp del: upt_rec_numeral)
  qed
  assume a: "qual_syscall tb s flag neg q = Inr (b, q')"
  show "b \<longleftrightarrow> sel_syscall tb s \<noteq> {}"
  proof (cases "starts_with_digit s")
    case True
    then show ?thesis using number_accepts [OF r, of q tb flag neg b q'] a by (simp add: d sel_syscall_def)
  next
    case False
    then have "b \<longleftrightarrow> (\<exists>p \<in> set [0..<SUPPORTED_PERSONALITIES]. named (sysent_vec tb ! p) s \<noteq> [])"
      using a by (auto simp: qual_syscall_def sbind_eq_Inr simp del: upt_rec_numeral)
    then show ?thesis unfolding n [OF False] pairs_nonempty .
  qed
qed

interpretation descq: qualifier qual_desc "\<lambda>_. sel_desc"
proof
  fix tb q s flag neg b q' and what
  assume q: "quals_ok q"
  have r: "\<not> (string_to_uint s < 0 \<or> 0x7fff < string_to_uint s) \<longleftrightarrow> 0 \<le> string_to_uint s \<and> string_to_uint s < 0x8000" by auto
  show "verdict tb what {} (sel_desc s) flag neg q (map_sum id snd (qual_desc tb s flag neg q))"
    using number_verdict [OF q r, of tb what flag neg] marks_empty [OF q] by (simp add: qual_desc_def sel_desc_def Let_def)
  assume "qual_desc tb s flag neg q = Inr (b, q')"
  then show "b \<longleftrightarrow> sel_desc s \<noteq> {}"
    using number_accepts [OF r, of q tb flag neg b q'] by (auto simp: qual_desc_def sel_desc_def Let_def split: if_splits)
qed

subsection \<open>Signal names\<close>

lemma digit_char_not_nul: "d < 16 \<Longrightarrow> digit_char d \<noteq> CHR 0x00"
  by (auto simp: digit_char_def less_Suc_eq numeral_eq_Suc)

lemma digs_bound: "0 < b \<Longrightarrow> d \<in> set (digs b n) \<Longrightarrow> 2 \<le> b \<Longrightarrow> d < b"
proof (induction b n rule: digs.induct)
  case (1 b n)
  then show ?case by (cases "n < b") (auto simp: digs_small digs_step)
qed

lemma fmt_u_no_nul: "CHR 0x00 \<notin> set (fmt_u n)"
proof
  assume "CHR 0x00 \<in> set (fmt_u n)"
  then obtain d where "d \<in> set (digs 10 n)" "digit_char d = CHR 0x00" by (force simp: fmt_base_def)
  moreover from this(1) have "d < 10" using digs_bound [of 10 d n] by simp
  ultimately show False using digit_char_not_nul [of d] by simp
qed

lemma length_into_sigbuf: "length buf = 21 \<Longrightarrow> length s < 21 \<Longrightarrow> length (into_sigbuf s buf) = 21"
  by (simp add: into_sigbuf_def)

lemma signame_3_table:
  assumes "tables_ok tb" "i < length (signalent tb)"
  shows "signame_3 tb i buf = Inr (drop 3 (signal_name tb i), buf)"
proof -
  have "\<not> length (signalent tb ! i) < 3" using assms nth_mem [OF assms(2)] unfolding tables_ok_def not_less by blast
  then show ?thesis using assms(2) by (simp add: signame_3_def signame_def signal_name_def)
qed

lemma signame_3_rt:
  assumes "tables_ok tb" "length (signalent tb) \<le> i" "i \<le> 64"
  shows "signame_3 tb i buf = Inr (drop 3 (signal_name tb i), into_sigbuf (signal_name tb i) buf)"
proof -
  have i: "32 \<le> i" using assms(1,2) by (simp add: tables_ok_def)
  then have "fmt_d (int i - 32) = fmt_u (i - 32)" by (simp add: fmt_d_def nat_diff_distrib)
  then have s: "signame tb (int i) buf = Inr (into_sigbuf (signal_name tb i) buf)"
    using assms(2,3) i by (simp add: signame_def signal_name_def)
  have n: "signal_name tb i = ''SIG'' @ ''RT_'' @ fmt_u (i - 32)" using assms(2) by (simp add: signal_name_def)
  have "takeWhile (\<lambda>c. c \<noteq> CHR 0x00) ((''RT_'' @ fmt_u (i - 32)) @ CHR 0x00 # r) = ''RT_'' @ fmt_u (i - 32)" for r
    using fmt_u_no_nul by (subst takeWhile_append2) auto
  then show ?thesis by (simp add: signame_3_def s n into_sigbuf_def)
qed

lemma fmt_u_32: "fmt_u 32 = ''32''" and fmt_d_65: "fmt_d 65 = ''65''"
  by (simp_all add: fmt_d_def fmt_base_def digs.simps digit_char_def)

lemma signame_3_last:
  assumes "tables_ok tb"
  shows "signame_3 tb 65 (into_sigbuf (signal_name tb 64) buf)
    = Inr (drop 3 (signal_name tb 64), into_sigbuf ''65'' (into_sigbuf (signal_name tb 64) buf))"
proof -
  have "signal_name tb 64 = ''SIGRT_32''" using assms by (simp add: signal_name_def fmt_u_32 tables_ok_def)
  moreover have "signame tb (int 65) b = Inr (into_sigbuf ''65'' b)" for b
    using assms by (simp add: signame_def tables_ok_def fmt_d_65)
  ultimately show ?thesis by (simp add: signame_3_def into_sigbuf_def)
qed

text \<open>The search of \<open>qual_signal\<close>; the name of the number 65 is what is left of the name of 64.\<close>

lemma signal_loop_last:
  assumes "tables_ok tb" "quals_ok q" "sigbuf q = into_sigbuf (signal_name tb 64) buf"
    "\<not> strcaseeq s (drop 3 (signal_name tb 64))"
  shows "\<exists>buf. qual_signal_loop tb s flag neg 65 q = Inr (False, q\<lparr>sigbuf := buf\<rparr>) \<and> length buf = 21"
proof -
  have "signame_3 tb 65 (sigbuf q) = Inr (drop 3 (signal_name tb 64), into_sigbuf ''65'' (sigbuf q))"
    using signame_3_last [OF assms(1)] assms(3) by simp
  moreover have "length (into_sigbuf ''65'' (sigbuf q)) = 21" using assms(2) by (simp add: quals_ok_def length_into_sigbuf)
  ultimately show ?thesis
    using assms(4) by (intro exI [of _ "into_sigbuf ''65'' (sigbuf q)"])
       (simp add: qual_signal_loop.simps [of tb s flag neg 65] qual_signal_loop.simps [of tb s flag neg 66] Let_def)
qed

lemma signal_loop:
  assumes "tables_ok tb" "i \<le> 64" "quals_ok q"
  shows "\<exists>buf. length buf = 21 \<and> qual_signal_loop tb s flag neg i q =
    (case find (\<lambda>i. strcaseeq s (drop 3 (signal_name tb i))) [i..<65] of
       Some k \<Rightarrow> sbind (qualify_one tb k flag neg (-1) (q\<lparr>sigbuf := buf\<rparr>)) (\<lambda>q. Inr (True, q))
     | None \<Rightarrow> Inr (False, q\<lparr>sigbuf := buf\<rparr>))"
  using assms(2,3)
proof (induction "64 - i" arbitrary: i q)
  case (0 i q)
  then have i: "i = 64" by simp
  have "length (signalent tb) \<le> 64" using assms(1) by (simp add: tables_ok_def)
  note s = signame_3_rt [OF assms(1) this order_refl]
  have "signal_name tb 64 = ''SIGRT_32''" using assms(1) by (simp add: signal_name_def fmt_u_32 tables_ok_def)
  then have l: "length (into_sigbuf (signal_name tb 64) (sigbuf q)) = 21"
    using 0 by (simp add: quals_ok_def length_into_sigbuf)
  let ?q = "q\<lparr>sigbuf := into_sigbuf (signal_name tb 64) (sigbuf q)\<rparr>"
  have ok: "quals_ok ?q" using 0 l by (simp add: quals_ok_def)
  have upt: "[64..<65] = [64::nat]" by (simp add: upt_conv_Cons)
  show ?case
  proof (cases "strcaseeq s (drop 3 (signal_name tb 64))")
    case True
    then show ?thesis using l unfolding i upt
      by (intro exI [of _ "sigbuf ?q"]) (simp add: qual_signal_loop.simps [of tb s flag neg 64] s Let_def)
  next
    case False
    then show ?thesis using signal_loop_last [OF assms(1) ok _ False, of "sigbuf q" flag neg] unfolding i upt
      by (auto simp: qual_signal_loop.simps [of tb s flag neg 64] s Let_def)
  qed
next
  case (Suc d i q)
  then have i: "i < 64" by simp
  obtain buf where n: "signame_3 tb i (sigbuf q) = Inr (drop 3 (signal_name tb i), buf)" and l: "length buf = 21"
  proof (cases "i < length (signalent tb)")
    case True
    then show ?thesis using Suc.prems that [of "sigbuf q"] by (simp add: signame_3_table [OF assms(1)] quals_ok_def)
  next
    case False
    then have "length (signal_name tb i) < 21"
      using i length_digs_le [of 10 "i - 32" 2] by (simp add: signal_name_def length_fmt_base less_imp_diff_less)
    then show ?thesis using Suc.prems False i that [of "into_sigbuf (signal_name tb i) (sigbuf q)"]
      by (simp add: signame_3_rt [OF assms(1)] quals_ok_def length_into_sigbuf)
  qed
  have upt: "[i..<65] = i # [i + 1..<65]" using i by (simp add: upt_conv_Cons)
  have ok: "quals_ok (q\<lparr>sigbuf := buf\<rparr>)" using Suc.prems l by (simp add: quals_ok_def)
  have "d = 64 - (i + 1)" "i + 1 \<le> 64" using Suc.hyps(2) i by simp_all
  have again: "q\<lparr>sigbuf := buf, sigbuf := buf'\<rparr> = q\<lparr>sigbuf := buf'\<rparr>" for buf' by simp
  from Suc.hyps(1) [OF \<open>d = 64 - (i + 1)\<close> \<open>i + 1 \<le> 64\<close> ok] show ?case using n l i unfolding upt again
    by (cases "strcaseeq s (drop 3 (signal_name tb i))")
       (auto simp: qual_signal_loop.simps [of tb s flag neg i] Let_def)
qed

interpretation sigq: qualifier qual_signal sel_signal
proof
  fix tb q s flag neg b q' and what
  assume tb: "tables_ok tb" and q: "quals_ok q"
  have r: "\<not> (string_to_uint s < 0 \<or> 255 < string_to_uint s) \<longleftrightarrow> 0 \<le> string_to_uint s \<and> string_to_uint s < 256" by auto
  obtain buf where buf: "length buf = 21" and l: "qual_signal_loop tb (skip_sig s) flag neg 0 q =
    (case signal_number tb (skip_sig s) of
       Some k \<Rightarrow> sbind (qualify_one tb k flag neg (-1) (q\<lparr>sigbuf := buf\<rparr>)) (\<lambda>q. Inr (True, q))
     | None \<Rightarrow> Inr (False, q\<lparr>sigbuf := buf\<rparr>))"
    using signal_loop [OF tb _ q, of 0 "skip_sig s" flag neg] by (auto simp: signal_number_def simp del: upt_rec_numeral)
  have ok: "quals_ok (q\<lparr>sigbuf := buf\<rparr>)" using q buf by (simp add: quals_ok_def)
  have same: "marks S flag neg (q\<lparr>sigbuf := buf\<rparr>) q'' \<Longrightarrow> marks S flag neg q q''" for S q''
    by (simp add: marks_def qual_bit_def)
  show "verdict tb what {} (sel_signal tb s) flag neg q (map_sum id snd (qual_signal tb s flag neg q))"
  proof (cases "starts_with_digit s")
    case True
    then show ?thesis using number_verdict [OF q r, of tb what flag neg] by (simp add: qual_signal_def sel_signal_def Let_def)
  next
    case False
    show ?thesis
    proof (cases "signal_number tb (skip_sig s)")
      case None
      then show ?thesis using False l same [OF marks_empty [OF ok]] by (simp add: qual_signal_def sel_signal_def)
    next
      case (Some k)
      then have "sel_signal tb s = pers_set (-1) [k]" using False by (auto simp: sel_signal_def pers_set_def)
      then show ?thesis
        using False l Some qualify_one_verdict [OF ok, of tb what "-1" k flag neg] same
        by (cases "qualify_one tb k flag neg (- 1) (q\<lparr>sigbuf := buf\<rparr>)")
           (auto simp: qual_signal_def verdict_def split: die.splits)
    qed
  qed
  assume a: "qual_signal tb s flag neg q = Inr (b, q')"
  show "b \<longleftrightarrow> sel_signal tb s \<noteq> {}"
  proof (cases "starts_with_digit s")
    case True
    then show ?thesis using number_accepts [OF r, of q tb flag neg b q'] a by (simp add: qual_signal_def sel_signal_def Let_def)
  next
    case False
    then show ?thesis using a l by (auto simp: qual_signal_def sel_signal_def sbind_eq_Inr split: option.splits)
  qed
qed

subsection \<open>Filter expressions\<close>

definition is_class :: "qual_option \<Rightarrow> string \<Rightarrow> bool" where
  "is_class opt s \<longleftrightarrow> bitflag opt = QUAL_TRACE \<and> 0 <s lookup_class s"

definition selection :: "tables \<Rightarrow> qual_option \<Rightarrow> string \<Rightarrow> (nat \<times> nat) set" where
  "selection tb opt s =
    (if is_class opt s then sel_class tb (lookup_class s)
     else (case qual_how opt of
        Qual_syscall \<Rightarrow> sel_syscall tb s | Qual_signal \<Rightarrow> sel_signal tb s | Qual_desc \<Rightarrow> sel_desc s))"

definition bad_tokens :: "tables \<Rightarrow> qual_option \<Rightarrow> string list \<Rightarrow> string set" where
  "bad_tokens tb opt toks = {s \<in> set toks. \<not> is_class opt s \<and> selection tb opt s = {}}"

lemma qualify_tokens_verdict:
  assumes "tables_ok tb"
  shows "quals_ok q \<Longrightarrow> verdict tb (argument_name opt) (bad_tokens tb opt toks) (\<Union>s \<in> set toks. selection tb opt s)
     (bitflag opt) neg q (qualify_tokens tb opt neg toks q)"
proof (induction toks arbitrary: q)
  case Nil
  then show ?case by (simp add: bad_tokens_def marks_empty)
next
  case (Cons s toks)
  let ?step = "if bitflag opt = QUAL_TRACE \<and> 0 <s lookup_class s then
             each_personality tb (\<lambda>tab. in_class tab (lookup_class s)) [0..<SUPPORTED_PERSONALITIES]
               (bitflag opt) neg q
           else
             sbind (apply_qual tb opt s neg q) (\<lambda>(ok, q).
               if ok then Inr q else Inl (Invalid (argument_name opt) s))"
  have step: "verdict tb (argument_name opt) (bad_tokens tb opt [s]) (selection tb opt s) (bitflag opt) neg q ?step"
  proof (cases "is_class opt s")
    case True
    have "sel_class tb (lookup_class s) = {(p, n). p \<in> set [0..<SUPPORTED_PERSONALITIES] \<and> n \<in> set (in_class (sysent_vec tb ! p) (lookup_class s))}"
      by (auto simp: sel_class_def in_class_def)
    moreover have "bad_tokens tb opt [s] = {}" using True by (auto simp: bad_tokens_def)
    ultimately show ?thesis
      using True each_personality_verdict [OF Cons.prems, of tb "argument_name opt" "[0..<SUPPORTED_PERSONALITIES]" "\<lambda>tab. in_class tab (lookup_class s)" "bitflag opt" neg]
      by (simp add: selection_def is_class_def del: upt_rec_numeral)
  next
    case False
    have bad: "bad_tokens tb opt [s] = (if selection tb opt s = {} then {s} else {})"
      using False by (auto simp: bad_tokens_def)
    note v = sysq.token_verdict [OF assms Cons.prems, of "argument_name opt" s "bitflag opt" neg]
      sigq.token_verdict [OF assms Cons.prems, of "argument_name opt" s "bitflag opt" neg]
      descq.token_verdict [OF assms Cons.prems, of "argument_name opt" s "bitflag opt" neg]
    have st: "?step = sbind (apply_qual tb opt s neg q) (\<lambda>(ok, q).
               if ok then Inr q else Inl (Invalid (argument_name opt) s))" using False unfolding is_class_def by (rule if_not_P)
    show ?thesis unfolding bad st using False v by (cases "qual_how opt") (simp_all add: selection_def apply_qual_def)
  qed
  have "bad_tokens tb opt (s # toks) = bad_tokens tb opt [s] \<union> bad_tokens tb opt toks" by (auto simp: bad_tokens_def)
  then show ?case using verdict_bind [OF step Cons.IH] by simp
qed

text \<open>The state \<open>qualify\<close> starts to work on, with the arrays allocated at the first call.\<close>

definition base_quals :: "tables \<Rightarrow> quals \<Rightarrow> nat" where
  "base_quals tb q = (if num_quals q = 0 then min_quals tb else num_quals q)"

lemma first_allocation:
  assumes "quals_ok q" "(if num_quals q = 0 then reallocate_qual tb (min_quals tb) q else Inr q) = Inr q'"
  shows "marks {} flag neg q q' \<and> num_quals q' = base_quals tb q"
  using assms reallocate_marks [of q "min_quals tb" tb q' flag neg] marks_empty [OF assms(1)]
  by (auto simp: base_quals_def split: if_splits)

lemma marks_override:
  assumes "marks S flag neg q q'" "marks T flag (\<not> neg) q' q''" "p < SUPPORTED_PERSONALITIES" "j < 8"
  shows "qual_bit q'' p n j \<longleftrightarrow> (if bit flag j then (if (p, n) \<in> T then neg else if (p, n) \<in> S then \<not> neg else qual_bit q p n j) else qual_bit q p n j)"
  using assms by (simp add: marks_def)

definition filter_result :: "tables \<Rightarrow> quals \<Rightarrow> qual_option \<Rightarrow> bool \<Rightarrow> string \<Rightarrow> quals \<Rightarrow> bool" where
  "filter_result tb q opt neg t q' \<longleftrightarrow> quals_ok q' \<and> base_quals tb q \<le> num_quals q'
     \<and> (\<forall>p < SUPPORTED_PERSONALITIES. \<forall>n. \<forall>j < 8. qual_bit q' p n j \<longleftrightarrow>
         (if \<not> bit (bitflag opt) j then qual_bit q p n j
          else if t = ''all'' then n < base_quals tb q \<and> \<not> neg
          else if \<exists>s \<in> set (strtok_comma t). (p, n) \<in> selection tb opt s then \<not> neg
          else n < base_quals tb q \<and> neg))"

lemma all_set: "pers_set (-1) [0..<n] = {(p, m). m < n}"
  by (auto simp: pers_set_def)

lemma qual_bit_out: "num_quals q \<le> n \<Longrightarrow> \<not> qual_bit q p n j"
  by (simp add: qual_bit_def)

lemma qualify_ok:
  assumes "tables_ok tb" "quals_ok q" "qual_parse s = (opt, neg, t)"
  shows "case qualify tb s q of
      Inl DieOutOfMemory \<Rightarrow> \<exists>n. \<not> realloc_ok tb n
    | Inl (Invalid what tok) \<Rightarrow> t \<noteq> ''all'' \<and> what = argument_name opt \<and> tok \<in> bad_tokens tb opt (strtok_comma t)
    | Inl DieOverrun \<Rightarrow> False
    | Inr q' \<Rightarrow> (t = ''all'' \<or> bad_tokens tb opt (strtok_comma t) = {}) \<and> filter_result tb q opt neg t q'"
proof (cases "if num_quals q = 0 then reallocate_qual tb (min_quals tb) q else Inr q")
  case (Inl e)
  then show ?thesis by (auto simp: qualify_def reallocate_qual_def split: if_splits)
next
  case (Inr q1)
  let ?fl = "bitflag opt"
  have m1: "marks {} ?fl x q q1" and n1: "num_quals q1 = base_quals tb q" for x
    using first_allocation [OF assms(2) Inr] by simp_all
  have ok1: "quals_ok q1" using m1 [of neg] by (simp add: marks_def)
  have fill: "verdict tb (argument_name opt) {} {(p, n). n < base_quals tb q} ?fl x q1
      (qualify_each tb [0..<num_quals q1] ?fl x (-1) q1)" for x
    using qualify_each_verdict [OF ok1, of tb "argument_name opt" "-1" "[0..<num_quals q1]" ?fl x]
    by (simp add: all_set n1)
  have old: "p < SUPPORTED_PERSONALITIES \<Longrightarrow> j < 8 \<Longrightarrow> qual_bit q1 p n j = qual_bit q p n j" for p n j
    using m1 [of neg] by (simp add: marks_def)
  have out: "p < SUPPORTED_PERSONALITIES \<Longrightarrow> j < 8 \<Longrightarrow> \<not> n < base_quals tb q \<Longrightarrow> \<not> qual_bit q p n j" for p n j
    using old qual_bit_out [of q1 n p j] n1 by simp
  show ?thesis
  proof (cases "t = ''all''")
    case True
    then have qf: "qualify tb s q = qualify_each tb [0..<num_quals q1] ?fl neg (-1) q1"
      using Inr assms(3) by (simp add: qualify_def)
    show ?thesis
    proof (cases "qualify_each tb [0..<num_quals q1] ?fl neg (-1) q1")
      case e: (Inl e)
      then show ?thesis using fill [of neg] qf by (cases e) simp_all
    next
      case r: (Inr q2)
      then have "marks {(p, n). n < base_quals tb q} ?fl neg q1 q2" using fill [of neg] by simp
      then show ?thesis using r qf True old out n1 by (auto simp: filter_result_def marks_def)
    qed
  next
    case False
    then have qf: "qualify tb s q = sbind (qualify_each tb [0..<num_quals q1] ?fl (\<not> neg) (-1) q1) (\<lambda>q.
            if realloc_ok tb (length t + 1) then qualify_tokens tb opt neg (strtok_comma t) q
            else Inl DieOutOfMemory)"
      using Inr assms(3) by (simp add: qualify_def)
    show ?thesis
    proof (cases "qualify_each tb [0..<num_quals q1] ?fl (\<not> neg) (-1) q1")
      case e: (Inl e)
      then show ?thesis using fill [of "\<not> neg"] qf by (cases e) simp_all
    next
      case r: (Inr q2)
      then have m2: "marks {(p, n). n < base_quals tb q} ?fl (\<not> neg) q1 q2" using fill [of "\<not> neg"] by simp
      then have ok2: "quals_ok q2" by (simp add: marks_def)
      note v = qualify_tokens_verdict [OF assms(1) ok2, of opt "strtok_comma t" neg]
      show ?thesis
      proof (cases "realloc_ok tb (length t + 1)")
        case oom: False
        then show ?thesis using qf r by auto
      next
        case True
        then have qf: "qualify tb s q = qualify_tokens tb opt neg (strtok_comma t) q2" using qf r by simp
        show ?thesis
        proof (cases "qualify_tokens tb opt neg (strtok_comma t) q2")
          case e: (Inl e)
          then show ?thesis using v qf False by (cases e) simp_all
        next
          case r3: (Inr q3)
          then have b: "bad_tokens tb opt (strtok_comma t) = {}"
            and m3: "marks (\<Union>s \<in> set (strtok_comma t). selection tb opt s) ?fl neg q2 q3" using v by simp_all
          have "filter_result tb q opt neg t q3"
            using m2 m3 n1 old out False unfolding filter_result_def marks_def by auto
          then show ?thesis using qf r3 b by simp
        qed
      qed
    qed
  qed
qed

definition x86_64_tables :: tables where
  "x86_64_tables = \<lparr>sysent_vec = [sysent0, sysent1, sysent2], signalent = signalent0, realloc_ok = \<lambda>_. True\<rparr>"

lemma x86_64_tables_ok: "tables_ok x86_64_tables" and x86_64_min_quals: "min_quals x86_64_tables = 543"
  by (simp_all add: x86_64_tables_def tables_ok_def max_nsyscalls_def min_quals_def length_sysents signalent0_def)

text \<open>
  C12. \<open>qualify\<close> on a filter expression: it ends the program exactly for a token that denotes nothing
  (or if memory is exhausted) and never reads a name outside its buffer; otherwise the flag of the
  option is set on exactly the entries that some token denotes, or, if the expression is negated,
  on exactly the allocated entries that none denotes, for each personality by its own table; every
  other flag of every entry is as before.
\<close>

theorem qualify_correct:
  assumes "tables_ok tb" "quals_ok q" "qual_parse s = (opt, neg, t)"
  shows "case qualify tb s q of
      Inl DieOutOfMemory \<Rightarrow> \<exists>n. \<not> realloc_ok tb n
    | Inl (Invalid what tok) \<Rightarrow> t \<noteq> ''all'' \<and> what = argument_name opt \<and> tok \<in> bad_tokens tb opt (strtok_comma t)
    | Inl DieOverrun \<Rightarrow> False
    | Inr q' \<Rightarrow> (t = ''all'' \<or> bad_tokens tb opt (strtok_comma t) = {}) \<and> filter_result tb q opt neg t q'"
  using assms by (rule qualify_ok)

lemma x86_64_kill:
  "sel_signal x86_64_tables ''KILL'' = {(p, n). n = 9}" "sel_signal x86_64_tables ''3'' = {(p, n). n = 3}"
  by (auto simp: sel_signal_def starts_with_digit_def isdigit_c_def signal_number_def skip_sig_def strcaseeq_def
       signal_name_def x86_64_tables_def signalent0_def tolower_def upt_conv_Cons numbered_def
       string_to_uint_def strtol_def strtol_body_def isspace_def dec_value_def dec_digit_def)

theorem qualify_correct_witness:
  "\<exists>q. qualify x86_64_tables ''signal=!KILL,3'' quals_init = Inr q
     \<and> (\<forall>p < SUPPORTED_PERSONALITIES. \<forall>n. qual_bit q p n 4 \<longleftrightarrow> n < 543 \<and> n \<noteq> 3 \<and> n \<noteq> 9)"
proof -
  let ?opt = "\<lparr>bitflag = QUAL_SIGNAL, option_name = ''signal'', qual_how = Qual_signal, argument_name = ''signal''\<rparr>"
  have p: "qual_parse ''signal=!KILL,3'' = (?opt, True, ''KILL,3'')"
    by (simp add: qual_parse_def qual_options_def)
  have toks: "strtok_comma ''KILL,3'' = [''KILL'', ''3'']"
    by (simp add: strtok_comma.simps)
  have cl: "\<not> is_class ?opt s" for s by (simp add: is_class_def)
  have sel: "selection x86_64_tables ?opt ''KILL'' = {(p, n). n = 9}"
    "selection x86_64_tables ?opt ''3'' = {(p, n). n = 3}"
    using cl by (simp_all add: selection_def x86_64_kill)
  have bad: "bad_tokens x86_64_tables ?opt [''KILL'', ''3''] = {}" using sel by (auto simp: bad_tokens_def)
  have base: "base_quals x86_64_tables quals_init = 543" by (simp add: base_quals_def quals_init_def x86_64_min_quals)
  have re: "realloc_ok x86_64_tables n" for n by (simp add: x86_64_tables_def)
  note c = qualify_correct [OF x86_64_tables_ok quals_init_ok p, unfolded toks bad]
  then obtain q where q: "qualify x86_64_tables ''signal=!KILL,3'' quals_init = Inr q"
    and f: "filter_result x86_64_tables quals_init ?opt True ''KILL,3'' q"
    using re by (auto split: sum.splits die.splits)
  have "bit (QUAL_SIGNAL) 4" by (simp add: bit_numeral_rec)
  then have "\<forall>p < SUPPORTED_PERSONALITIES. \<forall>n. qual_bit q p n 4 \<longleftrightarrow> n < 543 \<and> n \<noteq> 3 \<and> n \<noteq> 9"
    using f unfolding filter_result_def toks base by (auto simp: sel)
  then show ?thesis using q by blast
qed
end
