(* ===== verification/Syscall_Correct.thy ===== *)
theory Syscall_Correct
  imports Syscall Tcb_Log Qualify_Correct
begin

text \<open>
  The handlers of system call stops: the error code and value they read off the registers, that
  they keep the process table and the discipline of the shared log, that entry and exit alternate,
  and that no register contents make them read outside the arguments or call a missing decoder.
\<close>

subsection \<open>Errors and results\<close>

lemma mod_half:
  fixes u m :: int
  assumes "0 \<le> u" "u < 2 * m"
  shows "(u + m) mod (2 * m) - m = (if u < m then u else u - 2 * m)"
proof (cases "u < m")
  case True
  then show ?thesis using assms by (simp add: mod_pos_pos_trivial)
next
  case False
  have "(u + m) mod (2 * m) = (u - m + 2 * m) mod (2 * m)" by (simp add: algebra_simps)
  also have "\<dots> = (u - m) mod (2 * m)" by (rule mod_add_self2)
  also have "\<dots> = u - m" using assms False by (simp add: mod_pos_pos_trivial)
  finally show ?thesis using False by simp
qed

lemma sint_if: "sint (w :: 'a::len word) = (if uint w < 2 ^ (LENGTH('a) - 1) then uint w else uint w - 2 ^ LENGTH('a))"
proof -
  obtain n where n: "LENGTH('a) = Suc n" by (metis len_not_eq_0 not0_implies_Suc)
  have "sint w = (uint w + 2 ^ n) mod (2 * 2 ^ n) - 2 ^ n"
    using signed_take_bit_eq_take_bit_shift [of n "uint w"] by (simp add: sint_uint n take_bit_eq_mod)
  then show ?thesis using mod_half [of "uint w" "2 ^ n"] uint_lt2p [of w] by (simp add: n)
qed

lemma sint_c_long: "sint (w :: c_long) = (if uint w < 2 ^ 63 then uint w else uint w - 2 ^ 64)"
  using sint_if [of w] by simp

lemma sint_c_int: "sint (w :: c_int) = (if uint w < 2 ^ 31 then uint w else uint w - 2 ^ 32)"
  using sint_if [of w] by simp

lemma uint_neg_nat: "0 < n \<Longrightarrow> int n < 2 ^ LENGTH('a) \<Longrightarrow> uint (- of_nat n :: 'a::len word) = 2 ^ LENGTH('a) - int n"
proof -
  assume n: "0 < n" "int n < 2 ^ LENGTH('a)"
  have "uint (- of_nat n :: 'a word) = take_bit LENGTH('a) (- int n)" by transfer simp
  also have "\<dots> = take_bit LENGTH('a) (2 ^ LENGTH('a) - int n)" by (simp add: take_bit_eq_mod)
  also have "\<dots> = 2 ^ LENGTH('a) - int n" using n by (simp add: take_bit_int_eq_self)
  finally show ?thesis .
qed

lemma negated_errno_64:
  assumes "0 < n" "int n < 2 ^ 31"
  shows "is_negated_errno 8 n val \<longleftrightarrow> - int n < sint val \<and> sint val < 0"
proof -
  have m: "uint (- of_nat n :: c_long) = 2 ^ 64 - int n" using uint_neg_nat [of n, where 'a = 64] assms by simp
  have "is_negated_errno 8 n val \<longleftrightarrow> 2 ^ 64 - int n < uint val"
    unfolding is_negated_errno_def Let_def by (simp add: word_less_def m)
  then show ?thesis using uint_lt2p [of val] assms unfolding sint_c_long by auto
qed

lemma negated_errno_32:
  assumes "0 < n" "int n < 2 ^ 31"
  shows "is_negated_errno 4 n (scast (e :: c_int)) \<longleftrightarrow> - int n < sint e \<and> sint e < 0"
proof -
  have c: "ucast (- of_nat n :: c_long) = (- of_nat n :: c_int)" by transfer (simp add: take_bit_minus)
  have e: "ucast (scast e :: c_long) = e" by (rule bit_word_eqI) (simp add: bit_simps)
  have m: "uint (- of_nat n :: c_int) = 2 ^ 32 - int n" using uint_neg_nat [of n, where 'a = 32] assms by simp
  have "is_negated_errno 4 n (scast e) \<longleftrightarrow> 2 ^ 32 - int n < uint e"
    unfolding is_negated_errno_def Let_def by (simp add: word_less_def m c e)
  then show ?thesis using uint_lt2p [of e] assms unfolding sint_c_int by auto
qed

lemma sint_scast_c_int: "sint (scast (e :: c_int) :: c_long) = sint e"
  by transfer (simp add: signed_take_bit_signed_take_bit)

lemma sint_ucast_neg:
  assumes "- (2 ^ 31) < sint (v :: c_long)" "sint v < 2 ^ 31"
  shows "sint (ucast (- v) :: c_int) = - sint v"
proof -
  have "(ucast (word_of_int k :: c_long) :: c_int) = word_of_int k" for k by transfer simp
  from this [of "- sint v"] have "ucast (- v) = (word_of_int (- sint v) :: c_int)" by simp
  moreover have "sint (word_of_int k :: c_int) = signed_take_bit 31 k" for k by transfer simp
  ultimately have "sint (ucast (- v) :: c_int) = signed_take_bit 31 (- sint v)" by (simp only:)
  also have "\<dots> = - sint v" using assms by (simp add: signed_take_bit_int_eq_self_iff)
  finally show ?thesis .
qed

text \<open>
  The outcome of a system call, read off the result register of a 64-bit or an i386 tracee: an
  error code, or a value.
\<close>

definition outcome_of :: "nat \<Rightarrow> bool \<Rightarrow> int \<Rightarrow> int + int" where
  "outcome_of nerrnos never_fails r = (if \<not> never_fails \<and> - int nerrnos < r \<and> r < 0 then Inl (- r) else Inr r)"

definition never_fails :: "tcb \<Rightarrow> bool" where
  "never_fails t = (case t_s_ent t of Some e \<Rightarrow> sys_flags e AND SYSCALL_NEVER_FAILS_bit \<noteq> 0 | None \<Rightarrow> False)"

text \<open>The register set fits the personality, except for x32, whose registers are 64 bits wide.\<close>

definition matches :: "strace \<Rightarrow> bool" where
  "matches st = (case regs st of I386_regs _ \<Rightarrow> current_personality st = 1 | X86_64_regs _ \<Rightarrow> current_personality st = 0)"

lemma matches_negated:
  assumes "matches st" "0 < n" "int n < 2 ^ 31"
  shows "is_negated_errno (current_wordsize st) n (rax_of (regs st))
    \<longleftrightarrow> - int n < sint (rax_of (regs st)) \<and> sint (rax_of (regs st)) < 0"
proof (cases "regs st")
  case (I386_regs r)
  then have "current_wordsize st = 4" using assms(1) by (simp add: matches_def current_wordsize_def personality_wordsize_def)
  then show ?thesis using negated_errno_32 [OF assms(2,3), of "eax r"] I386_regs by (simp add: rax_of_def sint_scast_c_int)
next
  case (X86_64_regs r)
  then have "current_wordsize st = 8" using assms(1) by (simp add: matches_def current_wordsize_def personality_wordsize_def)
  then show ?thesis using negated_errno_64 [OF assms(2,3)] by simp
qed

lemma get_error_ok:
  assumes "matches st" "tcp < length (tcbtab st)" "0 < length (errnoent env)" "int (length (errnoent env)) < 2 ^ 31"
  shows "(case outcome_of (length (errnoent env)) (never_fails (tcb_at st tcp)) (sint (rax_of (regs st))) of
      Inl e \<Rightarrow> t_u_error (tcb_at (get_error env tcp st) tcp) = e \<and> t_u_rval (tcb_at (get_error env tcp st) tcp) = -1
        \<and> 0 < e \<and> e < int (length (errnoent env))
    | Inr v \<Rightarrow> t_u_error (tcb_at (get_error env tcp st) tcp) = 0 \<and> sint (t_u_rval (tcb_at (get_error env tcp st) tcp)) = v)"
proof -
  let ?r = "rax_of (regs st)" and ?n = "length (errnoent env)"
  note neg = matches_negated [OF assms(1,3,4)]
  have u: "- int ?n < sint ?r \<Longrightarrow> sint ?r < 0 \<Longrightarrow> sint (ucast (- ?r) :: c_int) = - sint ?r"
    using assms(4) by (intro sint_ucast_neg) auto
  have nf: "(case t_s_ent (tcb_at st tcp) of Some e \<Rightarrow> sys_flags e AND SYSCALL_NEVER_FAILS_bit = 0 | None \<Rightarrow> True)
      \<longleftrightarrow> \<not> never_fails (tcb_at st tcp)"
    by (simp add: never_fails_def split: option.splits)
  show ?thesis
    unfolding get_error_def Let_def nf neg using assms(2) u by (auto simp: tcb_simps outcome_of_def)
qed

subsection \<open>What the handlers do to the log\<close>

abbreviation silent :: "nat \<Rightarrow> strace \<Rightarrow> strace \<Rightarrow> bool" where
  "silent tcp \<equiv> writes tcp []"

lemma silent_trans: "silent tcp st st' \<Longrightarrow> silent tcp st' st'' \<Longrightarrow> silent tcp st st''"
  using writes_trans [of tcp "[]" st st' "[]" st''] by simp

lemma silent_refl [simp, intro]: "silent tcp st st"
  by (rule writes_same) simp_all

lemma silent_log_ok:
  assumes "silent tcp st st'" "log_ok st"
  shows "log_ok st'"
proof -
  have len: "length (tcbtab st') = length (tcbtab st)" using assms(1) by (simp add: writes_def same_cores_def)
  have c: "t_curcol (tcb_at st' i) = t_curcol (tcb_at st i)" for i
    using assms(1) by (cases "i = tcp") (auto simp: writes_def)
  have o: "i < length (tcbtab st) \<Longrightarrow> t_outf (tcb_at st' i) = t_outf (tcb_at st i)" for i
    using assms(1) same_cores_D by (auto simp: writes_def)
  have "out st' = out st" "printing_tcp st' = printing_tcp st" using assms(1) by (simp_all add: writes_def)
  then show ?thesis using assms(2) unfolding log_ok_def len c by (simp add: o)
qed

lemma core_flags:
  "f AND TCB_INUSE = 0 \<Longrightarrow> core (set_flags f t) = core t" "f AND TCB_INUSE = 0 \<Longrightarrow> core (clear_flags f t) = core t"
proof -
  assume f: "f AND TCB_INUSE = 0"
  then have f0: "\<not> bit f 0" by (simp add: and_one_eq odd_iff_mod_2_eq_one bit_0 even_iff_mod_2_eq_zero)
  have i: "inuse u \<longleftrightarrow> bit (t_flags u) 0" for u by (simp add: has_flag_def and_one_eq bit_0 odd_iff_mod_2_eq_one)
  show "core (set_flags f t) = core t" "core (clear_flags f t) = core t"
    unfolding core_def i using f0 by (simp_all add: set_flags_def clear_flags_def bit_simps)
qed

lemma silent_flags:
  assumes "tcp < length (tcbtab st)" "f AND TCB_INUSE = 0"
  shows "silent tcp st (upd_tcb tcp (set_flags f) st)" "silent tcp st (upd_tcb tcp (clear_flags f) st)"
  using assms core_flags [OF assms(2)] by (auto intro!: writes_upd simp: set_flags_def clear_flags_def)

lemma core_fields [simp]:
  "core (t\<lparr>t_qual_flg := a\<rparr>) = core t" "core (t\<lparr>t_u_error := b\<rparr>) = core t" "core (t\<lparr>t_scno := c\<rparr>) = core t"
  "core (t\<lparr>t_u_arg := d\<rparr>) = core t" "core (t\<lparr>t_u_rval := e\<rparr>) = core t" "core (t\<lparr>t_currpers := f\<rparr>) = core t"
  "core (t\<lparr>t_auxstr := g\<rparr>) = core t" "core (t\<lparr>t_s_ent := h\<rparr>) = core t" "core (t\<lparr>t_etime := i\<rparr>) = core t"
  "core (t\<lparr>t_dtime := i\<rparr>) = core t" "core (t\<lparr>t_stime := i\<rparr>) = core t" "core (t\<lparr>t_curcol := k\<rparr>) = core t"
  by (simp_all add: core_def has_flag_def)

lemma silent_personality:
  assumes "tcp < length (tcbtab st)"
  shows "silent tcp st (update_personality env tcp p st)"
proof -
  have 1: "silent tcp st (set_personality p st)" by (rule writes_same) (simp_all add: set_personality_def)
  have l: "tcp < length (tcbtab (set_personality p st))" using assms by (simp add: set_personality_def)
  have 2: "silent tcp (set_personality p st) (upd_tcb tcp (\<lambda>t. t\<lparr>t_currpers := p\<rparr>) (set_personality p st))"
    using l by (intro writes_upd) simp_all
  have 3: "silent tcp s (s\<lparr>errs := e\<rparr>)" for s e by (rule writes_same) simp_all
  show ?thesis
    using 1 silent_trans [OF 1 2] silent_trans [OF silent_trans [OF 1 2] 3] by (simp add: update_personality_def Let_def)
qed

lemma silent_get_scno:
  assumes "tcp < length (tcbtab st)"
  shows "silent tcp st (get_scno env tcp st)"
proof -
  have "silent tcp st (select_ent env scno tcp (update_personality env tcp p st))" for scno p
  proof (rule silent_trans [OF silent_personality [OF assms]])
    have "tcp < length (tcbtab (update_personality env tcp p st))"
      using silent_personality [OF assms, of env p] assms by (simp add: writes_def same_cores_def)
    then show "silent tcp (update_personality env tcp p st) (select_ent env scno tcp (update_personality env tcp p st))"
      unfolding select_ent_def by (intro writes_upd) simp_all
  qed
  then show ?thesis by (simp add: get_scno_def Let_def split: prod.splits regs.splits)
qed

lemma silent_get_args: "tcp < length (tcbtab st) \<Longrightarrow> silent tcp st (get_syscall_args tcp st)"
  unfolding get_syscall_args_def by (intro writes_upd) simp_all

lemma silent_get_error: "tcp < length (tcbtab st) \<Longrightarrow> silent tcp st (get_error env tcp st)"
  unfolding get_error_def Let_def by (intro writes_upd) simp_all

lemma silent_switch: "tcp < length (tcbtab st) \<Longrightarrow> silent tcp st (switch_scno env n tcp st)"
  unfolding switch_scno_def by (intro writes_upd) simp_all

lemma silent_len: "silent tcp st st' \<Longrightarrow> length (tcbtab st') = length (tcbtab st)"
  by (simp add: writes_def same_cores_def)

lemma silent_decode_subcall:
  assumes "tcp < length (tcbtab st)" "decode_subcall env s tcp st = Inr st'"
  shows "silent tcp st st'"
proof -
  have u: "silent tcp st (upd_tcb tcp (\<lambda>t. t\<lparr>t_u_arg := g t\<rparr>) (switch_scno env n tcp st))" for g n
  proof (rule silent_trans [OF silent_switch [OF assms(1)]])
    have "tcp < length (tcbtab (switch_scno env n tcp st))" using silent_len [OF silent_switch [OF assms(1)]] assms(1) by simp
    then show "silent tcp (switch_scno env n tcp st) (upd_tcb tcp (\<lambda>t. t\<lparr>t_u_arg := g t\<rparr>) (switch_scno env n tcp st))"
      by (intro writes_upd) simp_all
  qed
  show ?thesis
    using assms(2) u
    by (auto simp: decode_subcall_def decode_socket_subcall_def decode_ipc_subcall_def Let_def sbind_eq_Inr split: if_splits)
qed

lemma silent_entering_ret: "tcp < length (tcbtab st) \<Longrightarrow> silent tcp st (entering_ret env s tcp st)"
  unfolding entering_ret_def Let_def
  using core_flags(1) [of TCB_INSYSCALL] by (intro writes_upd) (auto simp: set_flags_def)

lemma silent_exiting_ret: "tcp < length (tcbtab st) \<Longrightarrow> silent tcp st (exiting_ret tcp st)"
  unfolding exiting_ret_def by (rule silent_flags) simp_all

lemma silent_count: "count_syscall tb tk tcp tv st = Inr st' \<Longrightarrow> silent i st st'"
  by (rule writes_same)
     (auto simp: count_syscall_def Let_def sbind_eq_Inr split: if_splits option.splits)

lemma written_args:
  assumes "shared_cfg (opts env)" "ready tcp st" "args_with fmt env tcp st = Inr st'"
  shows "written tcp st st'"
  using assms written_tprints [OF assms(1,2)]
  by (auto simp: args_with_def Let_def sbind_eq_Inr split: if_splits)

lemma written_sys_func:
  assumes cfg: "shared_cfg (opts env)" and r: "ready tcp st" and c: "call_sys_func env s tcp st = Inr (x, st')"
  shows "written tcp st st'"
proof -
  have t: "written tcp st (tprints (opts env) u st)" for u using cfg r by (rule written_tprints)
  have a: "written tcp st (upd_tcb tcp (\<lambda>t. t\<lparr>t_auxstr := aux\<rparr>) (tprints (opts env) u st))" for u aux
  proof (rule written_trans [OF t writtenI])
    have "tcp < length (tcbtab (tprints (opts env) u st))" using written_ready [OF t r] by (simp add: ready_def)
    then show "silent tcp (tprints (opts env) u st) (upd_tcb tcp (\<lambda>t. t\<lparr>t_auxstr := aux\<rparr>) (tprints (opts env) u st))"
      by (intro writes_upd) simp_all
  qed
  show ?thesis
    using c t a written_args [OF cfg r]
    by (auto simp: call_sys_func_def printargs_def printargs_lu_def printargs_ld_def Let_def sbind_eq_Inr
        split: option.splits if_splits prod.splits)
qed

text \<open>Dumps consist of whole lines.\<close>

lemma at_bol_append: "at_bol a \<Longrightarrow> at_bol b \<Longrightarrow> at_bol (a @ b)"
  by (cases "b = []") (auto simp: at_bol_def)

lemma at_bol_newline [simp]: "at_bol (a @ [CHR 0x0A])" "at_bol []"
  by (simp_all add: at_bol_def)

lemma at_bol_line: "at_bol b \<Longrightarrow> at_bol (a @ CHR 0x0A # b)"
  by (cases "b = []") (auto simp: at_bol_def)

lemma dump_lines_bol: "dump_lines str len i outbuf = Inr u \<Longrightarrow> at_bol u"
proof (induction str len i outbuf arbitrary: u rule: dump_lines.induct)
  case (1 str len i outbuf)
  show ?case
  proof (cases "i < len")
    case False
    then show ?thesis using "1.prems" by (simp add: dump_lines.simps [of str len i outbuf] at_bol_def)
  next
    case True
    then obtain ob dst ob' dst' ob'' rest where r: "dump_hex str len i outbuf 0 = Inr (ob, dst)"
      "dump_ascii str i ob dst = Inr (ob', dst')" "blit ob' dst' [CHR 0x00] = Inr ob''"
      "dump_lines str len (i + 16) ob'' = Inr rest"
      and u: "u = ('' | '' @ pad_left 5 CHR ''0'' (fmt_x i) @ ''  '' @ takeWhile (\<lambda>c. c \<noteq> CHR 0x00) ob'' @ '' |'') @ CHR 0x0A # rest"
      using "1.prems" by (auto simp: dump_lines.simps [of str len i outbuf] sbind_eq_Inr)
    have "at_bol rest" using "1.IH" [OF True r(1) refl r(2) refl r(3,4)] .
    then show ?thesis unfolding u by (rule at_bol_line)
  qed
qed

lemma dump_call_bol: "dump_call t addr len = Inr u \<Longrightarrow> at_bol u"
  by (auto simp: dump_call_def dumpstr_def Let_def sbind_eq_Inr split: if_splits dest: dump_lines_bol)

lemma dump_iovs_bol: "dump_iovs t iov sz n i = Inr u \<Longrightarrow> at_bol u"
proof (induction n arbitrary: i u)
  case (Suc n)
  then obtain len a rest where "dump_call t (of_nat (bytes_num (take sz (drop (2 * sz * i) iov)))) len = Inr a"
    "dump_iovs t iov sz n (i + 1) = Inr rest"
    "u = ('' * '' @ fmt_u (unat (len :: c_long)) @ '' bytes in buffer '' @ fmt_u i) @ CHR 0x0A # a @ rest"
    by (auto simp: sbind_eq_Inr Let_def)
  then show ?case using Suc.IH dump_call_bol at_bol_line at_bol_append by metis
qed simp

lemma dumpio_text_bol: "dumpio_text env s st t = Inr u \<Longrightarrow> at_bol u"
  by (auto simp: dumpio_text_def dumpiov_def Let_def sbind_eq_Inr split: if_splits
      dest: dump_call_bol dump_iovs_bol)

lemma dumpio_line:
  assumes "shared_cfg (opts env)" "ready tcp st" "dumpio env s tcp st = Inr st'"
  shows "\<exists>u. at_bol u \<and> writes tcp u st st'"
proof -
  obtain u where u: "dumpio_text env s st (tcb_at st tcp) = Inr u" "st' = (if u = [] then st else tprints (opts env) u st)"
    using assms(3) by (auto simp: dumpio_def sbind_eq_Inr)
  then show ?thesis using dumpio_text_bol [OF u(1)] writes_tprints [OF assms(1,2), of u]
    by (intro exI [of _ u]) auto
qed

lemma print_result_line:
  assumes cfg: "shared_cfg (opts env)" and r: "ready tcp st"
  shows "\<exists>u. writes tcp (u @ [CHR 0x0A]) st (print_result env s tcp x st)"
proof -
  let ?o = "opts env"
  define st1 where "st1 = tprints ?o '') '' st"
  define st2 where "st2 = tabto ?o st1"
  define st3 where "st3 = (if bad_rval x (tcb_at st2 tcp) then st2\<lparr>errs := errs st2 @ [''invalid rval format'']\<rparr> else st2)"
  define st4 where "st4 = tprintf ?o (result_text env x (tcb_at st3 tcp)) st3"
  define tv where "tv = tv_sub (time_of_day s) (t_etime (tcb_at st4 tcp))"
  define st5 where "st5 = (if Tflag env then tprintf ?o ('' <'' @ fmt_d (tv_sec tv) @ ''.'' @ fmt_06 (tv_usec tv) @ ''>'') st4 else st4)"
  have e: "print_result env s tcp x st = tprints ?o [CHR 0x0A] st5"
    unfolding print_result_def Let_def st5_def tv_def st4_def st3_def st2_def st1_def ..
  have 1: "written tcp st st1" unfolding st1_def by (rule written_tprints [OF cfg r])
  note r1 = written_ready [OF 1 r]
  have 2: "written tcp st1 st2" unfolding st2_def by (rule written_tabto [OF cfg r1])
  note r2 = written_ready [OF 2 r1]
  have 3: "written tcp st2 st3" unfolding st3_def by (intro written_if written_refl writtenI [OF writes_same]) simp_all
  note r3 = written_ready [OF 3 r2]
  have 4: "written tcp st3 st4" unfolding st4_def by (rule written_tprints [OF cfg r3])
  note r4 = written_ready [OF 4 r3]
  have 5: "written tcp st4 st5" unfolding st5_def by (intro written_if written_refl written_tprints [OF cfg r4])
  note r5 = written_ready [OF 5 r4]
  have "written tcp st st5" using 1 2 3 4 5 written_trans by meson
  then obtain u where "writes tcp u st st5" by (auto simp: written_def)
  from writes_trans [OF this writes_tprints [OF cfg r5, of "[CHR 0x0A]"]] show ?thesis unfolding e by blast
qed

text \<open>The log is ours: a line of \<open>tcp\<close> has been begun, possibly just now.\<close>

definition sys_ok :: "senv \<Rightarrow> nat \<Rightarrow> strace \<Rightarrow> bool" where
  "sys_ok env tcp st \<longleftrightarrow> shared_cfg (opts env) \<and> tcb_ok st \<and> log_ok st \<and> ready tcp st \<and> inuse (tcb_at st tcp)"

lemma ptr_ok_same_cores:
  assumes "same_cores st st'" "ready tcp st'" "inuse (tcb_at st tcp)" "tcp < length (tcbtab st)"
    "printing_tcp st' \<in> {None, Some tcp, printing_tcp st}" "tcb_ok st"
  shows "tcb_ok st'"
proof -
  have len: "length (tcbtab st') = length (tcbtab st)" using assms(1) by (simp add: same_cores_def)
  have "tab_ok (tcbtab st') (nprocs st')" using same_cores_tab_ok [OF assms(1)] assms(6) by (simp add: tcb_ok_def)
  moreover have "i < length (tcbtab st) \<and> inuse (tcb_at st' i)" if "printing_tcp st' = Some i" for i
  proof (cases "i = tcp")
    case True
    then show ?thesis using assms(3,4) same_cores_D(2) [OF assms(1,4)] by simp
  next
    case False
    then have "printing_tcp st = Some i" using that assms(5) by auto
    then have "i < length (tcbtab st)" "inuse (tcb_at st i)" using assms(6) by (auto simp: tcb_ok_def ptr_ok_def)
    then show ?thesis using same_cores_D(2) [OF assms(1)] by simp
  qed
  ultimately show ?thesis using assms(2) len by (simp add: tcb_ok_def ptr_ok_def ready_def)
qed

lemma sys_ok_silent:
  assumes "sys_ok env tcp st" "silent tcp st st'"
  shows "sys_ok env tcp st'"
proof -
  have t: "tcp < length (tcbtab st)" using assms(1) by (simp add: sys_ok_def ready_def)
  have sc: "same_cores st st'" and p: "printing_tcp st' = printing_tcp st" using assms(2) by (simp_all add: writes_def)
  have r: "ready tcp st'" using assms writes_ready by (auto simp: sys_ok_def)
  have "tcb_ok st'" using ptr_ok_same_cores [OF sc r] assms(1) t p by (auto simp: sys_ok_def)
  moreover have "log_ok st'" using silent_log_ok [OF assms(2)] assms(1) by (simp add: sys_ok_def)
  ultimately show ?thesis using assms(1) r same_cores_D(2) [OF sc t] by (simp add: sys_ok_def)
qed

lemma sys_ok_in_line:
  assumes "sys_ok env tcp st" "in_line tcp st'" "same_cores st st'"
  shows "sys_ok env tcp st'"
proof -
  have t: "tcp < length (tcbtab st)" using assms(1) by (simp add: sys_ok_def ready_def)
  have r: "ready tcp st'" "printing_tcp st' = Some tcp" using assms(2) by (simp_all add: in_line_def)
  have "tcb_ok st'" using ptr_ok_same_cores [OF assms(3) r(1)] assms(1) t r(2) by (auto simp: sys_ok_def)
  then show ?thesis using assms in_line_log_ok r(1) same_cores_D(2) [OF assms(3) t] by (auto simp: sys_ok_def)
qed

lemma leader_in_line:
  assumes "sys_ok env tcp st"
  shows "in_line tcp (printleader (opts env) m tcp st)" "same_cores st (printleader (opts env) m tcp st)"
  using printleader_line [of "opts env" st tcp m] assms by (auto simp: sys_ok_def ready_def tcb_ok_def)

lemma sys_ok_len: "sys_ok env tcp st \<Longrightarrow> tcp < length (tcbtab st)"
  by (simp add: sys_ok_def ready_def)

lemma sys_ok_ready: "sys_ok env tcp st \<Longrightarrow> ready tcp st" "sys_ok env tcp st \<Longrightarrow> shared_cfg (opts env)"
  by (simp_all add: sys_ok_def)

lemma resume_line_ok:
  assumes "sys_ok env tcp st"
  shows "in_line tcp (resume_line env s tcp st) \<and> same_cores st (resume_line env s tcp st)"
proof -
  let ?go = "(followfork (opts env) < 2 \<and> printing_tcp st \<noteq> Some tcp) \<or> has_flag (tcb_at st tcp) TCB_REPRINT"
  have same: "x\<lparr>printing_tcp := Some tcp\<rparr> = x" if "printing_tcp x = Some tcp" for x :: strace using that by simp
  show ?thesis
  proof (cases ?go)
    case False
    then have p: "printing_tcp st = Some tcp" using assms by (simp add: sys_ok_def shared_cfg_def)
    have "resume_line env s tcp st = st" using False p by (auto simp: resume_line_def Let_def)
    then show ?thesis using log_ok_in_line [of st tcp] assms p by (simp add: sys_ok_def)
  next
    case True
    define st1 where "st1 = upd_tcb tcp (clear_flags TCB_REPRINT) st"
    define st2 where "st2 = printleader (opts env) (leader_time s) tcp st1"
    define st3 where "st3 = tprintf (opts env) (''<... '' @ call_name (tcb_at st2 tcp) @ '' resumed> '') st2"
    have 1: "silent tcp st st1" unfolding st1_def using sys_ok_len [OF assms] by (intro silent_flags(2)) simp_all
    then have ok1: "sys_ok env tcp st1" using assms sys_ok_silent by blast
    have 2: "in_line tcp st2" "same_cores st1 st2" using leader_in_line [OF ok1] by (simp_all add: st2_def)
    have r2: "ready tcp st2" using 2(1) by (simp add: in_line_def)
    have 3: "written tcp st2 st3" unfolding st3_def using sys_ok_ready(2) [OF assms] r2 by (rule written_tprints)
    have l3: "in_line tcp st3" using 2(1) 3 by (rule in_line_written)
    have "resume_line env s tcp st = st3"
      unfolding resume_line_def if_P [OF True] Let_def st1_def [symmetric] st2_def [symmetric] st3_def [symmetric]
      using l3 by (intro same) (simp add: in_line_def)
    moreover have "same_cores st st3"
      using 1 2(2) written_same_cores [OF 3] same_cores_trans by (meson writes_def)
    ultimately show ?thesis using l3 by simp
  qed
qed

lemma sys_ok_ended:
  assumes "sys_ok env tcp st" "in_line tcp st'" "same_cores st st'" "at_bol (out st' SharedLog)"
  shows "sys_ok env tcp (line_ended st') \<and> same_cores st (line_ended st')"
proof -
  note e = in_line_ended [OF assms(2,4)]
  have t: "tcp < length (tcbtab st)" using assms(1) by (rule sys_ok_len)
  have sc: "same_cores st (line_ended st')" using e assms(3) same_cores_trans by blast
  have "ready tcp st'" using assms(2) by (simp add: in_line_def)
  then have r: "ready tcp (line_ended st')"
    using e same_cores_D(3) [of st' "line_ended st'" tcp] by (auto simp: ready_def same_cores_def)
  have "tcb_ok (line_ended st')" using ptr_ok_same_cores [OF sc r] assms(1) t e by (simp add: sys_ok_def)
  then show ?thesis using assms(1) e r sc same_cores_D(2) [OF sc t] by (simp add: sys_ok_def)
qed

lemma has_flag_clear: "\<not> has_flag (clear_flags f t) f"
  by (simp add: has_flag_def clear_flags_def and.assoc)

lemma has_flag_set: "f AND g = g \<Longrightarrow> g \<noteq> 0 \<Longrightarrow> has_flag (set_flags f t) g"
  by (simp add: has_flag_def set_flags_def bit.conj_disj_distrib2 or_eq_0_iff)

lemma exiting_ret_ok:
  assumes "sys_ok env tcp st" "sys_ok env tcp st'" "same_cores st st'"
  shows "sys_ok env tcp (exiting_ret tcp st') \<and> same_cores st (exiting_ret tcp st')
    \<and> \<not> exiting (tcb_at (exiting_ret tcp st') tcp)"
proof -
  have l: "tcp < length (tcbtab st')" using assms(2) by (rule sys_ok_len)
  have s: "silent tcp st' (exiting_ret tcp st')" using l by (rule silent_exiting_ret)
  have "\<not> exiting (tcb_at (exiting_ret tcp st') tcp)"
    using l has_flag_clear by (simp add: exiting_ret_def tcb_simps)
  then show ?thesis using sys_ok_silent [OF assms(2) s] same_cores_trans [OF assms(3)] s by (simp add: writes_def)
qed

lemma finish_exit_ok:
  assumes ok: "sys_ok env tcp st" and f: "finish_exit env s tcp st = Inr (r, st')"
  shows "sys_ok env tcp st' \<and> same_cores st st' \<and> \<not> exiting (tcb_at st' tcp)"
proof -
  have cfg: "shared_cfg (opts env)" using ok by (rule sys_ok_ready)
  define st1 where "st1 = resume_line env s tcp st"
  have l1: "in_line tcp st1" "same_cores st st1" using resume_line_ok [OF ok] by (simp_all add: st1_def)
  have r1: "ready tcp st1" using l1(1) by (simp add: in_line_def)
  show ?thesis
  proof (cases "get_regs_error st1")
    case True
    define st2 where "st2 = tabto (opts env) (tprints (opts env) '') '' st1)"
    define st3 where "st3 = tprints (opts env) (''= ? <unavailable>'' @ [CHR 0x0A]) st2"
    have "written tcp st1 (tprints (opts env) '') '' st1)" using cfg r1 by (rule written_tprints)
    moreover from this have "written tcp (tprints (opts env) '') '' st1) st2"
      unfolding st2_def using cfg r1 written_ready by (intro written_tabto)
    ultimately have w2: "written tcp st1 st2" by (rule written_trans)
    have r2: "ready tcp st2" using w2 r1 by (rule written_ready)
    have w3: "writes tcp (''= ? <unavailable>'' @ [CHR 0x0A]) st2 st3" unfolding st3_def using cfg r2 by (rule writes_tprints)
    have l3: "in_line tcp st3" using in_line_writes [OF in_line_written [OF l1(1) w2] w3] .
    have bol: "at_bol (out st3 SharedLog)" using w3 by (simp add: writes_def at_bol_def)
    have sc3: "same_cores st st3"
      using l1(2) written_same_cores [OF w2] w3 same_cores_trans by (meson writes_def)
    note e = sys_ok_ended [OF ok l3 sc3 bol]
    have "st' = exiting_ret tcp (line_ended st3)"
      using f True by (simp add: finish_exit_def Let_def st1_def [symmetric] st2_def [symmetric] st3_def)
    then show ?thesis using exiting_ret_ok [OF ok] e by blast
  next
    case False
    show ?thesis
    proof (cases "t_qual_flg (tcb_at st1 tcp) AND QUAL_RAW = 0 \<and> not_failing_only env \<and> t_u_error (tcb_at st1 tcp) \<noteq> 0")
      case True
      then have "st' = exiting_ret tcp st1" using f False by (simp add: finish_exit_def Let_def st1_def [symmetric])
      then show ?thesis using exiting_ret_ok [OF ok] sys_ok_in_line [OF ok l1] l1(2) by blast
    next
      case nf: False
      obtain x st2 st4 where
        2: "(if t_qual_flg (tcb_at st1 tcp) AND QUAL_RAW \<noteq> 0 then Inr (0, st1) else call_sys_func env s tcp st1) = Inr (x, st2)"
        and 4: "dumpio env s tcp (print_result env s tcp x st2) = Inr st4"
        and st': "st' = exiting_ret tcp (line_ended st4)"
        using f False nf unfolding finish_exit_def Let_def st1_def [symmetric]
        by (auto simp: sbind_eq_Inr split: prod.splits if_splits)
      have w2: "written tcp st1 st2" using 2 written_sys_func [OF cfg r1] by (auto split: if_splits)
      have r2: "ready tcp st2" using w2 r1 by (rule written_ready)
      obtain u where w3: "writes tcp (u @ [CHR 0x0A]) st2 (print_result env s tcp x st2)"
        using print_result_line [OF cfg r2] by blast
      have r3: "ready tcp (print_result env s tcp x st2)" using w3 r2 by (rule writes_ready)
      obtain v where v: "at_bol v" "writes tcp v (print_result env s tcp x st2) st4"
        using dumpio_line [OF cfg r3 4] by blast
      have w4: "writes tcp ((u @ [CHR 0x0A]) @ v) st2 st4" using writes_trans [OF w3 v(2)] .
      have l4: "in_line tcp st4" using in_line_writes [OF in_line_written [OF l1(1) w2] w4] .
      have "out st4 SharedLog = out st2 SharedLog @ (u @ [CHR 0x0A]) @ v" using w4 by (simp add: writes_def)
      then have bol: "at_bol (out st4 SharedLog)" using v(1) at_bol_line [of v "out st2 SharedLog @ u"] by simp
      have sc4: "same_cores st st4" using l1(2) written_same_cores [OF w2] w4 same_cores_trans by (meson writes_def)
      show ?thesis unfolding st' using exiting_ret_ok [OF ok] sys_ok_ended [OF ok l4 sc4 bol] by blast
    qed
  qed
qed

lemma entering_ret_ok:
  assumes "sys_ok env tcp st'" "same_cores st st'"
  shows "sys_ok env tcp (entering_ret env s tcp st') \<and> same_cores st (entering_ret env s tcp st')
    \<and> exiting (tcb_at (entering_ret env s tcp st') tcp)"
proof -
  have l: "tcp < length (tcbtab st')" using assms(1) by (rule sys_ok_len)
  have s: "silent tcp st' (entering_ret env s tcp st')" using l by (rule silent_entering_ret)
  have "exiting (tcb_at (entering_ret env s tcp st') tcp)"
    using l has_flag_set [of TCB_INSYSCALL TCB_INSYSCALL "tcb_at st' tcp"]
    by (simp add: entering_ret_def tcb_simps Let_def has_flag_def)
  then show ?thesis using sys_ok_silent [OF assms(1) s] same_cores_trans [OF assms(2)] s by (simp add: writes_def)
qed

lemma report_entry_ok:
  assumes ok: "sys_ok env tcp st" and f: "report_entry env s tcp st = Inr (r, st')"
  shows "sys_ok env tcp st' \<and> same_cores st st' \<and> exiting (tcb_at st' tcp)"
proof -
  have cfg: "shared_cfg (opts env)" using ok by (rule sys_ok_ready)
  have l: "tcp < length (tcbtab st)" using ok by (rule sys_ok_len)
  show ?thesis
  proof (cases "t_qual_flg (tcb_at st tcp) AND QUAL_TRACE = 0
      \<or> (case pathtrace env of Some match \<Rightarrow> \<not> match (tcb_at st tcp) | None \<Rightarrow> False)")
    case True
    let ?fl = "TCB_INSYSCALL OR TCB_FILTERED"
    have st': "st' = upd_tcb tcp (set_flags ?fl) st" using f True unfolding report_entry_def by (simp only: if_True) simp
    have s: "silent tcp st st'" unfolding st' using l by (intro silent_flags(1)) simp_all
    have "exiting (tcb_at st' tcp)" unfolding st' using l has_flag_set [of ?fl TCB_INSYSCALL "tcb_at st tcp"] by (simp add: tcb_simps)
    then show ?thesis using sys_ok_silent [OF ok s] s by (simp add: writes_def)
  next
    case False
    define st1 where "st1 = upd_tcb tcp (clear_flags TCB_FILTERED) st"
    have s1: "silent tcp st st1" unfolding st1_def using l by (intro silent_flags(2)) simp_all
    have ok1: "sys_ok env tcp st1" using sys_ok_silent [OF ok s1] .
    have sc1: "same_cores st st1" using s1 by (simp add: writes_def)
    show ?thesis
    proof (cases "cflag env = CFLAG_ONLY_STATS \<or> hide_log_until_execve st1")
      case True
      then have "st' = entering_ret env s tcp st1" using f False unfolding report_entry_def st1_def [symmetric] Let_def by simp
      then show ?thesis using entering_ret_ok [OF ok1 sc1] by simp
    next
      case pr: False
      define st2 where "st2 = printleader (opts env) (leader_time s) tcp st1"
      define st3 where "st3 = tprintf (opts env) (call_name (tcb_at st2 tcp) @ ''('') st2"
      obtain x st4 where 4: "(if t_qual_flg (tcb_at st3 tcp) AND QUAL_RAW \<noteq> 0 \<and> \<not> sys_func_is ''sys_exit'' (tcb_at st3 tcp)
                        then sbind (printargs env tcp st3) (\<lambda>st. Inr (0, st))
                        else call_sys_func env s tcp st3) = Inr (x, st4)" and st': "st' = entering_ret env s tcp st4"
        using f False pr unfolding report_entry_def Let_def st1_def [symmetric] st2_def [symmetric] st3_def [symmetric]
        by (auto simp: sbind_eq_Inr split: prod.splits if_splits)
      have l2: "in_line tcp st2" "same_cores st1 st2" using leader_in_line [OF ok1] by (simp_all add: st2_def)
      have r2: "ready tcp st2" using l2(1) by (simp add: in_line_def)
      have w3: "written tcp st2 st3" unfolding st3_def using cfg r2 by (rule written_tprints)
      have r3: "ready tcp st3" using w3 r2 by (rule written_ready)
      have w4: "written tcp st3 st4"
        using 4 written_sys_func [OF cfg r3] written_args [OF cfg r3] unfolding printargs_def
        by (auto simp: sbind_eq_Inr split: if_splits)
      have l4: "in_line tcp st4" using in_line_written [OF in_line_written [OF l2(1) w3] w4] .
      have sc4: "same_cores st st4"
        using sc1 l2(2) written_same_cores [OF w3] written_same_cores [OF w4] same_cores_trans by meson
      show ?thesis unfolding st' by (rule entering_ret_ok [OF sys_ok_in_line [OF ok l4 sc4] sc4])
    qed
  qed
qed

lemma get_scno_regs: "regs (get_scno env tcp st) = regs st"
  by (simp add: get_scno_def select_ent_def update_personality_def set_personality_def Let_def split: regs.splits)

lemma entering_ok:
  assumes ok: "sys_ok env tcp st" and f: "trace_syscall_entering env s tcp st = Inr (r, st')"
  shows "sys_ok env tcp st' \<and> same_cores st st'
    \<and> (exiting (tcb_at st' tcp) \<or> \<not> get_regs_error st \<and> \<not> syscall_fixup_on_sysenter st \<and> r = 0)"
proof (cases "get_regs_error st")
  case True
  let ?st = "printleader (opts env) (leader_time s) tcp st"
  have l: "in_line tcp ?st" "same_cores st ?st" using leader_in_line [OF ok] by simp_all
  have w: "written tcp ?st (tprints (opts env) ''????('' ?st)"
    using sys_ok_ready(2) [OF ok] l(1) by (intro written_tprints) (simp_all add: in_line_def)
  have sc: "same_cores st (tprints (opts env) ''????('' ?st)" using l(2) written_same_cores [OF w] by (rule same_cores_trans)
  have "st' = entering_ret env s tcp (tprints (opts env) ''????('' ?st)"
    using f True by (simp add: trace_syscall_entering_def Let_def)
  then show ?thesis
    using entering_ret_ok [OF sys_ok_in_line [OF ok in_line_written [OF l(1) w] sc] sc] by simp
next
  case False
  define st1 where "st1 = get_scno env tcp st"
  have s1: "silent tcp st st1" unfolding st1_def using sys_ok_len [OF ok] by (rule silent_get_scno)
  have fix1: "syscall_fixup_on_sysenter st1 = syscall_fixup_on_sysenter st"
    by (simp add: syscall_fixup_on_sysenter_def st1_def get_scno_regs)
  show ?thesis
  proof (cases "syscall_fixup_on_sysenter st1")
    case no: False
    then have "st' = st1" "r = 0" using f False by (simp_all add: trace_syscall_entering_def Let_def st1_def)
    then show ?thesis using sys_ok_silent [OF ok s1] s1 no fix1 False by (simp add: writes_def)
  next
    case yes: True
    define st2 where "st2 = get_syscall_args tcp st1"
    define st3 where "st3 = (if sys_func_is ''sys_execve'' (tcb_at st2 tcp) then st2\<lparr>hide_log_until_execve := False\<rparr> else st2)"
    obtain st4 where 4: "decode_subcall env s tcp st3 = Inr st4" and 5: "report_entry env s tcp st4 = Inr (r, st')"
      using f yes False unfolding trace_syscall_entering_def Let_def st1_def [symmetric] st2_def [symmetric] st3_def [symmetric]
      by (auto simp: sbind_eq_Inr)
    have l1: "tcp < length (tcbtab st1)" using silent_len [OF s1] sys_ok_len [OF ok] by simp
    have s2: "silent tcp st1 st2" unfolding st2_def using l1 by (rule silent_get_args)
    have s3: "silent tcp st2 st3" by (rule writes_same) (simp_all add: st3_def)
    have l3: "tcp < length (tcbtab st3)" using l1 silent_len [OF s2] silent_len [OF s3] by simp
    have s4: "silent tcp st3 st4" using l3 4 by (rule silent_decode_subcall)
    have s: "silent tcp st st4" using silent_trans [OF silent_trans [OF s1 s2] silent_trans [OF s3 s4]] .
    have sc: "same_cores st st4" using s by (simp add: writes_def)
    show ?thesis using report_entry_ok [OF sys_ok_silent [OF ok s] 5] same_cores_trans [OF sc] by blast
  qed
qed

lemma exiting_ok:
  assumes ok: "sys_ok env tcp st" and f: "trace_syscall_exiting env s tcp st = Inr (r, st')"
  shows "sys_ok env tcp st' \<and> same_cores st st' \<and> \<not> exiting (tcb_at st' tcp)"
proof -
  define st1 where "st1 = update_personality env tcp (t_currpers (tcb_at st tcp)) st"
  define st2 where "st2 = (if get_regs_error st1 then st1 else get_error env tcp st1)"
  have s1: "silent tcp st st1" unfolding st1_def using sys_ok_len [OF ok] by (rule silent_personality)
  have l1: "tcp < length (tcbtab st1)" using silent_len [OF s1] sys_ok_len [OF ok] by simp
  have s2: "silent tcp st1 st2" unfolding st2_def using silent_get_error [OF l1] by simp
  have s12: "silent tcp st st2" using s1 s2 by (rule silent_trans)
  have sc2: "same_cores st st2" using s12 by (simp add: writes_def)
  note ok2 = sys_ok_silent [OF ok s12]
  show ?thesis
  proof (cases "\<not> get_regs_error st2 \<and> (has_flag (tcb_at st2 tcp) TCB_FILTERED \<or> hide_log_until_execve st2)")
    case True
    then have "st' = exiting_ret tcp st2"
      using f unfolding trace_syscall_exiting_def Let_def st1_def [symmetric] st2_def [symmetric] by simp
    then show ?thesis using exiting_ret_ok [OF ok ok2 sc2] by simp
  next
    case False
    then obtain st3 where 3: "(if cflag env \<noteq> CFLAG_NONE then fails EDie (count_syscall (tabs env) (tick s) tcp (time_of_day s) st2)
                    else Inr st2) = Inr st3"
      and 4: "(if cflag env = CFLAG_ONLY_STATS then Inr (0, exiting_ret tcp st3) else fails EFault (finish_exit env s tcp st3)) = Inr (r, st')"
      using f unfolding trace_syscall_exiting_def Let_def st1_def [symmetric] st2_def [symmetric]
      by (auto simp: sbind_eq_Inr)
    have s3: "silent tcp st2 st3"
      using 3 silent_count by (auto simp: fails_def split: if_splits sum.splits)
    have s: "silent tcp st st3" using s12 s3 by (rule silent_trans)
    have sc3: "same_cores st st3" using s by (simp add: writes_def)
    note ok3 = sys_ok_silent [OF ok s]
    show ?thesis
    proof (cases "cflag env = CFLAG_ONLY_STATS")
      case True
      then show ?thesis using 4 exiting_ret_ok [OF ok ok3 sc3] by simp
    next
      case only: False
      then have "finish_exit env s tcp st3 = Inr (r, st')" using 4 by (auto simp: fails_def split: sum.splits)
      from finish_exit_ok [OF ok3 this] show ?thesis using same_cores_trans [OF sc3] by blast
    qed
  qed
qed

end
