(* ===== verification/Syscall_Safe.thy ===== *)
theory Syscall_Safe
  imports Syscall_Correct
begin

text \<open>
  The arguments of a call and its decoder: with the system call tables of the x86\_64 build the entry
  handler never goes wrong, whatever the registers hold. The theory ends with the properties of
  system call stops.
\<close>

subsection \<open>Arguments and decoders\<close>

text \<open>The calls of the blocks: their table entries and arguments. Printing does not touch them.\<close>

definition calls :: "strace \<Rightarrow> (sysent option \<times> c_long list) list" where
  "calls st = map (\<lambda>t. (t_s_ent t, t_u_arg t)) (tcbtab st)"

lemma calls_upd:
  assumes "\<And>t. t_s_ent (f t) = t_s_ent t" "\<And>t. t_u_arg (f t) = t_u_arg t"
  shows "calls (upd_tcb i f st) = calls st"
proof -
  have "map (\<lambda>t. (t_s_ent t, t_u_arg t)) ((tcbtab st)[i := f (tcbtab st ! i)])
      = (map (\<lambda>t. (t_s_ent t, t_u_arg t)) (tcbtab st))[i := (t_s_ent (tcbtab st ! i), t_u_arg (tcbtab st ! i))]"
    using assms by (simp add: map_update)
  also have "\<dots> = map (\<lambda>t. (t_s_ent t, t_u_arg t)) (tcbtab st)"
    by (cases "i < length (tcbtab st)") (simp_all add: list_update_beyond list_update_same_conv)
  finally show ?thesis by (simp add: calls_def upd_tcb_def tcb_at_def)
qed

lemma calls_globals [simp]:
  "calls (st\<lparr>current_tcp := a\<rparr>) = calls st" "calls (st\<lparr>printing_tcp := a\<rparr>) = calls st" "calls (st\<lparr>otv := b\<rparr>) = calls st"
  "calls (st\<lparr>errs := c\<rparr>) = calls st" "calls (st\<lparr>hide_log_until_execve := d\<rparr>) = calls st"
  "calls (emit_out cfg f u st) = calls st" "calls (upd_tcb i (\<lambda>t. t\<lparr>t_curcol := g t\<rparr>) st) = calls st"
  "calls (upd_tcb i (clear_flags fl) st) = calls st" "calls (upd_tcb i (set_flags fl) st) = calls st"
  by (simp_all add: calls_upd clear_flags_def set_flags_def) (simp_all add: calls_def)

lemma calls_tprints [simp]: "calls (tprints cfg u st) = calls st"
  by (auto simp: tprints_def split: option.splits)

lemma calls_finish_line [simp]: "calls (finish_line cfg tcp st) = calls st"
  by (auto simp: finish_line_def Let_def split: option.splits)

lemma calls_leader [simp]: "calls (printleader cfg m tcp st) = calls st"
  by (simp add: printleader_def Let_def printcall_def print_time_def)

lemma calls_length: "calls st' = calls st \<Longrightarrow> length (tcbtab st') = length (tcbtab st)"
  unfolding calls_def by (rule map_eq_imp_length_eq)

lemma calls_at:
  assumes "calls st' = calls st" "j < length (tcbtab st)"
  shows "t_s_ent (tcb_at st' j) = t_s_ent (tcb_at st j)" "t_u_arg (tcb_at st' j) = t_u_arg (tcb_at st j)"
proof -
  have "length (tcbtab st') = length (tcbtab st)" using assms(1) by (rule calls_length)
  then have "(t_s_ent (tcb_at st' j), t_u_arg (tcb_at st' j)) = (t_s_ent (tcb_at st j), t_u_arg (tcb_at st j))"
    using arg_cong [OF assms(1), of "\<lambda>xs. xs ! j"] assms(2) by (simp add: calls_def tcb_at_def)
  then show "t_s_ent (tcb_at st' j) = t_s_ent (tcb_at st j)" "t_u_arg (tcb_at st' j) = t_u_arg (tcb_at st j)" by simp_all
qed

text \<open>A call that can be printed: an entry with a decoder and not more arguments than there are.\<close>

definition call_ok :: "nat \<Rightarrow> strace \<Rightarrow> bool" where
  "call_ok tcp st \<longleftrightarrow> tcp < length (tcbtab st) \<and> length (t_u_arg (tcb_at st tcp)) = 6
     \<and> (\<exists>e. t_s_ent (tcb_at st tcp) = Some e \<and> nargs e \<le> 6 \<and> sys_func e \<noteq> None)"

lemma call_ok_calls: "call_ok tcp st \<Longrightarrow> calls st' = calls st \<Longrightarrow> call_ok tcp st'"
  using calls_at [of st' st tcp] calls_length [of st' st] by (simp add: call_ok_def)

lemma call_sys_func_total:
  assumes "call_ok tcp st"
  shows "\<exists>x st'. call_sys_func env s tcp st = Inr (x, st')" "\<exists>st'. printargs env tcp st = Inr st'"
proof -
  obtain e f where e: "t_s_ent (tcb_at st tcp) = Some e" "nargs e \<le> 6" "sys_func e = Some f" "length (t_u_arg (tcb_at st tcp)) = 6"
    using assms by (auto simp: call_ok_def)
  have a: "\<exists>st'. args_with fmt env tcp st = Inr st'" for fmt using e by (simp add: args_with_def args_text_def Let_def)
  then show "\<exists>st'. printargs env tcp st = Inr st'" by (simp add: printargs_def)
  show "\<exists>x st'. call_sys_func env s tcp st = Inr (x, st')"
    using a e(1,3) by (auto simp: call_sys_func_def printargs_def printargs_lu_def printargs_ld_def sbind_eq_Inr Let_def split: prod.splits)
qed

lemma report_entry_total:
  assumes "call_ok tcp st"
  shows "\<exists>r st'. report_entry env s tcp st = Inr (r, st')"
proof -
  define st3 where "st3 = (let st = upd_tcb tcp (clear_flags TCB_FILTERED) st;
      st = printleader (opts env) (leader_time s) tcp st in tprintf (opts env) (call_name (tcb_at st tcp) @ ''('') st)"
  have "calls st3 = calls st" by (simp add: st3_def Let_def)
  with assms have ok: "call_ok tcp st3" by (rule call_ok_calls)
  obtain x st4 y st5 where "call_sys_func env s tcp st3 = Inr (x, st4)" "printargs env tcp st3 = Inr st5"
    using call_sys_func_total [OF ok] by blast
  then show ?thesis by (auto simp: report_entry_def st3_def Let_def)
qed

subsection \<open>The tables of the x86\_64 build\<close>

lemma sysent_no_multiplex:
  "list_all (\<lambda>e. sys_func e \<noteq> Some ''sys_socketcall'' \<and> sys_func e \<noteq> Some ''sys_ipc'') sysent0"
  "list_all (\<lambda>e. sys_func e \<noteq> Some ''sys_socketcall'' \<and> sys_func e \<noteq> Some ''sys_ipc'') sysent2"
  by (simp_all add: sysent0_defs sysent2_defs ent_def no_ent_def list_all_replicate)

lemma sysent1_subcalls:
  "list_all (\<lambda>e. sys_func e \<noteq> None) (drop 400 sysent1)" "list_all (\<lambda>e. nargs e < 6) (drop 420 sysent1)"
  by (simp_all add: sysent1_defs ent_def no_ent_def)

definition x86_64_env :: "senv \<Rightarrow> bool" where
  "x86_64_env env \<longleftrightarrow> sysent_vec (tabs env) = [sysent0, sysent1, sysent2]"

lemma x86_64_cur_sysent:
  assumes "x86_64_env env" "current_personality st < SUPPORTED_PERSONALITIES" "e \<in> set (cur_sysent (tabs env) st)"
  shows "nargs e \<le> 6" "sys_func e \<in> {Some ''sys_socketcall'', Some ''sys_ipc''} \<Longrightarrow> current_personality st = 1"
proof -
  have p: "current_personality st = 0 \<or> current_personality st = 1 \<or> current_personality st = 2" using assms(2) by auto
  show "nargs e \<le> 6" using p assms(1,3) sysent_nargs by (auto simp: x86_64_env_def list_all_iff)
  show "current_personality st = 1" if "sys_func e \<in> {Some ''sys_socketcall'', Some ''sys_ipc''}"
    using p assms(1,3) that sysent_no_multiplex by (auto simp: x86_64_env_def list_all_iff)
qed

lemma update_personality_pers: "current_personality (update_personality env tcp p st) = p"
  by (simp add: update_personality_def set_personality_def Let_def)

lemma get_scno_call:
  assumes "x86_64_env env" "tcp < length (tcbtab st)"
  defines "st1 \<equiv> get_scno env tcp st"
  shows "tcp < length (tcbtab st1) \<and> current_personality st1 < SUPPORTED_PERSONALITIES
    \<and> (\<exists>e. t_s_ent (tcb_at st1 tcp) = Some e \<and> nargs e \<le> 6 \<and> sys_func e \<noteq> None
        \<and> (sys_func e \<in> {Some ''sys_socketcall'', Some ''sys_ipc''} \<longrightarrow> current_personality st1 = 1))"
proof -
  define sp where "sp = (case regs st of I386_regs r \<Rightarrow> (ucast (orig_eax r), 1)
        | X86_64_regs r \<Rightarrow> if orig_rax r AND x32_bit \<noteq> 0 then (orig_rax r - x32_bit, 2 :: nat) else (orig_rax r, 0))"
  define scno where "scno = fst sp"
  define p where "p = snd sp"
  have p: "st1 = select_ent env scno tcp (update_personality env tcp p st)" "p < SUPPORTED_PERSONALITIES"
    by (simp_all add: st1_def get_scno_def Let_def case_prod_unfold sp_def scno_def p_def split: regs.split)
  define st0 where "st0 = update_personality env tcp p st"
  have l0: "tcp < length (tcbtab st0)"
    using silent_len [OF silent_personality [OF assms(2)]] assms(2) by (simp add: st0_def)
  have p0: "current_personality st0 = p" by (simp add: st0_def update_personality_pers)
  have e1: "t_s_ent (tcb_at st1 tcp) = Some (if scno_is_valid (tabs env) st0 scno then cur_sysent (tabs env) st0 ! unat scno else unknown_ent)"
    and f1: "current_personality st1 = p" "tcp < length (tcbtab st1)"
    using l0 p0 by (simp_all add: p(1) st0_def [symmetric] select_ent_def tcb_simps)
  show ?thesis
  proof (cases "scno_is_valid (tabs env) st0 scno")
    case False
    then show ?thesis using e1 f1 p(2) by (simp add: unknown_ent_def)
  next
    case True
    let ?e = "cur_sysent (tabs env) st0 ! unat scno"
    have "?e \<in> set (cur_sysent (tabs env) st0)" "sys_func ?e \<noteq> None"
      using True by (auto simp: scno_is_valid_def scno_in_range_def)
    then show ?thesis using x86_64_cur_sysent [OF assms(1), of st0 ?e] True e1 f1 p p0 by auto
  qed
qed

lemma subcall_args_total:
  assumes "honest (tr_kernel t) mem"
  shows "\<exists>as. subcall_args t sz n addr = Inr as \<and> length as = n"
proof (induction n arbitrary: addr)
  case (Suc n)
  obtain r str' ns ms where "tr_umoven t addr sz (replicate sz CHR 0x00) = Inr (r, str', ns, ms)"
    by (rule moven.readE [OF assms, of sz "replicate sz CHR 0x00" "tr_wordsize t" "tr_notsup t" addr]) auto
  then have "\<exists>a. subcall_arg t sz addr = Inr a" by (simp add: subcall_arg_def)
  then show ?case using Suc.IH [of "addr + of_nat sz"] by auto
qed simp

lemma switch_subcall:
  assumes "x86_64_env env" "tcp < length (tcbtab st)" "current_personality st = 1" "n < 45"
  defines "e \<equiv> cur_sysent (tabs env) st ! (400 + n)"
  shows "t_s_ent (tcb_at (switch_scno env (400 + n) tcp st) tcp) = Some e" "sys_func e \<noteq> None" "nargs e \<le> 6"
    "20 \<le> n \<Longrightarrow> nargs e < 6" "t_u_arg (tcb_at (switch_scno env (400 + n) tcp st) tcp) = t_u_arg (tcb_at st tcp)"
    "tcp < length (tcbtab (switch_scno env (400 + n) tcp st))"
proof -
  have e: "e = sysent1 ! (400 + n)" using assms(1,3) by (simp add: e_def x86_64_env_def)
  show "t_s_ent (tcb_at (switch_scno env (400 + n) tcp st) tcp) = Some e" "tcp < length (tcbtab (switch_scno env (400 + n) tcp st))"
    "t_u_arg (tcb_at (switch_scno env (400 + n) tcp st) tcp) = t_u_arg (tcb_at st tcp)"
    using assms(2) by (simp_all add: switch_scno_def tcb_simps e_def)
  have "drop 400 sysent1 ! n = e" "n < length (drop 400 sysent1)" using assms(4) by (simp_all add: e length_sysents)
  then have "e \<in> set (drop 400 sysent1)" by (metis nth_mem)
  then show "sys_func e \<noteq> None" using sysent1_subcalls(1) by (simp add: list_all_iff)
  have "e \<in> set sysent1" using assms(4) by (simp add: e length_sysents)
  then show "nargs e \<le> 6" using sysent_nargs(2) by (simp add: list_all_iff)
  assume "20 \<le> n"
  then have "drop 420 sysent1 ! (n - 20) = e" "n - 20 < length (drop 420 sysent1)" using assms(4) by (simp_all add: e length_sysents)
  then have "e \<in> set (drop 420 sysent1)" by (metis nth_mem)
  then show "nargs e < 6" using sysent1_subcalls(2) by (simp add: list_all_iff)
qed

lemma decode_subcall_total:
  assumes env: "x86_64_env env" and h: "honest (tr_kernel (mem_of s)) mem" and ok: "call_ok tcp st"
    and pers: "\<And>e. t_s_ent (tcb_at st tcp) = Some e \<Longrightarrow> sys_func e \<in> {Some ''sys_socketcall'', Some ''sys_ipc''} \<Longrightarrow> current_personality st = 1"
  shows "\<exists>st'. decode_subcall env s tcp st = Inr st' \<and> call_ok tcp st'"
proof -
  let ?call = "sint (t_u_arg (tcb_at st tcp) ! 0)"
  have l: "tcp < length (tcbtab st)" "length (t_u_arg (tcb_at st tcp)) = 6" using ok by (simp_all add: call_ok_def)
  have p: "current_personality st = 1" if "sys_func_is ''sys_socketcall'' (tcb_at st tcp) \<or> sys_func_is ''sys_ipc'' (tcb_at st tcp)"
    using that pers by (auto simp: sys_func_is_def split: option.splits)
  have sock: "\<exists>st'. decode_socket_subcall env s tcp st = Inr st' \<and> call_ok tcp st'" if p1: "current_personality st = 1"
  proof (cases "?call < 0 \<or> ?call \<ge> 20")
    case True
    then show ?thesis using ok by (simp add: decode_socket_subcall_def)
  next
    case False
    then have n: "nat ?call < 45" by (auto simp: nat_less_iff)
    note w = switch_subcall [OF env l(1) p1 n]
    let ?st = "switch_scno env (400 + nat ?call) tcp st" and ?e = "cur_sysent (tabs env) st ! (400 + nat ?call)"
    have pp: "current_personality ?st = current_personality st" by (simp add: switch_scno_def)
    have hs: "honest (tr_kernel (tracee_at s ?st)) mem" using h by (simp add: tracee_at_def)
    obtain as where as: "subcall_args (tracee_at s ?st) (if current_wordsize ?st = 4 then 4 else 8) (nargs ?e)
        (t_u_arg (tcb_at st tcp) ! 1) = Inr as" "length as = nargs ?e"
      using subcall_args_total [OF hs] by blast
    then show ?thesis
      using False w l by (auto simp: decode_socket_subcall_def Let_def pp call_ok_def tcb_simps)
  qed
  have ipc: "\<exists>st'. decode_ipc_subcall env tcp st = Inr st' \<and> call_ok tcp st'" if p1: "current_personality st = 1"
  proof (cases "?call < 0 \<or> ?call \<ge> 25")
    case True
    then show ?thesis using ok by (simp add: decode_ipc_subcall_def)
  next
    case False
    then have n: "20 + nat ?call < 45" "20 \<le> 20 + nat ?call" by auto
    note w = switch_subcall [OF env l(1) p1 n(1)]
    have i: "400 + (20 + nat ?call) = 420 + nat ?call" by simp
    have pp: "current_personality (switch_scno env (420 + nat ?call) tcp st) = current_personality st" by (simp add: switch_scno_def)
    show ?thesis
      using False w(1-3,5,6) w(4) [OF n(2)] l unfolding i
      by (auto simp: decode_ipc_subcall_def Let_def pp call_ok_def tcb_simps)
  qed
  show ?thesis using sock ipc p ok by (auto simp: decode_subcall_def)
qed

lemma entering_total:
  assumes env: "x86_64_env env" and l: "tcp < length (tcbtab st)" and h: "honest (tr_kernel (mem_of s)) mem"
  shows "\<exists>r st'. trace_syscall_entering env s tcp st = Inr (r, st')"
proof (cases "get_regs_error st")
  case True
  then show ?thesis by (simp add: trace_syscall_entering_def)
next
  case False
  define st1 where "st1 = get_scno env tcp st"
  define st2 where "st2 = get_syscall_args tcp st1"
  define st3 where "st3 = (if sys_func_is ''sys_execve'' (tcb_at st2 tcp) then st2\<lparr>hide_log_until_execve := False\<rparr> else st2)"
  obtain e where 1: "tcp < length (tcbtab st1)" "t_s_ent (tcb_at st1 tcp) = Some e" "nargs e \<le> 6" "sys_func e \<noteq> None"
    "sys_func e \<in> {Some ''sys_socketcall'', Some ''sys_ipc''} \<longrightarrow> current_personality st1 = 1"
    using get_scno_call [OF env l] by (auto simp: st1_def)
  have c: "calls st3 = calls st2" by (simp add: st3_def)
  have 2: "call_ok tcp st2" "t_s_ent (tcb_at st2 tcp) = Some e" "tcp < length (tcbtab st2)"
    using 1 by (auto simp: st2_def get_syscall_args_def call_ok_def tcb_simps split: regs.splits)
  have ok3: "call_ok tcp st3" using 2(1) c by (rule call_ok_calls)
  have e3: "t_s_ent (tcb_at st3 tcp) = Some e" using calls_at(1) [OF c 2(3)] 2(2) by simp
  have "current_personality st3 = current_personality st1" by (simp add: st3_def st2_def get_syscall_args_def)
  then obtain st4 where "decode_subcall env s tcp st3 = Inr st4" "call_ok tcp st4"
    using decode_subcall_total [OF env h ok3] e3 1(5) by auto
  then show ?thesis
    using False report_entry_total [of tcp st4 env s]
    by (auto simp: trace_syscall_entering_def Let_def st1_def [symmetric] st2_def [symmetric] st3_def [symmetric])
qed

subsection \<open>Properties\<close>

text \<open>
  C13. \<open>get_error\<close> for a 64-bit or an i386 tracee: exactly a result register between \<open>1 - nerrnos\<close> and
  \<open>-1\<close> of a call that can fail is an error, whose code is then positive and inside the table of
  names, with -1 as the value; any other register contents are the value, and there is no error.
\<close>

theorem get_error_correct:
  assumes "matches st" "tcp < length (tcbtab st)" "0 < length (errnoent env)" "int (length (errnoent env)) < 2 ^ 31"
  shows "(case outcome_of (length (errnoent env)) (never_fails (tcb_at st tcp)) (sint (rax_of (regs st))) of
      Inl e \<Rightarrow> t_u_error (tcb_at (get_error env tcp st) tcp) = e \<and> t_u_rval (tcb_at (get_error env tcp st) tcp) = -1
        \<and> 0 < e \<and> e < int (length (errnoent env))
    | Inr v \<Rightarrow> t_u_error (tcb_at (get_error env tcp st) tcp) = 0 \<and> sint (t_u_rval (tcb_at (get_error env tcp st) tcp)) = v)"
  using assms by (rule get_error_ok)

definition senv_plain :: senv where
  "senv_plain = \<lparr>opts = config_plain, tabs = x86_64_tables, qset = quals_init, errnoent = replicate 531 ''E'',
     strerror = (\<lambda>_. ''error''), cflag = CFLAG_NONE, Tflag = False, qflag = 0, not_failing_only = False, pathtrace = None\<rparr>"

lemma senv_plain_errnos: "length (errnoent senv_plain) = 531"
  by (simp add: senv_plain_def)

definition regs_zero :: user_regs_struct where
  "regs_zero = \<lparr>rbx = 0, rcx = 0, rdx = 0, rsi = 0, rdi = 0, rbp = 0, rax = 0, r8 = 0, r9 = 0, r10 = 0,
     orig_rax = 0, rip = 0, rsp = 0, seg_cs = 0x33\<rparr>"

definition stopped_with :: "nat \<Rightarrow> c_long \<Rightarrow> strace" where
  "stopped_with p v = (strace_init 1)\<lparr>current_personality := p, regs := X86_64_regs (regs_zero\<lparr>rax := v\<rparr>)\<rparr>"

lemma stopped_with_simps:
  "regs (stopped_with p v) = X86_64_regs (regs_zero\<lparr>rax := v\<rparr>)" "current_personality (stopped_with p v) = p"
  "tcbtab (stopped_with p v) \<noteq> []" "never_fails (tcb_at (stopped_with p v) 0) = False"
  by (simp_all add: stopped_with_def strace_init_def never_fails_def tcb_at_def tcb_zero_def)

theorem get_error_correct_witness:
  "t_u_error (tcb_at (get_error senv_plain 0 (stopped_with 0 (- 2))) 0) = 2"
proof -
  have m: "matches (stopped_with 0 (- 2))" by (simp add: matches_def stopped_with_simps)
  have "outcome_of 531 False (sint (rax_of (regs (stopped_with 0 (- 2))))) = Inl 2"
    by (simp add: rax_of_def outcome_of_def stopped_with_simps)
  then show ?thesis using get_error_correct [OF m, of 0 senv_plain] by (simp add: senv_plain_errnos stopped_with_simps)
qed

text \<open>
  For an x32 tracee \<open>is_negated_errno\<close> looks at the low half of the 64-bit result only: a call
  that succeeds with a value whose low 32 bits look like a negated error code, as a seek just below
  4 GiB does, is reported as failed.
\<close>

theorem get_error_x32_truncates:
  assumes "regs st = X86_64_regs r" "current_personality st = 2" "tcp < length (tcbtab st)" "\<not> never_fails (tcb_at st tcp)"
    "0 < e" "e < length (errnoent env)" "int (length (errnoent env)) < 2 ^ 31" "rax r = 2 ^ 32 - of_nat e"
  shows "0 < sint (rax r) \<and> t_u_error (tcb_at (get_error env tcp st) tcp) = int e
    \<and> t_u_rval (tcb_at (get_error env tcp st) tcp) = - 1"
proof -
  have u: "uint (rax r) = 2 ^ 32 - int e"
  proof -
    have "rax r = word_of_int (2 ^ 32 - int e)" using assms(8) by simp
    moreover have "uint (word_of_int k :: c_long) = k" if "0 \<le> k" "k < 2 ^ 64" for k
      using that by (simp add: uint_word_of_int take_bit_int_eq_self)
    moreover have "0 \<le> 2 ^ 32 - int e" "2 ^ 32 - int e < 2 ^ 64" using assms(5-7) by simp_all
    ultimately show ?thesis by (simp only:)
  qed
  have pos: "0 < sint (rax r)" using u assms(5-7) unfolding sint_c_long by simp
  have low: "ucast (rax r) = (- of_nat e :: c_int)"
    unfolding assms(8) by transfer (simp add: take_bit_eq_mod mod_mod_cancel)
  have n: "uint (- of_nat k :: c_int) = 2 ^ 32 - int k" if "0 < k" "int k < 2 ^ 31" for k
    using uint_neg_nat [of k, where 'a = 32] that by simp
  have c: "ucast (- of_nat k :: c_long) = (- of_nat k :: c_int)" for k by transfer (simp add: take_bit_minus)
  have len: "errnoent env \<noteq> []" using assms(6) by auto
  have neg: "is_negated_errno (current_wordsize st) (length (errnoent env)) (rax r)"
    using assms(2,5-7) len n [of e] n [of "length (errnoent env)"]
    by (simp add: is_negated_errno_def Let_def current_wordsize_def personality_wordsize_def low c word_less_def)
  have "(ucast (- rax r) :: c_int) = of_nat e"
    unfolding assms(8) by transfer (simp add: take_bit_eq_mod mod_mod_cancel)
  then have err: "sint (ucast (- rax r) :: c_int) = int e"
    using assms(5-7) by (simp add: sint_c_int) (simp add: uint_nat unat_of_nat take_bit_nat_eq_self)
  have nf: "(case t_s_ent (tcb_at st tcp) of Some e \<Rightarrow> sys_flags e AND SYSCALL_NEVER_FAILS_bit = 0 | None \<Rightarrow> True)"
    using assms(4) by (simp add: never_fails_def split: option.splits)
  show ?thesis
    using pos err neg nf assms(3) by (simp add: get_error_def Let_def rax_of_def assms(1) tcb_simps)
qed

theorem get_error_x32_truncates_witness:
  "t_u_error (tcb_at (get_error senv_plain 0 (stopped_with 2 (2 ^ 32 - of_nat 11))) 0) = 11"
proof -
  have "0 < sint (rax (regs_zero\<lparr>rax := 2 ^ 32 - of_nat 11\<rparr>))
      \<and> t_u_error (tcb_at (get_error senv_plain 0 (stopped_with 2 (2 ^ 32 - of_nat 11))) 0) = int 11
      \<and> t_u_rval (tcb_at (get_error senv_plain 0 (stopped_with 2 (2 ^ 32 - of_nat 11))) 0) = - 1"
    by (rule get_error_x32_truncates) (simp_all add: senv_plain_errnos stopped_with_simps del: of_nat_numeral)
  then show ?thesis by simp
qed

text \<open>
  C9. A system call stop of a traced process in a shared log: the table stays well-formed with the
  same processes, the log keeps its line discipline, and the handlers alternate: after an exit the
  process is outside a system call, after an entry inside one, unless the stop turned out to be no
  system call entry, which is ignored.
\<close>

theorem trace_syscall_alternates:
  assumes "shared_cfg (opts env)" "tcb_ok st" "log_ok st" "current_tcp st = Some tcp" "pid2tcb pid st = Some tcp"
    "t_outf (tcb_at st tcp) = Some SharedLog" "trace_syscall env s tcp st = Inr (r, st')"
  shows "tcb_ok st' \<and> log_ok st' \<and> (\<forall>q. pid2tcb q st' = pid2tcb q st)
    \<and> (if exiting (tcb_at st tcp) then \<not> exiting (tcb_at st' tcp)
       else exiting (tcb_at st' tcp) \<or> \<not> get_regs_error st \<and> \<not> syscall_fixup_on_sysenter st \<and> r = 0)"
proof -
  have tab: "tab_ok (tcbtab st) (nprocs st)" using assms(2) by (simp add: tcb_ok_def)
  have "tcp < length (tcbtab st)" "inuse (tcb_at st tcp)" using assms(5) pid2tcb_iff [OF tab] by simp_all
  then have ok: "sys_ok env tcp st" using assms by (simp add: sys_ok_def ready_def)
  have r: "sys_ok env tcp st' \<and> same_cores st st' \<and> (if exiting (tcb_at st tcp) then \<not> exiting (tcb_at st' tcp)
       else exiting (tcb_at st' tcp) \<or> \<not> get_regs_error st \<and> \<not> syscall_fixup_on_sysenter st \<and> r = 0)"
  proof (cases "exiting (tcb_at st tcp)")
    case True
    then show ?thesis using exiting_ok [OF ok] assms(7) by (simp add: trace_syscall_def)
  next
    case False
    then have "trace_syscall_entering env s tcp st = Inr (r, st')"
      using assms(7) by (auto simp: trace_syscall_def fails_def split: sum.splits)
    from entering_ok [OF ok this] show ?thesis using False by simp
  qed
  then have "same_cores st st'" by blast
  then have "pid2tcb q st' = pid2tcb q st" for q using tab by (rule same_cores_pid2tcb)
  then show ?thesis using r unfolding sys_ok_def by blast
qed

definition stop_plain :: stop where
  "stop_plain = \<lparr>leader_time = \<lparr>now = tv_zero, clock = ''00:00:00''\<rparr>, time_of_day = tv_zero, tick = tv_zero,
     mem_of = \<lparr>tr_kernel = uniform_kernel, tr_wordsize = 8, tr_notsup = True\<rparr>, decode = (\<lambda>f t. (''args'', None, 0))\<rparr>"

definition process_0 :: strace where
  "process_0 = (strace_init 1)\<lparr>tcbtab := [(new_tcb 0 7)\<lparr>t_outf := Some SharedLog\<rparr>], nprocs := 1, current_tcp := Some 0\<rparr>"

lemma process_0_simps:
  "tcbtab process_0 = [(new_tcb 0 7)\<lparr>t_outf := Some SharedLog\<rparr>]" "nprocs process_0 = 1" "current_tcp process_0 = Some 0"
  "printing_tcp process_0 = None" "out process_0 = (\<lambda>_. [])" "get_regs_error process_0 = True"
  "tcb_at process_0 0 = (new_tcb 0 7)\<lparr>t_outf := Some SharedLog\<rparr>"
  by (simp_all add: process_0_def strace_init_def tcb_at_def)

lemma process_0_ok:
  "tcb_ok process_0" "log_ok process_0" "pid2tcb 7 process_0 = Some 0" "\<not> exiting (tcb_at process_0 0)"
  "t_outf (tcb_at process_0 0) = Some SharedLog"
proof -
  have u: "inuse ((new_tcb 0 7)\<lparr>t_outf := Some SharedLog\<rparr>)" by (simp add: has_flag_def new_tcb_def)
  show ok: "tcb_ok process_0" using u
    by (auto simp: tcb_ok_def tab_ok_def ptr_ok_def process_0_simps new_tcb_def)
  show "log_ok process_0" by (simp add: log_ok_def process_0_simps at_bol_def new_tcb_def tcb_zero_def)
  show "pid2tcb 7 process_0 = Some 0"
    using ok u by (simp add: pid2tcb_iff [of process_0 1] tcb_ok_def process_0_simps new_tcb_def)
  show "\<not> exiting (tcb_at process_0 0)" "t_outf (tcb_at process_0 0) = Some SharedLog"
    by (simp_all add: process_0_simps has_flag_def new_tcb_def)
qed

theorem trace_syscall_alternates_witness:
  "\<exists>st'. trace_syscall senv_plain stop_plain 0 process_0 = Inr (-1, st') \<and> log_ok st' \<and> exiting (tcb_at st' 0)"
proof -
  have cfg: "shared_cfg (opts senv_plain)" by (simp add: shared_cfg_def senv_plain_def config_plain_def)
  obtain st' where st': "trace_syscall senv_plain stop_plain 0 process_0 = Inr (-1, st')"
    using process_0_ok(4) by (simp add: trace_syscall_def trace_syscall_entering_def fails_def Let_def process_0_simps(6))
  show ?thesis
    using trace_syscall_alternates [OF cfg process_0_ok(1,2) process_0_simps(3) process_0_ok(3,5) st'] st' process_0_ok(4)
    by (auto simp: process_0_simps(6))
qed

text \<open>
  C31. With the system call tables of the x86\_64 build and a kernel that does not invent memory, no
  contents of the registers make the entry handler read an argument that does not exist or call a
  missing decoder: it always returns. This covers the numbers outside the tables and the unused
  ones, the three personalities, and the multiplexed socket and ipc calls of i386.
\<close>

theorem entering_never_faults:
  assumes "sysent_vec (tabs env) = [sysent0, sysent1, sysent2]" "tcp < length (tcbtab st)"
    "honest (tr_kernel (mem_of s)) mem"
  shows "\<exists>r st'. trace_syscall_entering env s tcp st = Inr (r, st')"
  using entering_total [of env tcp st s mem] assms by (simp add: x86_64_env_def)

theorem entering_never_faults_witness:
  "\<exists>r st'. trace_syscall_entering senv_plain stop_plain 0 (process_0\<lparr>get_regs_error := False,
      regs := I386_regs \<lparr>ebx = 3, ecx = 0, edx = 0, esi = 0, edi = 0, ebp = 0, eax = - 38, orig_eax = 102, eip = 0, esp = 0\<rparr>\<rparr>)
    = Inr (r, st')"
  by (rule entering_never_faults [where mem = "uniform_mem CHR ''a''"])
     (simp_all add: senv_plain_def x86_64_tables_def process_0_simps stop_plain_def uniform_honest)

end
