(* ===== verification/Pathtrace.thy ===== *)
theory Pathtrace
  imports Syscall Syscall_Safe
begin

text \<open>
  The path filter of option \<^verbatim>\<open>-P\<close> (\<^verbatim>\<open>src/strace/pathtrace.c\<close>): the set of selected paths, and
  \<open>pathtrace_match\<close>, which decides whether a system call touches one of them. What \<open>readlink\<close> says of a
  descriptor, \<open>realpath\<close> and \<open>malloc\<close> are parameters.
\<close>

subsection \<open>The program\<close>

abbreviation "PATH_MAX \<equiv> (4096 :: nat)"

text \<open>\<open>fdlink\<close>: the link \<^verbatim>\<open>/proc/PID/fd/FD\<close>; \<open>stack\<close>: what the buffers of the functions hold at first.\<close>

record penv =
  selected :: "string list"
  fdlink :: "int \<Rightarrow> nat \<Rightarrow> string option"
  stack :: string
  malloc :: "nat \<Rightarrow> string option"

text \<open>
  \<open>strcmp(buf, p) == 0\<close> for a string \<open>p\<close> and a buffer that need not hold a NUL: bytes are compared up to
  the first difference, and reading on behind the buffer is a fault.
\<close>

fun strcmp_eq :: "string \<Rightarrow> string \<Rightarrow> fault + bool" where
  "strcmp_eq [] p = Inl OutOfBounds"
| "strcmp_eq (c # buf) [] = Inr (c = CHR 0x00)"
| "strcmp_eq (c # buf) (d # p) = (if c = d then strcmp_eq buf p else Inr False)"

fun pathmatch :: "string list \<Rightarrow> string \<Rightarrow> fault + bool" where
  "pathmatch [] path = Inr False"
| "pathmatch (p # sel) path = sbind (strcmp_eq path p) (\<lambda>b. if b then Inr True else pathmatch sel path)"

definition upathmatch :: "penv \<Rightarrow> tracee \<Rightarrow> c_long \<Rightarrow> fault + bool" where
  "upathmatch pe t upath =
    sbind (tr_umovestr t upath (PATH_MAX + 1) (stack pe)) (\<lambda>(r, path, _).
      if r > 0 then pathmatch (selected pe) path else Inr False)"

definition getfdpath :: "penv \<Rightarrow> int \<Rightarrow> int \<Rightarrow> nat \<Rightarrow> string option" where
  "getfdpath pe pid fd bufsize = (if fd < 0 then None else map_option (take (bufsize - 1)) (fdlink pe pid (nat fd)))"

definition fdmatch :: "penv \<Rightarrow> int \<Rightarrow> int \<Rightarrow> fault + bool" where
  "fdmatch pe pid fd =
    (case getfdpath pe pid fd (PATH_MAX + 1) of
       None \<Rightarrow> Inr False
     | Some path \<Rightarrow> pathmatch (selected pe) (path @ [CHR 0x00]))"

definition storepath :: "(nat \<Rightarrow> bool) \<Rightarrow> string list \<Rightarrow> string \<Rightarrow> ending + string list" where
  "storepath re_ok sel path =
    sbind (fails EFault (pathmatch sel (path @ [CHR 0x00]))) (\<lambda>found.
      if found then Inr sel
      else if re_ok (length sel + 1) then Inr (sel @ [path]) else Inl (EDie DieOutOfMemory))"

definition pathtrace_select ::
  "(nat \<Rightarrow> bool) \<Rightarrow> (string \<Rightarrow> string option) \<Rightarrow> string list \<Rightarrow> string \<Rightarrow> ending + string list \<times> string list" where
  "pathtrace_select re_ok realpath sel path =
    sbind (storepath re_ok sel path) (\<lambda>sel.
      case realpath path of
        None \<Rightarrow> Inr (sel, [])
      | Some rpath \<Rightarrow>
          if path = rpath then Inr (sel, [])
          else sbind (storepath re_ok sel rpath) (\<lambda>sel.
            Inr (sel, [''Requested path '' @ [CHR 0x27] @ path @ [CHR 0x27] @ '' resolved into '' @ [CHR 0x27] @ rpath @ [CHR 0x27]])))"

text \<open>An argument that is a descriptor or the address of a path.\<close>

datatype check = Fd nat | Path nat

definition int_of :: "c_long \<Rightarrow> int" where
  "int_of a = sint (ucast a :: c_int)"

definition do_check :: "penv \<Rightarrow> tracee \<Rightarrow> tcb \<Rightarrow> check \<Rightarrow> fault + bool" where
  "do_check pe t tcp c =
    (case c of
       Fd i \<Rightarrow> fdmatch pe (t_pid tcp) (int_of (t_u_arg tcp ! i))
     | Path i \<Rightarrow> upathmatch pe t (t_u_arg tcp ! i))"

text \<open>Checks joined by \<open>||\<close>.\<close>

fun any_check :: "penv \<Rightarrow> tracee \<Rightarrow> tcb \<Rightarrow> check list \<Rightarrow> fault + bool" where
  "any_check pe t tcp [] = Inr False"
| "any_check pe t tcp (c # cs) = sbind (do_check pe t tcp c) (\<lambda>b. if b then Inr True else any_check pe t tcp cs)"

text \<open>The descriptor sets of \<open>select\<close>: \<open>FD_ISSET\<close> on a buffer, and the loops over a set and over the sets.\<close>

definition fd_isset :: "nat \<Rightarrow> string \<Rightarrow> fault + bool" where
  "fd_isset j fds =
    (if j div 8 < length fds then Inr (bit (of_char (fds ! (j div 8)) :: nat) (j mod 8)) else Inl OutOfBounds)"

definition select_nfds :: "c_long \<Rightarrow> c_int" where
  "select_nfds a = (if sint a < 0 then 0 else if sint a > 1024 * 1024 then 1024 * 1024 else ucast a)"

definition select_fdsize :: "c_int \<Rightarrow> c_int" where
  "select_fdsize nfds = ucast (((ucast ((nfds + 7) div 8) :: c_long) + 8 - 1) AND (- 8))"

fun set_loop :: "penv \<Rightarrow> int \<Rightarrow> string \<Rightarrow> nat list \<Rightarrow> fault + bool" where
  "set_loop pe pid fds [] = Inr False"
| "set_loop pe pid fds (j # js) =
    sbind (fd_isset j fds) (\<lambda>s.
      if \<not> s then set_loop pe pid fds js
      else sbind (fdmatch pe pid (int j)) (\<lambda>b. if b then Inr True else set_loop pe pid fds js))"

fun select_loop :: "penv \<Rightarrow> tracee \<Rightarrow> int \<Rightarrow> nat \<Rightarrow> string \<Rightarrow> c_long list \<Rightarrow> fault + bool \<times> string list" where
  "select_loop pe t pid nfds fds [] = Inr (False, [])"
| "select_loop pe t pid nfds fds (a # as) =
    (if a = 0 then select_loop pe t pid nfds fds as
     else sbind (tr_umoven t a (length fds) fds) (\<lambda>(r, fds, _).
       if r < 0 then sbind (select_loop pe t pid nfds fds as) (\<lambda>(b, ms). Inr (b, ''umoven() failed'' # ms))
       else sbind (set_loop pe pid fds [0..<nfds]) (\<lambda>b.
         if b then Inr (True, []) else select_loop pe t pid nfds fds as)))"

text \<open>The buffer that \<open>malloc\<close> returns holds arbitrary bytes.\<close>

definition select_match :: "penv \<Rightarrow> tracee \<Rightarrow> int \<Rightarrow> c_long list \<Rightarrow> ending + bool \<times> string list" where
  "select_match pe t pid args =
    (let nfds = select_nfds (args ! 0)
     in case malloc pe (unat (select_fdsize nfds)) of
          None \<Rightarrow> Inl (EDie DieOutOfMemory)
        | Some fds \<Rightarrow> fails EFault (select_loop pe t pid (unat nfds) fds [args ! 1, args ! 2, args ! 3]))"

text \<open>The five arguments of the old \<open>select\<close>, as \<open>long\<close>s of the tracer.\<close>

definition longs :: "string \<Rightarrow> c_long list" where
  "longs bs = map (\<lambda>i. of_nat (bytes_num (take 8 (drop (8 * i) bs)))) [0..<5]"

definition oldselect_match :: "penv \<Rightarrow> tracee \<Rightarrow> int \<Rightarrow> c_long \<Rightarrow> ending + bool \<times> string list" where
  "oldselect_match pe t pid a =
    sbind (fails EFault (tr_umoven t a 40 (take 40 (stack pe)))) (\<lambda>(r, oldargs, _).
      if r < 0 then Inr (False, [''umoven() failed'']) else select_match pe t pid (longs oldargs))"

text \<open>
  The loop of \<open>poll\<close> from \<open>cur\<close> up to \<open>stop\<close>, in steps of a \<open>struct pollfd\<close>. The addresses are words; \<open>None\<close>
  is a loop that does not end.
\<close>

partial_function (option) poll_loop :: "penv \<Rightarrow> tracee \<Rightarrow> int \<Rightarrow> string \<Rightarrow> c_long \<Rightarrow> c_long \<Rightarrow> (fault + bool) option" where
  "poll_loop pe t pid fds stop cur =
    (if \<not> cur < stop then Some (Inr False)
     else case tr_umoven t cur 8 fds of
       Inl e \<Rightarrow> Some (Inl e)
     | Inr (r, fds, _) \<Rightarrow>
         (case (if r = 0 then fdmatch pe pid (int_of (of_nat (bytes_num (take 4 fds)))) else Inr False) of
            Inl e \<Rightarrow> Some (Inl e)
          | Inr b \<Rightarrow> if b then Some (Inr True) else poll_loop pe t pid fds stop (cur + 8)))"

definition poll_match :: "penv \<Rightarrow> tracee \<Rightarrow> int \<Rightarrow> c_long \<Rightarrow> c_long \<Rightarrow> (fault + bool) option" where
  "poll_match pe t pid start n =
    (let nfds = (ucast n :: c_int); stop = start + 8 * ucast nfds
     in if nfds = 0 \<or> stop < start then Some (Inr False) else poll_loop pe t pid (take 8 (stack pe)) stop start)"

definition quiet :: "fault + bool \<Rightarrow> ending + bool \<times> string list" where
  "quiet r = sbind (fails EFault r) (\<lambda>b. Inr (b, []))"

text \<open>The arguments to check, for the decoders with a rule of their own.\<close>

definition special_args :: "string \<Rightarrow> check list option" where
  "special_args f =
    (if f \<in> {''sys_dup2'', ''sys_dup3'', ''sys_sendfile'', ''sys_sendfile64'', ''sys_tee''} then Some [Fd 0, Fd 1]
     else if f \<in> {''sys_inotify_add_watch'', ''sys_faccessat'', ''sys_fchmodat'', ''sys_futimesat'', ''sys_mkdirat'', ''sys_unlinkat'',
         ''sys_newfstatat'', ''sys_mknodat'', ''sys_openat'', ''sys_readlinkat'', ''sys_utimensat'', ''sys_fchownat'', ''sys_pipe2''}
       then Some [Fd 0, Path 1]
     else if f \<in> {''sys_link'', ''sys_mount''} then Some [Path 0, Path 1]
     else if f = ''sys_quotactl'' then Some [Path 1]
     else if f \<in> {''sys_renameat'', ''sys_linkat''} then Some [Fd 0, Fd 2, Path 1, Path 3]
     else if f \<in> {''sys_old_mmap'', ''sys_mmap'', ''sys_mmap_pgoff'', ''sys_mmap_4koff''} then Some [Fd 4]
     else if f = ''sys_symlinkat'' then Some [Fd 1, Path 0, Path 2]
     else if f = ''sys_splice'' then Some [Fd 0, Fd 2]
     else if f = ''sys_epoll_ctl'' then Some [Fd 2]
     else None)"

definition no_args :: "string \<Rightarrow> string option \<Rightarrow> bool" where
  "no_args f name \<longleftrightarrow> f \<in> {''printargs'', ''sys_pipe'', ''sys_pipe2'', ''sys_eventfd2'', ''sys_eventfd'', ''sys_inotify_init1'',
       ''sys_timerfd_create'', ''sys_timerfd_settime'', ''sys_timerfd_gettime'', ''sys_epoll_create''}
     \<or> name = Some ''fanotify_init''"

definition pathtrace_match :: "penv \<Rightarrow> tracee \<Rightarrow> sysent \<Rightarrow> tcb \<Rightarrow> (ending + bool \<times> string list) option" where
  "pathtrace_match pe t s tcp =
    (let f = (case sys_func s of Some f \<Rightarrow> f | None \<Rightarrow> [])
     in if sys_flags s AND (TRACE_FILE OR TRACE_DESC) = 0 then Some (Inr (False, []))
        else case special_args f of
          Some cs \<Rightarrow> Some (quiet (any_check pe t tcp cs))
        | None \<Rightarrow>
            if f = ''sys_oldselect'' then Some (oldselect_match pe t (t_pid tcp) (t_u_arg tcp ! 0))
            else if f \<in> {''sys_select'', ''sys_pselect6''} then Some (select_match pe t (t_pid tcp) (t_u_arg tcp))
            else if f \<in> {''sys_poll'', ''sys_ppoll''} then
              map_option quiet (poll_match pe t (t_pid tcp) (t_u_arg tcp ! 0) (t_u_arg tcp ! 1))
            else if no_args f (sys_name s) then Some (Inr (False, []))
            else if sys_flags s AND TRACE_FILE \<noteq> 0 then Some (quiet (any_check pe t tcp [Path 0]))
            else Some (quiet (any_check pe t tcp [Fd 0])))"

text \<open>\<open>pathtrace_match\<close> as the entry handler calls it.\<close>

definition path_filter :: "penv \<Rightarrow> tracee \<Rightarrow> tcb \<Rightarrow> bool" where
  "path_filter pe t tcp =
    (case t_s_ent tcp of None \<Rightarrow> False | Some s \<Rightarrow> (case pathtrace_match pe t s tcp of Some (Inr (b, _)) \<Rightarrow> b | _ \<Rightarrow> False))"

end
