(* ===== verification/Sigmask.thy ===== *)
theory Sigmask
  imports Print_Mem Qualify_Correct
begin

text \<open>
  Signal sets of \<^verbatim>\<open>src/strace/signal.c\<close>: \<open>copy_sigset_len\<close>, \<open>sprintsigmask\<close>, \<open>print_sigset\<close>. A \<open>sigset_t\<close> of the C library is
  its 128 bytes; signal \<open>i\<close> is bit \<open>i - 1\<close>.
\<close>

subsection \<open>The program\<close>

type_synonym sigset = string

definition sigemptyset :: sigset where
  "sigemptyset = replicate 128 CHR 0x00"

definition sigismember :: "sigset \<Rightarrow> nat \<Rightarrow> int" where
  "sigismember ss i =
    (if 1 \<le> i \<and> i \<le> 64 then (if bit (of_char (ss ! ((i - 1) div 8)) :: nat) ((i - 1) mod 8) then 1 else 0) else -1)"

text \<open>\<open>copy_sigset\<close> is this with \<open>len = 8\<close>; the result is the return value and the set.\<close>

definition copy_sigset_len :: "tracee \<Rightarrow> c_long \<Rightarrow> nat \<Rightarrow> fault + int \<times> sigset" where
  "copy_sigset_len t addr len =
    (let len = (if len > 128 then 128 else len)
     in sbind (tr_umoven t addr len sigemptyset) (\<lambda>(r, s, _). Inr (if r < 0 then -1 else 0, s)))"

definition sig_text :: "string list \<Rightarrow> nat \<Rightarrow> string" where
  "sig_text names i =
    (if i < length names then drop 3 (names ! i)
     else if 32 \<le> i \<and> i \<le> 64 then ''RT_'' @ fmt_u (i - 32) else fmt_u i)"

text \<open>The loop that shows the signals; it yields the text and the last value of \<open>sep\<close>.\<close>

fun show_sigs :: "tables \<Rightarrow> sigset \<Rightarrow> int \<Rightarrow> nat list \<Rightarrow> char \<Rightarrow> string \<times> char" where
  "show_sigs tb ss show_members [] sep = ([], sep)"
| "show_sigs tb ss show_members (i # is) sep =
    (if sigismember ss i = show_members then
       (case show_sigs tb ss show_members is CHR '' '' of (t, sep') \<Rightarrow> (sep # sig_text (signalent tb) i @ t, sep'))
     else show_sigs tb ss show_members is sep)"

definition maxsigs_of :: "tables \<Rightarrow> bool \<Rightarrow> nat" where
  "maxsigs_of tb rt = (if rt then 64 else length (signalent tb))"

definition sprintsigmask :: "tables \<Rightarrow> string \<Rightarrow> sigset \<Rightarrow> bool \<Rightarrow> fault + string" where
  "sprintsigmask tb str ss rt =
    (let maxsigs = maxsigs_of tb rt;
         nsigs = length (filter (\<lambda>i. sigismember ss i = 1) [1..<maxsigs]);
         show_members = (if nsigs < length (signalent tb) * 2 div 3 then 1 else 0);
         s = str @ (if show_members = 0 then ''~'' else [])
     in case show_sigs tb ss show_members [1..<maxsigs] CHR ''['' of (t, sep) \<Rightarrow>
          let s = s @ t @ (if sep = CHR ''['' then [sep] else []) @ '']''
          in if length s + 1 \<le> 8 * (255 * 2 div 3) then Inr s else Inl OutOfBounds)"

definition print_sigset :: "tables \<Rightarrow> tracee \<Rightarrow> c_long \<Rightarrow> bool \<Rightarrow> fault + string" where
  "print_sigset tb t addr rt =
    (if addr = 0 then Inr ''NULL''
     else sbind (copy_sigset_len t addr 8) (\<lambda>(r, ss).
       if r < 0 then Inr (fmt_hx (unat addr)) else sprintsigmask tb [] ss rt))"

subsection \<open>Lists of words\<close>

fun join_words :: "string list \<Rightarrow> string" where
  "join_words [] = []"
| "join_words [w] = w"
| "join_words (w # ws) = w @ CHR '' '' # join_words ws"

lemma join_words_Cons: "ws \<noteq> [] \<Longrightarrow> join_words (w # ws) = w @ CHR '' '' # join_words ws"
  by (cases ws) simp_all

definition word_ok :: "string \<Rightarrow> bool" where
  "word_ok w \<longleftrightarrow> w \<noteq> [] \<and> CHR '' '' \<notin> set w"

lemma first_word: "CHR '' '' \<notin> set w \<Longrightarrow> takeWhile (\<lambda>c. c \<noteq> CHR '' '') (w @ CHR '' '' # r) = w"
  by (subst takeWhile_append2) auto

lemma join_words_inj:
  "list_all word_ok ws \<Longrightarrow> list_all word_ok vs \<Longrightarrow> join_words ws = join_words vs \<Longrightarrow> ws = vs"
proof (induction ws arbitrary: vs)
  case Nil
  then show ?case by (cases vs rule: join_words.cases) (auto simp: word_ok_def)
next
  case (Cons w ws)
  have w: "w \<noteq> []" "CHR '' '' \<notin> set w" using Cons.prems(1) by (simp_all add: word_ok_def)
  show ?case
  proof (cases vs)
    case Nil
    then show ?thesis using Cons.prems(3) w(1) by (cases ws) auto
  next
    case v: (Cons v us)
    have vw: "CHR '' '' \<notin> set v" using Cons.prems(2) by (simp add: v word_ok_def)
    show ?thesis
    proof (cases "ws = [] \<or> us = []")
      case True
      have sp: "CHR '' '' \<in> set (join_words (x # xs))" if "xs \<noteq> []" for x xs using that by (simp add: join_words_Cons)
      have "ws = [] \<and> us = []"
        using True Cons.prems(3) w(2) vw sp [of ws w] sp [of us v] unfolding v by (cases "ws = []"; cases "us = []") auto
      then show ?thesis using Cons.prems(3) by (simp add: v)
    next
      case False
      then have eq: "w @ CHR '' '' # join_words ws = v @ CHR '' '' # join_words us"
        using Cons.prems(3) by (simp add: v join_words_Cons)
      then have "w = v" using first_word [OF w(2), of "join_words ws"] first_word [OF vw, of "join_words us"] by simp
      then show ?thesis using eq Cons by (simp add: v)
    qed
  qed
qed

lemma length_join_words: "length (join_words ws) \<le> (\<Sum>w\<leftarrow>ws. length w + 1)"
  by (induction ws rule: join_words.induct) simp_all

subsection \<open>The text of a set\<close>

definition shown :: "sigset \<Rightarrow> int \<Rightarrow> nat list \<Rightarrow> nat list" where
  "shown ss show is = filter (\<lambda>i. sigismember ss i = show) is"

lemma show_sigs_text:
  "show_sigs tb ss show is sep =
    (let ws = map (sig_text (signalent tb)) (shown ss show is)
     in if ws = [] then ([], sep) else (sep # join_words ws, CHR '' ''))"
proof (induction "is" arbitrary: sep)
  case (Cons i "is")
  then show ?case by (cases "shown ss show is = []") (auto simp: shown_def Let_def join_words_Cons)
qed (simp add: shown_def)

definition members :: "sigset \<Rightarrow> nat \<Rightarrow> nat set" where
  "members ss n = {i. 1 \<le> i \<and> i < n \<and> sigismember ss i = 1}"

text \<open>Whether the members are shown, or those that are missing.\<close>

definition members_shown :: "tables \<Rightarrow> sigset \<Rightarrow> nat \<Rightarrow> bool" where
  "members_shown tb ss n \<longleftrightarrow> card (members ss n) < length (signalent tb) * 2 div 3"

lemma shown_members:
  assumes "n \<le> 64"
  shows "set (shown ss 1 [1..<n]) = members ss n" "set (shown ss 0 [1..<n]) = {1..<n} - members ss n"
    "length (shown ss 1 [1..<n]) = card (members ss n)"
proof -
  show s: "set (shown ss 1 [1..<n]) = members ss n" by (auto simp: shown_def members_def)
  show "set (shown ss 0 [1..<n]) = {1..<n} - members ss n"
    using assms by (auto simp: shown_def members_def sigismember_def)
  have "distinct (shown ss 1 [1..<n])" by (simp add: shown_def)
  then show "length (shown ss 1 [1..<n]) = card (members ss n)" using s distinct_card by metis
qed

definition mask_text :: "tables \<Rightarrow> sigset \<Rightarrow> nat \<Rightarrow> string" where
  "mask_text tb ss n =
    (if members_shown tb ss n then [] else ''~'') @ ''['' @
      join_words (map (sig_text (signalent tb)) (shown ss (if members_shown tb ss n then 1 else 0) [1..<n])) @ '']''"

lemma sprintsigmask_text:
  assumes "maxsigs_of tb rt \<le> 64"
  shows "sprintsigmask tb str ss rt =
    (if length str + length (mask_text tb ss (maxsigs_of tb rt)) + 1 \<le> 1360
     then Inr (str @ mask_text tb ss (maxsigs_of tb rt)) else Inl OutOfBounds)"
proof -
  let ?n = "maxsigs_of tb rt"
  have c: "length (filter (\<lambda>i. sigismember ss i = 1) [1..<?n]) = card (members ss ?n)"
    using shown_members(3) [OF assms, of ss] by (simp add: shown_def)
  show ?thesis
  proof (cases "members_shown tb ss ?n")
    case True
    then show ?thesis using c unfolding sprintsigmask_def members_shown_def mask_text_def show_sigs_text Let_def
      by (auto simp: Let_def)
  next
    case False
    then show ?thesis using c unfolding sprintsigmask_def members_shown_def mask_text_def show_sigs_text Let_def
      by (auto simp: Let_def)
  qed
qed

subsection \<open>Nothing is lost\<close>

lemma x86_64_signals: "signalent x86_64_tables = signalent0"
  by (simp add: x86_64_tables_def)

lemma sig_words:
  "distinct (map (sig_text signalent0) [1..<64])" "list_all word_ok (map (sig_text signalent0) [1..<64])"
  "list_all (\<lambda>w. length w \<le> 6) (map (sig_text signalent0) [1..<64])"
  by code_simp+

lemma nsignals_x86_64: "length signalent0 = 33"
  by (simp add: signalent0_def)

lemma maxsigs_le: "maxsigs_of x86_64_tables rt \<le> 64"
  by (simp add: maxsigs_of_def x86_64_signals nsignals_x86_64)

lemma sig_text_x86_64:
  assumes "1 \<le> i" "i < 64"
  shows "word_ok (sig_text signalent0 i)" "length (sig_text signalent0 i) \<le> 6"
  using sig_words(2,3) assms by (auto simp: list_all_iff)

lemma sig_text_inj: "inj_on (sig_text signalent0) {1..<64}"
  using sig_words(1) by (simp add: distinct_map)

lemma shown_range: "i \<in> set (shown ss b [1..<n]) \<Longrightarrow> 1 \<le> i \<and> i < n"
  by (auto simp: shown_def)

lemma shown_words:
  assumes "n \<le> 64"
  shows "list_all word_ok (map (sig_text signalent0) (shown ss b [1..<n]))"
  using sig_text_x86_64(1) shown_range [of _ ss b n] assms by (fastforce simp: list_all_iff)

lemma shown_length:
  assumes "n \<le> 64"
  shows "length (join_words (map (sig_text signalent0) (shown ss b [1..<n]))) \<le> 441"
proof -
  let ?is = "shown ss b [1..<n]"
  have "(\<Sum>i\<leftarrow>?is. length (sig_text signalent0 i) + 1) \<le> (\<Sum>i\<leftarrow>?is. 7)"
    using sig_text_x86_64(2) shown_range [of _ ss b n] assms by (intro sum_list_mono) fastforce
  also have "\<dots> = 7 * length ?is" by (simp add: sum_list_triv)
  also have "\<dots> \<le> 7 * 63" using assms length_filter_le [of "\<lambda>i. sigismember ss i = b" "[1..<n]"] by (simp add: shown_def)
  finally show ?thesis using length_join_words [of "map (sig_text signalent0) ?is"] by (simp add: comp_def)
qed

lemma shown_text_inj:
  assumes "n \<le> 64"
    "join_words (map (sig_text signalent0) (shown ss a [1..<n])) = join_words (map (sig_text signalent0) (shown ss' b [1..<n]))"
  shows "set (shown ss a [1..<n]) = set (shown ss' b [1..<n])"
proof -
  have "map (sig_text signalent0) (shown ss a [1..<n]) = map (sig_text signalent0) (shown ss' b [1..<n])"
    using join_words_inj [OF shown_words shown_words] assms by blast
  then have "sig_text signalent0 ` set (shown ss a [1..<n]) = sig_text signalent0 ` set (shown ss' b [1..<n])"
    by (metis set_map)
  moreover have "set (shown x c [1..<n]) \<subseteq> {1..<64}" for x c using shown_range [of _ x c n] assms(1) by force
  ultimately show ?thesis using inj_on_image_eq_iff [OF sig_text_inj] by metis
qed

lemma mask_text_iff:
  assumes "n \<le> 64"
  shows "mask_text x86_64_tables ss n = mask_text x86_64_tables ss' n \<longleftrightarrow> members ss n = members ss' n"
proof
  assume eq: "mask_text x86_64_tables ss n = mask_text x86_64_tables ss' n"
  then have same: "members_shown x86_64_tables ss n = members_shown x86_64_tables ss' n"
    by (auto simp: mask_text_def split: if_splits)
  show "members ss n = members ss' n"
  proof (cases "members_shown x86_64_tables ss n")
    case True
    then have "set (shown ss 1 [1..<n]) = set (shown ss' 1 [1..<n])"
      using eq same by (intro shown_text_inj [OF assms]) (simp add: mask_text_def x86_64_signals)
    then show ?thesis by (simp only: shown_members(1) [OF assms])
  next
    case False
    then have "set (shown ss 0 [1..<n]) = set (shown ss' 0 [1..<n])"
      using eq same by (intro shown_text_inj [OF assms]) (simp add: mask_text_def x86_64_signals)
    then have "{1..<n} - members ss n = {1..<n} - members ss' n" by (simp only: shown_members(2) [OF assms])
    moreover have "members x n \<subseteq> {1..<n}" for x by (auto simp: members_def)
    ultimately show ?thesis by blast
  qed
next
  assume m: "members ss n = members ss' n"
  have "sigismember ss i = sigismember ss' i" if "i \<in> set [1..<n]" for i
  proof -
    have "sigismember ss i = 1 \<longleftrightarrow> sigismember ss' i = 1" using m that by (auto simp: members_def)
    then show ?thesis using that assms by (auto simp: sigismember_def split: if_splits)
  qed
  then have "shown ss a [1..<n] = shown ss' a [1..<n]" for a unfolding shown_def by (intro filter_cong) simp_all
  then show "mask_text x86_64_tables ss n = mask_text x86_64_tables ss' n" using m by (simp add: mask_text_def members_shown_def)
qed

text \<open>
  C37. \<open>sprintsigmask\<close> on the x86\_64 tables never leaves its static buffer, for a prefix of up to 100 bytes (the
  longest in use has 9), and loses nothing about the signals it looks at: two sets give the same text
  exactly if they agree on the signals from 1 below \<open>maxsigs\<close>, be the members shown or, after a
  \<^verbatim>\<open>~\<close>, the signals that are missing. With \<open>rt\<close> set \<open>maxsigs\<close> is 64, so that signal 64 is not looked at.
\<close>

theorem sprintsigmask_faithful:
  assumes "length str \<le> 100"
  shows "\<exists>t t'. sprintsigmask x86_64_tables str ss rt = Inr t \<and> sprintsigmask x86_64_tables str ss' rt = Inr t'
    \<and> (t = t' \<longleftrightarrow> members ss (maxsigs_of x86_64_tables rt) = members ss' (maxsigs_of x86_64_tables rt))"
proof -
  let ?n = "maxsigs_of x86_64_tables rt"
  have l: "length (mask_text x86_64_tables s ?n) \<le> 444" for s
    using shown_length [OF maxsigs_le, of s 1 rt] shown_length [OF maxsigs_le, of s 0 rt]
    by (simp add: mask_text_def x86_64_signals)
  have "length str + length (mask_text x86_64_tables s ?n) + 1 \<le> 1360" for s using l [of s] assms by linarith
  then show ?thesis using mask_text_iff [OF maxsigs_le] by (simp add: sprintsigmask_text [OF maxsigs_le])
qed

theorem sprintsigmask_faithful_witness:
  "\<exists>t t'. sprintsigmask x86_64_tables ''mask '' sigemptyset True = Inr t
    \<and> sprintsigmask x86_64_tables ''mask '' (sigemptyset[0 := CHR 0x04]) True = Inr t' \<and> t \<noteq> t'"
proof -
  have "3 \<in> members (sigemptyset[0 := CHR 0x04]) 64" "3 \<notin> members sigemptyset 64"
    by (simp_all add: members_def sigismember_def sigemptyset_def bit_Suc bit_0)
  then have "members sigemptyset (maxsigs_of x86_64_tables True) \<noteq> members (sigemptyset[0 := CHR 0x04]) (maxsigs_of x86_64_tables True)"
    by (auto simp: maxsigs_of_def)
  then show ?thesis
    using sprintsigmask_faithful [of "''mask ''" sigemptyset True "sigemptyset[0 := CHR 0x04]"] by auto
qed

end
