(* ===== verification/Desc.thy ===== *)
theory Desc
  imports Pathtrace Sigmask
begin

text \<open>
  The decoders of \<open>select\<close>: \<open>decode_select\<close>, \<open>sys_select\<close>, \<open>sys_oldselect\<close>, \<open>sys_pselect6\<close> of \<^verbatim>\<open>src/strace/desc.c\<close>, with \<open>sprinttv\<close> of
  \<^verbatim>\<open>src/strace/time.c\<close> and \<open>printfd\<close> of \<^verbatim>\<open>src/strace/util.c\<close>. At the entry a decoder yields the text it prints; at the
  exit \<open>tcp->auxstr\<close> and the flags of its return value.
\<close>

subsection \<open>Times and descriptors\<close>

definition verbose :: "tcb \<Rightarrow> bool" where
  "verbose tcp \<longleftrightarrow> t_qual_flg tcp AND QUAL_VERBOSE \<noteq> 0"

abbreviation "TIMEVAL_TEXT_BUFSIZE \<equiv> (57 :: nat)"

text \<open>\<open>bit32\<close>: the structure has 32-bit members whatever the personality; \<open>tv\<close>: the local structure.\<close>

definition sprinttv :: "tracee \<Rightarrow> tcb \<Rightarrow> c_long \<Rightarrow> bool \<Rightarrow> bool \<Rightarrow> string \<Rightarrow> fault + string" where
  "sprinttv t tcp addr bit32 special tv =
    (if addr = 0 then Inr ''NULL''
     else if \<not> verbose tcp then Inr (fmt_hx (unat addr))
     else
       (let w = (if bit32 \<or> tr_wordsize t = 4 then 4 else 8)
        in sbind (tr_umoven t addr (2 * w) (take (2 * w) tv)) (\<lambda>(rc, tv, _).
          if rc \<ge> 0 then
            (let tv_sec = bytes_num (take w tv); tv_usec = bytes_num (drop w tv)
             in if special \<and> tv_sec = 0 \<and> tv_usec = 2 ^ 30 - 1 then Inr ''UTIME_NOW''
                else if special \<and> tv_sec = 0 \<and> tv_usec = 2 ^ 30 - 2 then Inr ''UTIME_OMIT''
                else Inr (''{'' @ fmt_u tv_sec @ '', '' @ fmt_u tv_usec @ ''}''))
          else Inr ''{...}'')))"

definition printfd :: "penv \<Rightarrow> bool \<Rightarrow> int \<Rightarrow> int \<Rightarrow> string" where
  "printfd pe show_fd_path pid fd =
    (case (if show_fd_path then getfdpath pe pid fd (PATH_MAX + 1) else None) of
       Some path \<Rightarrow> fmt_d fd @ ''<'' @ takeWhile (\<lambda>c. c \<noteq> CHR 0x00) path @ ''>''
     | None \<Rightarrow> fmt_d fd)"

subsection \<open>The entry of select\<close>

text \<open>The members of a set, from descriptor \<open>j\<close> on.\<close>

function show_fds :: "(nat \<Rightarrow> string) \<Rightarrow> string \<Rightarrow> nat \<Rightarrow> nat \<Rightarrow> string \<Rightarrow> fault + string" where
  "show_fds pr fds nfds j sep =
    (if j < nfds then
       sbind (fd_isset j fds) (\<lambda>s.
         if s then sbind (show_fds pr fds nfds (j + 1) '' '') (\<lambda>r. Inr (sep @ pr j @ r))
         else show_fds pr fds nfds (j + 1) sep)
     else Inr [])"
  by pat_completeness auto
termination
  by (relation "measure (\<lambda>(pr, fds, nfds, j, sep). nfds - j)") auto

declare show_fds.simps [simp del]

fun show_sets :: "(nat \<Rightarrow> string) \<Rightarrow> tracee \<Rightarrow> tcb \<Rightarrow> nat \<Rightarrow> string \<Rightarrow> c_long list \<Rightarrow> fault + string" where
  "show_sets pr t tcp nfds fds [] = Inr []"
| "show_sets pr t tcp nfds fds (arg # args) =
    (if arg = 0 then sbind (show_sets pr t tcp nfds fds args) (\<lambda>r. Inr ('', NULL'' @ r))
     else if \<not> verbose tcp then sbind (show_sets pr t tcp nfds fds args) (\<lambda>r. Inr ('', '' @ fmt_hx (unat arg) @ r))
     else sbind (tr_umoven t arg (length fds) fds) (\<lambda>(rc, fds, _).
       if rc < 0 then sbind (show_sets pr t tcp nfds fds args) (\<lambda>r. Inr ('', [?]'' @ r))
       else sbind (show_fds pr fds nfds 0 []) (\<lambda>m.
         sbind (show_sets pr t tcp nfds fds args) (\<lambda>r. Inr ('', ['' @ m @ '']'' @ r)))))"

definition decode_select_entering ::
  "penv \<Rightarrow> bool \<Rightarrow> tracee \<Rightarrow> tcb \<Rightarrow> c_long list \<Rightarrow> bool \<Rightarrow> ending + string" where
  "decode_select_entering pe show_fd_path t tcp args bit32 =
    (case malloc pe (unat (select_fdsize (select_nfds (args ! 0)))) of
       None \<Rightarrow> Inl (EDie DieOutOfMemory)
     | Some fds \<Rightarrow>
         (let nfds = (ucast (args ! 0) :: c_int); pr = (\<lambda>j. printfd pe show_fd_path (t_pid tcp) (int j))
          in fails EFault (sbind (show_sets pr t tcp (unat nfds) fds [args ! 1, args ! 2, args ! 3]) (\<lambda>sets.
               sbind (sprinttv t tcp (args ! 4) bit32 False (take 16 (stack pe))) (\<lambda>tv.
                 Inr (fmt_d (sint nfds) @ sets @ '', '' @ tv))))))"

subsection \<open>The exit of select\<close>

text \<open>\<open>sprintf\<close> into \<open>outstr\<close>, of 1024 bytes, behind what it holds; and a byte put there.\<close>

definition out_add :: "string \<Rightarrow> string \<Rightarrow> fault + string" where
  "out_add outstr s = (if length outstr + length s < 1024 then Inr (outstr @ s) else Inl OutOfBounds)"

definition set_name :: "nat \<Rightarrow> string" where
  "set_name i = (if i = 0 then ''in'' else if i = 1 then ''out'' else ''except'')"

text \<open>The state of the loops: \<open>outstr\<close> up to \<open>outptr\<close>, \<open>first\<close>, \<open>sep\<close>, and \<open>nfds\<close>, the ready descriptors left.\<close>

type_synonym exit_state = "string \<times> bool \<times> string \<times> c_int"

definition exit_fd :: "nat \<Rightarrow> nat \<Rightarrow> exit_state \<Rightarrow> fault + exit_state" where
  "exit_fd i j = (\<lambda>(outstr, first, sep, nfds).
    if length outstr < 1024 - (11 + 12 + 2) then
      (if first then sbind (out_add outstr (sep @ set_name i @ '' ['' @ fmt_u j)) (\<lambda>outstr. Inr (outstr, False, '', '', nfds - 1))
       else sbind (out_add outstr ('' '' @ fmt_u j)) (\<lambda>outstr. Inr (outstr, first, sep, nfds - 1)))
    else Inr (outstr, first, sep, nfds - 1))"

function exit_fds :: "nat \<Rightarrow> string \<Rightarrow> int \<Rightarrow> nat \<Rightarrow> exit_state \<Rightarrow> fault + exit_state" where
  "exit_fds i fds n j st =
    (if int j < n then
       sbind (fd_isset j fds) (\<lambda>s. if s then sbind (exit_fd i j st) (\<lambda>st. exit_fds i fds n (j + 1) st) else exit_fds i fds n (j + 1) st)
     else Inr st)"
  by pat_completeness auto
termination
  by (relation "measure (\<lambda>(i, fds, n, j, st). nat (n - int j))") auto

declare exit_fds.simps [simp del]

fun exit_sets :: "tracee \<Rightarrow> int \<Rightarrow> string \<Rightarrow> nat \<Rightarrow> c_long list \<Rightarrow> string \<Rightarrow> string \<Rightarrow> c_int \<Rightarrow> fault + string \<times> string" where
  "exit_sets t n fds i [] outstr sep nfds = Inr (outstr, sep)"
| "exit_sets t n fds i (arg # args) outstr sep nfds =
    (if arg = 0 then exit_sets t n fds (i + 1) args outstr sep nfds
     else sbind (tr_umoven t arg (length fds) fds) (\<lambda>(rc, fds, _).
       if rc < 0 then exit_sets t n fds (i + 1) args outstr sep nfds
       else sbind (exit_fds i fds n 0 (outstr, True, sep, nfds)) (\<lambda>(outstr, _, sep, nfds).
         sbind (if outstr \<noteq> [] then out_add outstr '']'' else Inr outstr) (\<lambda>outstr.
           if nfds = 0 then Inr (outstr, sep) else exit_sets t n fds (i + 1) args outstr sep nfds))))"

definition decode_select_exiting ::
  "penv \<Rightarrow> tracee \<Rightarrow> tcb \<Rightarrow> c_long list \<Rightarrow> bool \<Rightarrow> ending + string option \<times> c_int" where
  "decode_select_exiting pe t tcp args bit32 =
    (let nfds = (ucast (t_u_rval tcp) :: c_int)
     in if t_u_error tcp \<noteq> 0 then Inr (None, 0)
        else if nfds = 0 then Inr (Some ''Timeout'', RVAL_STR)
        else case malloc pe (unat (select_fdsize (select_nfds (args ! 0)))) of
            None \<Rightarrow> Inl (EDie DieOutOfMemory)
          | Some fds \<Rightarrow>
              fails EFault (sbind (exit_sets t (sint (args ! 0)) fds 0 [args ! 1, args ! 2, args ! 3] [] [] nfds) (\<lambda>(outstr, sep).
                sbind (if args ! 4 \<noteq> 0 \<and> length outstr < 1024 - (10 + TIMEVAL_TEXT_BUFSIZE) then
                         sbind (out_add outstr (sep @ ''left '')) (\<lambda>outstr.
                           sbind (sprinttv t tcp (args ! 4) bit32 False (take 16 (stack pe))) (\<lambda>tv. out_add outstr tv))
                       else Inr outstr) (\<lambda>outstr. Inr (Some outstr, RVAL_STR)))))"

subsection \<open>The system calls\<close>

text \<open>What a decoder yields, at the entry or at the exit.\<close>

datatype decoded = Printed string | Result "string option" c_int

definition decode_select :: "penv \<Rightarrow> bool \<Rightarrow> tracee \<Rightarrow> tcb \<Rightarrow> c_long list \<Rightarrow> bool \<Rightarrow> ending + decoded" where
  "decode_select pe show_fd_path t tcp args bit32 =
    (if entering tcp then sbind (decode_select_entering pe show_fd_path t tcp args bit32) (\<lambda>s. Inr (Printed s))
     else sbind (decode_select_exiting pe t tcp args bit32) (\<lambda>(aux, r). Inr (Result aux r)))"

definition sys_select :: "penv \<Rightarrow> bool \<Rightarrow> tracee \<Rightarrow> tcb \<Rightarrow> ending + decoded" where
  "sys_select pe show_fd_path t tcp = decode_select pe show_fd_path t tcp (t_u_arg tcp) False"

definition sys_oldselect :: "penv \<Rightarrow> bool \<Rightarrow> tracee \<Rightarrow> tcb \<Rightarrow> ending + decoded" where
  "sys_oldselect pe show_fd_path t tcp =
    sbind (fails EFault (tr_umoven t (t_u_arg tcp ! 0) 40 (take 40 (stack pe)))) (\<lambda>(rc, args, _).
      if rc < 0 then Inr (Printed ''[...]'') else decode_select pe show_fd_path t tcp (longs args) False)"

definition sys_pselect6 :: "tables \<Rightarrow> penv \<Rightarrow> bool \<Rightarrow> tracee \<Rightarrow> tcb \<Rightarrow> ending + decoded" where
  "sys_pselect6 tb pe show_fd_path t tcp =
    sbind (decode_select pe show_fd_path t tcp (t_u_arg tcp) False) (\<lambda>rc.
      case rc of
        Result aux r \<Rightarrow> Inr rc
      | Printed s \<Rightarrow>
          fails EFault (sbind (tr_umoven t (t_u_arg tcp ! 5) 16 (take 16 (stack pe))) (\<lambda>(r, data, _).
            if r < 0 then Inr (Printed (s @ '', '' @ fmt_hx (unat (t_u_arg tcp ! 5))))
            else
              (let ss = of_nat (bytes_num (take 8 data)) :: c_long; len = bytes_num (drop 8 data)
               in sbind (if len < 8 then Inr (fmt_hx (unat ss)) else print_sigset tb t ss False) (\<lambda>m.
                    Inr (Printed (s @ '', {'' @ m @ '', '' @ fmt_u len @ ''}'')))))))"

end
