(* ===== verification/Poll.thy ===== *)
theory Poll
  imports Desc Xlat
begin

text \<open>
  The decoders of \<open>poll\<close> and \<open>ppoll\<close>: \<open>decode_poll\<close>, \<open>sys_poll\<close>, \<open>sys_ppoll\<close> of \<^verbatim>\<open>src/strace/stream.c\<close>, with \<open>sprint_timespec\<close> of
  \<^verbatim>\<open>src/strace/time.c\<close>. The addresses of the array of \<open>struct pollfd\<close> are words, and the result \<open>None\<close> of a loop
  over it is that it does not end. \<open>INFTIM\<close> is not defined by the C library of the build.
\<close>

subsection \<open>Flags, times, entries\<close>

definition pollflags :: "xlat list" where
  "pollflags = [
     \<lparr>xl_val = 0x001, xl_str = ''POLLIN''\<rparr>, \<lparr>xl_val = 0x002, xl_str = ''POLLPRI''\<rparr>, \<lparr>xl_val = 0x004, xl_str = ''POLLOUT''\<rparr>,
     \<lparr>xl_val = 0x040, xl_str = ''POLLRDNORM''\<rparr>, \<lparr>xl_val = 0x100, xl_str = ''POLLWRNORM''\<rparr>,
     \<lparr>xl_val = 0x080, xl_str = ''POLLRDBAND''\<rparr>, \<lparr>xl_val = 0x200, xl_str = ''POLLWRBAND''\<rparr>,
     \<lparr>xl_val = 0x008, xl_str = ''POLLERR''\<rparr>, \<lparr>xl_val = 0x010, xl_str = ''POLLHUP''\<rparr>, \<lparr>xl_val = 0x020, xl_str = ''POLLNVAL''\<rparr>]"

definition sprint_timespec :: "tracee \<Rightarrow> tcb \<Rightarrow> c_long \<Rightarrow> string \<Rightarrow> fault + string" where
  "sprint_timespec t tcp addr ts =
    (if addr = 0 then Inr ''NULL''
     else if \<not> verbose tcp then Inr (fmt_hx (unat addr))
     else
       (let w = (if tr_wordsize t = 4 then 4 else 8)
        in sbind (tr_umoven t addr (2 * w) (take (2 * w) ts)) (\<lambda>(rc, ts, _).
          if rc \<ge> 0 then Inr (''{'' @ fmt_u (bytes_num (take w ts)) @ '', '' @ fmt_u (bytes_num (drop w ts)) @ ''}'')
          else Inr ''{...}'')))"

definition abbrev :: "tcb \<Rightarrow> bool" where
  "abbrev tcp \<longleftrightarrow> t_qual_flg tcp AND QUAL_ABBREV \<noteq> 0"

text \<open>The members of a \<open>struct pollfd\<close>; the \<open>short\<close> members become \<open>int\<close> arguments with their sign.\<close>

definition pollfd_fd :: "string \<Rightarrow> int" where
  "pollfd_fd fds = int_of (of_nat (bytes_num (take 4 fds)))"

definition short_arg :: "string \<Rightarrow> c_int" where
  "short_arg bs = scast (of_nat (bytes_num bs) :: 16 word)"

definition pollfd_events :: "string \<Rightarrow> c_int" where
  "pollfd_events fds = short_arg (take 2 (drop 4 fds))"

definition pollfd_revents :: "string \<Rightarrow> c_int" where
  "pollfd_revents fds = short_arg (take 2 (drop 6 fds))"

text \<open>\<open>nfds\<close>, \<open>start\<close>, \<open>end\<close>, and whether there is nothing to show; \<open>abbrev_end\<close>.\<close>

definition poll_end :: "c_long \<Rightarrow> c_int \<Rightarrow> c_long" where
  "poll_end start nfds = start + 8 * ucast nfds"

definition poll_skips :: "c_long \<Rightarrow> c_int \<Rightarrow> bool" where
  "poll_skips start nfds \<longleftrightarrow> nfds = 0 \<or> (8 * ucast nfds :: c_long) div 8 \<noteq> ucast nfds \<or> poll_end start nfds < start"

definition poll_abbrev_end :: "c_int \<Rightarrow> tcb \<Rightarrow> c_long \<Rightarrow> c_int \<Rightarrow> c_long" where
  "poll_abbrev_end max_strlen tcp start nfds =
    (if abbrev tcp then
       (let abbrev_end = start + ucast max_strlen * 8 in if abbrev_end < start then poll_end start nfds else abbrev_end)
     else poll_end start nfds)"

subsection \<open>The entry\<close>

definition poll_entry_text :: "(int \<Rightarrow> string) \<Rightarrow> string \<Rightarrow> string" where
  "poll_entry_text pr fds =
    (if pollfd_fd fds < 0 then ''{fd='' @ fmt_d (pollfd_fd fds) @ ''}''
     else ''{fd='' @ pr (pollfd_fd fds) @ '', events=''
       @ (case printflags pollflags (pollfd_events fds) (Some ''POLL???'') of Some (s, _) \<Rightarrow> s | None \<Rightarrow> []) @ ''}'')"

text \<open>The loop, after the text \<open>acc\<close>; it yields the text and \<open>failed\<close>.\<close>

partial_function (option) show_polls ::
  "(int \<Rightarrow> string) \<Rightarrow> tracee \<Rightarrow> c_long \<Rightarrow> c_long \<Rightarrow> c_long \<Rightarrow> string \<Rightarrow> c_long \<Rightarrow> string \<Rightarrow> (fault + string \<times> bool) option" where
  "show_polls pr t start stop abbrev_end fds cur acc =
    (if \<not> cur < stop then Some (Inr (acc, False))
     else
       let acc = acc @ (if cur > start then '', '' else [])
       in if cur \<ge> abbrev_end then Some (Inr (acc @ ''...'', False))
          else case tr_umoven t cur 8 fds of
            Inl e \<Rightarrow> Some (Inl e)
          | Inr (rc, fds, _) \<Rightarrow>
              if rc < 0 then Some (Inr (acc @ ''?'', True))
              else show_polls pr t start stop abbrev_end fds (cur + 8) (acc @ poll_entry_text pr fds))"

definition decode_poll_entering ::
  "penv \<Rightarrow> bool \<Rightarrow> c_int \<Rightarrow> tracee \<Rightarrow> tcb \<Rightarrow> (fault + string) option" where
  "decode_poll_entering pe show_fd_path max_strlen t tcp =
    (let start = t_u_arg tcp ! 0; nfds = (ucast (t_u_arg tcp ! 1) :: c_int)
     in if poll_skips start nfds then Some (Inr (fmt_hx (unat start) @ '', '' @ fmt_d (sint nfds) @ '', ''))
        else
          map_option (\<lambda>r. sbind r (\<lambda>(acc, failed).
              Inr (acc @ '']'' @ (if failed then '' '' @ fmt_hx (unat start) else []) @ '', '' @ fmt_d (sint nfds) @ '', '')))
            (show_polls (printfd pe show_fd_path (t_pid tcp)) t start (poll_end start nfds)
              (poll_abbrev_end max_strlen tcp start nfds) (take 8 (stack pe)) start ''[''))"

subsection \<open>The exit\<close>

text \<open>
  An entry with events, put behind the text in \<open>outstr\<close>, which has 1024 bytes: the separator, then the
  descriptor and the events, each only if the text leaves the room that its condition asks for.
\<close>

definition ready_sep :: "string \<Rightarrow> fault + string" where
  "ready_sep outstr =
    (if outstr = [] then out_add outstr ''[''
     else if length outstr < 1024 - 3 then out_add outstr '', '' else Inr outstr)"

definition ready_entry :: "string \<Rightarrow> string \<Rightarrow> fault + string" where
  "ready_entry fds outstr =
    sbind (if length outstr < 1024 - (17 + 4 * 3) + 1 then out_add outstr (''{fd='' @ fmt_d (pollfd_fd fds) @ '', revents='') else Inr outstr)
      (\<lambda>outstr.
        let flagstr = sprintflags [] pollflags (pollfd_revents fds)
        in if length outstr < 1024 - (length flagstr + 2) then out_add outstr (flagstr @ ''}'') else Inr outstr)"

partial_function (option) ready_polls ::
  "tracee \<Rightarrow> c_long \<Rightarrow> c_long \<Rightarrow> string \<Rightarrow> c_long \<Rightarrow> string \<Rightarrow> (fault + string \<times> bool) option" where
  "ready_polls t stop abbrev_end fds cur outstr =
    (if \<not> cur < stop then Some (Inr (outstr, False))
     else case tr_umoven t cur 8 fds of
       Inl e \<Rightarrow> Some (Inl e)
     | Inr (rc, fds, _) \<Rightarrow>
         if rc < 0 then
           Some (sbind (if length outstr < 1024 - 2 then out_add outstr ''?'' else Inr outstr) (\<lambda>outstr. Inr (outstr, True)))
         else if pollfd_revents fds = 0 then ready_polls t stop abbrev_end fds (cur + 8) outstr
         else case ready_sep outstr of
           Inl e \<Rightarrow> Some (Inl e)
         | Inr outstr \<Rightarrow>
             if cur \<ge> abbrev_end then
               Some (sbind (if length outstr < 1024 - 4 then out_add outstr ''...'' else Inr outstr) (\<lambda>outstr. Inr (outstr, False)))
             else (case ready_entry fds outstr of
                 Inl e \<Rightarrow> Some (Inl e)
               | Inr outstr \<Rightarrow> ready_polls t stop abbrev_end fds (cur + 8) outstr))"

text \<open>What follows the loop: the bracket and the time left.\<close>

definition poll_left :: "penv \<Rightarrow> tracee \<Rightarrow> tcb \<Rightarrow> c_long \<Rightarrow> string \<Rightarrow> fault + string option \<times> c_int" where
  "poll_left pe t tcp pts outstr =
    sbind (if outstr \<noteq> [] then out_add outstr '']'' else Inr outstr) (\<lambda>outstr.
      sbind (if pts \<noteq> 0 \<and> length outstr < 1024 - (10 + TIMEVAL_TEXT_BUFSIZE) then
               sbind (out_add outstr (if outstr = [] then ''left '' else '', left '')) (\<lambda>outstr.
                 sbind (sprint_timespec t tcp pts (take 16 (stack pe))) (\<lambda>ts. out_add outstr ts))
             else Inr outstr)
        (\<lambda>outstr. Inr (if outstr = [] then (None, 0) else (Some outstr, RVAL_STR))))"

definition decode_poll_exiting ::
  "penv \<Rightarrow> c_int \<Rightarrow> tracee \<Rightarrow> tcb \<Rightarrow> c_long \<Rightarrow> (fault + string option \<times> c_int) option" where
  "decode_poll_exiting pe max_strlen t tcp pts =
    (let start = t_u_arg tcp ! 0; nfds = (ucast (t_u_arg tcp ! 1) :: c_int)
     in if t_u_error tcp \<noteq> 0 then Some (Inr (None, 0))
        else if t_u_rval tcp = 0 then Some (Inr (Some ''Timeout'', RVAL_STR))
        else if poll_skips start nfds then Some (Inr (None, 0))
        else
          map_option (\<lambda>r. sbind r (\<lambda>(outstr, failed). if failed then Inr (None, 0) else poll_left pe t tcp pts outstr))
            (ready_polls t (poll_end start nfds) (poll_abbrev_end max_strlen tcp start nfds) (take 8 (stack pe)) start []))"

subsection \<open>The system calls\<close>

definition decode_poll ::
  "penv \<Rightarrow> bool \<Rightarrow> c_int \<Rightarrow> tracee \<Rightarrow> tcb \<Rightarrow> c_long \<Rightarrow> (fault + decoded) option" where
  "decode_poll pe show_fd_path max_strlen t tcp pts =
    (if entering tcp then
       map_option (\<lambda>r. sbind r (\<lambda>s. Inr (Printed s))) (decode_poll_entering pe show_fd_path max_strlen t tcp)
     else map_option (\<lambda>r. sbind r (\<lambda>(aux, f). Inr (Result aux f))) (decode_poll_exiting pe max_strlen t tcp pts))"

text \<open>What a system call prints at the entry behind the text of \<open>decode_poll\<close>.\<close>

definition print_behind :: "fault + string \<Rightarrow> fault + decoded \<Rightarrow> fault + decoded" where
  "print_behind rest r =
    sbind r (\<lambda>d. case d of Printed s \<Rightarrow> sbind rest (\<lambda>m. Inr (Printed (s @ m))) | Result aux f \<Rightarrow> Inr d)"

definition sys_poll :: "penv \<Rightarrow> bool \<Rightarrow> c_int \<Rightarrow> tracee \<Rightarrow> tcb \<Rightarrow> (fault + decoded) option" where
  "sys_poll pe show_fd_path max_strlen t tcp =
    map_option (print_behind (Inr (fmt_d (sint (t_u_arg tcp ! 2))))) (decode_poll pe show_fd_path max_strlen t tcp 0)"

definition sys_ppoll :: "tables \<Rightarrow> penv \<Rightarrow> bool \<Rightarrow> c_int \<Rightarrow> tracee \<Rightarrow> tcb \<Rightarrow> (fault + decoded) option" where
  "sys_ppoll tb pe show_fd_path max_strlen t tcp =
    map_option
      (print_behind
        (sbind (sprint_timespec t tcp (t_u_arg tcp ! 2) (take 16 (stack pe))) (\<lambda>ts.
           sbind (print_sigset tb t (t_u_arg tcp ! 3) False) (\<lambda>m. Inr (ts @ '', '' @ m @ '', '' @ fmt_u (unat (t_u_arg tcp ! 4)))))))
      (decode_poll pe show_fd_path max_strlen t tcp (t_u_arg tcp ! 2))"

end
