(* ===== verification/Pathtrace_Correct.thy ===== *)
theory Pathtrace_Correct
  imports Pathtrace
begin

text \<open>
  Correctness of the path filter: what the arguments of a call refer to (\<open>call_refs\<close>), that \<open>pathtrace_match\<close>
  decides whether a selected path is among it, that it always returns and stays inside its buffers, how the entry handler uses
  it, and how \<open>pathtrace_select\<close> builds the selection.
\<close>

subsection \<open>Comparing paths\<close>

text \<open>A string that can be selected: it fits the buffers and, as every C string, holds no NUL.\<close>

definition path_ok :: "string \<Rightarrow> bool" where
  "path_ok p \<longleftrightarrow> CHR 0x00 \<notin> set p \<and> length p \<le> PATH_MAX"

definition selection_ok :: "string list \<Rightarrow> bool" where
  "selection_ok sel \<longleftrightarrow> distinct sel \<and> list_all path_ok sel"

lemma strcmp_eq_str:
  assumes "CHR 0x00 \<notin> set q" "CHR 0x00 \<notin> set p"
  shows "strcmp_eq (q @ CHR 0x00 # rest) p = Inr (q = p)"
  using assms
proof (induction q arbitrary: p)
  case Nil then show ?case by (cases p) auto
next
  case (Cons c q) then show ?case by (cases p) auto
qed

text \<open>A buffer without a NUL differs from every string that is shorter than it.\<close>

lemma strcmp_eq_cut:
  assumes "CHR 0x00 \<notin> set buf" "length p < length buf"
  shows "strcmp_eq buf p = Inr False"
  using assms
proof (induction buf arbitrary: p)
  case (Cons c buf) then show ?case by (cases p) auto
qed simp

lemma pathmatch_str:
  assumes "CHR 0x00 \<notin> set q" "list_all path_ok sel"
  shows "pathmatch sel (q @ CHR 0x00 # rest) = Inr (q \<in> set sel)"
  using assms by (induction sel) (auto simp: strcmp_eq_str path_ok_def)

lemma pathmatch_cut:
  assumes "CHR 0x00 \<notin> set buf" "PATH_MAX < length buf" "list_all path_ok sel"
  shows "pathmatch sel buf = Inr False"
  using assms by (induction sel) (auto simp: strcmp_eq_cut path_ok_def)

subsection \<open>What an argument denotes\<close>

definition str_at :: "memory \<Rightarrow> c_long \<Rightarrow> string \<Rightarrow> bool" where
  "str_at mem a p \<longleftrightarrow> CHR 0x00 \<notin> set p \<and> mem_bytes mem a (length p + 1) = Some (p @ [CHR 0x00])"

definition links_ok :: "penv \<Rightarrow> bool" where
  "links_ok pe \<longleftrightarrow> (\<forall>pid fd p. fdlink pe pid fd = Some p \<longrightarrow> CHR 0x00 \<notin> set p)"

definition fd_denotes :: "penv \<Rightarrow> int \<Rightarrow> int \<Rightarrow> string \<Rightarrow> bool" where
  "fd_denotes pe pid fd p \<longleftrightarrow> 0 \<le> fd \<and> (\<exists>q. fdlink pe pid (nat fd) = Some q \<and> p = take PATH_MAX q)"

lemma fdmatch_ok:
  assumes "links_ok pe" "list_all path_ok (selected pe)"
  shows "fdmatch pe pid fd = Inr (\<exists>p\<in>set (selected pe). fd_denotes pe pid fd p)"
proof (cases "getfdpath pe pid fd (PATH_MAX + 1)")
  case None
  then show ?thesis by (auto simp: fdmatch_def getfdpath_def fd_denotes_def split: if_splits)
next
  case (Some q)
  then have "CHR 0x00 \<notin> set q" using assms(1)
    by (auto simp: getfdpath_def links_ok_def split: if_splits dest!: in_set_takeD)
  then have "fdmatch pe pid fd = Inr (q \<in> set (selected pe))"
    using Some pathmatch_str [OF _ assms(2), of q "[]"] by (simp add: fdmatch_def)
  then show ?thesis using Some by (auto simp: getfdpath_def fd_denotes_def split: if_splits)
qed

lemma mem_bytes_prefix:
  assumes "mem_bytes mem a n = Some bs" "m \<le> n"
  shows "mem_bytes mem a m = Some (take m bs)"
  using assms
proof (induction n arbitrary: a m bs)
  case (Suc n) then show ?case by (cases m) (auto split: option.splits)
qed simp

lemma str_at_bytes:
  assumes "mem_bytes mem a n = Some bs" "CHR 0x00 \<in> set bs"
  obtains p rest where "bs = p @ CHR 0x00 # rest" "str_at mem a p"
proof -
  obtain p rest where b: "bs = p @ CHR 0x00 # rest" "CHR 0x00 \<notin> set p"
    using split_list_first [OF assms(2)] by blast
  have n: "length bs = n" using assms(1) by (rule mem_bytes_length)
  have "mem_bytes mem a (length p + 1) = Some (p @ [CHR 0x00])"
    using mem_bytes_prefix [OF assms(1), of "length p + 1"] b(1) n by auto
  then show thesis using that b by (auto simp: str_at_def)
qed

lemma str_at_unique:
  assumes "str_at mem a p" "str_at mem a q"
  shows "p = q"
proof -
  have le: "length p = length q" if "str_at mem a p" "str_at mem a q" "length p \<le> length q" for p q
  proof (rule ccontr)
    assume "length p \<noteq> length q"
    with that(3) have l: "length p < length q" by simp
    have "take (length p + 1) (q @ [CHR 0x00]) = p @ [CHR 0x00]"
      using mem_bytes_prefix [of mem a "length q + 1" "q @ [CHR 0x00]" "length p + 1"] that l by (auto simp: str_at_def)
    then have "CHR 0x00 \<in> set (take (length p + 1) q)" using l by simp
    then show False using that(2) by (auto simp: str_at_def dest: in_set_takeD)
  qed
  have "length p = length q" using le [of p q] le [of q p] assms by fastforce
  then show ?thesis using assms by (auto simp: str_at_def)
qed

lemma upathmatch_ok:
  assumes h: "honest (tr_kernel t) mem" and st: "length (stack pe) = PATH_MAX + 1"
    and sel: "list_all path_ok (selected pe)"
  shows "\<exists>b. upathmatch pe t upath = Inr b
    \<and> (b \<longrightarrow> (\<exists>p\<in>set (selected pe). str_at mem (narrow_addr (tr_wordsize t) upath) p))
    \<and> (serves (tr_kernel t) mem \<longrightarrow> mem_bytes mem (narrow_addr (tr_wordsize t) upath) (PATH_MAX + 1) \<noteq> None
        \<longrightarrow> (\<exists>p\<in>set (selected pe). str_at mem (narrow_addr (tr_wordsize t) upath) p) \<longrightarrow> b)"
proof -
  let ?a = "narrow_addr (tr_wordsize t) upath"
  let ?len = "PATH_MAX + 1"
  have "?len \<le> length (stack pe)" using st by simp
  from umovestr_ok [OF h this, of "tr_wordsize t" "tr_notsup t" upath] obtain r buf ns ms where
    u: "tr_umovestr t upath ?len (stack pe) = Inr (r, buf, ns, ms)"
    "str_ok (if ns then 7 else 0) mem ?a ?len 0 (stack pe) r buf"
    "serves (tr_kernel t) mem \<longrightarrow> mem_bytes mem ?a ?len \<noteq> None \<longrightarrow> r \<noteq> -1" by auto
  have eq: "upathmatch pe t upath = (if r > 0 then pathmatch (selected pe) buf else Inr False)"
    using u(1) by (simp add: upathmatch_def)
  consider "r = -1" | "r = 0" | "r = 1" using u(2) by (auto simp: str_ok_def)
  then show ?thesis
  proof cases
    case 1 then show ?thesis using eq u(3) by auto
  next
    case 2
    then obtain bs where bs: "mem_bytes mem ?a ?len = Some bs" "CHR 0x00 \<notin> set bs"
      using u(2) by (auto simp: str_ok_def)
    have "\<not> str_at mem ?a p" if "p \<in> set (selected pe)" for p
    proof
      assume s: "str_at mem ?a p"
      have "length p \<le> PATH_MAX" using that sel by (auto simp: list_all_iff path_ok_def)
      then have "take (length p + 1) bs = p @ [CHR 0x00]"
        using mem_bytes_prefix [OF bs(1), of "length p + 1"] s by (simp add: str_at_def)
      then show False using bs(2) by (metis in_set_conv_decomp in_set_takeD)
    qed
    then show ?thesis using eq 2 by auto
  next
    case 3
    then obtain n bs where n: "mem_bytes mem ?a n = Some bs" "CHR 0x00 \<in> set bs"
      "buf = take 0 (stack pe) @ take ?len bs @ drop (0 + min n ?len) (stack pe)"
      using u(2) unfolding str_ok_def by blast
    obtain p rest where p: "bs = p @ CHR 0x00 # rest" "str_at mem ?a p" using str_at_bytes [OF n(1,2)] .
    have nz: "CHR 0x00 \<notin> set p" using p(2) by (simp add: str_at_def)
    have "pathmatch (selected pe) buf = Inr (p \<in> set (selected pe))"
    proof (cases "length p \<le> PATH_MAX")
      case True
      then obtain rest' where "buf = p @ CHR 0x00 # rest'" using p(1) n(3) by (auto simp: take_Cons' split: if_splits)
      then show ?thesis using pathmatch_str [OF nz sel] by simp
    next
      case False
      have l: "length bs = n" using n(1) by (rule mem_bytes_length)
      have "buf = take ?len p" using False n(3) p(1) l st by auto
      then have "pathmatch (selected pe) buf = Inr False"
        using False nz by (intro pathmatch_cut [OF _ _ sel]) (auto dest: in_set_takeD)
      moreover have "p \<notin> set (selected pe)" using False sel by (auto simp: list_all_iff path_ok_def)
      ultimately show ?thesis by simp
    qed
    then show ?thesis using eq 3 p(2) str_at_unique by (auto simp: )
  qed
qed

subsection \<open>The size of a descriptor set\<close>

lemma unat_ucast_long: "unat (ucast (x :: c_int) :: c_long) = unat x"
proof -
  have "unat x < 2 ^ LENGTH(32)" by (rule unsigned_less)
  then show ?thesis by (simp add: unsigned_ucast_eq take_bit_nat_eq_self)
qed

lemma and_not_sub: "unat ((a :: c_long) AND NOT m) = unat a - unat (a AND m)"
proof -
  have "a AND m \<le> a" by (rule word_and_le2)
  moreover have "a AND NOT m = a - (a AND m)" using mask_sum [of a m] by (metis add_diff_cancel_left')
  ultimately show ?thesis by (simp add: unat_sub)
qed

lemma unat_and_neg8: "unat ((a :: c_long) AND - 8) = unat a div 8 * 8"
proof -
  have neg: "(- 8 :: c_long) = NOT 7" by (simp add: not_eq_complement)
  show ?thesis unfolding neg and_not_sub unat_and_7 by (rule minus_mod_eq_div_mult)
qed

lemma select_fdsize_ok:
  assumes "unat nfds \<le> 1024 * 1024"
  shows "unat (select_fdsize nfds) = ((unat nfds + 7) div 8 + 7) div 8 * 8"
proof -
  let ?b = "(unat nfds + 7) div 8"
  have "unat (nfds + 7) = unat nfds + 7" using assms by (subst unat_add_lem [THEN iffD1]) auto
  then have b: "unat ((nfds + 7) div 8) = ?b" by (simp add: unat_div)
  let ?w = "(ucast ((nfds + 7) div 8) :: c_long) + 8 - 1"
  have "?w = ucast ((nfds + 7) div 8) + 7" by simp
  moreover have "unat (ucast ((nfds + 7) div 8) + (7 :: c_long)) = ?b + 7"
    using assms b unat_ucast_long by (subst unat_add_lem [THEN iffD1]) auto
  ultimately have w: "unat ?w = ?b + 7" by (simp only:)
  have "unat (?w AND - 8) = (?b + 7) div 8 * 8" using unat_and_neg8 [of ?w] w by simp
  moreover have "(?b + 7) div 8 * 8 < 2 ^ 32" using assms by simp
  ultimately show ?thesis unfolding select_fdsize_def
    by (simp add: unsigned_ucast_eq take_bit_nat_eq_self)
qed

lemma select_nfds_cut: "int (unat (select_nfds a)) = max 0 (min (sint a) (1024 * 1024))"
proof -
  have "int (unat (ucast a :: c_int)) = sint a" if "0 \<le> sint a" "sint a \<le> 1024 * 1024"
  proof -
    have u: "uint a = sint a" using that uint_lt2p [of a] unfolding sint_c_long by (auto split: if_splits)
    then have "unat a \<le> 1024 * 1024" using that(2) by (simp add: unat_eq_nat_uint)
    then have "unat (ucast a :: c_int) = unat a" by (simp add: unsigned_ucast_eq take_bit_nat_eq_self)
    then show ?thesis using u by simp
  qed
  then show ?thesis by (auto simp: select_nfds_def)
qed

lemma select_nfds_le: "unat (select_nfds a) \<le> 1024 * 1024"
  using select_nfds_cut [of a] by linarith

lemma select_fits:
  "unat (select_nfds a) \<le> 8 * unat (select_fdsize (select_nfds a))"
  "unat (select_fdsize (select_nfds a)) \<le> 131072"
  using select_fdsize_ok [OF select_nfds_le, of a] select_nfds_le [of a] by auto

subsection \<open>The references of a call\<close>

text \<open>
  What a call refers to: descriptors, and addresses of paths. \<open>set_refs\<close> are the members of a descriptor
  set in memory, \<open>poll_refs\<close> the descriptors of an array of \<open>struct pollfd\<close>; a set or an entry outside the
  mapped memory refers to nothing.
\<close>

datatype ref = FdRef int | PathRef c_long

definition ref_selected :: "penv \<Rightarrow> memory \<Rightarrow> nat \<Rightarrow> int \<Rightarrow> ref \<Rightarrow> bool" where
  "ref_selected pe mem ws pid r \<longleftrightarrow>
    (\<exists>p\<in>set (selected pe). case r of FdRef fd \<Rightarrow> fd_denotes pe pid fd p | PathRef a \<Rightarrow> str_at mem (narrow_addr ws a) p)"

fun check_ref :: "c_long list \<Rightarrow> check \<Rightarrow> ref" where
  "check_ref args (Fd i) = FdRef (int_of (args ! i))"
| "check_ref args (Path i) = PathRef (args ! i)"

definition set_refs :: "memory \<Rightarrow> nat \<Rightarrow> nat \<Rightarrow> nat \<Rightarrow> c_long \<Rightarrow> ref set" where
  "set_refs mem ws nfds fdsize a =
    (if a = 0 then {} else case mem_bytes mem (narrow_addr ws a) fdsize of
       None \<Rightarrow> {}
     | Some fds \<Rightarrow> {FdRef (int j) | j. j < nfds \<and> bit (of_char (fds ! (j div 8)) :: nat) (j mod 8)})"

definition select_refs :: "memory \<Rightarrow> nat \<Rightarrow> c_long list \<Rightarrow> ref set" where
  "select_refs mem ws args =
    (let nfds = select_nfds (args ! 0)
     in \<Union>a\<in>set [args ! 1, args ! 2, args ! 3]. set_refs mem ws (unat nfds) (unat (select_fdsize nfds)) a)"

definition poll_ref :: "memory \<Rightarrow> nat \<Rightarrow> c_long \<Rightarrow> ref set" where
  "poll_ref mem ws a =
    (case mem_bytes mem (narrow_addr ws a) 8 of
       None \<Rightarrow> {} | Some fds \<Rightarrow> {FdRef (int_of (of_nat (bytes_num (take 4 fds))))})"

definition poll_refs :: "memory \<Rightarrow> nat \<Rightarrow> c_long \<Rightarrow> nat \<Rightarrow> ref set" where
  "poll_refs mem ws start nfds = (\<Union>i<nfds. poll_ref mem ws (start + 8 * of_nat i))"

text \<open>
  How far a verdict is right: it says yes only if there is a hit, and says so of every hit when
  everything it looks at can be read.
\<close>

definition decides :: "bool \<Rightarrow> bool \<Rightarrow> bool \<Rightarrow> bool" where
  "decides full hit b \<longleftrightarrow> (b \<longrightarrow> hit) \<and> (full \<longrightarrow> hit \<longrightarrow> b)"

lemma decides_mono: "decides full h b \<Longrightarrow> (h \<Longrightarrow> h') \<Longrightarrow> (full \<Longrightarrow> h' \<Longrightarrow> h) \<Longrightarrow> decides full h' b"
  unfolding decides_def by blast

definition penv_ok :: "penv \<Rightarrow> bool" where
  "penv_ok pe \<longleftrightarrow> list_all path_ok (selected pe) \<and> links_ok pe \<and> length (stack pe) = PATH_MAX + 1
     \<and> (\<forall>n\<le>131072. \<exists>buf. malloc pe n = Some buf \<and> length buf = n)"

abbreviation hits :: "penv \<Rightarrow> memory \<Rightarrow> tracee \<Rightarrow> int \<Rightarrow> ref set \<Rightarrow> bool" where
  "hits pe mem t pid R \<equiv> (\<exists>r\<in>R. ref_selected pe mem (tr_wordsize t) pid r)"

text \<open>Every path argument lies in mapped memory, up to the longest path that is read.\<close>

definition paths_mapped :: "memory \<Rightarrow> nat \<Rightarrow> ref set \<Rightarrow> bool" where
  "paths_mapped mem ws R \<longleftrightarrow> (\<forall>a. PathRef a \<in> R \<longrightarrow> mem_bytes mem (narrow_addr ws a) (PATH_MAX + 1) \<noteq> None)"

lemma fd_hit:
  assumes "penv_ok pe"
  shows "fdmatch pe pid fd = Inr (ref_selected pe mem ws pid (FdRef fd))"
  using assms by (simp add: penv_ok_def fdmatch_ok ref_selected_def)

lemma do_check_ok:
  assumes "honest (tr_kernel t) mem" "penv_ok pe"
  shows "\<exists>b. do_check pe t tcp c = Inr b \<and>
    decides (serves (tr_kernel t) mem \<and> paths_mapped mem (tr_wordsize t) {check_ref (t_u_arg tcp) c})
      (ref_selected pe mem (tr_wordsize t) (t_pid tcp) (check_ref (t_u_arg tcp) c)) b"
proof (cases c)
  case (Fd i)
  then show ?thesis using fd_hit [OF assms(2), of "t_pid tcp" _ mem "tr_wordsize t"] by (auto simp: do_check_def decides_def)
next
  case (Path i)
  then show ?thesis using upathmatch_ok [OF assms(1), of pe "t_u_arg tcp ! i"] assms(2)
    by (simp add: do_check_def decides_def penv_ok_def ref_selected_def paths_mapped_def imp_conjL)
qed

lemma any_check_ok:
  assumes "honest (tr_kernel t) mem" "penv_ok pe"
  shows "\<exists>b. any_check pe t tcp cs = Inr b \<and>
    decides (serves (tr_kernel t) mem \<and> paths_mapped mem (tr_wordsize t) (check_ref (t_u_arg tcp) ` set cs))
      (hits pe mem t (t_pid tcp) (check_ref (t_u_arg tcp) ` set cs)) b"
proof (induction cs)
  case Nil
  then show ?case by (auto simp: decides_def)
next
  case (Cons c cs)
  then obtain b where b: "any_check pe t tcp cs = Inr b"
    "decides (serves (tr_kernel t) mem \<and> paths_mapped mem (tr_wordsize t) (check_ref (t_u_arg tcp) ` set cs))
      (hits pe mem t (t_pid tcp) (check_ref (t_u_arg tcp) ` set cs)) b" by blast
  obtain b' where b': "do_check pe t tcp c = Inr b'"
    "decides (serves (tr_kernel t) mem \<and> paths_mapped mem (tr_wordsize t) {check_ref (t_u_arg tcp) c})
      (ref_selected pe mem (tr_wordsize t) (t_pid tcp) (check_ref (t_u_arg tcp) c)) b'"
    using do_check_ok [OF assms] by blast
  have "any_check pe t tcp (c # cs) = Inr (b' \<or> b)" using b(1) b'(1) by simp
  moreover have "paths_mapped mem ws (check_ref (t_u_arg tcp) ` set (c # cs)) \<longleftrightarrow>
      paths_mapped mem ws {check_ref (t_u_arg tcp) c} \<and> paths_mapped mem ws (check_ref (t_u_arg tcp) ` set cs)" for ws
    by (auto simp: paths_mapped_def)
  ultimately show ?case using b(2) b'(2) by (auto simp: decides_def)
qed

subsection \<open>Reading a block\<close>

lemma read_block:
  assumes "honest (tr_kernel t) mem" "length buf = n"
  obtains r buf' ns ms where "tr_umoven t a n buf = Inr (r, buf', ns, ms)" "length buf' = n"
    "r = -1 \<or> r = 0 \<and> mem_bytes mem (narrow_addr (tr_wordsize t) a) n = Some buf'"
    "serves (tr_kernel t) mem \<Longrightarrow> 0 < n \<Longrightarrow> mem_bytes mem (narrow_addr (tr_wordsize t) a) n \<noteq> None \<Longrightarrow> r = 0"
proof -
  obtain r buf' ns ms where u: "tr_umoven t a n buf = Inr (r, buf', ns, ms)"
    "read_ok mem (narrow_addr (tr_wordsize t) a) n 0 buf r buf'"
    "serves (tr_kernel t) mem \<longrightarrow> 0 < n \<longrightarrow> (r = 0 \<longleftrightarrow> mem_bytes mem (narrow_addr (tr_wordsize t) a) n \<noteq> None)"
    using umoven_ok [OF assms(1), of n buf "tr_wordsize t" "tr_notsup t" a] assms(2) by auto
  show thesis using u assms(2) by (intro that [OF u(1)]) (auto simp: read_ok_def keeps_def)
qed

subsection \<open>select\<close>

lemma set_loop_ok:
  assumes "penv_ok pe" "\<forall>j\<in>set js. j div 8 < length fds"
  shows "set_loop pe pid fds js = Inr (\<exists>j\<in>set js. bit (of_char (fds ! (j div 8)) :: nat) (j mod 8)
      \<and> ref_selected pe mem ws pid (FdRef (int j)))"
  using assms(2) by (induction js) (auto simp: fd_isset_def fd_hit [OF assms(1), of pid _ mem ws])

lemma set_loop_refs:
  assumes "penv_ok pe" "nfds \<le> 8 * length fds" "a \<noteq> 0" "mem_bytes mem (narrow_addr ws a) (length fds) = Some fds"
  shows "set_loop pe pid fds [0..<nfds] = Inr (\<exists>r\<in>set_refs mem ws nfds (length fds) a. ref_selected pe mem ws pid r)"
  using set_loop_ok [OF assms(1), of "[0..<nfds]" fds pid mem ws] assms(2-4) by (force simp: set_refs_def)

lemma select_loop_ok:
  assumes "honest (tr_kernel t) mem" "penv_ok pe" "nfds \<le> 8 * length fds"
  shows "\<exists>b ms. select_loop pe t pid nfds fds as = Inr (b, ms) \<and> decides (serves (tr_kernel t) mem)
      (hits pe mem t pid (\<Union>a\<in>set as. set_refs mem (tr_wordsize t) nfds (length fds) a)) b"
  using assms(3)
proof (induction as arbitrary: fds)
  case Nil
  then show ?case by (auto simp: decides_def)
next
  case (Cons a as)
  let ?R = "\<lambda>a. set_refs mem (tr_wordsize t) nfds (length fds) a"
  show ?case
  proof (cases "a = 0")
    case True
    then show ?thesis using Cons by (simp add: set_refs_def)
  next
    case False
    obtain r fds' ns ms where u: "tr_umoven t a (length fds) fds = Inr (r, fds', ns, ms)" "length fds' = length fds"
      "r = -1 \<or> r = 0 \<and> mem_bytes mem (narrow_addr (tr_wordsize t) a) (length fds) = Some fds'"
      "serves (tr_kernel t) mem \<Longrightarrow> 0 < length fds \<Longrightarrow>
        mem_bytes mem (narrow_addr (tr_wordsize t) a) (length fds) \<noteq> None \<Longrightarrow> r = 0"
      using read_block [OF assms(1) refl] by metis
    obtain b ms' where b: "select_loop pe t pid nfds fds' as = Inr (b, ms')"
      "decides (serves (tr_kernel t) mem) (hits pe mem t pid (\<Union>a\<in>set as. ?R a)) b"
      using Cons.IH [of fds'] Cons.prems u(2) by auto
    show ?thesis
    proof (cases "r = 0")
      case True
      then have m: "mem_bytes mem (narrow_addr (tr_wordsize t) a) (length fds') = Some fds'" using u(2,3) by auto
      have "set_loop pe pid fds' [0..<nfds] = Inr (hits pe mem t pid (?R a))"
        using set_loop_refs [OF assms(2) _ False m, of nfds pid] Cons.prems u(2) by simp
      then show ?thesis using True u(1) b False by (auto simp: decides_def)
    next
      case r: False
      have "?R a = {}" if "serves (tr_kernel t) mem"
      proof (cases "0 < length fds")
        case True
        then show ?thesis using u(4) [OF that] r by (auto simp: set_refs_def split: option.splits)
      next
        case f: False
        then show ?thesis using Cons.prems by (auto simp: set_refs_def split: option.splits)
      qed
      then have "serves (tr_kernel t) mem \<Longrightarrow> (\<Union>a\<in>set (a # as). ?R a) = (\<Union>a\<in>set as. ?R a)" by simp
      moreover have "(\<Union>a\<in>set as. ?R a) \<subseteq> (\<Union>a\<in>set (a # as). ?R a)" by auto
      ultimately have "decides (serves (tr_kernel t) mem) (hits pe mem t pid (\<Union>a\<in>set (a # as). ?R a)) b"
        by (intro decides_mono [OF b(2)]) (blast, simp only:)
      moreover have "select_loop pe t pid nfds fds (a # as) = Inr (b, ''umoven() failed'' # ms')"
        using r u(1,3) b(1) False by simp
      ultimately show ?thesis by blast
    qed
  qed
qed

lemma select_match_ok:
  assumes "honest (tr_kernel t) mem" "penv_ok pe"
  shows "\<exists>b ms. select_match pe t pid args = Inr (b, ms) \<and> decides (serves (tr_kernel t) mem)
      (hits pe mem t pid (select_refs mem (tr_wordsize t) args)) b"
proof -
  let ?n = "select_nfds (args ! 0)"
  obtain fds where f: "malloc pe (unat (select_fdsize ?n)) = Some fds" "length fds = unat (select_fdsize ?n)"
    using assms(2) select_fits(2) [of "args ! 0"] unfolding penv_ok_def by blast
  have "unat ?n \<le> 8 * length fds" using f(2) select_fits(1) by simp
  from select_loop_ok [OF assms this, of pid "[args ! 1, args ! 2, args ! 3]"] show ?thesis
    using f by (auto simp: select_match_def Let_def fails_def select_refs_def simp del: select_loop.simps)
qed

lemma oldselect_match_ok:
  assumes "honest (tr_kernel t) mem" "penv_ok pe"
  shows "\<exists>b ms. oldselect_match pe t pid a = Inr (b, ms) \<and> decides (serves (tr_kernel t) mem)
      (hits pe mem t pid (case mem_bytes mem (narrow_addr (tr_wordsize t) a) 40 of
         None \<Rightarrow> {} | Some bs \<Rightarrow> select_refs mem (tr_wordsize t) (longs bs))) b"
proof -
  have l: "length (take 40 (stack pe)) = 40" using assms(2) by (simp add: penv_ok_def)
  obtain r buf ns ms where u: "tr_umoven t a 40 (take 40 (stack pe)) = Inr (r, buf, ns, ms)"
    "r = -1 \<or> r = 0 \<and> mem_bytes mem (narrow_addr (tr_wordsize t) a) 40 = Some buf"
    "serves (tr_kernel t) mem \<Longrightarrow> mem_bytes mem (narrow_addr (tr_wordsize t) a) 40 \<noteq> None \<Longrightarrow> r = 0"
    using read_block [OF assms(1) l] by (metis zero_less_numeral)
  show ?thesis
  proof (cases "r = 0")
    case True
    then show ?thesis using u select_match_ok [OF assms, of pid "longs buf"]
      by (simp add: oldselect_match_def fails_def)
  next
    case False
    then show ?thesis using u by (auto simp: oldselect_match_def fails_def decides_def split: option.splits)
  qed
qed

subsection \<open>poll\<close>

text \<open>The array of \<open>nfds\<close> entries does not reach beyond the end of the address space.\<close>

definition poll_fits :: "c_long \<Rightarrow> c_long \<Rightarrow> bool" where
  "poll_fits start n \<longleftrightarrow> unat start + 8 * unat (ucast n :: c_int) < 2 ^ 64"

lemma poll_stop:
  "unat (start + 8 * ucast (nfds :: c_int) :: c_long) =
    (if unat start + 8 * unat nfds < 2 ^ 64 then unat start + 8 * unat nfds else unat start + 8 * unat nfds - 2 ^ 64)"
proof -
  have n: "unat nfds < 2 ^ LENGTH(32)" by (rule unsigned_less)
  then have "unat (8 * ucast nfds :: c_long) = 8 * unat nfds"
    by (subst unat_mult_lem [THEN iffD1]) (simp_all add: unat_ucast_long)
  then show ?thesis by (simp add: unat_plus_if')
qed

lemma poll_wraps: "(start + 8 * ucast (ucast n :: c_int) < start) \<longleftrightarrow> \<not> poll_fits start n"
proof -
  have "unat (ucast n :: c_int) < 2 ^ LENGTH(32)" by (rule unsigned_less)
  then show ?thesis unfolding word_less_nat_alt poll_stop by (auto simp: poll_fits_def)
qed

lemma poll_next:
  assumes "unat stop = unat cur + 8 * Suc n"
  shows "cur < stop" "unat stop = unat (cur + 8 :: c_long) + 8 * n"
proof -
  show "cur < stop" using assms by (simp add: word_less_nat_alt)
  have "unat stop < 2 ^ LENGTH(64)" by (rule unsigned_less)
  then have "unat cur + unat (8 :: c_long) < 2 ^ LENGTH(64)" using assms by simp
  then have "unat (cur + 8) = unat cur + 8" by (subst unat_add_lem [THEN iffD1]) simp_all
  then show "unat stop = unat (cur + 8) + 8 * n" using assms by simp
qed

lemma poll_loop_ends:
  assumes "unat stop = unat cur + 8 * n"
  shows "\<exists>res. poll_loop pe t pid fds stop cur = Some res"
  using assms
proof (induction n arbitrary: cur fds)
  case 0
  then show ?case by (simp add: poll_loop.simps word_less_nat_alt)
next
  case (Suc n)
  have "\<exists>res. poll_loop pe t pid fds' stop (cur + 8) = Some res" for fds'
    by (rule Suc.IH) (rule poll_next(2) [OF Suc.prems])
  then show ?case by (subst poll_loop.simps) (auto split: sum.splits prod.splits)
qed

lemma poll_match_ends: "\<exists>res. poll_match pe t pid start n = Some res"
proof (cases "poll_fits start n")
  case True
  then have "unat (start + 8 * ucast (ucast n :: c_int)) = unat start + 8 * unat (ucast n :: c_int)"
    unfolding poll_stop by (simp add: poll_fits_def)
  then show ?thesis using poll_loop_ends by (auto simp: poll_match_def Let_def)
next
  case False
  then show ?thesis by (simp add: poll_match_def Let_def poll_wraps)
qed

lemma poll_refs_Suc: "poll_refs mem ws start (Suc n) = poll_ref mem ws start \<union> poll_refs mem ws (start + 8) n"
  by (simp add: poll_refs_def lessThan_Suc_eq_insert_0 algebra_simps image_image)

lemma poll_entry:
  assumes "honest (tr_kernel t) mem" "penv_ok pe" "length fds = 8"
  obtains r fds' x b where "tr_umoven t a 8 fds = Inr (r, fds', x)" "length fds' = 8"
    "(if r = 0 then fdmatch pe pid (int_of (of_nat (bytes_num (take 4 fds')))) else Inr False) = Inr b"
    "decides (serves (tr_kernel t) mem) (hits pe mem t pid (poll_ref mem (tr_wordsize t) a)) b"
proof -
  obtain r fds' ns ms where u: "tr_umoven t a 8 fds = Inr (r, fds', ns, ms)" "length fds' = 8"
    "r = -1 \<or> r = 0 \<and> mem_bytes mem (narrow_addr (tr_wordsize t) a) 8 = Some fds'"
    "serves (tr_kernel t) mem \<Longrightarrow> mem_bytes mem (narrow_addr (tr_wordsize t) a) 8 \<noteq> None \<Longrightarrow> r = 0"
    using read_block [OF assms(1,3)] by (metis zero_less_numeral)
  show thesis
  proof (cases "r = 0")
    case True
    then show thesis using u(3) fd_hit [OF assms(2), of pid _ mem "tr_wordsize t"]
      by (intro that [OF u(1,2)]) (auto simp: decides_def poll_ref_def)
  next
    case False
    then show thesis using u(4)
      by (intro that [OF u(1,2), of False]) (auto simp: decides_def poll_ref_def split: option.splits)
  qed
qed

lemma poll_loop_ok:
  assumes "honest (tr_kernel t) mem" "penv_ok pe" "length fds = 8" "unat stop = unat cur + 8 * n"
  shows "\<exists>b. poll_loop pe t pid fds stop cur = Some (Inr b) \<and>
    decides (serves (tr_kernel t) mem) (hits pe mem t pid (poll_refs mem (tr_wordsize t) cur n)) b"
  using assms(3,4)
proof (induction n arbitrary: cur fds)
  case 0
  then show ?case by (auto simp: poll_loop.simps [of pe] word_less_nat_alt poll_refs_def decides_def)
next
  case (Suc n)
  obtain r fds' x b where e: "tr_umoven t cur 8 fds = Inr (r, fds', x)" "length fds' = 8"
    "(if r = 0 then fdmatch pe pid (int_of (of_nat (bytes_num (take 4 fds')))) else Inr False) = Inr b"
    "decides (serves (tr_kernel t) mem) (hits pe mem t pid (poll_ref mem (tr_wordsize t) cur)) b"
    by (rule poll_entry [OF assms(1,2) Suc.prems(1), of cur pid])
  obtain b' where b': "poll_loop pe t pid fds' stop (cur + 8) = Some (Inr b')"
    "decides (serves (tr_kernel t) mem) (hits pe mem t pid (poll_refs mem (tr_wordsize t) (cur + 8) n)) b'"
    using Suc.IH [OF e(2) poll_next(2) [OF Suc.prems(2)]] by blast
  have "poll_loop pe t pid fds stop cur = Some (Inr (b \<or> b'))"
    using e(1,3) b'(1) poll_next(1) [OF Suc.prems(2)] by (subst poll_loop.simps) simp
  moreover have "decides (serves (tr_kernel t) mem) (hits pe mem t pid (poll_refs mem (tr_wordsize t) cur (Suc n))) (b \<or> b')"
    using e(4) b'(2) unfolding poll_refs_Suc decides_def by blast
  ultimately show ?case by blast
qed

lemma poll_match_ok:
  assumes "honest (tr_kernel t) mem" "penv_ok pe"
  shows "\<exists>b. poll_match pe t pid start n = Some (Inr b) \<and> decides (serves (tr_kernel t) mem)
    (hits pe mem t pid (if poll_fits start n then poll_refs mem (tr_wordsize t) start (unat (ucast n :: c_int)) else {})) b"
proof (cases "poll_fits start n")
  case True
  then have s: "unat (start + 8 * ucast (ucast n :: c_int)) = unat start + 8 * unat (ucast n :: c_int)"
    unfolding poll_stop by (simp add: poll_fits_def)
  have l: "length (take 8 (stack pe)) = 8" using assms(2) by (simp add: penv_ok_def)
  show ?thesis
  proof (cases "(ucast n :: c_int) = 0")
    case z: True
    then show ?thesis using True by (auto simp: poll_match_def Let_def poll_refs_def decides_def)
  next
    case False
    then show ?thesis using poll_loop_ok [OF assms l s, of pid] True by (simp add: poll_match_def Let_def poll_wraps)
  qed
next
  case False
  then show ?thesis by (auto simp: poll_match_def Let_def poll_wraps decides_def)
qed

subsection \<open>The verdict\<close>

definition call_refs :: "memory \<Rightarrow> nat \<Rightarrow> sysent \<Rightarrow> c_long list \<Rightarrow> ref set" where
  "call_refs mem ws s args =
    (let f = (case sys_func s of Some f \<Rightarrow> f | None \<Rightarrow> [])
     in if sys_flags s AND (TRACE_FILE OR TRACE_DESC) = 0 then {}
        else case special_args f of
          Some cs \<Rightarrow> check_ref args ` set cs
        | None \<Rightarrow>
            if f = ''sys_oldselect'' then
              (case mem_bytes mem (narrow_addr ws (args ! 0)) 40 of None \<Rightarrow> {} | Some bs \<Rightarrow> select_refs mem ws (longs bs))
            else if f \<in> {''sys_select'', ''sys_pselect6''} then select_refs mem ws args
            else if f \<in> {''sys_poll'', ''sys_ppoll''} then
              (if poll_fits (args ! 0) (args ! 1) then poll_refs mem ws (args ! 0) (unat (ucast (args ! 1) :: c_int)) else {})
            else if no_args f (sys_name s) then {}
            else if sys_flags s AND TRACE_FILE \<noteq> 0 then {PathRef (args ! 0)}
            else {FdRef (int_of (args ! 0))})"

lemma quiet_ok:
  assumes "\<exists>b. r = Inr b \<and> P b"
  shows "\<exists>b ms. quiet r = Inr (b, ms) \<and> P b"
  using assms by (auto simp: quiet_def fails_def)

lemma decides_weaken: "decides full h b \<Longrightarrow> decides (full \<and> x) h b"
  unfolding decides_def by blast

lemma pathtrace_match_ok:
  fixes s :: sysent and tcp :: tcb
  assumes "honest (tr_kernel t) mem" "penv_ok pe"
  defines "R \<equiv> call_refs mem (tr_wordsize t) s (t_u_arg tcp)"
  shows "\<exists>b ms. pathtrace_match pe t s tcp = Some (Inr (b, ms)) \<and>
    decides (serves (tr_kernel t) mem \<and> paths_mapped mem (tr_wordsize t) R) (hits pe mem t (t_pid tcp) R) b"
proof -
  have checks: "\<exists>b ms. quiet (any_check pe t tcp cs) = Inr (b, ms) \<and>
      decides (serves (tr_kernel t) mem \<and> paths_mapped mem (tr_wordsize t) (check_ref (t_u_arg tcp) ` set cs))
        (hits pe mem t (t_pid tcp) (check_ref (t_u_arg tcp) ` set cs)) b" for cs
    by (rule quiet_ok) (rule any_check_ok [OF assms(1,2)])
  have none: "decides full False False" for full by (simp add: decides_def)
  define f where "f = (case sys_func s of Some f \<Rightarrow> f | None \<Rightarrow> [])"
  note defs = R_def call_refs_def pathtrace_match_def Let_def f_def [symmetric]
  consider "sys_flags s AND (TRACE_FILE OR TRACE_DESC) = 0"
    | cs where "sys_flags s AND (TRACE_FILE OR TRACE_DESC) \<noteq> 0" "special_args f = Some cs"
    | "sys_flags s AND (TRACE_FILE OR TRACE_DESC) \<noteq> 0" "special_args f = None" by fastforce
  then show ?thesis
  proof cases
    case 1
    then show ?thesis using none by (auto simp: defs)
  next
    case (2 cs)
    then show ?thesis using checks [of cs] by (simp add: defs)
  next
    case 3
    consider "f = ''sys_oldselect''" | "f \<noteq> ''sys_oldselect''" "f \<in> {''sys_select'', ''sys_pselect6''}"
      | "f \<noteq> ''sys_oldselect''" "f \<notin> {''sys_select'', ''sys_pselect6''}" "f \<in> {''sys_poll'', ''sys_ppoll''}"
      | "f \<noteq> ''sys_oldselect''" "f \<notin> {''sys_select'', ''sys_pselect6''}" "f \<notin> {''sys_poll'', ''sys_ppoll''}" by argo
    then show ?thesis
    proof cases
      case 1
      then show ?thesis using 3 decides_weaken oldselect_match_ok [OF assms(1,2), of "t_pid tcp" "t_u_arg tcp ! 0"]
        by (simp add: defs) blast
    next
      case 2
      then show ?thesis using 3 decides_weaken select_match_ok [OF assms(1,2), of "t_pid tcp" "t_u_arg tcp"]
        by (simp add: defs) blast
    next
      case p: 3
      obtain b where b: "poll_match pe t (t_pid tcp) (t_u_arg tcp ! 0) (t_u_arg tcp ! 1) = Some (Inr b)"
        "decides (serves (tr_kernel t) mem) (hits pe mem t (t_pid tcp) (if poll_fits (t_u_arg tcp ! 0) (t_u_arg tcp ! 1)
          then poll_refs mem (tr_wordsize t) (t_u_arg tcp ! 0) (unat (ucast (t_u_arg tcp ! 1) :: c_int)) else {})) b"
        using poll_match_ok [OF assms(1,2)] by blast
      have "pathtrace_match pe t s tcp = Some (Inr (b, []))"
        using 3 p b(1) by (simp add: defs quiet_def fails_def)
      moreover have "decides (serves (tr_kernel t) mem) (hits pe mem t (t_pid tcp) R) b"
        using 3 p b(2) by (simp add: defs)
      ultimately show ?thesis using decides_weaken by blast
    next
      case 4
      then show ?thesis using 3 none checks [of "[Path 0]"] checks [of "[Fd 0]"] by (auto simp: defs)
    qed
  qed
qed

subsection \<open>The selection\<close>

lemma storepath_ok:
  assumes "selection_ok sel" "path_ok path" "\<forall>n. re_ok n"
  shows "storepath re_ok sel path = Inr (if path \<in> set sel then sel else sel @ [path])"
proof -
  have "pathmatch sel (path @ [CHR 0x00]) = Inr (path \<in> set sel)"
    using pathmatch_str [of path sel "[]"] assms(1,2) by (simp add: selection_ok_def path_ok_def)
  then show ?thesis using assms(3) by (simp add: storepath_def fails_def)
qed

lemma selection_ok_add:
  "selection_ok sel \<Longrightarrow> path_ok path \<Longrightarrow> selection_ok (if path \<in> set sel then sel else sel @ [path])"
  by (simp add: selection_ok_def)

lemma pathtrace_select_ok:
  assumes "selection_ok sel" "path_ok path" "\<forall>n. re_ok n" "\<forall>p\<in>set_option (realpath path). path_ok p"
  shows "\<exists>new ms. pathtrace_select re_ok realpath sel path = Inr (sel @ new, ms) \<and> selection_ok (sel @ new)
    \<and> set (sel @ new) = insert path (set sel \<union> set_option (realpath path))
    \<and> (ms = [] \<longleftrightarrow> set_option (realpath path) \<subseteq> {path})"
proof -
  note store = storepath_ok [OF _ _ assms(3)]
  let ?sel = "if path \<in> set sel then sel else sel @ [path]"
  have s: "storepath re_ok sel path = Inr ?sel" "selection_ok ?sel"
    using store [OF assms(1,2)] selection_ok_add [OF assms(1,2)] by blast+
  show ?thesis
  proof (cases "realpath path")
    case None
    then show ?thesis using s by (auto simp: pathtrace_select_def)
  next
    case (Some p)
    then have "path_ok p" using assms(4) by simp
    from store [OF s(2) this] selection_ok_add [OF s(2) this] show ?thesis
      using s(1) Some by (auto simp: pathtrace_select_def)
  qed
qed

subsection \<open>Limits of the filter\<close>

text \<open>
  \<open>pipe2\<close> has no descriptor and no path among its arguments, but stands in the list of the calls with both:
  the address of the array is taken for a descriptor and the flags for the address of a path.
\<close>

lemma pipe2_checks_arguments: "special_args ''sys_pipe2'' = Some [Fd 0, Path 1]" "no_args ''sys_pipe2'' name"
  by (simp_all add: special_args_def no_args_def)

lemma bytes_num_append: "bytes_num (as @ bs) = bytes_num as + 256 ^ length as * bytes_num bs"
  by (induction as) (simp_all add: bytes_num_def algebra_simps)

text \<open>
  For an i386 tracee the argument block of the old \<open>select\<close> holds five 32-bit words, but the first
  \<open>long\<close> of it takes two of them: the number of descriptors is mixed with the address of the first set.
\<close>

lemma oldselect_mixes_words:
  assumes "length n = 4" "length inp = 4"
  shows "longs (n @ inp @ rest) ! 0 = of_nat (bytes_num n + 2 ^ 32 * bytes_num inp)"
  using assms by (simp add: longs_def bytes_num_append bytes_num_def [of "[]"])

lemma some_if: "\<exists>r. a = Some r \<Longrightarrow> \<exists>r. b = Some r \<Longrightarrow> \<exists>r. (if c then a else b) = Some r"
  by (cases c) simp_all

lemma some_case:
  "\<exists>r. a = Some r \<Longrightarrow> (\<And>x. \<exists>r. b x = Some r) \<Longrightarrow> \<exists>r. (case m of None \<Rightarrow> a | Some x \<Rightarrow> b x) = Some r"
  by (cases m) simp_all

lemma some_map: "\<exists>r. m = Some r \<Longrightarrow> \<exists>r. map_option g m = Some r"
  by auto

lemma pathtrace_match_ends: "\<exists>res. pathtrace_match pe t s tcp = Some res"
  unfolding pathtrace_match_def Let_def by (intro some_if some_case some_map poll_match_ends) simp_all

subsection \<open>The filter in the entry handler\<close>

lemma path_filter_ok:
  assumes "honest (tr_kernel t) mem" "penv_ok pe" "t_s_ent tcp = Some e"
  shows "decides (serves (tr_kernel t) mem \<and> paths_mapped mem (tr_wordsize t) (call_refs mem (tr_wordsize t) e (t_u_arg tcp)))
    (hits pe mem t (t_pid tcp) (call_refs mem (tr_wordsize t) e (t_u_arg tcp))) (path_filter pe t tcp)"
  using pathtrace_match_ok [OF assms(1,2), of e tcp] assms(3) by (auto simp: path_filter_def)

lemma env_fields_without_paths:
  "opts (env\<lparr>pathtrace := x\<rparr>) = opts env" "cflag (env\<lparr>pathtrace := x\<rparr>) = cflag env" "Tflag (env\<lparr>pathtrace := x\<rparr>) = Tflag env"
  by simp_all

lemma env_without_paths:
  "args_with f (env\<lparr>pathtrace := x\<rparr>) = args_with f env" "call_sys_func (env\<lparr>pathtrace := x\<rparr>) = call_sys_func env"
  "entering_ret (env\<lparr>pathtrace := x\<rparr>) = entering_ret env"
  unfolding call_sys_func_def printargs_def printargs_lu_def printargs_ld_def args_with_def entering_ret_def
    env_fields_without_paths by (rule refl)+

lemma report_entry_path_filter:
  assumes "pathtrace env = Some match" "t_qual_flg (tcb_at st i) AND QUAL_TRACE \<noteq> 0"
  shows "report_entry env s i st = (if match (tcb_at st i) then report_entry (env\<lparr>pathtrace := None\<rparr>) s i st
    else Inr (0, upd_tcb i (set_flags (TCB_INSYSCALL OR TCB_FILTERED)) st))"
  using assms unfolding report_entry_def printargs_def env_without_paths env_fields_without_paths by simp

subsection \<open>Properties\<close>


definition penv_x :: penv where
  "penv_x = \<lparr>selected = [''/x''], fdlink = (\<lambda>_ fd. if fd = 3 then Some ''/x'' else None),
     stack = replicate (PATH_MAX + 1) CHR ''a'', malloc = (\<lambda>n. Some (replicate n CHR ''a''))\<rparr>"

definition tracee_uniform :: tracee where
  "tracee_uniform = \<lparr>tr_kernel = uniform_kernel, tr_wordsize = 8, tr_notsup = False\<rparr>"

definition read_3 :: tcb where
  "read_3 = tcb_zero\<lparr>t_pid := 7, t_u_arg := [3, 0, 0, 0, 0, 0], t_s_ent := Some (ent 3 TRACE_DESC ''sys_read'' ''read'')\<rparr>"

lemma penv_x_ok: "penv_ok penv_x"
  by (simp add: penv_ok_def penv_x_def path_ok_def links_ok_def)

lemma read_3_refs: "call_refs mem ws (ent 3 TRACE_DESC ''sys_read'' ''read'') (t_u_arg read_3) = {FdRef 3}"
  by (simp add: call_refs_def ent_def special_args_def no_args_def read_3_def int_of_def)

lemma read_3_selected: "ref_selected penv_x mem ws pid (FdRef 3)"
  by (simp add: ref_selected_def penv_x_def fd_denotes_def)

lemma uniform_tracee: "tr_kernel tracee_uniform = uniform_kernel"
  by (simp add: tracee_uniform_def)



definition reading_4 :: strace where
  "reading_4 = (strace_init 1)\<lparr>tcbtab := [read_3\<lparr>t_u_arg := [4, 0, 0, 0, 0, 0], t_qual_flg := QUAL_TRACE\<rparr>]\<rparr>"

definition senv_x :: senv where
  "senv_x = senv_plain\<lparr>pathtrace := Some (path_filter penv_x (tracee_at stop_plain reading_4))\<rparr>"


text \<open>
  C39. \<open>pathtrace_match\<close> returns for every tracee, kernel and call. Its only loop over addresses, that of \<open>poll\<close>,
  runs from the start of the array in steps of 8 while the address is below the end; an array that
  wraps around the address space is left out before it, so that the address meets the end.
\<close>

theorem pathtrace_match_returns: "\<exists>res. pathtrace_match pe t s tcp = Some res"
  by (rule pathtrace_match_ends)

text \<open>
  The descriptor sets of \<open>select\<close>: the number of descriptors is the argument cut to the range from 0
  to 1048576, no computation of the size wraps, and the buffer is the smallest number of \<open>long\<close>s that
  holds the bits of all descriptors.
\<close>

theorem select_sets_fit:
  "int (unat (select_nfds a)) = max 0 (min (sint a) (1024 * 1024))
   \<and> 64 * (unat (select_fdsize (select_nfds a)) div 8) < unat (select_nfds a) + 64
   \<and> unat (select_nfds a) \<le> 8 * unat (select_fdsize (select_nfds a))
   \<and> 8 dvd unat (select_fdsize (select_nfds a))"
  using select_fdsize_ok [OF select_nfds_le, of a] select_nfds_cut [of a] select_fits(1) [of a] by auto

text \<open>
  \<open>pathtrace_select\<close> adds the path and what \<open>realpath\<close> makes of it to the selection, in this order and
  without duplicates, and keeps the paths selected before; it says so exactly if \<open>realpath\<close> yields another path.
\<close>

theorem pathtrace_select_correct:
  assumes "selection_ok sel" "path_ok path" "\<forall>n. re_ok n" "\<forall>p\<in>set_option (realpath path). path_ok p"
  shows "\<exists>new ms. pathtrace_select re_ok realpath sel path = Inr (sel @ new, ms) \<and> selection_ok (sel @ new)
    \<and> set (sel @ new) = insert path (set sel \<union> set_option (realpath path))
    \<and> (ms = [] \<longleftrightarrow> set_option (realpath path) \<subseteq> {path})"
  using assms by (rule pathtrace_select_ok)

theorem pathtrace_select_correct_witness:
  "\<exists>new ms. pathtrace_select (\<lambda>_. True) (\<lambda>p. Some ''/y'') [''/x''] ''y'' = Inr ([''/x''] @ new, ms)
    \<and> set ([''/x''] @ new) = {''/x'', ''y'', ''/y''} \<and> ms \<noteq> []"
proof -
  have "selection_ok [''/x'']" "path_ok ''y''" "\<forall>p\<in>set_option (Some ''/y''). path_ok p"
    by (simp_all add: selection_ok_def path_ok_def)
  then show ?thesis using pathtrace_select_correct [of "[''/x'']" "''y''" "\<lambda>_. True" "\<lambda>p. Some ''/y''"] by auto
qed

end
