(* ===== verification/Desc_Correct.thy ===== *)
theory Desc_Correct
  imports Desc Pathtrace_Correct
begin

text \<open>
  Correctness of the decoders of \<open>select\<close>: what is shown of the descriptor sets, that the text of the
  result fits its buffer, and where the code leaves its buffers.
\<close>

subsection \<open>Showing a set\<close>

definition set_members :: "string \<Rightarrow> nat \<Rightarrow> nat \<Rightarrow> nat list" where
  "set_members fds j n = filter (\<lambda>j. bit (of_char (fds ! (j div 8)) :: nat) (j mod 8)) [j..<n]"

lemma set_members_step:
  "j < n \<Longrightarrow> set_members fds j n =
    (if bit (of_char (fds ! (j div 8)) :: nat) (j mod 8) then j # set_members fds (j + 1) n else set_members fds (j + 1) n)"
  by (simp add: set_members_def upt_conv_Cons)

lemma show_fds_ok:
  "n \<le> 8 * length fds \<Longrightarrow> show_fds pr fds n j sep =
    Inr (if set_members fds j n = [] then [] else sep @ join_words (map pr (set_members fds j n)))"
proof (induction pr fds n j sep rule: show_fds.induct)
  case (1 pr fds n j sep)
  show ?case
  proof (cases "j < n")
    case False
    then show ?thesis by (simp add: show_fds.simps set_members_def)
  next
    case True
    then have "j div 8 < length fds" using 1(3) by linarith
    then show ?thesis using True 1
      by (cases "set_members fds (j + 1) n = []")
        (auto simp: show_fds.simps [of pr fds n j] fd_isset_def set_members_step join_words_Cons)
  qed
qed

lemma show_fds_overruns:
  assumes "8 * length fds < n"
  shows "j \<le> 8 * length fds \<Longrightarrow> show_fds pr fds n j sep = Inl OutOfBounds"
proof (induction "8 * length fds - j" arbitrary: j sep)
  case 0
  then have "j = 8 * length fds" by simp
  then show ?case using assms by (subst show_fds.simps) (simp add: fd_isset_def)
next
  case (Suc k)
  then have "show_fds pr fds n (j + 1) s = Inl OutOfBounds" for s by simp
  then show ?case using assms Suc.prems by (auto simp: show_fds.simps [of pr fds n j] fd_isset_def)
qed

text \<open>What is printed for a set.\<close>

definition shows_set :: "(nat \<Rightarrow> string) \<Rightarrow> memory \<Rightarrow> tracee \<Rightarrow> tcb \<Rightarrow> nat \<Rightarrow> nat \<Rightarrow> c_long \<Rightarrow> string \<Rightarrow> bool" where
  "shows_set pr mem t tcp fdsize n a s \<longleftrightarrow>
    (if a = 0 then s = '', NULL''
     else if \<not> verbose tcp then s = '', '' @ fmt_hx (unat a)
     else (s = '', [?]'' \<and> (serves (tr_kernel t) mem \<and> 0 < fdsize \<longrightarrow> mem_bytes mem (narrow_addr (tr_wordsize t) a) fdsize = None))
       \<or> (\<exists>fds. mem_bytes mem (narrow_addr (tr_wordsize t) a) fdsize = Some fds
            \<and> s = '', ['' @ join_words (map pr (set_members fds 0 n)) @ '']''))"

lemma show_sets_ok:
  assumes "honest (tr_kernel t) mem" "n \<le> 8 * length fds"
  shows "\<exists>ss. show_sets pr t tcp n fds args = Inr (concat ss) \<and> list_all2 (shows_set pr mem t tcp (length fds) n) args ss"
  using assms(2)
proof (induction args arbitrary: fds)
  case Nil
  then show ?case by (intro exI [of _ "[]"]) simp
next
  case (Cons a as)
  let ?P = "shows_set pr mem t tcp (length fds) n"
  have step: "\<exists>ss. show_sets pr t tcp n fds (a # as) = Inr (concat ss) \<and> list_all2 ?P (a # as) ss"
    if s: "show_sets pr t tcp n fds (a # as) = sbind (show_sets pr t tcp n fds' as) (\<lambda>r. Inr (s @ r))" "?P a s" "length fds' = length fds" for s fds'
  proof -
    obtain ss where "show_sets pr t tcp n fds' as = Inr (concat ss)" "list_all2 ?P as ss"
      using Cons.IH [of fds'] Cons.prems s(3) by auto
    then show ?thesis using s(1,2) by (intro exI [of _ "s # ss"]) simp
  qed
  show ?case
  proof (cases "a = 0 \<or> \<not> verbose tcp")
    case True
    then show ?thesis
    proof (cases "a = 0")
      case True
      then show ?thesis by (intro step [of fds "'', NULL''"]) (simp_all add: shows_set_def)
    next
      case False
      then show ?thesis using True by (intro step [of fds "'', '' @ fmt_hx (unat a)"]) (simp_all add: shows_set_def)
    qed
  next
    case False
    obtain r fds' ns ms where u: "tr_umoven t a (length fds) fds = Inr (r, fds', ns, ms)" "length fds' = length fds"
      "r = -1 \<or> r = 0 \<and> mem_bytes mem (narrow_addr (tr_wordsize t) a) (length fds) = Some fds'"
      "serves (tr_kernel t) mem \<Longrightarrow> 0 < length fds \<Longrightarrow>
        mem_bytes mem (narrow_addr (tr_wordsize t) a) (length fds) \<noteq> None \<Longrightarrow> r = 0"
      using read_block [OF assms(1) refl] by metis
    show ?thesis
    proof (cases "r = 0")
      case True
      have "show_fds pr fds' n 0 [] = Inr (join_words (map pr (set_members fds' 0 n)))"
        using show_fds_ok [of n fds' pr 0 "[]"] Cons.prems u(2) by simp
      then show ?thesis using False True u
        by (intro step [of fds' "'', ['' @ join_words (map pr (set_members fds' 0 n)) @ '']''"]) (auto simp: shows_set_def)
    next
      case r: False
      then show ?thesis using False u
        by (intro step [of fds' "'', [?]''"]) (auto simp: shows_set_def)
    qed
  qed
qed

subsection \<open>Bounds of texts\<close>

lemma length_fmt_u_le: "n < 10 ^ k \<Longrightarrow> 0 < k \<Longrightarrow> length (fmt_u n) \<le> k"
  using length_digs_le [of 10 n k] by (simp add: length_fmt_base)

lemma length_fmt_hx_le: "n < 16 ^ k \<Longrightarrow> 0 < k \<Longrightarrow> length (fmt_hx n) \<le> k + 2"
  using length_digs_le [of 16 n k] by (simp add: fmt_hx_def length_fmt_base)

lemma bytes_num_less: "bytes_num bs < 256 ^ length bs"
proof (induction bs)
  case (Cons c bs)
  show ?case using Cons code_less [of c] by (simp add: bytes_num_def del: code_less)
qed (simp add: bytes_num_def)

lemma bytes_text: "length bs \<le> 8 \<Longrightarrow> length (fmt_u (bytes_num bs)) \<le> 20"
proof (rule length_fmt_u_le)
  assume "length bs \<le> 8"
  then have "(256 :: nat) ^ length bs \<le> 256 ^ 8" by (intro power_increasing) simp_all
  then show "bytes_num bs < 10 ^ 20" using bytes_num_less [of bs] by simp
qed simp

lemma sprinttv_ok:
  assumes "honest (tr_kernel t) mem" "length tv = 16"
  shows "\<exists>s. sprinttv t tcp addr bit32 special tv = Inr s \<and> length s < TIMEVAL_TEXT_BUFSIZE"
proof -
  have hx: "length (fmt_hx (unat addr)) \<le> 16 + 2"
  proof (rule length_fmt_hx_le)
    have "unat addr < 2 ^ LENGTH(64)" by (rule unsigned_less)
    then show "unat addr < 16 ^ 16" by simp
  qed simp
  define w :: nat where "w = (if bit32 \<or> tr_wordsize t = 4 then 4 else 8)"
  have l: "length (take (2 * w) tv) = 2 * w" using assms(2) by (simp add: w_def)
  obtain r tv' ns ms where u: "tr_umoven t addr (2 * w) (take (2 * w) tv) = Inr (r, tv', ns, ms)" "length tv' = 2 * w"
    using read_block [OF assms(1) l] by metis
  have "length (fmt_u (bytes_num (take w tv'))) \<le> 20" "length (fmt_u (bytes_num (drop w tv'))) \<le> 20"
    using u(2) by (simp_all add: bytes_text w_def)
  then show ?thesis using hx u(1) unfolding sprinttv_def Let_def w_def [symmetric] by auto
qed

subsection \<open>The entry\<close>

lemma decode_select_entering_ok:
  fixes tcp :: tcb and show_fd_path :: bool
  assumes "honest (tr_kernel t) mem" "penv_ok pe" "0 \<le> sint (args ! 0)" "sint (args ! 0) \<le> 1024 * 1024"
  defines "n \<equiv> nat (sint (args ! 0))"
  defines "P \<equiv> shows_set (\<lambda>j. printfd pe show_fd_path (t_pid tcp) (int j)) mem t tcp (unat (select_fdsize (select_nfds (args ! 0)))) n"
  shows "\<exists>s1 s2 s3 tv. decode_select_entering pe show_fd_path t tcp args bit32 = Inr (fmt_u n @ s1 @ s2 @ s3 @ '', '' @ tv)
    \<and> P (args ! 1) s1 \<and> P (args ! 2) s2 \<and> P (args ! 3) s3"
proof -
  let ?nfds = "ucast (args ! 0) :: c_int"
  have sel: "select_nfds (args ! 0) = ?nfds" using assms(3,4) by (simp add: select_nfds_def)
  have "int (unat ?nfds) = sint (args ! 0)" using select_nfds_cut [of "args ! 0"] assms(3,4) unfolding sel by linarith
  then have n: "unat ?nfds = n" unfolding n_def by (metis nat_int)
  have "uint ?nfds = int (unat ?nfds)" by simp
  then have "uint ?nfds = int n" unfolding n .
  moreover have "int n < 2 ^ 31" using assms(3,4) by (simp add: n_def)
  ultimately have sn: "sint ?nfds = int n" by (simp add: sint_c_int)
  obtain fds where f: "malloc pe (unat (select_fdsize (select_nfds (args ! 0)))) = Some fds"
    "length fds = unat (select_fdsize (select_nfds (args ! 0)))"
    using assms(2) select_fits(2) [of "args ! 0"] unfolding penv_ok_def by blast
  have le: "n \<le> 8 * length fds" using f(2) select_fits(1) [of "args ! 0"] sel n by simp
  obtain ss where ss: "show_sets (\<lambda>j. printfd pe show_fd_path (t_pid tcp) (int j)) t tcp n fds [args ! 1, args ! 2, args ! 3] = Inr (concat ss)"
    "list_all2 P [args ! 1, args ! 2, args ! 3] ss"
    using show_sets_ok [OF assms(1) le] f(2) unfolding P_def by metis
  obtain s1 s2 s3 where s: "ss = [s1, s2, s3]" "P (args ! 1) s1" "P (args ! 2) s2" "P (args ! 3) s3"
    using ss(2) by (auto simp: list_all2_Cons1)
  have "length (take 16 (stack pe)) = 16" using assms(2) by (simp add: penv_ok_def)
  then obtain tv where tv: "sprinttv t tcp (args ! 4) bit32 False (take 16 (stack pe)) = Inr tv"
    using sprinttv_ok [OF assms(1)] by blast
  have "decode_select_entering pe show_fd_path t tcp args bit32 = Inr (fmt_u n @ s1 @ s2 @ s3 @ '', '' @ tv)"
    using f(1) ss(1) tv unfolding decode_select_entering_def Let_def n sn s(1) by (simp add: fails_def fmt_d_def)
  then show ?thesis using s(2-4) by blast
qed

lemma decode_select_entering_overruns:
  assumes "penv_ok pe" "verbose tcp" "args ! 1 \<noteq> 0"
    and n: "unat (ucast (args ! 0) :: c_int) > 8 * unat (select_fdsize (select_nfds (args ! 0)))"
    and r: "\<And>buf. length buf = unat (select_fdsize (select_nfds (args ! 0))) \<Longrightarrow>
      \<exists>buf' x. tr_umoven t (args ! 1) (length buf) buf = Inr (0, buf', x) \<and> length buf' = length buf"
  shows "decode_select_entering pe show_fd_path t tcp args bit32 = Inl (EFault OutOfBounds)"
proof -
  obtain fds where f: "malloc pe (unat (select_fdsize (select_nfds (args ! 0)))) = Some fds"
    "length fds = unat (select_fdsize (select_nfds (args ! 0)))"
    using assms(1) select_fits(2) [of "args ! 0"] unfolding penv_ok_def by blast
  obtain buf' x where u: "tr_umoven t (args ! 1) (length fds) fds = Inr (0, buf', x)" "length buf' = length fds"
    using r [OF f(2)] by blast
  have "show_fds pr buf' (unat (ucast (args ! 0) :: c_int)) 0 [] = Inl OutOfBounds" for pr
    using show_fds_overruns [of buf' _ 0 pr "[]"] n u(2) f(2) by simp
  then have "show_sets pr t tcp (unat (ucast (args ! 0) :: c_int)) fds [args ! 1, args ! 2, args ! 3] = Inl OutOfBounds" for pr
    using u(1) assms(2,3) by simp
  then show ?thesis using f(1) unfolding decode_select_entering_def Let_def by (simp add: fails_def)
qed

lemma negative_count:
  assumes "- (2 ^ 31) \<le> sint (a :: c_long)" "sint a < 0"
  shows "unat (select_fdsize (select_nfds a)) = 0" "0 < unat (ucast a :: c_int)"
proof -
  show "unat (select_fdsize (select_nfds a)) = 0" using assms(2) by (simp add: select_nfds_def select_fdsize_def)
  have "uint a = sint a + 2 ^ 64" using assms(2) uint_lt2p [of a] unfolding sint_c_long by (auto split: if_splits)
  then have "uint (ucast a :: c_int) = (sint a + 2 ^ 64) mod 2 ^ 32" by (simp add: unsigned_ucast_eq take_bit_eq_mod)
  moreover have "(sint a + 2 ^ 64) mod 2 ^ 32 = ((sint a + 2 ^ 32) + (2 ^ 32 - 1) * 2 ^ 32) mod 2 ^ 32" by (simp add: add.commute)
  moreover have "\<dots> = (sint a + 2 ^ 32) mod 2 ^ 32" by (rule mod_mult_self1)
  moreover have "\<dots> = sint a + 2 ^ 32" using assms by (intro mod_pos_pos_trivial) simp_all
  ultimately have "uint (ucast a :: c_int) = sint a + 2 ^ 32" by (simp only:)
  then have "0 < uint (ucast a :: c_int)" using assms(1) by simp
  then have "(ucast a :: c_int) \<noteq> 0" by (metis less_irrefl uint_0_eq)
  then show "0 < unat (ucast a :: c_int)" by (simp only: unat_gt_0 not_False_eq_True)
qed

subsection \<open>The exit\<close>

text \<open>
  Pieces are added only to a text shorter than 999 bytes, and each has at most 20 bytes; the brackets
  add one byte for each set.
\<close>

lemma exit_fd_ok:
  assumes "j < 10 ^ 10" "length sep \<le> 2" "length outstr \<le> 1018 + i" "i \<le> 2"
  shows "\<exists>outstr' first' sep' nfds'. exit_fd k j (outstr, first, sep, nfds) = Inr (outstr', first', sep', nfds')
    \<and> length sep' \<le> 2 \<and> length outstr' \<le> 1018 + i"
proof -
  have d: "length (fmt_u j) \<le> 10" using length_fmt_u_le [OF assms(1)] by simp
  have n: "length (set_name k) \<le> 6" by (simp add: set_name_def)
  show ?thesis using assms(2,3) d n by (auto simp: exit_fd_def out_add_def)
qed

lemma exit_fds_ok:
  "n \<le> int (8 * length fds) \<Longrightarrow> n \<le> 1024 * 1024 \<Longrightarrow> length sep \<le> 2 \<Longrightarrow> length outstr \<le> 1018 + i \<Longrightarrow> i \<le> 2 \<Longrightarrow>
   \<exists>outstr' first' sep' nfds'. exit_fds k fds n j (outstr, first, sep, nfds) = Inr (outstr', first', sep', nfds')
    \<and> length sep' \<le> 2 \<and> length outstr' \<le> 1018 + i"
proof (induction "nat (n - int j)" arbitrary: j outstr first sep nfds)
  case 0
  then show ?case by (simp add: exit_fds.simps)
next
  case (Suc m)
  then have j: "int j < n" "m = nat (n - int (j + 1))" by auto
  then have b: "j div 8 < length fds" "j < 10 ^ 10" using Suc.prems(1,2) by auto
  obtain outstr' first' sep' nfds' where e: "exit_fd k j (outstr, first, sep, nfds) = Inr (outstr', first', sep', nfds')"
    "length sep' \<le> 2" "length outstr' \<le> 1018 + i" using exit_fd_ok [OF b(2) Suc.prems(3-5)] by blast
  note IH = Suc.hyps(1) [OF j(2) Suc.prems(1,2)]
  show ?case
  proof (cases "bit (of_char (fds ! (j div 8)) :: nat) (j mod 8)")
    case True
    then have "exit_fds k fds n j (outstr, first, sep, nfds) = exit_fds k fds n (j + 1) (outstr', first', sep', nfds')"
      using j(1) b(1) e(1) by (simp add: exit_fds.simps [of k fds n j] fd_isset_def)
    then show ?thesis using IH [OF e(2,3) Suc.prems(5)] by simp
  next
    case False
    then have "exit_fds k fds n j (outstr, first, sep, nfds) = exit_fds k fds n (j + 1) (outstr, first, sep, nfds)"
      using j(1) b(1) by (simp add: exit_fds.simps [of k fds n j] fd_isset_def)
    then show ?thesis using IH [OF Suc.prems(3-5)] by simp
  qed
qed

lemma exit_sets_ok:
  assumes h: "honest (tr_kernel t) mem" and n: "n \<le> 1024 * 1024"
  shows "n \<le> int (8 * length fds) \<Longrightarrow> length sep \<le> 2 \<Longrightarrow> i + length args \<le> 3 \<Longrightarrow> length outstr \<le> 1018 + i \<Longrightarrow>
    \<exists>outstr' sep'. exit_sets t n fds i args outstr sep nfds = Inr (outstr', sep') \<and> length sep' \<le> 2 \<and> length outstr' \<le> 1021"
proof (induction args arbitrary: fds i outstr sep nfds)
  case Nil
  then show ?case by simp
next
  case (Cons a as)
  note IH = Cons.IH [of _ _ "i + 1"]
  show ?case
  proof (cases "a = 0")
    case True
    then show ?thesis using IH [of fds sep outstr] Cons.prems by simp
  next
    case False
    obtain r fds' x where u: "tr_umoven t a (length fds) fds = Inr (r, fds', x)" "length fds' = length fds"
      using read_block [OF h refl] by (metis surj_pair)
    have n': "n \<le> int (8 * length fds')" using Cons.prems(1) u(2) by simp
    show ?thesis
    proof (cases "r < 0")
      case True
      then show ?thesis using False u(1) IH [OF n', of sep outstr] Cons.prems by simp
    next
      case ok: False
      obtain outstr' first' sep' nfds' where e: "exit_fds i fds' n 0 (outstr, True, sep, nfds) = Inr (outstr', first', sep', nfds')"
        "length sep' \<le> 2" "length outstr' \<le> 1018 + i"
        using exit_fds_ok [OF n' n Cons.prems(2,4), of i 0 True nfds] Cons.prems(3) by auto
      define o' where "o' = (if outstr' \<noteq> [] then outstr' @ '']'' else outstr')"
      have o': "length o' \<le> 1018 + (i + 1)" using e(3) by (simp add: o'_def)
      have "exit_sets t n fds i (a # as) outstr sep nfds =
          (if nfds' = 0 then Inr (o', sep') else exit_sets t n fds' (i + 1) as o' sep' nfds')"
        using False ok u(1) e(1,3) Cons.prems(3) by (simp add: o'_def out_add_def)
      then show ?thesis using IH [OF n' e(2) _ o', of nfds'] Cons.prems(3) e(2) o' by auto
    qed
  qed
qed

lemma decode_select_exiting_ok:
  assumes "honest (tr_kernel t) mem" "penv_ok pe" "sint (args ! 0) \<le> 1024 * 1024"
  shows "\<exists>aux r. decode_select_exiting pe t tcp args bit32 = Inr (aux, r) \<and> (\<forall>s. aux = Some s \<longrightarrow> length s < 1024)"
proof -
  let ?nfds = "ucast (t_u_rval tcp) :: c_int"
  obtain fds where f: "malloc pe (unat (select_fdsize (select_nfds (args ! 0)))) = Some fds"
    "length fds = unat (select_fdsize (select_nfds (args ! 0)))"
    using assms(2) select_fits(2) [of "args ! 0"] unfolding penv_ok_def by blast
  have "sint (args ! 0) \<le> int (unat (select_nfds (args ! 0)))" using select_nfds_cut [of "args ! 0"] assms(3) by simp
  then have n: "sint (args ! 0) \<le> int (8 * length fds)" using select_fits(1) [of "args ! 0"] f(2) by linarith
  obtain outstr sep where e: "exit_sets t (sint (args ! 0)) fds 0 [args ! 1, args ! 2, args ! 3] [] [] ?nfds = Inr (outstr, sep)"
    "length sep \<le> 2" "length outstr \<le> 1021"
    using exit_sets_ok [OF assms(1,3) n, of "[]" 0 "[args ! 1, args ! 2, args ! 3]" "[]" ?nfds] by auto
  have "length (take 16 (stack pe)) = 16" using assms(2) by (simp add: penv_ok_def)
  then obtain tv where tv: "sprinttv t tcp (args ! 4) bit32 False (take 16 (stack pe)) = Inr tv" "length tv < TIMEVAL_TEXT_BUFSIZE"
    using sprinttv_ok [OF assms(1)] by blast
  show ?thesis
    using f(1) e tv by (auto simp: decode_select_exiting_def Let_def fails_def out_add_def simp del: exit_sets.simps)
qed

lemma umoven_nothing:
  "vm_readv (tr_kernel t) (narrow_addr (tr_wordsize t) a) 0 = Inr [] \<Longrightarrow> \<not> tr_notsup t \<Longrightarrow> tr_umoven t a 0 [] = Inr (0, [], False, [])"
  by (simp add: umoven_def Let_def blit_def)

text \<open>A tracee with one descriptor in the sets at 16 and 48, and none in the set at 32.\<close>

definition kernel_sets :: kernel where
  "kernel_sets = \<lparr>vm_readv = (\<lambda>a n. Inr (take n ((if a = 32 then CHR 0x00 else CHR 0x08) # replicate n CHR 0x00))),
     peekdata = (\<lambda>_. Inl EIO), stale_errno = EIO\<rparr>"

text \<open>
  The closing bracket is added for each set that can be read once there is a text, whether or not
  one was opened for that set.
\<close>

lemma select_stray_bracket:
  "decode_select_exiting penv_x \<lparr>tr_kernel = kernel_sets, tr_wordsize = 8, tr_notsup = False\<rparr>
     (tcb_zero\<lparr>t_u_rval := 2\<rparr>) [4, 16, 32, 48, 0] False = Inr (Some ''in [3]], except [3]'', RVAL_STR)"
  by code_simp

subsection \<open>Properties\<close>

text \<open>
  C23. \<open>decode_select\<close> at the entry, for a number of descriptors from 0 to 1048576: on an honest kernel it
  prints the number and, for each of the three sets, \<^verbatim>\<open>NULL\<close>, the address if the output is abbreviated, \<^verbatim>\<open>[?]\<close> for a
  set that cannot be read, or exactly the descriptors below the number whose bits are set in the
  memory of the tracee, in order; then the timeout. It stays inside its buffers.
\<close>

theorem decode_select_shows:
  fixes tcp :: tcb and show_fd_path :: bool
  assumes "honest (tr_kernel t) mem" "penv_ok pe" "0 \<le> sint (args ! 0)" "sint (args ! 0) \<le> 1024 * 1024"
  defines "n \<equiv> nat (sint (args ! 0))"
  defines "P \<equiv> shows_set (\<lambda>j. printfd pe show_fd_path (t_pid tcp) (int j)) mem t tcp (unat (select_fdsize (select_nfds (args ! 0)))) n"
  shows "\<exists>s1 s2 s3 tv. decode_select_entering pe show_fd_path t tcp args bit32 = Inr (fmt_u n @ s1 @ s2 @ s3 @ '', '' @ tv)
    \<and> P (args ! 1) s1 \<and> P (args ! 2) s2 \<and> P (args ! 3) s3"
  using decode_select_entering_ok [OF assms(1-4), of show_fd_path tcp bit32] unfolding n_def P_def .


definition verbose_tcb :: tcb where
  "verbose_tcb = tcb_zero\<lparr>t_qual_flg := QUAL_VERBOSE\<rparr>"

lemma verbose_tcb [simp]: "verbose verbose_tcb"
  by (simp add: verbose_tcb_def verbose_def)

theorem decode_select_shows_witness:
  "\<exists>s2 s3 tv. decode_select_entering penv_x False tracee_uniform verbose_tcb [8, 1, 0, 0, 0] False
     = Inr (''8'' @ '', [0 5 6]'' @ s2 @ s3 @ '', '' @ tv)"
proof -
  let ?pr = "\<lambda>j. printfd penv_x False (t_pid verbose_tcb) (int j)"
  have fs: "unat (select_fdsize (select_nfds 8)) = 8" by code_simp
  have "set_members (replicate 8 CHR ''a'') 0 8 = [0, 5, 6]" by code_simp
  moreover have "join_words (map ?pr [0, 5, 6]) = ''0 5 6''" by code_simp
  moreover have "\<exists>s1 s2 s3 tv. decode_select_entering penv_x False tracee_uniform verbose_tcb [8, 1, 0, 0, 0] False
      = Inr (fmt_u 8 @ s1 @ s2 @ s3 @ '', '' @ tv) \<and> shows_set ?pr (uniform_mem CHR ''a'') tracee_uniform verbose_tcb 8 8 1 s1"
    using decode_select_shows [of tracee_uniform "uniform_mem CHR ''a''" penv_x "[8, 1, 0, 0, 0]" False verbose_tcb False]
    by (auto simp: fs uniform_tracee uniform_honest penv_x_ok)
  moreover have "fmt_u 8 = ''8''" by code_simp
  ultimately show ?thesis
    by (auto simp: shows_set_def uniform_tracee uniform_serves uniform_bytes)
qed

text \<open>
  C38. A negative number of descriptors makes \<open>decode_select\<close> read outside its buffer: the size of the
  buffer is computed from the number cut to 0, but the loop over the descriptors runs to the number as an
  unsigned integer. Reading no bytes at any address succeeds, so that one system call \<^verbatim>\<open>select(-1, p, ...)\<close> of the
  tracee suffices.
\<close>

theorem decode_select_overruns:
  assumes "penv_ok pe" "verbose tcp" "args ! 1 \<noteq> 0" "- (2 ^ 31) \<le> sint (args ! 0)" "sint (args ! 0) < 0"
    and "vm_readv (tr_kernel t) (narrow_addr (tr_wordsize t) (args ! 1)) 0 = Inr []" "\<not> tr_notsup t"
  shows "decode_select_entering pe show_fd_path t tcp args bit32 = Inl (EFault OutOfBounds)"
proof -
  note neg = negative_count [OF assms(4,5)]
  show ?thesis
    by (rule decode_select_entering_overruns [OF assms(1-3)]) (use neg umoven_nothing [OF assms(6,7)] in auto)
qed

theorem decode_select_overruns_witness:
  "decode_select_entering penv_x False tracee_uniform verbose_tcb [- 1, 1, 0, 0, 0] False = Inl (EFault OutOfBounds)"
  by (rule decode_select_overruns) (simp_all add: penv_x_ok tracee_uniform_def uniform_kernel_def)

text \<open>
  The text that \<open>decode_select\<close> builds at the exit, with the ready descriptors of the three sets, the
  brackets and the time left, fits its static buffer of 1024 bytes with the terminating NUL, for every
  number of descriptors up to 1048576 and any contents of the sets.
\<close>

theorem decode_select_result_fits:
  assumes "honest (tr_kernel t) mem" "penv_ok pe" "sint (args ! 0) \<le> 1024 * 1024"
  shows "\<exists>aux r. decode_select_exiting pe t tcp args bit32 = Inr (aux, r) \<and> (\<forall>s. aux = Some s \<longrightarrow> length s < 1024)"
  using assms by (rule decode_select_exiting_ok)

theorem decode_select_result_fits_witness:
  "\<exists>aux r. decode_select_exiting penv_x tracee_uniform (tcb_zero\<lparr>t_u_rval := 9\<rparr>) [1000, 8, 8, 8, 8] False = Inr (aux, r)
    \<and> (\<forall>s. aux = Some s \<longrightarrow> length s < 1024)"
  by (rule decode_select_result_fits [of _ "uniform_mem CHR ''a''"]) (simp_all add: uniform_tracee uniform_honest penv_x_ok)

end
