(* ===== verification/Poll_Correct.thy ===== *)
theory Poll_Correct
  imports Poll Desc_Correct
begin

text \<open>
  Correctness of the decoders of \<open>poll\<close> and \<open>ppoll\<close>: what is shown of the array at the entry and at the exit, and
  that the text of the result fits its buffer whatever the array holds.
\<close>

subsection \<open>The array\<close>

lemma unat_times_8: "unat (8 * ucast (nfds :: c_int) :: c_long) = 8 * unat nfds"
proof -
  have "unat nfds < 2 ^ LENGTH(32)" by (rule unsigned_less)
  then show ?thesis using poll_stop [of 0 nfds] by simp
qed

lemma poll_skips_iff: "poll_skips start (ucast n) \<longleftrightarrow> (ucast n :: c_int) = 0 \<or> \<not> poll_fits start n"
proof -
  have "unat ((8 * ucast (ucast n :: c_int) :: c_long) div 8) = unat (ucast (ucast n :: c_int) :: c_long)"
    by (simp add: unat_div unat_times_8 unat_ucast_long)
  then have "(8 * ucast (ucast n :: c_int) :: c_long) div 8 = ucast (ucast n :: c_int)" by (simp only: word_unat_eq_iff)
  then show ?thesis by (simp add: poll_skips_def poll_end_def poll_wraps)
qed

lemma poll_end_at:
  assumes "poll_fits start n"
  shows "unat (poll_end start (ucast n)) = unat start + 8 * unat (ucast n :: c_int)"
  using assms unfolding poll_end_def poll_stop by (simp add: poll_fits_def)

lemma entry_addr:
  assumes "unat start + 8 * n < 2 ^ 64" "i < n"
  shows "unat (start + 8 * of_nat i :: c_long) = unat start + 8 * i"
proof -
  have "unat (of_nat (8 * i) :: c_long) = 8 * i" unfolding unat_of_nat using assms by simp
  then have "unat (8 * of_nat i :: c_long) = 8 * i" by simp
  then show ?thesis using assms by (simp add: unat_plus_if')
qed

text \<open>The number of entries that are shown in full.\<close>

definition poll_limit :: "c_int \<Rightarrow> tcb \<Rightarrow> c_int \<Rightarrow> nat" where
  "poll_limit max_strlen tcp nfds = (if abbrev tcp then unat max_strlen else unat nfds)"

lemma poll_abbrev_at:
  assumes "poll_fits start n" "i < unat (ucast n :: c_int)"
  shows "poll_abbrev_end max_strlen tcp start (ucast n) \<le> start + 8 * of_nat i \<longleftrightarrow> poll_limit max_strlen tcp (ucast n) \<le> i"
proof -
  have a: "unat (start + 8 * of_nat i) = unat start + 8 * i"
    using entry_addr [OF _ assms(2)] assms(1) by (simp add: poll_fits_def)
  have m: "unat max_strlen < 2 ^ LENGTH(32)" by (rule unsigned_less)
  have s: "start + ucast max_strlen * 8 = start + 8 * ucast max_strlen" by (simp only: mult.commute)
  show ?thesis
    using assms m
    unfolding poll_abbrev_end_def poll_limit_def Let_def word_le_nat_alt word_less_nat_alt a s poll_end_at [OF assms(1)] poll_stop
    by (auto simp: poll_fits_def word_le_nat_alt a poll_end_at poll_stop split: if_splits)
qed

lemma sprint_timespec_tv: "sprint_timespec t tcp addr ts = sprinttv t tcp addr False False ts"
  unfolding sprint_timespec_def sprinttv_def Let_def by (simp cong: if_cong)

subsection \<open>The exit: bounds\<close>

lemma length_fmt_d_le: "length (fmt_d (sint (w :: c_int))) \<le> 11"
proof -
  have "- (2 ^ (LENGTH(32) - 1)) \<le> sint w" "sint w < 2 ^ (LENGTH(32) - 1)" by (rule sint_ge, rule sint_lt)
  then have "nat (sint w) < 10 ^ 10" "nat (- sint w) < 10 ^ 10" by auto
  then have "length (fmt_u (nat (sint w))) \<le> 10" "length (fmt_u (nat (- sint w))) \<le> 10" by (auto intro: length_fmt_u_le)
  then show ?thesis by (simp add: fmt_d_def)
qed

lemma pollfd_fd_text: "length (fmt_d (pollfd_fd fds)) \<le> 11"
  unfolding pollfd_fd_def int_of_def by (rule length_fmt_d_le)

lemma ready_sep_ok: "length outstr \<le> 1022 \<Longrightarrow> \<exists>o'. ready_sep outstr = Inr o' \<and> length o' \<le> 1022"
  by (auto simp: ready_sep_def out_add_def)

lemma ready_entry_ok: "length outstr \<le> 1022 \<Longrightarrow> \<exists>o'. ready_entry fds outstr = Inr o' \<and> length o' \<le> 1022"
  using pollfd_fd_text [of fds] by (auto simp: ready_entry_def out_add_def Let_def)

lemma ready_polls_ok:
  assumes h: "honest (tr_kernel t) mem"
  shows "length fds = 8 \<Longrightarrow> unat stop = unat cur + 8 * n \<Longrightarrow> length outstr \<le> 1022 \<Longrightarrow>
    \<exists>o' failed. ready_polls t stop abbrev_end fds cur outstr = Some (Inr (o', failed)) \<and> length o' \<le> 1022"
proof (induction n arbitrary: cur fds outstr)
  case 0
  then show ?case by (auto simp: ready_polls.simps [of t] word_less_nat_alt)
next
  case (Suc n)
  note nxt = poll_next [OF Suc.prems(2)]
  obtain r fds' x where u: "tr_umoven t cur 8 fds = Inr (r, fds', x)" "length fds' = 8"
    using read_block [OF h Suc.prems(1)] by (metis surj_pair)
  note IH = Suc.IH [OF u(2) nxt(2)]
  obtain o1 where o1: "ready_sep outstr = Inr o1" "length o1 \<le> 1022" using ready_sep_ok [OF Suc.prems(3)] by blast
  obtain o2 where o2: "ready_entry fds' o1 = Inr o2" "length o2 \<le> 1022" using ready_entry_ok [OF o1(2)] by blast
  show ?case
    using nxt(1) u(1) o1 o2 IH [OF Suc.prems(3)] IH [OF o2(2)] Suc.prems(3)
    by (subst ready_polls.simps) (auto simp: out_add_def)
qed

lemma poll_left_ok:
  assumes "honest (tr_kernel t) mem" "penv_ok pe" "length outstr \<le> 1022"
  shows "\<exists>aux r. poll_left pe t tcp pts outstr = Inr (aux, r) \<and> (\<forall>s. aux = Some s \<longrightarrow> length s < 1024)"
proof -
  have "length (take 16 (stack pe)) = 16" using assms(2) by (simp add: penv_ok_def)
  then obtain ts where "sprint_timespec t tcp pts (take 16 (stack pe)) = Inr ts" "length ts < TIMEVAL_TEXT_BUFSIZE"
    unfolding sprint_timespec_tv using sprinttv_ok [OF assms(1)] by blast
  then show ?thesis using assms(3) by (auto simp: poll_left_def out_add_def)
qed

lemma decode_poll_exiting_ok:
  assumes "honest (tr_kernel t) mem" "penv_ok pe"
  shows "\<exists>aux r. decode_poll_exiting pe max_strlen t tcp pts = Some (Inr (aux, r)) \<and> (\<forall>s. aux = Some s \<longrightarrow> length s < 1024)"
proof (cases "poll_skips (t_u_arg tcp ! 0) (ucast (t_u_arg tcp ! 1))")
  case True
  then show ?thesis by (simp add: decode_poll_exiting_def Let_def)
next
  case False
  then have f: "poll_fits (t_u_arg tcp ! 0) (t_u_arg tcp ! 1)" by (simp add: poll_skips_iff)
  have "length (take 8 (stack pe)) = 8" using assms(2) by (simp add: penv_ok_def)
  then obtain o' failed where
    "ready_polls t (poll_end (t_u_arg tcp ! 0) (ucast (t_u_arg tcp ! 1)))
       (poll_abbrev_end max_strlen tcp (t_u_arg tcp ! 0) (ucast (t_u_arg tcp ! 1))) (take 8 (stack pe)) (t_u_arg tcp ! 0) []
     = Some (Inr (o', failed))" "length o' \<le> 1022"
    using ready_polls_ok [OF assms(1) _ poll_end_at [OF f]] by (metis le0 list.size(3))
  then show ?thesis using poll_left_ok [OF assms, of o' tcp pts] False
    by (auto simp: decode_poll_exiting_def Let_def)
qed

subsection \<open>The entry\<close>

definition commas :: "string list \<Rightarrow> string" where
  "commas ts = concat (map (\<lambda>t. '', '' @ t) ts)"

fun join_commas :: "string list \<Rightarrow> string" where
  "join_commas [] = []"
| "join_commas (t # ts) = t @ commas ts"

lemma commas_simps [simp]: "commas [] = []" "commas (t # ts) = '', '' @ t @ commas ts"
  by (simp_all add: commas_def)

text \<open>The bytes of the entry with index \<open>i\<close> of the array at \<open>a\<close>.\<close>

definition entry_bytes :: "memory \<Rightarrow> tracee \<Rightarrow> c_long \<Rightarrow> nat \<Rightarrow> string option" where
  "entry_bytes mem t a i = mem_bytes mem (narrow_addr (tr_wordsize t) (a + 8 * of_nat i)) 8"

lemma read_entry:
  assumes "honest (tr_kernel t) mem" "length fds = 8"
  obtains r fds' x where "tr_umoven t a 8 fds = Inr (r, fds', x)" "length fds' = 8"
    "r = -1 \<or> r = 0 \<and> entry_bytes mem t a 0 = Some fds'"
    "serves (tr_kernel t) mem \<longrightarrow> entry_bytes mem t a 0 \<noteq> None \<longrightarrow> r = 0"
proof -
  have e: "entry_bytes mem t a 0 = mem_bytes mem (narrow_addr (tr_wordsize t) a) 8" by (simp add: entry_bytes_def)
  obtain r fds' ns ms where u: "tr_umoven t a 8 fds = Inr (r, fds', ns, ms)" "length fds' = 8"
    "r = -1 \<or> r = 0 \<and> entry_bytes mem t a 0 = Some fds'"
    "serves (tr_kernel t) mem \<longrightarrow> entry_bytes mem t a 0 \<noteq> None \<longrightarrow> r = 0"
    using read_block [OF assms, of a] unfolding e by (metis zero_less_numeral)
  then show thesis by (rule that)
qed

lemma entry_bytes_Suc: "entry_bytes mem t a (Suc i) = entry_bytes mem t (a + 8) i"
  by (simp add: entry_bytes_def algebra_simps)

text \<open>
  \<open>bss\<close> are the first entries of an array of \<open>n\<close>: all, or \<open>k\<close> with dots, or those before an entry that could
  not be read, with a question mark.
\<close>

definition polls_read :: "memory \<Rightarrow> tracee \<Rightarrow> c_long \<Rightarrow> nat \<Rightarrow> nat \<Rightarrow> string list \<Rightarrow> string list \<Rightarrow> bool" where
  "polls_read mem t a n k bss ends \<longleftrightarrow>
    (\<forall>i<length bss. entry_bytes mem t a i = Some (bss ! i))
    \<and> (length bss = n \<and> n \<le> k \<and> ends = []
       \<or> length bss = k \<and> k < n \<and> ends = [''...'']
       \<or> length bss < n \<and> length bss < k \<and> ends = [''?''] \<and> (serves (tr_kernel t) mem \<longrightarrow> entry_bytes mem t a (length bss) = None))"

lemma polls_read_Cons:
  assumes "entry_bytes mem t a 0 = Some b" "polls_read mem t (a + 8) n (k - 1) bss ends" "0 < k"
  shows "polls_read mem t a (Suc n) k (b # bss) ends"
  using assms by (auto simp: polls_read_def entry_bytes_Suc All_less_Suc2)

lemma show_polls_ok:
  assumes h: "honest (tr_kernel t) mem"
  shows "length fds = 8 \<Longrightarrow> unat stop = unat cur + 8 * n \<Longrightarrow> start \<le> cur \<Longrightarrow>
    (\<And>i. i < n \<Longrightarrow> abbrev_end \<le> cur + 8 * of_nat i \<longleftrightarrow> k \<le> i) \<Longrightarrow>
    \<exists>bss ends. polls_read mem t cur n k bss ends \<and> show_polls pr t start stop abbrev_end fds cur acc =
      Some (Inr (acc @ (if cur > start then commas else join_commas) (map (poll_entry_text pr) bss @ ends), ends = [''?'']))"
proof (induction n arbitrary: cur k fds acc)
  case 0
  then show ?case
    by (intro exI [of _ "[]"]) (simp add: polls_read_def show_polls.simps [of pr] word_less_nat_alt)
next
  case (Suc n)
  note nxt = poll_next [OF Suc.prems(2)]
  have ab: "abbrev_end \<le> cur \<longleftrightarrow> k = 0" using Suc.prems(4) [of 0] by simp
  obtain r fds' x where u: "tr_umoven t cur 8 fds = Inr (r, fds', x)" "length fds' = 8"
    "r = -1 \<or> r = 0 \<and> entry_bytes mem t cur 0 = Some fds'"
    "serves (tr_kernel t) mem \<longrightarrow> entry_bytes mem t cur 0 \<noteq> None \<longrightarrow> r = 0"
    by (rule read_entry [OF h Suc.prems(1), of cur])
  consider (dots) "k = 0" | (fail) "0 < k" "r = -1" | (ok) "0 < k" "r = 0" using u(3) by blast
  then show ?case
  proof cases
    case dots
    then show ?thesis using ab nxt(1)
      by (intro exI [of _ "[]"] exI [of _ "[''...'']"]) (simp add: polls_read_def show_polls.simps [of pr])
  next
    case fail
    then show ?thesis using ab nxt(1) u
      by (intro exI [of _ "[]"] exI [of _ "[''?'']"]) (auto simp: polls_read_def show_polls.simps [of pr])
  next
    case ok
    have c: "start < cur + 8" "start \<le> cur + 8" using Suc.prems(2,3) nxt(2) unfolding word_le_nat_alt word_less_nat_alt by auto
    have k: "abbrev_end \<le> cur + 8 + 8 * of_nat i \<longleftrightarrow> k - 1 \<le> i" if "i < n" for i
      using Suc.prems(4) [of "Suc i"] that ok(1) by (auto simp: algebra_simps)
    define acc' where "acc' = acc @ (if cur > start then '', '' else []) @ poll_entry_text pr fds'"
    obtain bss ends where i: "polls_read mem t (cur + 8) n (k - 1) bss ends"
      "show_polls pr t start stop abbrev_end fds' (cur + 8) acc' =
        Some (Inr (acc' @ commas (map (poll_entry_text pr) bss @ ends), ends = [''?'']))"
      using Suc.IH [OF u(2) nxt(2) c(2) k, of acc'] c(1) by auto
    have "show_polls pr t start stop abbrev_end fds cur acc = show_polls pr t start stop abbrev_end fds' (cur + 8) acc'"
      using ok nxt(1) u(1) ab by (simp add: show_polls.simps [of pr _ _ _ _ fds] acc'_def)
    then show ?thesis using i(2) u(3) ok polls_read_Cons [OF _ i(1) ok(1), of fds']
      by (intro exI [of _ "fds' # bss"] exI [of _ ends]) (auto simp: acc'_def)
  qed
qed

lemma decode_poll_entering_ok:
  assumes "honest (tr_kernel t) mem" "penv_ok pe" "nfds = ucast (t_u_arg tcp ! 1)" "nfds \<noteq> 0" "poll_fits (t_u_arg tcp ! 0) (t_u_arg tcp ! 1)"
  shows "\<exists>bss ends. polls_read mem t (t_u_arg tcp ! 0) (unat nfds) (poll_limit max_strlen tcp nfds) bss ends
    \<and> decode_poll_entering pe show_fd_path max_strlen t tcp =
      Some (Inr (''['' @ join_commas (map (poll_entry_text (printfd pe show_fd_path (t_pid tcp))) bss @ ends) @ '']''
        @ (if ends = [''?''] then '' '' @ fmt_hx (unat (t_u_arg tcp ! 0)) else []) @ '', '' @ fmt_d (sint nfds) @ '', ''))"
proof -
  let ?start = "t_u_arg tcp ! 0"
  have "length (take 8 (stack pe)) = 8" using assms(2) by (simp add: penv_ok_def)
  then obtain bss ends where s: "polls_read mem t ?start (unat nfds) (poll_limit max_strlen tcp nfds) bss ends"
    "show_polls (printfd pe show_fd_path (t_pid tcp)) t ?start (poll_end ?start nfds) (poll_abbrev_end max_strlen tcp ?start nfds)
       (take 8 (stack pe)) ?start ''['' =
     Some (Inr (''['' @ join_commas (map (poll_entry_text (printfd pe show_fd_path (t_pid tcp))) bss @ ends), ends = [''?'']))"
    using show_polls_ok [OF assms(1) _ poll_end_at [OF assms(5)] order_refl poll_abbrev_at [OF assms(5)],
        where fds = "take 8 (stack pe)" and pr = "printfd pe show_fd_path (t_pid tcp)" and acc = "''[''"]
    unfolding assms(3) by fastforce
  have "\<not> poll_skips ?start nfds" using assms(4,5) unfolding assms(3) poll_skips_iff by simp
  then show ?thesis using s assms(3) by (intro exI [of _ bss] exI [of _ ends]) (simp add: decode_poll_entering_def Let_def)
qed

subsection \<open>The exit\<close>

definition ready_text :: "string \<Rightarrow> string" where
  "ready_text fds = ''{fd='' @ fmt_d (pollfd_fd fds) @ '', revents='' @ sprintflags [] pollflags (pollfd_revents fds) @ ''}''"

definition ready :: "string \<Rightarrow> bool" where
  "ready fds \<longleftrightarrow> pollfd_revents fds \<noteq> 0"

text \<open>The entries with events among the first \<open>k\<close>, and dots if there is one behind them.\<close>

definition ready_texts :: "nat \<Rightarrow> string list \<Rightarrow> string list" where
  "ready_texts k bss = map ready_text (filter ready (take k bss)) @ (if list_ex ready (drop k bss) then [''...''] else [])"

lemma ready_texts_simps [simp]:
  "ready_texts k [] = []"
  "ready_texts k (b # bss) =
    (if \<not> ready b then ready_texts (k - 1) bss else if k = 0 then [''...''] else ready_text b # ready_texts (k - 1) bss)"
  by (simp add: ready_texts_def) (cases k; simp add: ready_texts_def)

definition add_texts :: "string list \<Rightarrow> string \<Rightarrow> string" where
  "add_texts ts s = fold (\<lambda>t s. s @ (if s = [] then ''['' else '', '') @ t) ts s"

lemma add_texts_simps [simp]:
  "add_texts [] s = s" "add_texts (t # ts) s = add_texts ts (s @ (if s = [] then ''['' else '', '') @ t)"
  by (simp_all add: add_texts_def)

lemma add_texts_text: "add_texts ts s = (if s \<noteq> [] then s @ commas ts else if ts = [] then [] else ''['' @ join_commas ts)"
  by (induction ts arbitrary: s) (auto split: if_splits)

lemma length_add_texts: "length s \<le> length (add_texts ts s)"
  by (auto simp: add_texts_text)

lemma ready_step:
  assumes "length (s @ (if s = [] then ''['' else '', '') @ ready_text fds) \<le> 995"
  shows "\<exists>s'. ready_sep s = Inr s' \<and> ready_entry fds s' = Inr (s @ (if s = [] then ''['' else '', '') @ ready_text fds)"
  using assms by (auto simp: ready_sep_def ready_entry_def out_add_def ready_text_def Let_def)

lemma ready_polls_text:
  assumes h: "honest (tr_kernel t) mem" "serves (tr_kernel t) mem"
  shows "length fds = 8 \<Longrightarrow> unat stop = unat cur + 8 * length bss \<Longrightarrow>
    (\<And>i. i < length bss \<Longrightarrow> abbrev_end \<le> cur + 8 * of_nat i \<longleftrightarrow> k \<le> i) \<Longrightarrow>
    (\<And>i. i < length bss \<Longrightarrow> entry_bytes mem t cur i = Some (bss ! i)) \<Longrightarrow>
    length (add_texts (ready_texts k bss) outstr) \<le> 995 \<Longrightarrow>
    ready_polls t stop abbrev_end fds cur outstr = Some (Inr (add_texts (ready_texts k bss) outstr, False))"
proof (induction bss arbitrary: cur k fds outstr)
  case Nil
  then show ?case by (simp add: ready_polls.simps [of t] word_less_nat_alt)
next
  case (Cons b bss)
  have st: "unat stop = unat cur + 8 * Suc (length bss)" using Cons.prems(2) by simp
  note nxt = poll_next [OF st]
  have ab: "abbrev_end \<le> cur \<longleftrightarrow> k = 0" using Cons.prems(3) [of 0] by simp
  have e: "entry_bytes mem t cur 0 = Some b" using Cons.prems(4) [of 0] by simp
  obtain x where u: "tr_umoven t cur 8 fds = Inr (0, b, x)" "length b = 8"
    using read_entry [OF h(1) Cons.prems(1), of cur] e h(2) by (metis option.distinct(1) option.inject zero_neq_neg_one)
  have k: "abbrev_end \<le> cur + 8 + 8 * of_nat i \<longleftrightarrow> k - 1 \<le> i" if "i < length bss" "0 < k" for i
    using Cons.prems(3) [of "Suc i"] that by (auto simp: algebra_simps)
  have k0: "abbrev_end \<le> cur + 8 + 8 * of_nat i \<longleftrightarrow> k - 1 \<le> i" if "i < length bss" for i
    using Cons.prems(3) [of "Suc i"] that k by (cases "k = 0") (auto simp: algebra_simps)
  have en: "entry_bytes mem t (cur + 8) i = Some (bss ! i)" if "i < length bss" for i
    using Cons.prems(4) [of "Suc i"] that by (simp add: entry_bytes_Suc)
  note IH = Cons.IH [OF u(2) nxt(2) k0 en]
  show ?case
  proof (cases rule: case_split [of "ready b", case_names ready quiet])
    case quiet
    then show ?thesis using nxt(1) u(1) IH [of outstr] Cons.prems(5)
      by (simp add: ready_polls.simps [of t _ _ fds] ready_def)
  next
    case ready
    show ?thesis
    proof (cases "k = 0")
      case True
      then show ?thesis using ready nxt(1) u(1) ab Cons.prems(5)
        by (auto simp: ready_polls.simps [of t _ _ fds] ready_def ready_sep_def out_add_def split: if_splits)
    next
    case False
    define s where "s = outstr @ (if outstr = [] then ''['' else '', '') @ ready_text b"
    have "length s \<le> 995" using Cons.prems(5) False ready length_add_texts [of s "ready_texts (k - 1) bss"] by (simp add: s_def)
    then obtain s' where "ready_sep outstr = Inr s'" "ready_entry b s' = Inr s" using ready_step unfolding s_def by blast
    then show ?thesis using False ready nxt(1) u(1) IH [of s] ab Cons.prems(5)
      by (simp add: ready_polls.simps [of t _ _ fds] ready_def s_def)
    qed
  qed
qed


definition ready_list :: "string list \<Rightarrow> string" where
  "ready_list ts = (if ts = [] then [] else ''['' @ join_commas ts @ '']'')"

lemma join_commas_text: "add_texts ts [] = (if ts = [] then [] else ''['' @ join_commas ts)"
  by (simp add: add_texts_text)

text \<open>The time left, behind the list.\<close>

definition shows_left :: "penv \<Rightarrow> tracee \<Rightarrow> tcb \<Rightarrow> c_long \<Rightarrow> string \<Rightarrow> string \<Rightarrow> bool" where
  "shows_left pe t tcp pts s left \<longleftrightarrow>
    (if pts = 0 then left = []
     else \<exists>ts. sprint_timespec t tcp pts (take 16 (stack pe)) = Inr ts \<and> left = (if s = [] then ''left '' else '', left '') @ ts)"

lemma poll_left_text:
  assumes "honest (tr_kernel t) mem" "penv_ok pe" "length (ready_list ts) < 957"
  shows "\<exists>left. shows_left pe t tcp pts (ready_list ts) left
    \<and> poll_left pe t tcp pts (add_texts ts []) =
      Inr (if ready_list ts @ left = [] then (None, 0) else (Some (ready_list ts @ left), RVAL_STR))"
proof -
  have "length (take 16 (stack pe)) = 16" using assms(2) by (simp add: penv_ok_def)
  then obtain s where s: "sprint_timespec t tcp pts (take 16 (stack pe)) = Inr s" "length s < TIMEVAL_TEXT_BUFSIZE"
    unfolding sprint_timespec_tv using sprinttv_ok [OF assms(1)] by blast
  have b: "(if add_texts ts [] \<noteq> [] then out_add (add_texts ts []) '']'' else Inr (add_texts ts [])) = Inr (ready_list ts)"
    using assms(3) by (cases "ts = []") (simp_all add: ready_list_def join_commas_text out_add_def)
  show ?thesis
  proof (cases "pts = 0")
    case True
    then show ?thesis unfolding poll_left_def b by (simp add: shows_left_def)
  next
    case False
    then show ?thesis unfolding poll_left_def b using s assms(3) by (auto simp: shows_left_def out_add_def)
  qed
qed

lemma decode_poll_exiting_text:
  assumes "honest (tr_kernel t) mem" "serves (tr_kernel t) mem" "penv_ok pe"
    and "nfds = ucast (t_u_arg tcp ! 1)" "nfds \<noteq> 0" "poll_fits (t_u_arg tcp ! 0) (t_u_arg tcp ! 1)"
    and "length bss = unat nfds" "\<And>i. i < length bss \<Longrightarrow> entry_bytes mem t (t_u_arg tcp ! 0) i = Some (bss ! i)"
    and "t_u_error tcp = 0" "t_u_rval tcp \<noteq> 0"
    and "s = ready_list (ready_texts (poll_limit max_strlen tcp nfds) bss)" "length s < 957"
  shows "\<exists>left. shows_left pe t tcp pts s left
    \<and> decode_poll_exiting pe max_strlen t tcp pts = Some (Inr (if s @ left = [] then (None, 0) else (Some (s @ left), RVAL_STR)))"
proof -
  let ?start = "t_u_arg tcp ! 0" and ?ts = "ready_texts (poll_limit max_strlen tcp nfds) bss"
  have "length (take 8 (stack pe)) = 8" using assms(3) by (simp add: penv_ok_def)
  moreover have "length (add_texts ?ts []) \<le> 995" using assms(11,12) by (auto simp: join_commas_text ready_list_def)
  moreover have "unat (poll_end ?start nfds) = unat ?start + 8 * length bss" using poll_end_at [OF assms(6)] assms(4,7) by simp
  moreover have "poll_abbrev_end max_strlen tcp ?start nfds \<le> ?start + 8 * of_nat i \<longleftrightarrow> poll_limit max_strlen tcp nfds \<le> i"
    if "i < length bss" for i using poll_abbrev_at [OF assms(6)] that unfolding assms(4,7) by blast
  ultimately have r: "ready_polls t (poll_end ?start nfds) (poll_abbrev_end max_strlen tcp ?start nfds) (take 8 (stack pe)) ?start []
      = Some (Inr (add_texts ?ts [], False))"
    by (intro ready_polls_text [OF assms(1,2)] assms(8))
  have "\<not> poll_skips ?start nfds" using assms(5,6) unfolding assms(4) poll_skips_iff by simp
  then have "decode_poll_exiting pe max_strlen t tcp pts = Some (poll_left pe t tcp pts (add_texts ?ts []))"
    using r assms(9,10) unfolding decode_poll_exiting_def Let_def assms(4) [symmetric] by simp
  then show ?thesis using poll_left_text [OF assms(1,3) assms(12) [unfolded assms(11)], of tcp pts] unfolding assms(11) by metis
qed

text \<open>
  Behind 996 bytes the descriptor does not fit the room its condition asks for, but the events may: the
  text then has events and a closing brace without a descriptor.
\<close>

lemma ready_entry_loses_fd:
  assumes "996 \<le> length s" "length s + length (sprintflags [] pollflags (pollfd_revents fds)) < 1022"
  shows "ready_entry fds s = Inr (s @ sprintflags [] pollflags (pollfd_revents fds) @ ''}'')"
  using assms by (simp add: ready_entry_def out_add_def Let_def)

subsection \<open>Properties\<close>


definition polling :: tcb where
  "polling = tcb_zero\<lparr>t_u_arg := [16, 3, 1000, 0, 0, 0], t_qual_flg := QUAL_ABBREV, t_u_rval := 3\<rparr>"

lemma polling_simps:
  "t_u_arg polling = [16, 3, 1000, 0, 0, 0]" "abbrev polling" "t_u_error polling = 0" "t_u_rval polling = 3" "t_pid polling = 0"
  by (simp_all add: polling_def abbrev_def tcb_zero_def)

lemma polling_nfds: "ucast (3 :: c_long) = (3 :: c_int)" "unat (3 :: c_int) = 3" "unat (16 :: c_long) = 16" "unat (2 :: c_int) = 2"
  by simp_all

lemma polling_limit: "poll_limit 2 polling 3 = 2"
  by (simp add: poll_limit_def polling_simps)

lemma uniform_entry: "entry_bytes (uniform_mem CHR ''a'') tracee_uniform a i = Some (replicate 8 CHR ''a'')"
  by (simp add: entry_bytes_def uniform_bytes)

lemmas eval_digits = fmt_base_def digs_step digs_small digit_char_def

lemma replicate_a: "replicate 4 CHR ''a'' = ''aaaa''" "replicate 2 CHR ''a'' = ''aa''"
  by (simp_all add: numeral_eq_Suc)

lemma uniform_fd: "pollfd_fd (replicate 8 CHR ''a'') = 1633771873" "fmt_d 1633771873 = ''1633771873''"
proof -
  have "bytes_num (take 4 (replicate 8 CHR ''a'')) = 1633771873" by (simp add: bytes_num_def replicate_a)
  then show "pollfd_fd (replicate 8 CHR ''a'') = 1633771873" by (simp add: pollfd_fd_def int_of_def)
  show "fmt_d 1633771873 = ''1633771873''" by (simp add: fmt_d_def eval_digits)
qed

lemma uniform_events: "pollfd_events (replicate 8 CHR ''a'') = 0x6161" "pollfd_revents (replicate 8 CHR ''a'') = 0x6161"
proof -
  have b: "bytes_num (replicate 2 CHR ''a'') = 24929" by (simp add: bytes_num_def replicate_a)
  have "(scast (24929 :: 16 word) :: c_int) = 0x6161" by simp
  then have "short_arg (replicate 2 CHR ''a'') = 0x6161" unfolding short_arg_def b by simp
  then show "pollfd_events (replicate 8 CHR ''a'') = 0x6161" "pollfd_revents (replicate 8 CHR ''a'') = 0x6161"
    by (simp_all add: pollfd_events_def pollfd_revents_def)
qed

lemma fmt_hx_6000: "fmt_hx 24576 = ''0x6000''"
  by (simp add: fmt_hx_def eval_digits)

lemma uniform_flags:
  "printflags pollflags 0x6161 (Some ''POLL???'') = Some (''POLLIN|POLLRDNORM|POLLWRNORM|POLLNVAL|0x6000'', 5)"
  "sprintflags [] pollflags 0x6161 = ''POLLIN|POLLRDNORM|POLLWRNORM|POLLNVAL|0x6000''"
  by (simp_all add: pollflags_def printflags_table_def sprintflags_def sprintflags_rest_def Let_def fmt_hx_6000)

lemma uniform_entry_text: "poll_entry_text (printfd penv_x False 0) (replicate 8 CHR ''a'')
    = ''{fd=1633771873, events=POLLIN|POLLRDNORM|POLLWRNORM|POLLNVAL|0x6000}''"
  by (simp add: poll_entry_text_def uniform_fd uniform_events uniform_flags printfd_def)



lemma uniform_ready: "ready_list (ready_texts 2 (replicate 3 (replicate 8 CHR ''a'')))
    = ''[{fd=1633771873, revents=POLLIN|POLLRDNORM|POLLWRNORM|POLLNVAL|0x6000}, ''
      @ ''{fd=1633771873, revents=POLLIN|POLLRDNORM|POLLWRNORM|POLLNVAL|0x6000}, ...]''"
proof -
  let ?a = "replicate 8 CHR ''a''"
  have "replicate 3 ?a = [?a, ?a, ?a]" by (simp only: numeral_3_eq_3 replicate_Suc replicate_0)
  moreover have "ready ?a" by (simp add: ready_def uniform_events)
  ultimately show ?thesis by (simp add: ready_list_def ready_text_def uniform_fd uniform_events uniform_flags)
qed


text \<open>
  At the exit \<open>decode_poll\<close> returns for every call, and the text of the result, with the bracket, the time left and the
  NUL, fits its static buffer of 1024 bytes, for any number of entries and any contents of the array. This includes what the
  comment in the code takes for granted, that there is always room for the closing bracket.
\<close>

theorem decode_poll_result_fits:
  assumes "honest (tr_kernel t) mem" "penv_ok pe"
  shows "\<exists>aux r. decode_poll_exiting pe max_strlen t tcp pts = Some (Inr (aux, r)) \<and> (\<forall>s. aux = Some s \<longrightarrow> length s < 1024)"
  using assms by (rule decode_poll_exiting_ok)

theorem decode_poll_result_fits_witness:
  "\<exists>aux r. decode_poll_exiting penv_x 2 tracee_uniform (polling\<lparr>t_u_arg := [16, 100000, 0, 0, 0, 0], t_qual_flg := 0\<rparr>) 8 = Some (Inr (aux, r))
    \<and> (\<forall>s. aux = Some s \<longrightarrow> length s < 1024)"
  by (rule decode_poll_result_fits [of _ "uniform_mem CHR ''a''"]) (simp_all add: uniform_tracee uniform_honest penv_x_ok)

text \<open>
  The timeout of \<open>poll\<close> is an \<open>int\<close>, but the whole register is printed: a process that loads -1 into the lower half is shown with
  4294967295.
\<close>

lemma poll_timeout_register:
  "decode_poll pe show_fd_path max_strlen t tcp 0 = Some (Inr (Printed s)) \<Longrightarrow> t_u_arg tcp ! 2 = 0xffffffff \<Longrightarrow>
    sys_poll pe show_fd_path max_strlen t tcp = Some (Inr (Printed (s @ ''4294967295'')))"
proof -
  have "fmt_d (sint (0xffffffff :: c_long)) = ''4294967295''" by (simp add: fmt_d_def eval_digits)
  then show "decode_poll pe show_fd_path max_strlen t tcp 0 = Some (Inr (Printed s)) \<Longrightarrow> t_u_arg tcp ! 2 = 0xffffffff \<Longrightarrow>
    sys_poll pe show_fd_path max_strlen t tcp = Some (Inr (Printed (s @ ''4294967295'')))"
    by (simp add: sys_poll_def print_behind_def)
qed

end
