(* ===== verification/Trace.thy ===== *)
theory Trace
  imports Syscall
begin

text \<open>
  The main loop (\<^verbatim>\<open>src/strace/strace.c\<close>: \<open>trace\<close>, \<open>ptrace_restart\<close>, \<open>detach\<close>, \<open>cleanup\<close>,
  \<open>process_opt_p_list\<close>, the end of \<open>main\<close>). One round of \<open>trace\<close> is a function of what the kernel
  answers in that round: the status that \<open>wait4\<close> reports, registers, and the results of the ptrace
  requests. The requests that act on tracees are collected in \<open>reqs\<close>. \<open>clearbpt\<close> is absent: break
  points are only set on kernels without \<^verbatim>\<open>PTRACE_O_TRACEFORK\<close>.
\<close>

subsection \<open>Wait statuses\<close>

definition wifstopped :: "c_int \<Rightarrow> bool" where
  "wifstopped status \<longleftrightarrow> status AND 0xff = 0x7f"

definition wstopsig :: "c_int \<Rightarrow> nat" where
  "wstopsig status = unat (drop_bit 8 status AND 0xff)"

definition wtermsig :: "c_int \<Rightarrow> nat" where
  "wtermsig status = unat (status AND 0x7f)"

definition wifexited :: "c_int \<Rightarrow> bool" where
  "wifexited status \<longleftrightarrow> wtermsig status = 0"

definition wifsignaled :: "c_int \<Rightarrow> bool" where
  "wifsignaled status \<longleftrightarrow> wtermsig status \<noteq> 0 \<and> wtermsig status \<noteq> 0x7f"

definition wcoredump :: "c_int \<Rightarrow> bool" where
  "wcoredump status \<longleftrightarrow> status AND 0x80 \<noteq> 0"

definition ptrace_event :: "c_int \<Rightarrow> nat" where
  "ptrace_event status = unat (drop_bit 16 status)"

abbreviation "SIGTRAP \<equiv> (5 :: nat)"
abbreviation "SIGSTOP \<equiv> (19 :: nat)"
abbreviation "SIGTSTP \<equiv> (20 :: nat)"
abbreviation "SIGTTIN \<equiv> (21 :: nat)"
abbreviation "SIGTTOU \<equiv> (22 :: nat)"
abbreviation "PTRACE_EVENT_EXEC \<equiv> (4 :: nat)"
abbreviation "PTRACE_EVENT_STOP \<equiv> (128 :: nat)"

definition errno_num :: "errno \<Rightarrow> int" where
  "errno_num e = (case e of ENOSYS \<Rightarrow> 38 | ESRCH \<Rightarrow> 3 | EINVAL \<Rightarrow> 22 | EFAULT \<Rightarrow> 14 | EIO \<Rightarrow> 5 | EPERM \<Rightarrow> 1 | Errno n \<Rightarrow> int n)"

abbreviation "EINTR \<equiv> Errno 4"
abbreviation "ECHILD \<equiv> Errno 10"

subsection \<open>Parameters of the loop\<close>

record tenv =
  sys :: senv
  use_seize :: bool
  post_attach_sigstop :: c_int
  ptrace_setoptions :: bool
  syscall_trap_sig :: nat
  os_release_3 :: bool
  detach_on_execve :: bool
  strace_child :: int

abbreviation cfg_of :: "tenv \<Rightarrow> config" where
  "cfg_of te \<equiv> opts (sys te)"

text \<open>One round of waiting in \<open>detach\<close>, and what a detach meets.\<close>

record wait_answer =
  w_wall :: "errno + c_int"
  w_plain :: "errno + c_int"
  w_wclone :: "errno + c_int"
  w_restart :: "errno option"

record detach_answer =
  d_detach :: "errno option"
  d_tkill_0 :: "errno option"
  d_tkill_stop :: "errno option"
  d_waits :: "wait_answer list"

text \<open>
  One round of \<open>trace\<close>: \<open>e_interrupted\<close> and \<open>e_interrupted_late\<close> are the values of \<open>interrupted\<close> at the
  two places it is looked at, \<open>e_wait\<close> is the result of the attempts at \<open>wait4\<close>, \<open>e_siginfo\<close> is the text of
  \<open>printsiginfo\<close> if there is a siginfo.
\<close>

record round =
  e_interrupted :: int
  e_wait :: "errno + int \<times> c_int \<times> timeval"
  e_regs :: regs_answer
  e_eventmsg :: "int option"
  e_setoptions :: "errno option"
  e_siginfo :: "string option"
  e_interrupted_late :: int
  e_restart :: "errno option"
  e_stop :: stop
  e_detach :: detach_answer
  e_cleanup :: "nat \<Rightarrow> detach_answer"

datatype next_round = Continue | Return int

text \<open>\<open>EStuck\<close>: the answers given do not cover all waits of a \<open>detach\<close>.\<close>

datatype tending = Ending ending | PtraceSetOptions | EStuck

definition ends :: "ending + 'a \<Rightarrow> tending + 'a" where
  "ends r = (case r of Inl e \<Rightarrow> Inl (Ending e) | Inr x \<Rightarrow> Inr x)"

definition request :: "request \<Rightarrow> strace \<Rightarrow> strace" where
  "request r st = st\<lparr>reqs := reqs st @ [r]\<rparr>"

definition complain :: "string \<Rightarrow> strace \<Rightarrow> strace" where
  "complain msg st = st\<lparr>errs := errs st @ [msg]\<rparr>"

definition sig_text :: "tables \<Rightarrow> int \<Rightarrow> string" where
  "sig_text tb sig =
    (case signame tb sig (replicate 21 (CHR 0x00)) of
       Inl s \<Rightarrow> s | Inr buf \<Rightarrow> takeWhile (\<lambda>c. c \<noteq> CHR 0x00) buf)"

subsection \<open>Restarting and detaching\<close>

definition op_name :: "ptrace_op \<Rightarrow> string" where
  "op_name op = (case op of PTRACE_SYSCALL \<Rightarrow> ''SYSCALL'' | PTRACE_CONT \<Rightarrow> ''CONT''
     | PTRACE_DETACH \<Rightarrow> ''DETACH'' | PTRACE_LISTEN \<Rightarrow> ''LISTEN'')"

definition ptrace_restart :: "tenv \<Rightarrow> errno option \<Rightarrow> ptrace_op \<Rightarrow> nat \<Rightarrow> int \<Rightarrow> strace \<Rightarrow> int \<times> strace" where
  "ptrace_restart te err op tcp sig st =
    (let st = request (Restart op (t_pid (tcb_at st tcp)) sig) st
     in case err of
          None \<Rightarrow> (0, st)
        | Some e \<Rightarrow>
            (let st = (case current_tcp st of
                 Some c \<Rightarrow>
                   if t_curcol (tcb_at st c) \<noteq> 0 then
                     line_ended (tprintf (cfg_of te) ('' <ptrace('' @ op_name op @ ''):'' @ strerror (sys te) (errno_num e) @ ''>''
                       @ [CHR 0x0A]) st)
                   else st
               | None \<Rightarrow> st)
             in if e = ESRCH then (0, st)
                else (-1, complain (''ptrace(PTRACE_'' @ op_name op @ '',pid:'' @ fmt_d (t_pid (tcb_at st tcp)) @ '',sig:'' @ fmt_d sig @ '')'') st)))"

text \<open>The chain of waits of one round in \<open>detach\<close>: a status, or the end with or without a message.\<close>

definition wait_chain :: "wait_answer \<Rightarrow> bool + c_int" where
  "wait_chain w =
    (case w_wall w of
       Inr status \<Rightarrow> Inr status
     | Inl e \<Rightarrow>
         if e = ECHILD then Inl False
         else if e \<noteq> EINVAL then Inl True
         else (case w_plain w of
             Inr status \<Rightarrow> Inr status
           | Inl e \<Rightarrow>
               if e \<noteq> ECHILD then Inl True
               else (case w_wclone w of Inr status \<Rightarrow> Inr status | Inl e \<Rightarrow> Inl (e \<noteq> ECHILD))))"

fun detach_loop :: "tenv \<Rightarrow> nat \<Rightarrow> wait_answer list \<Rightarrow> int \<Rightarrow> strace \<Rightarrow> (int \<times> strace) option" where
  "detach_loop te tcp [] err st = None"
| "detach_loop te tcp (w # ws) err st =
    (case wait_chain w of
       Inl msg \<Rightarrow> Some (err, if msg then complain ''detach: waiting'' st else st)
     | Inr status \<Rightarrow>
         if \<not> wifstopped status then Some (err, st)
         else if wstopsig status = SIGSTOP then Some (err, snd (ptrace_restart te (w_restart w) PTRACE_DETACH tcp 0 st))
         else
           (case ptrace_restart te (w_restart w) PTRACE_CONT tcp
                   (if wstopsig status = syscall_trap_sig te then 0 else int (wstopsig status)) st of
              (err, st) \<Rightarrow> if err < 0 then Some (err, st) else detach_loop te tcp ws err st))"

text \<open>
  The request to detach a process we attached to: the result of \<open>ptrace\<close>, and whether a SIGSTOP of
  the process is still to be awaited.
\<close>

definition detach_request :: "detach_answer \<Rightarrow> nat \<Rightarrow> strace \<Rightarrow> int \<times> bool \<times> strace" where
  "detach_request d tcp st =
    (let t = tcb_at st tcp; expected = has_flag t TCB_IGNORE_ONE_SIGSTOP; st = request (Detach_req (t_pid t)) st
     in case d_detach d of
          None \<Rightarrow> (0, expected, st)
        | Some e \<Rightarrow>
            if e \<noteq> ESRCH then (-1, expected, complain ''detach: ptrace(PTRACE_DETACH, ...)'' st)
            else (case d_tkill_0 d of
                Some e \<Rightarrow> (-1, expected, if e \<noteq> ESRCH then complain ''detach: checking sanity'' st else st)
              | None \<Rightarrow>
                  if expected then (-1, True, st)
                  else
                    (let st = request (Kill (t_pid t) (int SIGSTOP)) st
                     in case d_tkill_stop d of
                          Some e \<Rightarrow> (-1, False, if e \<noteq> ESRCH then complain ''detach: stopping child'' st else st)
                        | None \<Rightarrow> (-1, True, st))))"

definition detach :: "tenv \<Rightarrow> detach_answer \<Rightarrow> nat \<Rightarrow> strace \<Rightarrow> (int \<times> strace) option" where
  "detach te d tcp st =
    (let attached = has_flag (tcb_at st tcp) TCB_ATTACHED; pid = t_pid (tcb_at st tcp)
     in case (if attached then detach_request d tcp st else (0, False, st)) of
          (err, sigstop_expected, st) \<Rightarrow>
            (case (if sigstop_expected then detach_loop te tcp (d_waits d) err st else Some (err, st)) of
               None \<Rightarrow> None
             | Some (err, st) \<Rightarrow>
                 (let st = (if qflag (sys te) = 0 \<and> attached then complain (''Process '' @ fmt_u (nat pid) @ '' detached'') st else st)
                  in Some (err, droptcb (cfg_of te) tcp st))))"

text \<open>
  \<open>cleanup\<close>: every process is detached; the one we started is continued and killed first. The report
  that \<open>cleanup\<close> prints at its end with option \<^verbatim>\<open>-c\<close> is \<open>call_summary\<close> of theory \<open>Count\<close>; it touches
  neither the table nor a tracee and is not repeated here.
\<close>

fun cleanup_from :: "tenv \<Rightarrow> (nat \<Rightarrow> detach_answer) \<Rightarrow> int \<Rightarrow> nat list \<Rightarrow> strace \<Rightarrow> strace option" where
  "cleanup_from te ds fatal_sig [] st = Some st"
| "cleanup_from te ds fatal_sig (i # is) st =
    (let t = tcb_at st i
     in if \<not> has_flag t TCB_INUSE then cleanup_from te ds fatal_sig is st
        else
          (let st = (if has_flag t TCB_STRACE_CHILD
                     then request (Kill (t_pid t) fatal_sig) (request (Kill (t_pid t) 18) st) else st)
           in case detach te (ds i) i st of
                None \<Rightarrow> None
              | Some (_, st) \<Rightarrow> cleanup_from te ds fatal_sig is st))"

definition cleanup :: "tenv \<Rightarrow> (nat \<Rightarrow> detach_answer) \<Rightarrow> int \<Rightarrow> strace \<Rightarrow> strace option" where
  "cleanup te ds interrupted st =
    cleanup_from te ds (if interrupted = 0 then 15 else interrupted) [0..<length (tcbtab st)] st"

subsection \<open>One round of the loop\<close>

text \<open>
  A pid that is not in the table: a new process if forks are followed. Otherwise the program ends,
  after it has continued a stopped process.
\<close>

definition find_tcb :: "tenv \<Rightarrow> c_int \<Rightarrow> int \<Rightarrow> strace \<Rightarrow> ending + nat \<times> strace" where
  "find_tcb te status pid st =
    (case pid2tcb pid st of
       Some tcp \<Rightarrow> Inr (tcp, st)
     | None \<Rightarrow>
         if followfork (cfg_of te) \<noteq> 0 then
           sbind (fails EAbort (alloctcb (cfg_of te) pid st)) (\<lambda>(tcp, st).
             let st = upd_tcb tcp (set_flags (TCB_ATTACHED OR TCB_STARTUP OR post_attach_sigstop te)) st
             in sbind (fails EAbort (newoutf (cfg_of te) tcp st)) (\<lambda>st.
                  Inr (tcp, if qflag (sys te) = 0 then complain (''Process '' @ fmt_d pid @ '' attached'') st else st)))
         else Inl (EUnknownPid pid))"

text \<open>
  An \<open>execve\<close> in another thread than the leader: the thread \<open>ex\<close> takes over the pid and the log of the
  leader \<open>tcp\<close>, whose block is dropped.
\<close>

definition swap_tcbs :: "tenv \<Rightarrow> int \<Rightarrow> nat \<Rightarrow> nat \<Rightarrow> strace \<Rightarrow> strace" where
  "swap_tcbs te pid tcp ex st =
    (let st = (if t_curcol (tcb_at st ex) \<noteq> 0
               then emit_out (cfg_of te) (t_outf (tcb_at st ex)) ('' <pid changed to '' @ fmt_d pid @ '' ...>'' @ [CHR 0x0A]) st else st);
         fp = t_outf (tcb_at st ex); col = t_curcol (tcb_at st tcp);
         st = upd_tcb ex (\<lambda>t. t\<lparr>t_outf := t_outf (tcb_at st tcp), t_curcol := col\<rparr>) st;
         st = upd_tcb tcp (\<lambda>t. t\<lparr>t_outf := fp, t_curcol := 0\<rparr>) st;
         st = droptcb (cfg_of te) tcp st
     in upd_tcb ex (\<lambda>t. t\<lparr>t_pid := pid\<rparr>) st)"

definition supersede :: "tenv \<Rightarrow> round \<Rightarrow> int \<Rightarrow> nat \<Rightarrow> strace \<Rightarrow> nat \<times> strace" where
  "supersede te r pid tcp st =
    (case e_eventmsg r of
       None \<Rightarrow> (tcp, st)
     | Some old_pid \<Rightarrow>
         if old_pid \<le> 0 \<or> old_pid = pid then (tcp, st)
         else (case pid2tcb old_pid st of
             None \<Rightarrow> (tcp, st)
           | Some ex \<Rightarrow>
               (let st = swap_tcbs te pid tcp ex st
                in (ex, if cflag (sys te) \<noteq> CFLAG_ONLY_STATS then
                      (let st = printleader (cfg_of te) (leader_time (e_stop r)) ex st;
                           st = tprintf (cfg_of te) (''+++ superseded by execve in pid '' @ fmt_d old_pid @ '' +++'' @ [CHR 0x0A]) st
                       in upd_tcb ex (set_flags TCB_REPRINT) (line_ended st))
                    else st))))"

definition note_times :: "tenv \<Rightarrow> timeval \<Rightarrow> nat \<Rightarrow> strace \<Rightarrow> strace" where
  "note_times te stime tcp st =
    (if cflag (sys te) \<noteq> CFLAG_NONE
     then upd_tcb tcp (\<lambda>t. t\<lparr>t_dtime := tv_sub stime (t_stime t), t_stime := stime\<rparr>) st else st)"

text \<open>A line of its own.\<close>

definition print_line :: "tenv \<Rightarrow> round \<Rightarrow> nat \<Rightarrow> string \<Rightarrow> strace \<Rightarrow> strace" where
  "print_line te r tcp s st =
    line_ended (tprintf (cfg_of te) (s @ [CHR 0x0A]) (printleader (cfg_of te) (leader_time (e_stop r)) tcp st))"

definition report_signaled :: "tenv \<Rightarrow> round \<Rightarrow> int \<Rightarrow> c_int \<Rightarrow> nat \<Rightarrow> strace \<Rightarrow> strace" where
  "report_signaled te r pid status tcp st =
    (let st = (if pid = strace_child te then st\<lparr>exit_code := 0x100 + int (wtermsig status)\<rparr> else st)
     in if cflag (sys te) \<noteq> CFLAG_ONLY_STATS \<and> qual_flags (sys te) st (wtermsig status) AND QUAL_SIGNAL \<noteq> 0 then
          print_line te r tcp (''+++ killed by '' @ sig_text (tabs (sys te)) (int (wtermsig status)) @ '' ''
            @ (if wcoredump status then ''(core dumped) '' else []) @ ''+++'') st
        else st)"

definition report_exited :: "tenv \<Rightarrow> round \<Rightarrow> int \<Rightarrow> c_int \<Rightarrow> nat \<Rightarrow> strace \<Rightarrow> strace" where
  "report_exited te r pid status tcp st =
    (let st = (if pid = strace_child te then st\<lparr>exit_code := int (wstopsig status)\<rparr> else st)
     in if cflag (sys te) \<noteq> CFLAG_ONLY_STATS \<and> qflag (sys te) < 2 then
          print_line te r tcp (''+++ exited with '' @ fmt_d (int (wstopsig status)) @ '' +++'') st
        else st)"

text \<open>The first stop of a tracee.\<close>

definition startup_stop :: "tenv \<Rightarrow> round \<Rightarrow> nat \<Rightarrow> strace \<Rightarrow> tending + strace" where
  "startup_stop te r tcp st =
    (if has_flag (tcb_at st tcp) TCB_STARTUP then
       (let st = upd_tcb tcp (clear_flags TCB_STARTUP) st
        in if ptrace_setoptions te then
             (case e_setoptions r of
                None \<Rightarrow> Inr (request (SetOptions (t_pid (tcb_at st tcp))) st)
              | Some e \<Rightarrow> if e \<noteq> ESRCH then Inl PtraceSetOptions
                         else Inr (request (SetOptions (t_pid (tcb_at st tcp))) st))
           else Inr st)
     else Inr st)"

text \<open>A failed restart ends the loop, with everything detached.\<close>

definition restart_or_die :: "tenv \<Rightarrow> round \<Rightarrow> ptrace_op \<Rightarrow> nat \<Rightarrow> int \<Rightarrow> strace \<Rightarrow> tending + next_round \<times> strace" where
  "restart_or_die te r op tcp sig st =
    (case ptrace_restart te (e_restart r) op tcp sig st of
       (res, st) \<Rightarrow>
         if res < 0 then (case cleanup te (e_cleanup r) (e_interrupted_late r) st of None \<Rightarrow> Inl EStuck | Some st \<Rightarrow> Inr (Return (-1), st))
         else Inr (Continue, st))"

text \<open>The label \<open>show_stopsig\<close>.\<close>

definition show_stopsig :: "tenv \<Rightarrow> round \<Rightarrow> bool \<Rightarrow> nat \<Rightarrow> nat \<Rightarrow> strace \<Rightarrow> tending + next_round \<times> strace" where
  "show_stopsig te r stopped sig tcp st =
    (let st = (if cflag (sys te) \<noteq> CFLAG_ONLY_STATS \<and> \<not> hide_log_until_execve st
                  \<and> qual_flags (sys te) st sig AND QUAL_SIGNAL \<noteq> 0 then
                 print_line te r tcp
                   (if stopped then ''--- stopped by '' @ sig_text (tabs (sys te)) (int sig) @ '' ---''
                    else ''--- '' @ sig_text (tabs (sys te)) (int sig) @ '' ''
                      @ (case e_siginfo r of Some s \<Rightarrow> s | None \<Rightarrow> []) @ '' ---'') st
               else st)
     in if stopped \<and> use_seize te then restart_or_die te r PTRACE_LISTEN tcp 0 st
        else restart_or_die te r PTRACE_SYSCALL tcp (int sig) st)"

definition stop_action :: "tenv \<Rightarrow> round \<Rightarrow> c_int \<Rightarrow> nat \<Rightarrow> strace \<Rightarrow> tending + next_round \<times> strace" where
  "stop_action te r status tcp st =
    (let sig = wstopsig status; event = ptrace_event status
     in if event \<noteq> 0 then
          (if event = PTRACE_EVENT_STOP \<and> sig \<in> {SIGSTOP, SIGTSTP, SIGTTIN, SIGTTOU} then show_stopsig te r True sig tcp st
           else restart_or_die te r PTRACE_SYSCALL tcp 0 st)
        else if sig = SIGSTOP \<and> has_flag (tcb_at st tcp) TCB_IGNORE_ONE_SIGSTOP then
          restart_or_die te r PTRACE_SYSCALL tcp 0 (upd_tcb tcp (clear_flags TCB_IGNORE_ONE_SIGSTOP) st)
        else if sig \<noteq> syscall_trap_sig te then show_stopsig te r (e_siginfo r = None) sig tcp st
        else if e_interrupted_late r \<noteq> 0 then Inr (Return 0, st)
        else
          sbind (ends (trace_syscall (sys te) (e_stop r) tcp st)) (\<lambda>(res, st).
            if res < 0 then Inr (Continue, st) else restart_or_die te r PTRACE_SYSCALL tcp 0 st))"

definition exec_detach :: "tenv \<Rightarrow> round \<Rightarrow> nat \<Rightarrow> strace \<Rightarrow> strace option" where
  "exec_detach te r tcp st =
    (case (if detach_on_execve te \<and> \<not> skip_one_b_execve st then detach te (e_detach r) tcp st else Some (0, st)) of
       None \<Rightarrow> None | Some (_, st) \<Rightarrow> Some (st\<lparr>skip_one_b_execve := False\<rparr>))"

text \<open>What is done with a status once its block is known.\<close>

definition handle_status :: "tenv \<Rightarrow> round \<Rightarrow> int \<Rightarrow> c_int \<Rightarrow> nat \<Rightarrow> strace \<Rightarrow> tending + next_round \<times> strace" where
  "handle_status te r pid status tcp st =
    (if wifsignaled status then
       Inr (Continue, droptcb (cfg_of te) tcp (report_signaled te r pid status tcp st))
     else if wifexited status then
       Inr (Continue, droptcb (cfg_of te) tcp (report_exited te r pid status tcp st))
     else if \<not> wifstopped status then
       Inr (Continue, droptcb (cfg_of te) tcp (complain (''PANIC: pid '' @ fmt_u (nat pid) @ '' not stopped'') st))
     else sbind (startup_stop te r tcp st) (stop_action te r status tcp))"

definition trace_round :: "tenv \<Rightarrow> round \<Rightarrow> strace \<Rightarrow> tending + next_round \<times> strace" where
  "trace_round te r st =
    (if e_interrupted r \<noteq> 0 then Inr (Return 0, st)
     else case e_wait r of
       Inl e \<Rightarrow>
         if e = EINTR then Inr (Continue, st)
         else if e = ECHILD then Inr (Return 0, st)
         else Inr (Return (-1), complain ''wait'' st)
     | Inr (pid, status, stime) \<Rightarrow>
         if pid = popen_pid st then
           Inr (Continue, if wifexited status \<or> wifsignaled status then st\<lparr>popen_pid := 0\<rparr> else st)
         else
           sbind (ends (find_tcb te status pid st)) (\<lambda>(tcp, st).
             let st = clear_regs st;
                 st = (if wifstopped status then get_regs (e_regs r) st else st);
                 (tcp, st) = (if ptrace_event status = PTRACE_EVENT_EXEC \<and> os_release_3 te
                              then supersede te r pid tcp st else (tcp, st))
             in case (if ptrace_event status = PTRACE_EVENT_EXEC then exec_detach te r tcp st else Some st) of
                  None \<Rightarrow> Inl EStuck
                | Some st \<Rightarrow> handle_status te r pid status tcp (note_times te stime tcp (st\<lparr>current_tcp := Some tcp\<rparr>))))"

text \<open>\<open>trace\<close> on a sequence of rounds; \<open>None\<close> as a result means that it still runs.\<close>

fun trace :: "tenv \<Rightarrow> round list \<Rightarrow> strace \<Rightarrow> tending + int option \<times> strace" where
  "trace te [] st = Inr (if nprocs st = 0 then Some 0 else None, st)"
| "trace te (r # rs) st =
    (if nprocs st = 0 then Inr (Some 0, st)
     else sbind (trace_round te r st) (\<lambda>(nx, st).
       case nx of Return v \<Rightarrow> Inr (Some v, st) | Continue \<Rightarrow> trace te rs st))"

text \<open>The exit status of the program, or the signal it kills itself with before it exits.\<close>

definition final_exit :: "int \<Rightarrow> int option \<times> int" where
  "final_exit ec = (if ec > 0xff then (Some (ec mod 256), ec mod 256 + 128) else (None, ec))"

subsection \<open>The option -p\<close>

definition is_delim :: "char \<Rightarrow> bool" where
  "is_delim c \<longleftrightarrow> c \<in> {CHR '','', CHR '' '', CHR 0x0A, CHR 0x09}"

datatype p_error = InvalidPid string | SelfTrace | PAbort abort

function process_opt_p_list :: "config \<Rightarrow> int \<Rightarrow> string \<Rightarrow> strace \<Rightarrow> p_error + strace" where
  "process_opt_p_list cfg self opt st =
    (if opt = [] then Inr st
     else
       (let word = takeWhile (\<lambda>c. \<not> is_delim c) opt; rest = dropWhile (\<lambda>c. \<not> is_delim c) opt; pid = string_to_uint word
        in if pid \<le> 0 then Inl (InvalidPid word)
           else if pid = self then Inl SelfTrace
           else (case alloctcb cfg pid st of
               Inl e \<Rightarrow> Inl (PAbort e)
             | Inr (_, st) \<Rightarrow> if rest = [] then Inr st else process_opt_p_list cfg self (tl rest) st)))"
  by pat_completeness auto
termination
proof (relation "measure (\<lambda>(cfg, self, opt, st). length opt)", goal_cases)
  case (2 cfg self opt st word rest pid x2 x y)
  have "length rest \<le> length opt" using 2(3) length_dropWhile_le [of "\<lambda>c. \<not> is_delim c" opt] by simp
  moreover have "rest \<noteq> []" using 2 by blast
  ultimately show ?case by (cases rest) simp_all
qed simp

end
