(* ===== verification/Startup.thy ===== *)
theory Startup
  imports Trace Parse_Num
begin

text \<open>
  Start-up of \<^verbatim>\<open>src/strace/strace.c\<close>: \<open>ptrace_attach_or_seize\<close>, \<open>startup_attach\<close> for option \<^verbatim>\<open>-p\<close>, and \<open>startup_child\<close>
  with its search of \<^verbatim>\<open>PATH\<close>. What the file system, \<open>fork\<close>, \<open>waitpid\<close> and ptrace answer are parameters. Signal masks
  and the messages of the debug option are left out.
\<close>

subsection \<open>Attaching\<close>

text \<open>
  \<open>task_dir\<close>: inode and name of the entries of \<^verbatim>\<open>/proc/PID/task\<close>, when the block with this index is looked
  at; \<open>attach_error\<close>: the error of \<^verbatim>\<open>PTRACE_ATTACH\<close> or \<^verbatim>\<open>PTRACE_SEIZE\<close>, given the processes attached to before;
  \<open>interrupted_at\<close>: whether a fatal signal came while the threads were attached to; \<open>errno_at\<close>: \<open>errno\<close> after
  that; \<open>daemon\<close>: under option \<^verbatim>\<open>-D\<close>, what the second \<open>fork\<close> returned; \<open>tracee_ppid\<close>, \<open>tracer_ppid\<close>: \<open>getppid\<close> in
  \<open>startup_child\<close> and in \<open>startup_attach\<close>.
\<close>

datatype forked = ForkError errno | Parent | Child

record start_env =
  task_dir :: "nat \<Rightarrow> int \<Rightarrow> (nat \<times> string) list option"
  attach_error :: "int list \<Rightarrow> int \<Rightarrow> errno option"
  interrupt_error :: "int \<Rightarrow> errno option"
  interrupted_at :: "nat \<Rightarrow> bool"
  errno_at :: "nat \<Rightarrow> errno"
  daemon :: "forked option"
  tracee_ppid :: int
  tracer_ppid :: int

datatype start_end = StartAbort abort | Fatal string errno | KillAndDie int string | ParentExits | StartFault fault

definition attached_pids :: "strace \<Rightarrow> int list" where
  "attached_pids st = List.map_filter (\<lambda>r. case r of Attach p \<Rightarrow> Some p | _ \<Rightarrow> None) (reqs st)"

definition ptrace_attach_or_seize :: "tenv \<Rightarrow> start_env \<Rightarrow> int \<Rightarrow> strace \<Rightarrow> errno option \<times> strace" where
  "ptrace_attach_or_seize te se pid st =
    (case attach_error se (attached_pids st) pid of
       Some e \<Rightarrow> (Some e, st)
     | None \<Rightarrow> (if use_seize te then interrupt_error se pid else None, request (Attach pid) st))"

definition atoi :: "string \<Rightarrow> int" where
  "atoi s = sint (word_of_int (fst (strtol s)) :: c_int)"

text \<open>\<open>tcp->flags |= ...\<close> and \<open>newoutf\<close> for a process just attached to.\<close>

definition attached :: "tenv \<Rightarrow> c_int \<Rightarrow> nat \<Rightarrow> strace \<Rightarrow> abort + strace" where
  "attached te extra tcp st =
    newoutf (cfg_of te) tcp (upd_tcb tcp (set_flags (TCB_ATTACHED OR extra OR TCB_STARTUP OR post_attach_sigstop te)) st)"

text \<open>The loop over the threads of the process in block \<open>tcp\<close>; it counts the threads and the failures.\<close>

fun attach_threads ::
  "tenv \<Rightarrow> start_env \<Rightarrow> nat \<Rightarrow> (nat \<times> string) list \<Rightarrow> nat \<Rightarrow> nat \<Rightarrow> strace \<Rightarrow> abort + nat \<times> nat \<times> strace" where
  "attach_threads te se tcp [] ntid nerr st = Inr (ntid, nerr, st)"
| "attach_threads te se tcp ((d_fileno, d_name) # ds) ntid nerr st =
    (if d_fileno = 0 then attach_threads te se tcp ds ntid nerr st
     else
       (let tid = atoi d_name
        in if tid \<le> 0 then attach_threads te se tcp ds ntid nerr st
           else (case ptrace_attach_or_seize te se tid st of
               (Some e, st) \<Rightarrow> attach_threads te se tcp ds (ntid + 1) (nerr + 1) st
             | (None, st) \<Rightarrow>
                 sbind (if tid \<noteq> t_pid (tcb_at st tcp) then alloctcb (cfg_of te) tid st else Inr (tcp, st)) (\<lambda>(cur, st).
                   sbind (attached te 0 cur st) (\<lambda>st. attach_threads te se tcp ds (ntid + 1) nerr st)))))"

definition attach_failed :: "tenv \<Rightarrow> errno \<Rightarrow> nat \<Rightarrow> strace \<Rightarrow> strace" where
  "attach_failed te e tcp st =
    droptcb (cfg_of te) tcp
      (complain (''attach: ptrace(PTRACE_ATTACH, ...): '' @ strerror (sys te) (errno_num e)) st)"

definition attached_msg :: "tenv \<Rightarrow> int \<Rightarrow> nat \<Rightarrow> strace \<Rightarrow> strace" where
  "attached_msg te pid ntid st =
    (if qflag (sys te) = 0 then complain (''Process '' @ fmt_u (nat pid) @ '' attached''
       @ (if ntid > 1 then '' with '' @ fmt_u ntid @ '' threads'' else [])) st else st)"

text \<open>
  One turn of \<open>startup_attach\<close>, for the block \<open>tcbi\<close>; the result says whether the loop is left.
\<close>

definition attach_group :: "tenv \<Rightarrow> start_env \<Rightarrow> nat \<Rightarrow> (nat \<times> string) list \<Rightarrow> strace \<Rightarrow> abort + bool \<times> strace" where
  "attach_group te se tcbi dir st =
    sbind (attach_threads te se tcbi dir 0 0 st) (\<lambda>(ntid, nerr, st).
      if interrupted_at se tcbi then Inr (True, st)
      else if ntid - nerr = 0 then Inr (False, attach_failed te (errno_at se tcbi) tcbi st)
      else
        (let st = attached_msg te (t_pid (tcb_at st tcbi)) (ntid - nerr) st
         in Inr (False, if has_flag (tcb_at st tcbi) TCB_ATTACHED then st else droptcb (cfg_of te) tcbi st)))"

definition attach_one :: "tenv \<Rightarrow> start_env \<Rightarrow> nat \<Rightarrow> strace \<Rightarrow> abort + bool \<times> strace" where
  "attach_one te se tcbi st =
    (case ptrace_attach_or_seize te se (t_pid (tcb_at st tcbi)) st of
       (Some e, st) \<Rightarrow> Inr (False, attach_failed te e tcbi st)
     | (None, st) \<Rightarrow>
         sbind (attached te 0 tcbi st) (\<lambda>st.
           let st = (if daemon se \<noteq> None then request (Kill (tracer_ppid se) 9) st else st)
           in Inr (False, attached_msg te (t_pid (tcb_at st tcbi)) 1 st)))"

definition startup_turn :: "tenv \<Rightarrow> start_env \<Rightarrow> nat \<Rightarrow> strace \<Rightarrow> abort + bool \<times> strace" where
  "startup_turn te se tcbi st =
    (let tcp = tcb_at st tcbi
     in if \<not> has_flag tcp TCB_INUSE \<or> has_flag tcp TCB_ATTACHED then Inr (False, st)
        else case (if followfork (cfg_of te) \<noteq> 0 \<and> daemon se = None then task_dir se tcbi (t_pid tcp) else None) of
            Some dir \<Rightarrow> attach_group te se tcbi dir st
          | None \<Rightarrow> attach_one te se tcbi st)"

text \<open>The table may grow while the loop runs. \<open>None\<close> is a loop that does not end.\<close>

partial_function (option) startup_loop :: "tenv \<Rightarrow> start_env \<Rightarrow> nat \<Rightarrow> strace \<Rightarrow> (abort + strace) option" where
  "startup_loop te se tcbi st =
    (if \<not> tcbi < length (tcbtab st) then Some (Inr st)
     else case startup_turn te se tcbi st of
       Inl e \<Rightarrow> Some (Inl e)
     | Inr (goto_ret, st) \<Rightarrow> if goto_ret then Some (Inr st) else startup_loop te se (tcbi + 1) st)"

definition startup_attach :: "tenv \<Rightarrow> start_env \<Rightarrow> strace \<Rightarrow> (start_end + strace) option" where
  "startup_attach te se st =
    (let run = map_option (\<lambda>r. case r of Inl e \<Rightarrow> Inl (StartAbort e) | Inr st \<Rightarrow> Inr st) (startup_loop te se 0 st)
     in case daemon se of
          None \<Rightarrow> run
        | Some (ForkError e) \<Rightarrow> Some (Inl (Fatal ''fork'' e))
        | Some Parent \<Rightarrow> Some (Inl ParentExits)
        | Some Child \<Rightarrow> run)"

subsection \<open>Starting a program\<close>

text \<open>
  \<open>path_var\<close>: the variable \<^verbatim>\<open>PATH\<close>; \<open>stat_mode\<close>: \<open>st_mode\<close> of a file; \<open>garbage\<close>: what the buffer \<open>pathname\<close>
  holds at first, as a string.
\<close>

record child_env =
  path_var :: "string option"
  getcwd :: "string option"
  stat_mode :: "string \<Rightarrow> errno + c_int"
  garbage :: string
  fork_pid :: "errno + int"
  child_waits :: "(errno + c_int) list"

definition is_program :: "child_env \<Rightarrow> string \<Rightarrow> bool" where
  "is_program ce p = (case stat_mode ce p of Inl _ \<Rightarrow> False | Inr m \<Rightarrow> m AND 0xf000 = 0x8000 \<and> m AND 0x49 \<noteq> 0)"

text \<open>\<open>pathname\<close> in the directory \<open>d\<close>: \<open>strncpy\<close>, the slash and \<open>strcpy\<close> into \<^verbatim>\<open>MAXPATHLEN\<close> bytes.\<close>

definition join_path :: "string \<Rightarrow> string \<Rightarrow> fault + string" where
  "join_path d filename =
    (let p = d @ (if d \<noteq> [] \<and> last d \<noteq> CHR ''/'' then ''/'' else []) @ filename
     in if length p + 1 \<le> MAXPATHLEN then Inr p else Inl OutOfBounds)"

function path_search :: "child_env \<Rightarrow> string \<Rightarrow> string \<Rightarrow> string \<Rightarrow> fault + string" where
  "path_search ce filename pathname path =
    (if path = [] then Inr pathname
     else
       (let dir = takeWhile (\<lambda>c. c \<noteq> CHR '':'') path; rest = drop (length dir + 1) path
        in case (if dir = [] then getcwd ce else if length dir > MAXPATHLEN - 1 then None else Some dir) of
             None \<Rightarrow> path_search ce filename pathname rest
           | Some d \<Rightarrow> sbind (join_path d filename) (\<lambda>pathname.
               if is_program ce pathname then Inr pathname else path_search ce filename pathname rest)))"
  by pat_completeness auto
termination
  by (relation "measure (\<lambda>(ce, filename, pathname, path). length path)") auto

declare path_search.simps [simp del]

definition find_program :: "child_env \<Rightarrow> string \<Rightarrow> start_end + string" where
  "find_program ce filename =
    sbind (if CHR ''/'' \<in> set filename then
             (if length filename > MAXPATHLEN - 1 then Inl (Fatal ''exec'' (Errno 36)) else Inr filename)
           else (case path_search ce filename (garbage ce) (case path_var ce of None \<Rightarrow> [] | Some p \<Rightarrow> p) of
               Inl f \<Rightarrow> Inl (StartFault f) | Inr p \<Rightarrow> Inr p)) (\<lambda>pathname.
      case stat_mode ce pathname of Inl e \<Rightarrow> Inl (Fatal ''stat'' e) | Inr _ \<Rightarrow> Inr pathname)"

text \<open>\<open>while (waitpid(...) < 0)\<close>: the first answer that is not \<open>EINTR\<close>; \<open>None\<close> if all are.\<close>

fun wait_child :: "(errno + c_int) list \<Rightarrow> (start_end + c_int) option" where
  "wait_child [] = None"
| "wait_child (Inr status # ws) = Some (Inr status)"
| "wait_child (Inl e # ws) = (if e = EINTR then wait_child ws else Some (Inl (Fatal ''waitpid'' e)))"

text \<open>Waiting for the child to stop itself, and seizing it.\<close>

definition seize_child :: "tenv \<Rightarrow> start_env \<Rightarrow> child_env \<Rightarrow> int \<Rightarrow> strace \<Rightarrow> (start_end + strace) option" where
  "seize_child te se ce pid st =
    (if \<not> use_seize te then Some (Inr st)
     else (case wait_child (child_waits ce) of
         None \<Rightarrow> None
       | Some (Inl e) \<Rightarrow> Some (Inl e)
       | Some (Inr status) \<Rightarrow>
           if \<not> wifstopped status \<or> wstopsig status \<noteq> SIGSTOP then Some (Inl (KillAndDie pid ''Unexpected wait status''))
           else (case ptrace_attach_or_seize te se pid st of
               (Some e, _) \<Rightarrow> Some (Inl (KillAndDie pid ''Cannot attach''))
             | (None, st) \<Rightarrow> Some (Inr (request (Kill pid 18) st)))))"

definition to_start :: "abort + 'a \<Rightarrow> start_end + 'a" where
  "to_start r = (case r of Inl e \<Rightarrow> Inl (StartAbort e) | Inr x \<Rightarrow> Inr x)"

text \<open>
  \<open>startup_child\<close> as the tracer goes through it. Under option \<^verbatim>\<open>-D\<close> the tracer is the child, the tracee its parent,
  and \<open>startup_attach\<close> attaches to it later.
\<close>

definition startup_child :: "tenv \<Rightarrow> start_env \<Rightarrow> child_env \<Rightarrow> string \<Rightarrow> strace \<Rightarrow> (start_end + strace) option" where
  "startup_child te se ce filename st =
    (case find_program ce filename of
       Inl e \<Rightarrow> Some (Inl e)
     | Inr _ \<Rightarrow>
         (case fork_pid ce of
            Inl e \<Rightarrow> Some (Inl (Fatal ''fork'' e))
          | Inr pid \<Rightarrow>
              (case daemon se of
                 Some _ \<Rightarrow> Some (to_start (sbind (alloctcb (cfg_of te) (tracee_ppid se) st) (\<lambda>(_, st). Inr st)))
               | None \<Rightarrow>
                   map_option (\<lambda>r. sbind r (\<lambda>st.
                     to_start (sbind (alloctcb (cfg_of te) pid st) (\<lambda>(tcp, st). attached te TCB_STRACE_CHILD tcp st))))
                     (seize_child te se ce pid st))))"

end
