(* ===== verification/Ptrace_Test.thy ===== *)
theory Ptrace_Test
  imports Startup
begin

text \<open>
  What strace tests before it starts (\<^verbatim>\<open>src/strace/strace.c\<close>): the features of ptrace, with a child that is forked
  for it (\<open>test_ptrace_setoptions_followfork\<close>, \<open>test_ptrace_setoptions_for_all\<close>, \<open>test_ptrace_seize\<close>), and the release
  of the kernel (\<open>get_os_release\<close>). What \<open>fork\<close>, \<open>wait\<close> and ptrace answer are parameters; the side of the child and the
  debug messages are left out.
\<close>

subsection \<open>The features of ptrace\<close>

text \<open>
  One turn of a loop: what \<open>wait\<close> yields, the error of the request that restarts the process (\<^verbatim>\<open>PTRACE_CONT\<close>
  or \<^verbatim>\<open>PTRACE_SYSCALL\<close>), and what \<^verbatim>\<open>PTRACE_GETEVENTMSG\<close> stores. \<open>TestDie\<close> has the processes that are killed first.
\<close>

record test_answer =
  a_wait :: "errno + int \<times> c_int"
  a_restart :: "errno option"
  a_eventmsg :: "c_long option"

record test_env =
  test_fork :: "errno + int"
  test_answers :: "test_answer list"

datatype test_end = TestDie "int list" string

abbreviation "PTRACE_EVENT_FORK \<equiv> (1 :: nat)"

text \<open>The result \<open>None\<close> of a loop is that the answers do not suffice.\<close>

fun followfork_loop :: "int \<Rightarrow> int \<Rightarrow> int \<Rightarrow> test_answer list \<Rightarrow> (test_end + int \<times> int) option" where
  "followfork_loop pid expected found [] = None"
| "followfork_loop pid expected found (a # as) =
    (case a_wait a of
       Inl e \<Rightarrow>
         if e = EINTR then followfork_loop pid expected found as
         else if e = ECHILD then Some (Inr (expected, found))
         else Some (Inl (TestDie [pid] ''unexpected wait result''))
     | Inr (tracee_pid, status) \<Rightarrow>
         if wifexited status then
           (if wstopsig status \<noteq> 0 then Some (Inl (TestDie (if tracee_pid \<noteq> pid then [pid] else []) ''unexpected exit status''))
            else followfork_loop pid expected found as)
         else if wifsignaled status then Some (Inl (TestDie (if tracee_pid \<noteq> pid then [pid] else []) ''unexpected signal''))
         else if \<not> wifstopped status then
           Some (Inl (TestDie ((if tracee_pid \<noteq> pid then [tracee_pid] else []) @ [pid]) ''unexpected wait status''))
         else if tracee_pid \<noteq> pid then
           (if a_restart a \<noteq> None then Some (Inl (TestDie [tracee_pid, pid] ''PTRACE_CONT failed''))
            else followfork_loop pid expected tracee_pid as)
         else
           (let expected = (if wstopsig status = SIGTRAP \<and> ptrace_event status = PTRACE_EVENT_FORK then
                              (case a_eventmsg a of Some msg \<Rightarrow> sint (ucast msg :: c_int) | None \<Rightarrow> expected)
                            else expected)
            in if a_restart a \<noteq> None then Some (Inl (TestDie [pid] ''PTRACE_SYSCALL failed''))
               else followfork_loop pid expected found as))"

text \<open>Whether the test worked.\<close>

definition test_ptrace_setoptions_followfork :: "test_env \<Rightarrow> (test_end + bool) option" where
  "test_ptrace_setoptions_followfork tv =
    (case test_fork tv of
       Inl e \<Rightarrow> Some (Inl (TestDie [] ''fork''))
     | Inr pid \<Rightarrow>
         map_option (\<lambda>r. sbind r (\<lambda>(expected, found). Inr (expected \<noteq> 0 \<and> expected = found)))
           (followfork_loop pid 0 0 (test_answers tv)))"

fun for_all_loop :: "int \<Rightarrow> bool \<Rightarrow> test_answer list \<Rightarrow> (test_end + bool) option" where
  "for_all_loop pid it_worked [] = None"
| "for_all_loop pid it_worked (a # as) =
    (case a_wait a of
       Inl e \<Rightarrow>
         if e = EINTR then for_all_loop pid it_worked as else Some (Inl (TestDie [pid] ''unexpected wait result''))
     | Inr (_, status) \<Rightarrow>
         if wifexited status then
           (if wstopsig status = 0 then Some (Inr it_worked) else Some (Inl (TestDie [] ''unexpected exit status'')))
         else if wifsignaled status then Some (Inl (TestDie [] ''unexpected signal''))
         else if \<not> wifstopped status then Some (Inl (TestDie [pid] ''unexpected wait status''))
         else
           (let it_worked = (it_worked \<or> wstopsig status = 133)
            in if a_restart a \<noteq> None then Some (Inl (TestDie [pid] ''PTRACE_SYSCALL failed''))
               else for_all_loop pid it_worked as))"

definition test_ptrace_setoptions_for_all :: "test_env \<Rightarrow> (test_end + bool) option" where
  "test_ptrace_setoptions_for_all tv =
    (case test_fork tv of
       Inl e \<Rightarrow> Some (Inl (TestDie [] ''fork''))
     | Inr pid \<Rightarrow> for_all_loop pid False (test_answers tv))"

fun seize_loop :: "test_answer list \<Rightarrow> (test_end + unit) option" where
  "seize_loop [] = None"
| "seize_loop (a # as) =
    (case a_wait a of
       Inl e \<Rightarrow> if e = EINTR then seize_loop as else Some (Inl (TestDie [] ''unexpected wait result''))
     | Inr (_, status) \<Rightarrow> if wifsignaled status then Some (Inr ()) else Some (Inl (TestDie [] ''unexpected wait status'')))"

text \<open>\<open>seized\<close>: whether \<^verbatim>\<open>PTRACE_SEIZE\<close> succeeded. The result is the new \<open>post_attach_sigstop\<close>.\<close>

definition test_ptrace_seize :: "bool \<Rightarrow> test_env \<Rightarrow> (test_end + c_int) option" where
  "test_ptrace_seize seized tv =
    (case test_fork tv of
       Inl e \<Rightarrow> Some (Inl (TestDie [] ''fork''))
     | Inr pid \<Rightarrow>
         map_option (\<lambda>r. sbind r (\<lambda>_. Inr (if seized then 0 else TCB_IGNORE_ONE_SIGSTOP))) (seize_loop (test_answers tv)))"

subsection \<open>The release of the kernel\<close>

definition KERNEL_VERSION :: "c_int \<Rightarrow> c_int \<Rightarrow> c_int \<Rightarrow> c_int" where
  "KERNEL_VERSION a b c = push_bit 16 a + push_bit 8 b + c"

text \<open>The loop from the position \<open>p\<close> of the release string on; \<open>None\<close> is a bad string.\<close>

function release_loop :: "c_int \<Rightarrow> string \<Rightarrow> c_int option" where
  "release_loop rel p =
    (if p = [] \<or> \<not> isdigit_c (hd p) then None
     else
       (let rel = push_bit 8 rel OR word_of_int (atoi p); p = dropWhile isdigit_c p
        in if KERNEL_VERSION 1 0 0 \<le> rel then Some rel
           else if p = [] \<or> hd p \<noteq> CHR ''.'' then (if KERNEL_VERSION 0 1 0 \<le> rel then Some (push_bit 8 rel) else None)
           else release_loop rel (tl p)))"
  by pat_completeness auto
termination
proof (relation "measure (\<lambda>(rel, p). length p)", goal_cases)
  case (2 rel p rel' p')
  then have "length p' \<le> length p" using length_dropWhile_le [of isdigit_c p] by simp
  moreover have "p' \<noteq> []" using 2 by blast
  ultimately show ?case by (cases p') simp_all
qed simp

declare release_loop.simps [simp del]

definition get_os_release :: "string \<Rightarrow> c_int option" where
  "get_os_release release = release_loop 0 release"

end
