(* ===== verification/Init.thy ===== *)
theory Init
  imports Ptrace_Test Pathtrace
begin

text \<open>
  \<open>init\<close> and \<open>main\<close> of \<^verbatim>\<open>src/strace/strace.c\<close>: the options, the checks behind them, where the log goes, what is done
  about signals, and the start of tracing; then the main loop and the end of the program. \<open>getopt\<close> of the C library is
  modelled for the option string in use, whose leading \<^verbatim>\<open>+\<close> makes it stop at the first argument that is no option. Messages
  of the debug option are left out.
\<close>

subsection \<open>getopt\<close>

definition optstring :: string where
  "optstring = ''b:cCdfFhiqrtTvVxyz'' @ ''D'' @ ''a:e:o:O:p:s:S:u:E:P:I:''"

text \<open>Whether the option \<open>c\<close> exists, and whether it has an argument.\<close>

fun opt_spec :: "string \<Rightarrow> char \<Rightarrow> bool option" where
  "opt_spec [] c = None"
| "opt_spec (x # xs) c = (if x = c \<and> c \<noteq> CHR '':'' then Some (xs \<noteq> [] \<and> hd xs = CHR '':'') else opt_spec xs c)"

text \<open>The options in one argument, behind its dash; the next argument may be used up.\<close>

fun opt_cluster :: "string \<Rightarrow> string list \<Rightarrow> (char \<times> string) list \<times> string list" where
  "opt_cluster [] args = ([], args)"
| "opt_cluster (c # cs) args =
    (case opt_spec optstring c of
       None \<Rightarrow> (case opt_cluster cs args of (os, args) \<Rightarrow> ((CHR ''?'', []) # os, args))
     | Some False \<Rightarrow> (case opt_cluster cs args of (os, args) \<Rightarrow> ((c, []) # os, args))
     | Some True \<Rightarrow>
         if cs \<noteq> [] then ([(c, cs)], args)
         else (case args of [] \<Rightarrow> ([(CHR ''?'', [])], []) | a # args \<Rightarrow> ([(c, a)], args)))"

lemma opt_cluster_length: "length (snd (opt_cluster cs args)) \<le> length args"
  by (induction cs args rule: opt_cluster.induct) (auto split: option.splits bool.splits list.splits prod.splits)

function getopts :: "string list \<Rightarrow> (char \<times> string) list \<times> string list" where
  "getopts [] = ([], [])"
| "getopts (a # args) =
    (if a = ''--'' then ([], args)
     else if a = [] \<or> hd a \<noteq> CHR ''-'' \<or> tl a = [] then ([], a # args)
     else
       (case opt_cluster (tl a) args of (os, args) \<Rightarrow>
          case getopts args of (os', args) \<Rightarrow> (os @ os', args)))"
  by pat_completeness auto
termination
proof (relation "measure length", goal_cases)
  case (2 a args os args')
  then show ?case using opt_cluster_length [of "tl a" args] by (auto simp: less_Suc_eq_le dest!: arg_cong [where f = snd])
qed simp

declare getopts.simps [simp del]

subsection \<open>The options\<close>

text \<open>The variables that the options set; \<open>g_st\<close> is the state with the process table, for option \<^verbatim>\<open>-p\<close>.\<close>

record globals =
  g_detach_on_execve :: bool
  g_cflag :: cflags
  g_daemonized_tracer :: bool
  g_optF :: nat
  g_followfork :: nat
  g_iflag :: bool
  g_qflag :: nat
  g_rflag :: bool
  g_tflag :: nat
  g_Tflag :: bool
  g_xflag :: nat
  g_show_fd_path :: bool
  g_not_failing_only :: bool
  g_acolumn :: nat
  g_outfname :: "string option"
  g_overhead :: "timeval option"
  g_max_strlen :: nat
  g_sortby :: sortby
  g_username :: "string option"
  g_opt_intr :: nat
  g_environ :: "string list"
  g_quals :: quals
  g_selected :: "string list"
  g_st :: strace

text \<open>What the system provides: memory, identities, the password file, files and pipes, the tests of ptrace.\<close>

record init_env =
  i_tables :: tables
  i_errnoent :: "string list"
  i_strerror :: "int \<Rightarrow> string"
  i_release :: string
  i_self :: int
  i_alloc_ok :: "nat \<Rightarrow> bool"
  i_fopen_ok :: "string \<Rightarrow> bool"
  i_write_ok :: "outfile \<Rightarrow> bool"
  i_popen :: "string \<Rightarrow> errno + int"
  i_realpath :: "string \<Rightarrow> string option"
  i_putenv_ok :: "string \<Rightarrow> bool"
  i_root :: bool
  i_getpwnam :: "string \<Rightarrow> (nat \<times> nat) option"
  i_ids :: "nat \<times> nat"
  i_test_followfork :: test_env
  i_test_for_all :: test_env
  i_test_seize :: test_env
  i_seized :: bool
  i_second_fork :: forked

datatype init_end =
    ErrorMsg string | Usage nat | ShowVersion | InitDie die | InitPath ending | InitP p_error | InitTest test_end | InitStart start_end

definition init_config :: "init_env \<Rightarrow> bool \<Rightarrow> globals \<Rightarrow> config" where
  "init_config ie pfx g = \<lparr>followfork = g_followfork g, print_pid_pfx = pfx, outfname = g_outfname g, tflag = g_tflag g,
     rflag = g_rflag g, iflag = g_iflag g, acolumn = g_acolumn g, alloc_ok = i_alloc_ok ie,
     fopen_ok = i_fopen_ok ie, write_ok = i_write_ok ie\<rparr>"

definition error_opt_arg :: "char \<Rightarrow> string \<Rightarrow> init_end" where
  "error_opt_arg c arg = ErrorMsg (''Invalid -'' @ [c] @ '' argument: '' @ [CHR 0x27] @ arg @ [CHR 0x27])"

definition opt_qualify :: "init_env \<Rightarrow> string \<Rightarrow> globals \<Rightarrow> init_end + globals" where
  "opt_qualify ie s g = (case qualify (i_tables ie) s (g_quals g) of Inl e \<Rightarrow> Inl (InitDie e) | Inr q \<Rightarrow> Inr (g\<lparr>g_quals := q\<rparr>))"

text \<open>The body of the loop over the options.\<close>

definition init_option :: "init_env \<Rightarrow> char \<Rightarrow> string \<Rightarrow> globals \<Rightarrow> init_end + globals" where
  "init_option ie c optarg g =
    (if c = CHR ''b'' then
       (if optarg \<noteq> ''execve'' then Inl (ErrorMsg (''Syscall '' @ [CHR 0x27] @ optarg @ [CHR 0x27] @ '' for -b isn'' @ [CHR 0x27] @ ''t supported''))
        else Inr (g\<lparr>g_detach_on_execve := True\<rparr>))
     else if c = CHR ''c'' then
       (if g_cflag g = CFLAG_BOTH then Inl (ErrorMsg ''-c and -C are mutually exclusive'')
        else Inr (g\<lparr>g_cflag := CFLAG_ONLY_STATS\<rparr>))
     else if c = CHR ''C'' then
       (if g_cflag g = CFLAG_ONLY_STATS then Inl (ErrorMsg ''-c and -C are mutually exclusive'')
        else Inr (g\<lparr>g_cflag := CFLAG_BOTH\<rparr>))
     else if c = CHR ''d'' then Inr g
     else if c = CHR ''D'' then Inr (g\<lparr>g_daemonized_tracer := True\<rparr>)
     else if c = CHR ''F'' then Inr (g\<lparr>g_optF := 1\<rparr>)
     else if c = CHR ''f'' then Inr (g\<lparr>g_followfork := g_followfork g + 1\<rparr>)
     else if c = CHR ''h'' then Inl (Usage 0)
     else if c = CHR ''i'' then Inr (g\<lparr>g_iflag := True\<rparr>)
     else if c = CHR ''q'' then Inr (g\<lparr>g_qflag := g_qflag g + 1\<rparr>)
     else if c = CHR ''r'' then Inr (g\<lparr>g_rflag := True, g_tflag := g_tflag g + 1\<rparr>)
     else if c = CHR ''t'' then Inr (g\<lparr>g_tflag := g_tflag g + 1\<rparr>)
     else if c = CHR ''T'' then Inr (g\<lparr>g_Tflag := True\<rparr>)
     else if c = CHR ''x'' then Inr (g\<lparr>g_xflag := g_xflag g + 1\<rparr>)
     else if c = CHR ''y'' then Inr (g\<lparr>g_show_fd_path := True\<rparr>)
     else if c = CHR ''v'' then opt_qualify ie ''abbrev=none'' g
     else if c = CHR ''V'' then Inl ShowVersion
     else if c = CHR ''z'' then Inr (g\<lparr>g_not_failing_only := True\<rparr>)
     else if c = CHR ''a'' then
       (let i = string_to_uint optarg in if i < 0 then Inl (error_opt_arg c optarg) else Inr (g\<lparr>g_acolumn := nat i\<rparr>))
     else if c = CHR ''e'' then opt_qualify ie optarg g
     else if c = CHR ''o'' then Inr (g\<lparr>g_outfname := Some optarg\<rparr>)
     else if c = CHR ''O'' then
       (let i = string_to_uint optarg
        in if i < 0 then Inl (error_opt_arg c optarg) else Inr (g\<lparr>g_overhead := Some (set_overhead i)\<rparr>))
     else if c = CHR ''p'' then
       (case process_opt_p_list (init_config ie False g) (i_self ie) optarg (g_st g) of
          Inl e \<Rightarrow> Inl (InitP e) | Inr st \<Rightarrow> Inr (g\<lparr>g_st := st\<rparr>))
     else if c = CHR ''P'' then
       (case pathtrace_select (i_alloc_ok ie) (i_realpath ie) (g_selected g) optarg of
          Inl e \<Rightarrow> Inl (InitPath e)
        | Inr (sel, msgs) \<Rightarrow> Inr (g\<lparr>g_selected := sel, g_st := fold complain msgs (g_st g)\<rparr>))
     else if c = CHR ''s'' then
       (let i = string_to_uint optarg in if i < 0 then Inl (error_opt_arg c optarg) else Inr (g\<lparr>g_max_strlen := nat i\<rparr>))
     else if c = CHR ''S'' then
       (case set_sortby optarg of Inl e \<Rightarrow> Inl (InitDie e) | Inr s \<Rightarrow> Inr (g\<lparr>g_sortby := s\<rparr>))
     else if c = CHR ''u'' then Inr (g\<lparr>g_username := Some optarg\<rparr>)
     else if c = CHR ''E'' then
       (if i_putenv_ok ie optarg then Inr (g\<lparr>g_environ := g_environ g @ [optarg]\<rparr>) else Inl (InitDie DieOutOfMemory))
     else if c = CHR ''I'' then
       (let i = string_to_uint optarg
        in if i \<le> 0 \<or> i \<ge> 5 then Inl (error_opt_arg c optarg) else Inr (g\<lparr>g_opt_intr := nat i\<rparr>))
     else Inl (Usage 1))"

fun init_options :: "init_env \<Rightarrow> (char \<times> string) list \<Rightarrow> globals \<Rightarrow> init_end + globals" where
  "init_options ie [] g = Inr g"
| "init_options ie ((c, optarg) # os) g = sbind (init_option ie c optarg g) (init_options ie os)"

text \<open>The variables before the loop: \<open>tcbtab\<close> has \<open>argc\<close> blocks.\<close>

definition globals_zero :: "nat \<Rightarrow> globals" where
  "globals_zero argc = \<lparr>g_detach_on_execve = False, g_cflag = CFLAG_NONE, g_daemonized_tracer = False, g_optF = 0,
     g_followfork = 0, g_iflag = False, g_qflag = 0, g_rflag = False, g_tflag = 0, g_Tflag = False, g_xflag = 0,
     g_show_fd_path = False, g_not_failing_only = False, g_acolumn = 40, g_outfname = None, g_overhead = None,
     g_max_strlen = 32, g_sortby = By_time, g_username = None, g_opt_intr = 0, g_environ = [], g_quals = quals_init,
     g_selected = [], g_st = strace_init argc\<rparr>"

definition init_defaults :: "init_env \<Rightarrow> nat \<Rightarrow> init_end + globals" where
  "init_defaults ie argc =
    sbind (if i_alloc_ok ie argc then Inr (globals_zero argc) else Inl (InitDie DieOutOfMemory)) (\<lambda>g.
      sbind (opt_qualify ie ''trace=all'' g) (\<lambda>g.
        sbind (opt_qualify ie ''abbrev=all'' g) (\<lambda>g.
          sbind (opt_qualify ie ''verbose=all'' g) (opt_qualify ie ''signal=all''))))"

subsection \<open>Behind the options\<close>

text \<open>
  \<open>acolumn_spaces\<close> and the combinations that are refused; \<open>acolumn + 1\<close> is an \<open>int\<close>, and one that has wrapped
  is too large for \<open>malloc\<close>.
\<close>

definition init_check :: "init_env \<Rightarrow> string list \<Rightarrow> globals \<Rightarrow> init_end + globals" where
  "init_check ie argv g =
    (if g_acolumn g + 1 \<ge> 2 ^ 31 \<or> \<not> i_alloc_ok ie (g_acolumn g + 1) then Inl (InitDie DieOutOfMemory)
     else if (argv = []) = (nprocs (g_st g) = 0) then Inl (Usage 1)
     else if nprocs (g_st g) \<noteq> 0 \<and> g_daemonized_tracer g then Inl (ErrorMsg ''-D and -p are mutually exclusive'')
     else
       (let g = (if g_followfork g = 0 then g\<lparr>g_followfork := g_optF g\<rparr> else g)
        in if g_followfork g \<ge> 2 \<and> g_cflag g \<noteq> CFLAG_NONE then Inl (ErrorMsg ''(-c or -C) and -ff are mutually exclusive'')
           else Inr g))"

definition init_user :: "init_env \<Rightarrow> globals \<Rightarrow> init_end + nat \<times> nat" where
  "init_user ie g =
    (case g_username g of
       Some username \<Rightarrow>
         if \<not> i_root ie then Inl (ErrorMsg ''You must be root to use the -u option'')
         else (case i_getpwnam ie username of
             None \<Rightarrow> Inl (ErrorMsg (''Cannot find user '' @ [CHR 0x27] @ username @ [CHR 0x27]))
           | Some (uid, gid) \<Rightarrow> Inr (uid, gid))
     | None \<Rightarrow> Inr (i_ids ie))"

text \<open>The tests: \<open>need_fork_exec_workarounds\<close>, whether \<open>ptrace_setoptions\<close> is not zero, \<open>syscall_trap_sig\<close>, \<open>post_attach_sigstop\<close>.\<close>

definition init_tests :: "init_env \<Rightarrow> globals \<Rightarrow> (init_end + bool \<times> bool \<times> nat \<times> c_int) option" where
  "init_tests ie g =
    (case (if g_followfork g \<noteq> 0 then test_ptrace_setoptions_followfork (i_test_followfork ie) else Some (Inr True)) of
       None \<Rightarrow> None
     | Some (Inl e) \<Rightarrow> Some (Inl (InitTest e))
     | Some (Inr ff) \<Rightarrow>
         (case test_ptrace_setoptions_for_all (i_test_for_all ie) of
            None \<Rightarrow> None
          | Some (Inl e) \<Rightarrow> Some (Inl (InitTest e))
          | Some (Inr good) \<Rightarrow>
              (case test_ptrace_seize (i_seized ie) (i_test_seize ie) of
                 None \<Rightarrow> None
               | Some (Inl e) \<Rightarrow> Some (Inl (InitTest e))
               | Some (Inr pas) \<Rightarrow>
                   Some (Inr (\<not> ff \<or> \<not> good, g_followfork g \<noteq> 0 \<and> ff \<or> good, if good then 133 else SIGTRAP, pas)))))"

definition is_pipe :: "string \<Rightarrow> bool" where
  "is_pipe f \<longleftrightarrow> f \<noteq> [] \<and> (hd f = CHR ''|'' \<or> hd f = CHR ''!'')"

text \<open>Where the log goes, \<open>opt_intr\<close> and \<open>qflag\<close>.\<close>

definition init_log :: "init_env \<Rightarrow> string list \<Rightarrow> globals \<Rightarrow> init_end + globals" where
  "init_log ie argv g =
    sbind (case g_outfname g of
        Some f \<Rightarrow>
          if is_pipe f then
            (if g_followfork g \<ge> 2 then Inl (ErrorMsg ''Piping the output and -ff are mutually exclusive'')
             else (case i_popen ie (tl f) of
                 Inl e \<Rightarrow> Inl (ErrorMsg ''vfork'') | Inr pid \<Rightarrow> Inr (g\<lparr>g_st := (g_st g)\<lparr>popen_pid := pid\<rparr>\<rparr>)))
          else if g_followfork g < 2 \<and> \<not> i_fopen_ok ie f then Inl (InitStart (StartAbort (CannotOpen f)))
          else Inr g
      | None \<Rightarrow> Inr (if g_followfork g \<ge> 2 then g\<lparr>g_followfork := 1\<rparr> else g)) (\<lambda>g.
      if (case g_outfname g of None \<Rightarrow> True | Some f \<Rightarrow> is_pipe f) \<and> \<not> i_alloc_ok ie 8192 then Inl (InitDie DieOutOfMemory)
      else
        (let g = (if g_outfname g \<noteq> None \<and> argv \<noteq> []
                  then g\<lparr>g_opt_intr := (if g_opt_intr g = 0 then 3 else g_opt_intr g), g_qflag := 1\<rparr> else g)
         in Inr (if g_opt_intr g = 0 then g\<lparr>g_opt_intr := 2\<rparr> else g)))"

text \<open>What is done about a signal while strace runs, by the value of \<open>opt_intr\<close>; and \<open>blocked_set\<close>.\<close>

datatype disposition = SigDefault | SigIgnore | SigInterrupt

definition fatal_signals :: "nat list" where
  "fatal_signals = [1, 2, 3, 13, 15]"

definition init_sigaction :: "nat \<Rightarrow> nat \<Rightarrow> disposition" where
  "init_sigaction opt_intr sig =
    (if sig \<in> {22, 21} then SigIgnore
     else if opt_intr \<noteq> 1 \<and> opt_intr = 4 \<and> sig = 20 then SigIgnore
     else if opt_intr \<noteq> 1 \<and> sig \<in> set fatal_signals then (if opt_intr = 2 then SigInterrupt else SigIgnore)
     else SigDefault)"

definition init_blocked :: "nat \<Rightarrow> nat list" where
  "init_blocked opt_intr = (if opt_intr = 2 then fatal_signals else [])"

subsection \<open>init\<close>

definition init_senv :: "init_env \<Rightarrow> bool \<Rightarrow> globals \<Rightarrow> (tcb \<Rightarrow> bool) option \<Rightarrow> senv" where
  "init_senv ie pfx g match = \<lparr>opts = init_config ie pfx g, tabs = i_tables ie, qset = g_quals g, errnoent = i_errnoent ie,
     strerror = i_strerror ie, cflag = g_cflag g, Tflag = g_Tflag g, qflag = g_qflag g,
     not_failing_only = g_not_failing_only g, pathtrace = match\<rparr>"

definition init_tenv ::
  "init_env \<Rightarrow> bool \<Rightarrow> globals \<Rightarrow> (tcb \<Rightarrow> bool) option \<Rightarrow> bool \<times> bool \<times> nat \<times> c_int \<Rightarrow> c_int \<Rightarrow> int \<Rightarrow> tenv" where
  "init_tenv ie pfx g match feat release child =
    (case feat of (_, setoptions, trap_sig, pas) \<Rightarrow>
       \<lparr>sys = init_senv ie pfx g match, use_seize = (pas = 0), post_attach_sigstop = pas, ptrace_setoptions = setoptions,
        syscall_trap_sig = trap_sig, os_release_3 = (KERNEL_VERSION 3 0 0 \<le> release),
        detach_on_execve = g_detach_on_execve g, strace_child = child\<rparr>)"

text \<open>
  The start of tracing, with the options \<open>g\<close>: the program is started, or the processes of option \<^verbatim>\<open>-p\<close> are attached
  to. The result has what stays fixed from now on, and the state.
\<close>

definition init_start ::
  "init_env \<Rightarrow> start_env \<Rightarrow> child_env \<Rightarrow> (tcb \<Rightarrow> bool) option \<Rightarrow> bool \<times> bool \<times> nat \<times> c_int \<Rightarrow> c_int \<Rightarrow> string list \<Rightarrow> globals
    \<Rightarrow> (init_end + tenv \<times> strace) option" where
  "init_start ie se ce match feat release argv g =
    (let se = se\<lparr>daemon := if g_daemonized_tracer g then Some (i_second_fork ie) else None\<rparr>;
         child = (if argv = [] \<or> g_daemonized_tracer g then 0 else case fork_pid ce of Inl _ \<Rightarrow> -1 | Inr pid \<Rightarrow> pid);
         te = init_tenv ie False g match feat release child;
         st = g_st g
     in case (if argv \<noteq> [] then
                startup_child te se ce (hd argv) (st\<lparr>hide_log_until_execve := True, skip_one_b_execve := True\<rparr>)
              else Some (Inr st)) of
          None \<Rightarrow> None
        | Some (Inl e) \<Rightarrow> Some (Inl (InitStart e))
        | Some (Inr st) \<Rightarrow>
            (case (if nprocs st \<noteq> 0 \<or> g_daemonized_tracer g then startup_attach te se st else Some (Inr st)) of
               None \<Rightarrow> None
             | Some (Inl e) \<Rightarrow> Some (Inl (InitStart e))
             | Some (Inr st) \<Rightarrow>
                 let pfx = (g_outfname g \<noteq> None \<and> g_followfork g < 2 \<and> (g_followfork g = 1 \<or> nprocs st > 1))
                 in Some (Inr (init_tenv ie pfx g match feat release child, st))))"

text \<open>The options and what follows them, up to the start; \<open>argc\<close> counts the name of the program too.\<close>

definition init_parse :: "init_env \<Rightarrow> string list \<Rightarrow> init_end + string list \<times> globals" where
  "init_parse ie args =
    (case getopts args of (os, argv) \<Rightarrow>
       sbind (init_defaults ie (length args + 1)) (\<lambda>g.
         sbind (init_options ie os g) (\<lambda>g. sbind (init_check ie argv g) (\<lambda>g. Inr (argv, g)))))"

definition init ::
  "init_env \<Rightarrow> start_env \<Rightarrow> child_env \<Rightarrow> (globals \<Rightarrow> (tcb \<Rightarrow> bool) option) \<Rightarrow> string list \<Rightarrow> (init_end + tenv \<times> strace) option" where
  "init ie se ce match args =
    (case get_os_release (i_release ie) of
       None \<Rightarrow> Some (Inl (ErrorMsg ''Bad OS release string''))
     | Some release \<Rightarrow>
         (case init_parse ie args of
            Inl e \<Rightarrow> Some (Inl e)
          | Inr (argv, g) \<Rightarrow>
              (case init_user ie g of
                 Inl e \<Rightarrow> Some (Inl e)
               | Inr _ \<Rightarrow>
                   (case init_tests ie g of
                      None \<Rightarrow> None
                    | Some (Inl e) \<Rightarrow> Some (Inl e)
                    | Some (Inr feat) \<Rightarrow>
                        (case init_log ie argv g of
                           Inl e \<Rightarrow> Some (Inl e)
                         | Inr g \<Rightarrow> init_start ie se ce (match g) feat release argv g)))))"

subsection \<open>main\<close>

text \<open>
  \<open>rs\<close>, \<open>ds\<close> and \<open>interrupted\<close> are what the loop and \<open>cleanup\<close> meet; the result \<open>None\<close> is that these do not suffice, so that the program
  still runs. The end is the signal the program kills itself with, if any, and its exit status.
\<close>

datatype main_end = MInit init_end | MTrace tending | Exits "int option \<times> int"

definition strace_main ::
  "init_env \<Rightarrow> start_env \<Rightarrow> child_env \<Rightarrow> (globals \<Rightarrow> (tcb \<Rightarrow> bool) option) \<Rightarrow> string list
    \<Rightarrow> round list \<Rightarrow> (nat \<Rightarrow> detach_answer) \<Rightarrow> int \<Rightarrow> main_end option" where
  "strace_main ie se ce match args rs ds interrupted =
    (case init ie se ce match args of
       None \<Rightarrow> None
     | Some (Inl e) \<Rightarrow> Some (MInit e)
     | Some (Inr (te, st)) \<Rightarrow>
         (case trace te rs st of
            Inl e \<Rightarrow> Some (MTrace e)
          | Inr (None, st) \<Rightarrow> None
          | Inr (Some v, st) \<Rightarrow>
              if v < 0 then Some (Exits (None, 1))
              else map_option (\<lambda>st. Exits (final_exit (exit_code st))) (cleanup te ds interrupted st)))"

end
