(* ===== verification/Trace_Ok.thy ===== *)
theory Trace_Ok
  imports Trace Syscall_Safe
begin

text \<open>
  The invariant of the main loop: the process table is well-formed, every process has the shared log
  open, and the log keeps its line discipline. Each step of a round keeps it: restarts, detaching,
  cleaning up, new processes, superseded leaders, deaths and stops of all kinds.
\<close>

subsection \<open>The invariant of the loop\<close>

definition run_ok :: "tenv \<Rightarrow> strace \<Rightarrow> bool" where
  "run_ok te st \<longleftrightarrow> shared_cfg (cfg_of te) \<and> post_attach_sigstop te AND TCB_INUSE = 0 \<and> tcb_ok st \<and> log_ok st
     \<and> (\<forall>i < length (tcbtab st). inuse (tcb_at st i) \<longrightarrow> t_outf (tcb_at st i) = Some SharedLog)"

definition live :: "nat \<Rightarrow> strace \<Rightarrow> bool" where
  "live tcp st \<longleftrightarrow> tcp < length (tcbtab st) \<and> inuse (tcb_at st tcp)"

lemma run_ok_sys: "run_ok te st \<Longrightarrow> live tcp st \<Longrightarrow> current_tcp st = Some tcp \<Longrightarrow> sys_ok (sys te) tcp st"
  by (simp add: run_ok_def live_def sys_ok_def ready_def)

lemma sys_ok_run:
  assumes "run_ok te st" "sys_ok (sys te) tcp st'" "same_cores st st'"
  shows "run_ok te st'"
proof -
  have len: "length (tcbtab st') = length (tcbtab st)" using assms(3) by (simp add: same_cores_def)
  have "inuse (tcb_at st' i) \<longrightarrow> t_outf (tcb_at st' i) = Some SharedLog" if "i < length (tcbtab st)" for i
    using assms(1) same_cores_D [OF assms(3) that] that by (simp add: run_ok_def)
  then show ?thesis using assms len by (simp add: run_ok_def sys_ok_def)
qed

lemma live_cores: "same_cores st st' \<Longrightarrow> live tcp st \<Longrightarrow> live tcp st'"
  using same_cores_D(2) [of st st' tcp] by (auto simp: live_def same_cores_def)

lemma live_pid2tcb: "tab_ok (tcbtab st) n \<Longrightarrow> pid2tcb pid st = Some tcp \<Longrightarrow> live tcp st"
  by (simp add: pid2tcb_iff live_def)

text \<open>Changes that neither the table nor the log see.\<close>

lemma run_ok_globals:
  assumes "run_ok te st" "tcbtab st' = tcbtab st" "nprocs st' = nprocs st" "out st' = out st"
    "printing_tcp st' = printing_tcp st" "\<And>i. current_tcp st' = Some i \<Longrightarrow> i < length (tcbtab st)"
  shows "run_ok te st'"
proof -
  have at: "tcb_at st' = tcb_at st" using assms(2) by (simp add: tcb_at_def fun_eq_iff)
  have ok: "tab_ok (tcbtab st) (nprocs st)" "ptr_ok st" "log_ok st" using assms(1) by (simp_all add: run_ok_def tcb_ok_def)
  have "ptr_ok st'" using ok(2) assms(6) unfolding ptr_ok_def at assms(2,5) by blast
  moreover have "log_ok st'" using ok(3) unfolding log_ok_def at assms(2,4,5) .
  ultimately show ?thesis using assms(1) ok(1) unfolding run_ok_def tcb_ok_def at assms(2,3) by blast
qed

lemma run_ok_cur: "run_ok te st \<Longrightarrow> current_tcp st = Some i \<Longrightarrow> i < length (tcbtab st)"
  by (simp add: run_ok_def tcb_ok_def ptr_ok_def)

lemma run_ok_misc:
  assumes "run_ok te st"
  shows "run_ok te (complain m st)" "run_ok te (request q st)" "run_ok te (clear_regs st)" "run_ok te (get_regs a st)"
    "run_ok te (st\<lparr>exit_code := c\<rparr>)" "run_ok te (st\<lparr>popen_pid := p\<rparr>)" "run_ok te (st\<lparr>skip_one_b_execve := b\<rparr>)"
    "live tcp st \<Longrightarrow> run_ok te (st\<lparr>current_tcp := Some tcp\<rparr>)"
  using run_ok_cur [OF assms]
  by (auto intro!: run_ok_globals [OF assms]
      simp: complain_def request_def clear_regs_def get_regs_def get_regs_old_def live_def Let_def split: sum.splits)

lemma run_ok_silent:
  assumes "run_ok te st" "silent tcp st st'"
  shows "run_ok te st'"
proof -
  have sc: "same_cores st st'" and ptr: "printing_tcp st' = printing_tcp st" "current_tcp st' = current_tcp st"
    using assms(2) by (simp_all add: writes_def)
  have len: "length (tcbtab st') = length (tcbtab st)" using sc by (simp add: same_cores_def)
  have "ptr_ok st'" using assms(1) same_cores_D(2) [OF sc] len ptr by (auto simp: run_ok_def tcb_ok_def ptr_ok_def)
  moreover have "tab_ok (tcbtab st') (nprocs st')" using same_cores_tab_ok [OF sc] assms(1) by (simp add: run_ok_def tcb_ok_def)
  moreover have "log_ok st'" using silent_log_ok [OF assms(2)] assms(1) by (simp add: run_ok_def)
  moreover have "\<forall>i < length (tcbtab st'). inuse (tcb_at st' i) \<longrightarrow> t_outf (tcb_at st' i) = Some SharedLog"
    using assms(1) same_cores_D [OF sc] len by (simp add: run_ok_def)
  ultimately show ?thesis using assms(1) by (simp add: run_ok_def tcb_ok_def)
qed

lemma run_ok_flags:
  "run_ok te st \<Longrightarrow> live tcp st \<Longrightarrow> f AND TCB_INUSE = 0 \<Longrightarrow> run_ok te (upd_tcb tcp (set_flags f) st)"
  "run_ok te st \<Longrightarrow> live tcp st \<Longrightarrow> f AND TCB_INUSE = 0 \<Longrightarrow> run_ok te (upd_tcb tcp (clear_flags f) st)"
  using silent_flags [of tcp st f] run_ok_silent by (auto simp: live_def)

lemma live_flags: "live tcp st \<Longrightarrow> f AND TCB_INUSE = 0 \<Longrightarrow> live tcp (upd_tcb tcp (clear_flags f) st)"
  using silent_flags(2) [of tcp st f] live_cores by (auto simp: live_def writes_def)

subsection \<open>Lines, deaths, restarts\<close>

lemma print_line_ok:
  assumes "run_ok te st" "live tcp st" "current_tcp st = Some tcp"
  shows "run_ok te (print_line te r tcp s st) \<and> same_cores st (print_line te r tcp s st)
    \<and> current_tcp (print_line te r tcp s st) = Some tcp"
proof -
  let ?m = "leader_time (e_stop r)" and ?cfg = "cfg_of te"
  have ok: "sys_ok (sys te) tcp st" using assms by (rule run_ok_sys)
  let ?st1 = "printleader ?cfg ?m tcp st" and ?u = "s @ [CHR 0x0A]"
  have l1: "in_line tcp ?st1" "same_cores st ?st1" using leader_in_line [OF ok] by simp_all
  have w: "writes tcp ?u ?st1 (tprintf ?cfg ?u ?st1)"
    using l1(1) assms(1) by (intro writes_tprints) (simp_all add: run_ok_def in_line_def)
  have l2: "in_line tcp (tprintf ?cfg ?u ?st1)" using l1(1) w by (rule in_line_writes)
  have sc2: "same_cores st (tprintf ?cfg ?u ?st1)" using l1(2) w same_cores_trans by (auto simp: writes_def)
  have bol: "at_bol (out (tprintf ?cfg ?u ?st1) SharedLog)" using w by (simp add: writes_def at_bol_def)
  have "sys_ok (sys te) tcp (print_line te r tcp s st) \<and> same_cores st (print_line te r tcp s st)"
    unfolding print_line_def by (rule sys_ok_ended [OF ok l2 sc2 bol])
  then show ?thesis using sys_ok_run [OF assms(1)] by (auto simp: sys_ok_def ready_def)
qed

lemma run_ok_droptcb:
  assumes "run_ok te st" "live tcp st"
  shows "run_ok te (droptcb (cfg_of te) tcp st)"
proof -
  have tab: "tab_ok (tcbtab st) (nprocs st)" using assms(1) by (simp add: run_ok_def tcb_ok_def)
  have l: "tcp < length (tcbtab st)" "inuse (tcb_at st tcp)" using assms(2) by (simp_all add: live_def)
  then have pid: "pid2tcb (t_pid (tcb_at st tcp)) st = Some tcp" by (simp add: pid2tcb_iff [OF tab])
  have nz: "t_pid (tcb_at st tcp) \<noteq> 0" using l tab_ok_pid [OF tab] by (simp add: tcb_at_def)
  have "tcb_ok (droptcb (cfg_of te) tcp st)" using droptcb_ok(1) [OF _ pid] assms(1) by (simp add: run_ok_def)
  moreover have "log_ok (droptcb (cfg_of te) tcp st)" using log_ok_droptcb [OF _ _ nz l(1)] assms(1) by (simp add: run_ok_def)
  moreover have "tcb_at (droptcb (cfg_of te) tcp st) j = (if j = tcp then tcb_zero else tcb_at st j)" for j
    using l by (simp add: tcb_at_def droptcb_fields [OF nz])
  moreover have "length (tcbtab (droptcb (cfg_of te) tcp st)) = length (tcbtab st)" by (simp add: droptcb_fields [OF nz])
  ultimately show ?thesis using assms(1) by (simp add: run_ok_def)
qed

text \<open>The processes, the pointer to the current one and the invariant are kept.\<close>

definition kept :: "tenv \<Rightarrow> strace \<Rightarrow> strace \<Rightarrow> bool" where
  "kept te st st' \<longleftrightarrow> run_ok te st' \<and> same_cores st st' \<and> current_tcp st' = current_tcp st"

lemma kept_trans: "kept te st st' \<Longrightarrow> kept te st' st'' \<Longrightarrow> kept te st st''"
  unfolding kept_def by (auto intro: same_cores_trans)

lemma kept_run_ok: "kept te st st' \<Longrightarrow> run_ok te st'" and kept_live: "kept te st st' \<Longrightarrow> live tcp st \<Longrightarrow> live tcp st'"
  unfolding kept_def by (blast, blast intro: live_cores)

lemma kept_same:
  assumes "run_ok te st" "tcbtab st' = tcbtab st" "nprocs st' = nprocs st" "out st' = out st"
    "printing_tcp st' = printing_tcp st" "current_tcp st' = current_tcp st"
  shows "kept te st st'"
proof -
  have "run_ok te st'" using run_ok_globals [OF assms(1-5)] run_ok_cur [OF assms(1)] assms(6) by simp
  moreover have "same_cores st st'" using assms(2,3) by (simp add: same_cores_def tcb_at_def)
  ultimately show ?thesis using assms(6) by (simp add: kept_def)
qed

lemma kept_misc:
  assumes "run_ok te st"
  shows "kept te st st" "kept te st (complain m st)" "kept te st (request q st)" "kept te st (clear_regs st)" "kept te st (get_regs a st)"
    "kept te st (st\<lparr>exit_code := c\<rparr>)" "kept te st (st\<lparr>popen_pid := p\<rparr>)" "kept te st (st\<lparr>skip_one_b_execve := b\<rparr>)"
  by (rule kept_same [OF assms];
      simp add: complain_def request_def clear_regs_def get_regs_def get_regs_old_def Let_def split: sum.split)+

lemma kept_silent: "run_ok te st \<Longrightarrow> silent tcp st st' \<Longrightarrow> kept te st st'"
  using run_ok_silent [of te st tcp st'] by (simp add: kept_def writes_def)

lemma kept_flags:
  assumes "run_ok te st" "tcp < length (tcbtab st)" "f AND TCB_INUSE = 0"
  shows "kept te st (upd_tcb tcp (set_flags f) st)" "kept te st (upd_tcb tcp (clear_flags f) st)"
  using silent_flags [of tcp st f] assms kept_silent by auto

lemma kept_line: "run_ok te st \<Longrightarrow> live tcp st \<Longrightarrow> current_tcp st = Some tcp \<Longrightarrow> kept te st (print_line te r tcp s st)"
  using print_line_ok [of te st tcp r s] by (simp add: kept_def)

text \<open>A failed restart ends the line of the current process, if it has one.\<close>

lemma kept_end_line:
  assumes ok: "run_ok te st" and c: "current_tcp st = Some c" "t_curcol (tcb_at st c) \<noteq> 0"
  shows "kept te st (line_ended (tprintf (cfg_of te) (s @ [CHR 0x0A]) st))"
proof -
  let ?st1 = "tprintf (cfg_of te) (s @ [CHR 0x0A]) st"
  have l: "log_ok st" "ptr_ok st" using ok by (simp_all add: run_ok_def tcb_ok_def)
  have cl: "c < length (tcbtab st)" using ok c(1) by (rule run_ok_cur)
  then have p: "printing_tcp st = Some c" "t_outf (tcb_at st c) = Some SharedLog" using l(1) c(2) unfolding log_ok_def by blast+
  have live: "live c st" using l(2) p(1) by (simp add: ptr_ok_def live_def)
  have rdy: "ready c st" using c(1) cl p(2) by (simp add: ready_def)
  have w: "writes c (s @ [CHR 0x0A]) st ?st1" using ok rdy by (intro writes_tprints) (simp_all add: run_ok_def)
  have i: "in_line c ?st1" using log_ok_in_line [OF l(1) rdy p(1)] w by (rule in_line_writes)
  have bol: "at_bol (out ?st1 SharedLog)" using w by (simp add: writes_def at_bol_def)
  have sc: "same_cores st ?st1" using w by (simp add: writes_def)
  have "sys_ok (sys te) c (line_ended ?st1) \<and> same_cores st (line_ended ?st1)"
    by (rule sys_ok_ended [OF run_ok_sys [OF ok live c(1)] i sc bol])
  then show ?thesis using sys_ok_run [OF ok] c(1) by (auto simp: kept_def sys_ok_def ready_def)
qed

lemma kept_restart:
  assumes "run_ok te st"
  shows "kept te st (snd (ptrace_restart te err op tcp sig st))"
proof (cases err)
  case None
  then show ?thesis using kept_misc(3) [OF assms] by (simp add: ptrace_restart_def Let_def)
next
  case (Some e)
  let ?st1 = "request (Restart op (t_pid (tcb_at st tcp)) sig) st"
  define msg where "msg = '' <ptrace('' @ op_name op @ ''):'' @ strerror (sys te) (errno_num e) @ ''>''"
  define st2 where "st2 = (case current_tcp ?st1 of
       Some c \<Rightarrow> if t_curcol (tcb_at ?st1 c) \<noteq> 0 then line_ended (tprintf (cfg_of te) (msg @ [CHR 0x0A]) ?st1) else ?st1
     | None \<Rightarrow> ?st1)"
  have k1: "kept te st ?st1" by (rule kept_misc(3) [OF assms])
  have ok1: "run_ok te ?st1" using k1 by (rule kept_run_ok)
  have "kept te ?st1 st2"
    using kept_end_line [OF ok1] kept_misc(1) [OF ok1] unfolding st2_def by (auto split: option.split)
  then have k2: "kept te st st2" by (rule kept_trans [OF k1])
  have "kept te st2 (complain m st2)" for m using k2 kept_run_ok kept_misc(2) by blast
  then have "kept te st (complain m st2)" for m using k2 kept_trans by blast
  moreover have "\<exists>m. snd (ptrace_restart te err op tcp sig st) \<in> {st2, complain m st2}"
    by (cases "current_tcp ?st1") (auto simp: ptrace_restart_def Let_def Some st2_def msg_def)
  ultimately show ?thesis using k2 by auto
qed

subsection \<open>Detaching\<close>

lemma kept_detach_loop:
  "run_ok te st \<Longrightarrow> detach_loop te tcp ws err st = Some (err', st') \<Longrightarrow> kept te st st'"
proof (induction te tcp ws err st rule: detach_loop.induct)
  case (1 te tcp err st)
  then show ?case by simp
next
  case (2 te tcp w ws err st)
  show ?case
  proof (cases "wait_chain w")
    case (Inl msg)
    then show ?thesis using 2(2,3) kept_misc(1,2) [OF 2(2)] by (auto split: if_splits)
  next
    case (Inr status)
    let ?r = "ptrace_restart te (w_restart w) PTRACE_CONT tcp
                   (if wstopsig status = syscall_trap_sig te then 0 else int (wstopsig status)) st"
    have k: "kept te st (snd ?r)" by (rule kept_restart [OF 2(2)])
    consider "\<not> wifstopped status" | "wifstopped status" "wstopsig status = SIGSTOP" | "wifstopped status" "wstopsig status \<noteq> SIGSTOP"
      by blast
    then show ?thesis
    proof cases
      case 1
      then show ?thesis using 2(3) Inr kept_misc(1) [OF 2(2)] by simp
    next
      case 2
      then show ?thesis using \<open>detach_loop te tcp (w # ws) err st = _\<close> Inr kept_restart [OF \<open>run_ok te st\<close>] by auto
    next
      case 3
      show ?thesis
      proof (cases "fst ?r < 0")
        case True
        then show ?thesis using 2(3) Inr 3 k by (cases ?r) auto
      next
        case False
        have "detach_loop te tcp ws (fst ?r) (snd ?r) = Some (err', st')" using 2(3) Inr 3 False by (cases ?r) auto
        then have "kept te (snd ?r) st'" using 2(1) [OF Inr _ _ prod.collapse] 3 False kept_run_ok [OF k] by simp
        then show ?thesis by (rule kept_trans [OF k])
      qed
    qed
  qed
qed

lemma kept_detach_request: "run_ok te st \<Longrightarrow> kept te st (snd (snd (detach_request d tcp st)))"
  by (rule kept_same) (simp_all add: detach_request_def request_def complain_def Let_def split: option.split)

lemma detach_cases:
  assumes ok: "run_ok te st" and d: "detach te d tcp st = Some (err, st')"
  obtains st1 where "kept te st st1" "st' = droptcb (cfg_of te) tcp st1"
proof -
  let ?a = "has_flag (tcb_at st tcp) TCB_ATTACHED"
  obtain err0 w st0 where r: "(if ?a then detach_request d tcp st else (0, False, st)) = (err0, w, st0)" by (cases "if ?a then detach_request d tcp st else (0, False, st)")
  have k0: "kept te st st0"
    using kept_detach_request [OF ok, of d tcp] kept_misc(1) [OF ok] r by (cases ?a) auto
  obtain err1 st1 where l: "(if w then detach_loop te tcp (d_waits d) err0 st0 else Some (err0, st0)) = Some (err1, st1)"
    using d r by (auto simp: detach_def Let_def split: option.splits)
  have ok0: "run_ok te st0" using k0 by (rule kept_run_ok)
  have k1: "kept te st0 st1" using l kept_detach_loop [OF ok0, of tcp "d_waits d" err0 err1 st1] kept_misc(1) [OF ok0] by (cases w) auto
  then have k: "kept te st st1" by (rule kept_trans [OF k0])
  let ?m = "''Process '' @ fmt_u (nat (t_pid (tcb_at st tcp))) @ '' detached''"
  have "kept te st1 (complain ?m st1)" using k kept_run_ok kept_misc(2) by blast
  then have k2: "kept te st (complain ?m st1)" by (rule kept_trans [OF k])
  have "st' = droptcb (cfg_of te) tcp (if qflag (sys te) = 0 \<and> ?a then complain ?m st1 else st1)"
    using d r l by (simp add: detach_def Let_def)
  then show ?thesis using k k2 by (intro that [of "if qflag (sys te) = 0 \<and> ?a then complain ?m st1 else st1"]) auto
qed

lemma kept_core:
  assumes "kept te st st'" "j < length (tcbtab st)"
  shows "length (tcbtab st') = length (tcbtab st)" "core (tcb_at st' j) = core (tcb_at st j)"
  using assms by (simp_all add: kept_def same_cores_def)

lemma core_inuse: "core t = core t' \<Longrightarrow> inuse t = inuse t'"
  by (simp add: core_def)

lemma run_ok_tab: "run_ok te st \<Longrightarrow> tab_ok (tcbtab st) (nprocs st)"
  by (simp add: run_ok_def tcb_ok_def)

lemma live_pid: "run_ok te st \<Longrightarrow> live tcp st \<Longrightarrow> t_pid (tcb_at st tcp) \<noteq> 0"
  using tab_ok_pid [OF run_ok_tab, of te st tcp] by (simp add: live_def tcb_at_def)

lemma live_iff: "run_ok te st \<Longrightarrow> pid2tcb pid st = Some tcp \<longleftrightarrow> live tcp st \<and> t_pid (tcb_at st tcp) = pid"
  using pid2tcb_iff [OF run_ok_tab] by (simp add: live_def)

lemma tcb_at_droptcb:
  assumes "run_ok te st" "live tcp st"
  shows "tcb_at (droptcb cfg tcp st) j = (if j = tcp then tcb_zero else tcb_at st j)"
    "length (tcbtab (droptcb cfg tcp st)) = length (tcbtab st)"
  using droptcb_fields(1) [OF live_pid [OF assms]] assms(2) by (simp_all add: tcb_at_def live_def)

lemma detach_ok:
  assumes ok: "run_ok te st" and l: "live tcp st" and d: "detach te d tcp st = Some (err, st')"
  shows "run_ok te st'" "length (tcbtab st') = length (tcbtab st)" "tcb_at st' tcp = tcb_zero"
    "j < length (tcbtab st) \<Longrightarrow> j \<noteq> tcp \<Longrightarrow> core (tcb_at st' j) = core (tcb_at st j)"
proof -
  obtain st1 where k: "kept te st st1" and st': "st' = droptcb (cfg_of te) tcp st1" using detach_cases [OF ok d] .
  have ok1: "run_ok te st1" and l1: "live tcp st1" using k l kept_run_ok kept_live by blast+
  show "run_ok te st'" unfolding st' using ok1 l1 by (rule run_ok_droptcb)
  show "length (tcbtab st') = length (tcbtab st)" "tcb_at st' tcp = tcb_zero"
    "j < length (tcbtab st) \<Longrightarrow> j \<noteq> tcp \<Longrightarrow> core (tcb_at st' j) = core (tcb_at st j)"
    using kept_core(1) [OF k, of tcp] kept_core(2) [OF k, of j] l by (simp_all add: st' tcb_at_droptcb [OF ok1 l1] live_def)
qed

text \<open>\<open>cleanup\<close> leaves nothing behind.\<close>

lemma cleanup_from_ok:
  "run_ok te st \<Longrightarrow> \<forall>i \<in> set is. i < length (tcbtab st) \<Longrightarrow> cleanup_from te ds sig is st = Some st' \<Longrightarrow>
   run_ok te st' \<and> length (tcbtab st') = length (tcbtab st)
   \<and> (\<forall>j < length (tcbtab st). inuse (tcb_at st' j) \<longrightarrow> inuse (tcb_at st j) \<and> j \<notin> set is)"
proof (induction te ds sig "is" st rule: cleanup_from.induct)
  case (1 te ds sig st)
  then show ?case by simp
next
  case (2 te ds sig i "is" st)
  show ?case
  proof (cases "inuse (tcb_at st i)")
    case False
    then show ?thesis using 2(1) [OF refl] 2(3-5) by auto
  next
    case True
    let ?t = "tcb_at st i"
    define st1 where "st1 = (if has_flag ?t TCB_STRACE_CHILD
       then request (Kill (t_pid ?t) sig) (request (Kill (t_pid ?t) 18) st) else st)"
    have k1: "kept te st st1"
      unfolding st1_def using kept_misc(3) kept_misc(1) [OF 2(3)] kept_trans kept_run_ok 2(3) by (metis (full_types))
    have ok1: "run_ok te st1" using k1 by (rule kept_run_ok)
    have il: "i < length (tcbtab st)" using 2(4) by simp
    then have l1: "live i st1" using kept_live [OF k1] True by (simp add: live_def)
    obtain err st2 where d: "detach te (ds i) i st1 = Some (err, st2)"
      and rest: "cleanup_from te ds sig is st2 = Some st'"
      using 2(5) True by (auto simp: Let_def st1_def split: option.splits)
    note ok2 = detach_ok [OF ok1 l1 d]
    have len: "length (tcbtab st1) = length (tcbtab st)" using kept_core(1) [OF k1 il] .
    have IH: "run_ok te st' \<and> length (tcbtab st') = length (tcbtab st2)
       \<and> (\<forall>j < length (tcbtab st2). inuse (tcb_at st' j) \<longrightarrow> inuse (tcb_at st2 j) \<and> j \<notin> set is)"
      using True ok2(1,2) len 2(4) by (intro 2(2) [OF refl _ st1_def [unfolded st1_def] d [unfolded st1_def] refl _ _ rest]) (auto simp: st1_def)
    have "inuse (tcb_at st j) \<and> j \<noteq> i" if "j < length (tcbtab st)" "inuse (tcb_at st2 j)" for j
    proof -
      have "j \<noteq> i" using that ok2(3) by auto
      moreover then have "core (tcb_at st2 j) = core (tcb_at st j)" using ok2(4) [of j] kept_core(2) [OF k1] that len by simp
      ultimately show ?thesis using that core_inuse by blast
    qed
    then show ?thesis using IH ok2(2) len by auto
  qed
qed

lemma cleanup_ok:
  assumes "run_ok te st" "cleanup te ds i st = Some st'"
  shows "run_ok te st' \<and> nprocs st' = 0"
proof -
  have c: "run_ok te st' \<and> length (tcbtab st') = length (tcbtab st)
   \<and> (\<forall>j < length (tcbtab st). inuse (tcb_at st' j) \<longrightarrow> inuse (tcb_at st j) \<and> j \<notin> set [0..<length (tcbtab st)])"
    using assms unfolding cleanup_def by (intro cleanup_from_ok) auto
  have "\<not> inuse t" if t: "t \<in> set (tcbtab st')" for t
  proof -
    obtain j where "j < length (tcbtab st')" "t = tcb_at st' j" using t by (auto simp: in_set_conv_nth tcb_at_def)
    then show ?thesis using c by auto
  qed
  then have "filter inuse (tcbtab st') = []" by (simp add: filter_empty_conv)
  then show ?thesis using c run_ok_tab [of te st'] by (simp add: tab_ok_def)
qed

lemma restart_or_die_ok:
  assumes "run_ok te st" "restart_or_die te r op tcp sig st = Inr (nx, st')"
  shows "run_ok te st'"
proof -
  let ?p = "ptrace_restart te (e_restart r) op tcp sig st"
  have ok: "run_ok te (snd ?p)" using kept_restart [OF assms(1)] by (rule kept_run_ok)
  show ?thesis using assms(2) ok cleanup_ok [OF ok] by (auto simp: restart_or_die_def split: prod.splits if_splits option.splits)
qed

lemma show_stopsig_ok:
  assumes "run_ok te st" "live tcp st" "current_tcp st = Some tcp" "show_stopsig te r stopped sig tcp st = Inr (nx, st')"
  shows "run_ok te st'"
proof -
  have l: "run_ok te (print_line te r tcp s st)" for s using print_line_ok [OF assms(1-3)] by simp
  define st1 where "st1 = (if cflag (sys te) \<noteq> CFLAG_ONLY_STATS \<and> \<not> hide_log_until_execve st
                  \<and> qual_flags (sys te) st sig AND QUAL_SIGNAL \<noteq> 0 then
                 print_line te r tcp
                   (if stopped then ''--- stopped by '' @ sig_text (tabs (sys te)) (int sig) @ '' ---''
                    else ''--- '' @ sig_text (tabs (sys te)) (int sig) @ '' ''
                      @ (case e_siginfo r of Some s \<Rightarrow> s | None \<Rightarrow> []) @ '' ---'') st
               else st)"
  have ok1: "run_ok te st1" unfolding st1_def using l assms(1) by simp
  have "(if stopped \<and> use_seize te then restart_or_die te r PTRACE_LISTEN tcp 0 st1
        else restart_or_die te r PTRACE_SYSCALL tcp (int sig) st1) = Inr (nx, st')"
    using assms(4) unfolding show_stopsig_def Let_def st1_def .
  then show ?thesis using restart_or_die_ok [OF ok1] by (auto split: if_splits)
qed

lemma trace_syscall_ok:
  assumes "run_ok te st" "live tcp st" "current_tcp st = Some tcp" "trace_syscall (sys te) s tcp st = Inr (res, st')"
  shows "kept te st st'"
proof -
  have ok: "sys_ok (sys te) tcp st" using assms(1-3) by (rule run_ok_sys)
  have "sys_ok (sys te) tcp st' \<and> same_cores st st'"
  proof (cases "exiting (tcb_at st tcp)")
    case True
    then show ?thesis using exiting_ok [OF ok] assms(4) by (simp add: trace_syscall_def)
  next
    case False
    then have "trace_syscall_entering (sys te) s tcp st = Inr (res, st')"
      using assms(4) by (auto simp: trace_syscall_def fails_def split: sum.splits)
    from entering_ok [OF ok this] show ?thesis by simp
  qed
  then show ?thesis using sys_ok_run [OF assms(1)] assms(3) by (auto simp: kept_def sys_ok_def ready_def)
qed

lemma stop_action_ok:
  assumes ok: "run_ok te st" "live tcp st" "current_tcp st = Some tcp" and a: "stop_action te r status tcp st = Inr (nx, st')"
  shows "run_ok te st'"
proof -
  have "run_ok te (upd_tcb tcp (clear_flags TCB_IGNORE_ONE_SIGSTOP) st)" using ok(1,2) by (intro run_ok_flags) simp_all
  then have ign: "restart_or_die te r PTRACE_SYSCALL tcp 0 (upd_tcb tcp (clear_flags TCB_IGNORE_ONE_SIGSTOP) st) = Inr (nx, st') \<Longrightarrow> run_ok te st'"
    by (rule restart_or_die_ok)
  have sys: "run_ok te st'"
    if b: "sbind (ends (trace_syscall (sys te) (e_stop r) tcp st)) (\<lambda>(res, st).
            if res < 0 then Inr (Continue, st) else restart_or_die te r PTRACE_SYSCALL tcp 0 st) = Inr (nx, st')"
  proof -
    obtain res st1 where t: "trace_syscall (sys te) (e_stop r) tcp st = Inr (res, st1)"
      and c: "(if res < 0 then Inr (Continue, st1) else restart_or_die te r PTRACE_SYSCALL tcp 0 st1) = Inr (nx, st')"
      using b by (auto simp: sbind_eq_Inr ends_def split: sum.splits)
    have "run_ok te st1" using trace_syscall_ok [OF ok t] by (rule kept_run_ok)
    then show ?thesis using c restart_or_die_ok [of te st1 r PTRACE_SYSCALL tcp 0 nx st'] by (auto split: if_splits)
  qed
  show ?thesis
    using a ok(1) restart_or_die_ok [OF ok(1)] show_stopsig_ok [OF ok] ign sys
    unfolding stop_action_def Let_def by (auto split: if_splits)
qed

subsection \<open>New processes and superseded ones\<close>

text \<open>A block for a process that has none: allocated, marked and given the log.\<close>

lemma new_process_ok:
  assumes ok: "run_ok te st" and pid: "0 < pid" "pid2tcb pid st = None" and a: "alloctcb (cfg_of te) pid st = Inr (tcp, st1)"
    and fl: "fl AND TCB_INUSE = 0" and n: "newoutf (cfg_of te) tcp (upd_tcb tcp (set_flags fl) st1) = Inr st2"
  shows "run_ok te st2" "live tcp st2" "t_pid (tcb_at st2 tcp) = pid" "t_curcol (tcb_at st2 tcp) = 0"
    "t_flags (tcb_at st2 tcp) = TCB_INUSE OR fl" "\<And>q. pid2tcb q st2 = (if q = pid then Some tcp else pid2tcb q st)"
proof -
  let ?f = "set_flags fl"
  have tcb: "tcb_ok st" "log_ok st" "shared_cfg (cfg_of te)" "post_attach_sigstop te AND TCB_INUSE = 0"
    and outf: "\<And>i. i < length (tcbtab st) \<Longrightarrow> inuse (tcb_at st i) \<Longrightarrow> t_outf (tcb_at st i) = Some SharedLog"
    using ok by (simp_all add: run_ok_def)
  have i: "tcp < length (tcbtab st1)" "tcb_ok st1" "tcb_at st1 tcp = new_tcb (current_personality st) pid"
    and old: "\<And>j. j < length (tcbtab st) \<Longrightarrow> j \<noteq> tcp \<Longrightarrow> tcb_at st1 j = tcb_at st j"
    and look: "\<And>q. pid2tcb q st1 = (if q = pid then Some tcp else pid2tcb q st)"
    using a by (cases rule: alloctcb_cases [OF tcb(1) pid, of "cfg_of te", case_names oom fresh]; simp)+
  have lok: "log_ok (upd_tcb tcp ?f st1)"
    using silent_log_ok [OF silent_flags(1) [OF i(1) fl]] log_ok_alloctcb [OF tcb(2,1) a] by simp
  have "tcp < length (tcbtab (upd_tcb tcp ?f st1))" using i(1) by simp
  from log_ok_newoutf [OF tcb(3) lok this n]
  have st2: "log_ok st2" "st2 = upd_tcb tcp (\<lambda>t. t\<lparr>t_outf := Some SharedLog\<rparr>) (upd_tcb tcp ?f st1)" by blast+
  have c: "core (?f (tcb_at st1 tcp)) = core (tcb_at st1 tcp)" using core_flags(1) [OF fl] by (simp add: set_flags_def)
  have "tcb_ok (upd_tcb tcp ?f st1)" using i(1,2) c by (intro tcb_ok_upd) (simp_all add: core_def)
  then have ok2: "tcb_ok st2" unfolding st2(2) by (rule tcb_ok_upd) (simp_all add: has_flag_def i(1))
  have at: "core (tcb_at st2 j) = (if j = tcp then (pid, True, Some SharedLog) else core (tcb_at st1 j))" for j
    using i c unfolding st2(2) by (simp add: tcb_simps core_def has_flag_def new_tcb_def)
  have sh: "t_outf (tcb_at st1 j) = Some SharedLog" if j: "j < length (tcbtab st1)" "inuse (tcb_at st1 j)" "j \<noteq> tcp" for j
  proof -
    have tab: "tab_ok (tcbtab st1) (nprocs st1)" using i(2) by (simp add: tcb_ok_def)
    have "pid2tcb (t_pid (tcb_at st1 j)) st1 = Some j" using j by (simp add: pid2tcb_iff [OF tab])
    then have "pid2tcb (t_pid (tcb_at st1 j)) st = Some j" using look j(3) by (simp split: if_splits)
    then show ?thesis using old [of j] outf [of j] j(3) live_iff [OF ok] by (simp add: live_def)
  qed
  have "\<forall>j < length (tcbtab st2). inuse (tcb_at st2 j) \<longrightarrow> t_outf (tcb_at st2 j) = Some SharedLog"
  proof (intro allI impI)
    fix j assume "j < length (tcbtab st2)" "inuse (tcb_at st2 j)"
    then show "t_outf (tcb_at st2 j) = Some SharedLog" using at [of j] sh [of j] by (cases "j = tcp") (simp_all add: core_def st2(2))
  qed
  then show "run_ok te st2" using tcb ok2 st2(1) by (simp add: run_ok_def)
  show "live tcp st2" "t_pid (tcb_at st2 tcp) = pid" using at [of tcp] i(1) by (simp_all add: live_def core_def st2(2))
  show "t_curcol (tcb_at st2 tcp) = 0" "t_flags (tcb_at st2 tcp) = TCB_INUSE OR fl"
    using i unfolding st2(2) by (simp_all add: tcb_simps new_tcb_def tcb_zero_def set_flags_def)
  have tabs: "tab_ok (tcbtab st2) (nprocs st2)" "tab_ok (tcbtab st1) (nprocs st1)" using ok2 i(2) by (simp_all add: tcb_ok_def)
  have len: "length (tcbtab st2) = length (tcbtab st1)" by (simp add: st2(2))
  have same: "inuse (tcb_at st2 j) = inuse (tcb_at st1 j)" "t_pid (tcb_at st2 j) = t_pid (tcb_at st1 j)" for j
    using at [of j] i(3) by (auto simp: core_def split: if_splits)
  have "pid2tcb q st2 = Some j \<longleftrightarrow> pid2tcb q st1 = Some j" for q j
    unfolding pid2tcb_iff [OF tabs(1)] pid2tcb_iff [OF tabs(2)] len same ..
  then have "pid2tcb q st2 = pid2tcb q st1" for q by (rule option_eqI)
  then show "pid2tcb q st2 = (if q = pid then Some tcp else pid2tcb q st)" for q using look by simp
qed

lemma find_tcb_ok:
  assumes ok: "run_ok te st" and pid: "0 < pid" and f: "find_tcb te status pid st = Inr (tcp, st')"
  shows "run_ok te st' \<and> live tcp st' \<and> t_pid (tcb_at st' tcp) = pid
    \<and> (case pid2tcb pid st of Some i \<Rightarrow> tcp = i \<and> st' = st | None \<Rightarrow> t_curcol (tcb_at st' tcp) = 0)"
proof (cases "pid2tcb pid st")
  case (Some i)
  then have "tcp = i" "st' = st" using f by (simp_all add: find_tcb_def)
  then show ?thesis using ok Some live_iff [OF ok, of pid i] by simp
next
  case None
  let ?fl = "TCB_ATTACHED OR TCB_STARTUP OR post_attach_sigstop te"
  obtain st1 st2 where a: "alloctcb (cfg_of te) pid st = Inr (tcp, st1)"
    and n: "newoutf (cfg_of te) tcp (upd_tcb tcp (set_flags ?fl) st1) = Inr st2"
    and st': "st' = st2 \<or> st' = complain (''Process '' @ fmt_d pid @ '' attached'') st2"
    using f None by (auto simp: find_tcb_def sbind_eq_Inr fails_def Let_def split: if_splits sum.splits)
  have "?fl AND TCB_INUSE = 0" using ok by (simp add: run_ok_def bit.conj_disj_distrib2)
  note new = new_process_ok(1-4) [OF ok pid None a this n]
  show ?thesis
    using st' new run_ok_misc(1) [OF new(1)] None by (auto simp: live_def complain_def tcb_at_def)
qed

lemma printleader_current: "printleader cfg m tcp (st\<lparr>current_tcp := c\<rparr>) = printleader cfg m tcp st"
proof -
  have at: "tcb_at (s\<lparr>current_tcp := x\<rparr>) i = tcb_at s i" for s x i by (simp add: tcb_at_def)
  show ?thesis
  proof (cases "followfork cfg \<ge> 2")
    case True
    then show ?thesis by (simp add: printleader_def finish_line_def Let_def)
  next
    case False
    then show ?thesis by (cases "printing_tcp st") (simp_all add: printleader_def finish_line_def Let_def)
  qed
qed

lemma run_ok_line:
  assumes "run_ok te st" "live tcp st"
  shows "run_ok te (print_line te r tcp s st) \<and> same_cores st (print_line te r tcp s st)"
proof -
  let ?st = "st\<lparr>current_tcp := Some tcp\<rparr>"
  have "run_ok te ?st" using run_ok_misc(8) [OF assms(1,2)] .
  moreover have "live tcp ?st" using assms(2) by (simp add: live_def tcb_at_def)
  ultimately have "run_ok te (print_line te r tcp s ?st)" "same_cores ?st (print_line te r tcp s ?st)"
    using print_line_ok [of te ?st tcp r s] by simp_all
  moreover have "print_line te r tcp s ?st = print_line te r tcp s st" by (simp add: print_line_def printleader_current)
  moreover have "same_cores st ?st" by (simp add: same_cores_def tcb_at_def)
  ultimately show ?thesis using same_cores_trans by metis
qed

text \<open>A process takes over the pid of one that is gone.\<close>

lemma run_ok_pid:
  assumes ok: "run_ok te st" and l: "live ex st" and pid: "0 < pid" "pid2tcb pid st = None"
  shows "run_ok te (upd_tcb ex (\<lambda>t. t\<lparr>t_pid := pid\<rparr>) st)" (is "run_ok te ?st")
proof -
  have el: "ex < length (tcbtab st)" "inuse (tcb_at st ex)" using l by (simp_all add: live_def)
  have tab: "tab_ok (tcbtab st) (nprocs st)" using ok by (rule run_ok_tab)
  have at: "tcb_at ?st j = (if j = ex then (tcb_at st ex)\<lparr>t_pid := pid\<rparr> else tcb_at st j)" for j using el by (simp add: tcb_simps)
  have iu: "inuse (tcb_at ?st j) = inuse (tcb_at st j)" "t_outf (tcb_at ?st j) = t_outf (tcb_at st j)" "t_curcol (tcb_at ?st j) = t_curcol (tcb_at st j)" for j
    by (simp_all add: at has_flag_def)
  have p: "t_pid (tcb_at ?st j) = (if j = ex then pid else t_pid (tcb_at st j))" for j by (simp add: at)
  have fresh: "j < length (tcbtab st) \<Longrightarrow> t_pid (tcb_at st j) \<noteq> pid" for j
    using pid [unfolded pid2tcb_None_iff [OF tab]] tab_ok_pid [OF tab, of j] pid(1) by (auto simp: tcb_at_def)
  have n: "length (filter inuse (tcbtab ?st)) = length (filter inuse (tcbtab st))"
    by (rule filter_length_cong) (simp_all only: iu [unfolded tcb_at_def] upd_tcb_fields)
  have pos: "\<forall>t \<in> set (tcbtab ?st). 0 \<le> t_pid t \<and> (inuse t \<longleftrightarrow> t_pid t \<noteq> 0)"
  proof
    fix t assume "t \<in> set (tcbtab ?st)"
    then obtain j where j: "j < length (tcbtab st)" "t = tcb_at ?st j" by (auto simp: in_set_conv_nth tcb_at_def)
    have "0 \<le> t_pid (tcb_at st j)" "inuse (tcb_at st j) \<longleftrightarrow> t_pid (tcb_at st j) \<noteq> 0"
      using tab j(1) by (simp_all add: tab_ok_def tcb_at_def)
    then show "0 \<le> t_pid t \<and> (inuse t \<longleftrightarrow> t_pid t \<noteq> 0)" unfolding j(2) iu p using el pid(1) by auto
  qed
  have uniq: "\<forall>i j. i < length (tcbtab st) \<longrightarrow> j < length (tcbtab st) \<longrightarrow> inuse (tcb_at ?st i) \<longrightarrow> t_pid (tcb_at ?st i) = t_pid (tcb_at ?st j) \<longrightarrow> i = j"
    using fresh tab_ok_uniq [OF tab, folded tcb_at_def] unfolding iu p by (auto split: if_splits)
  have "tab_ok (tcbtab ?st) (nprocs ?st)"
    using n pos uniq tab unfolding tab_ok_def tcb_at_def by (simp add: upd_tcb_def)
  moreover have "ptr_ok ?st" using ok unfolding run_ok_def tcb_ok_def ptr_ok_def iu by simp
  moreover have "log_ok ?st" using ok unfolding run_ok_def log_ok_def iu by simp
  ultimately show ?thesis using ok unfolding run_ok_def tcb_ok_def iu by simp
qed

text \<open>The line of a process is closed without \<open>line_ended\<close>.\<close>

lemma run_ok_close:
  fixes s :: string
  assumes ok: "run_ok te st" and l: "live ex st"
  defines "st1 \<equiv> (if t_curcol (tcb_at st ex) \<noteq> 0 then emit_out (cfg_of te) (Some SharedLog) (s @ [CHR 0x0A]) st else st)"
  shows "run_ok te (upd_tcb ex (\<lambda>t. t\<lparr>t_curcol := 0\<rparr>) st1)" (is "run_ok te ?st")
proof -
  have el: "ex < length (tcbtab st)" using l by (simp add: live_def)
  have cfg: "shared_cfg (cfg_of te)" and lok: "log_ok st" using ok by (simp_all add: run_ok_def)
  have s1: "tcbtab st1 = tcbtab st" "nprocs st1 = nprocs st" "printing_tcp st1 = printing_tcp st" "current_tcp st1 = current_tcp st"
    by (simp_all add: st1_def)
  have at: "tcb_at ?st j = (if j = ex then (tcb_at st ex)\<lparr>t_curcol := 0\<rparr> else tcb_at st j)" for j
    using el by (simp add: upd_tcb_def tcb_at_def s1)
  have f: "inuse (tcb_at ?st j) = inuse (tcb_at st j)" "t_outf (tcb_at ?st j) = t_outf (tcb_at st j)"
    "t_pid (tcb_at ?st j) = t_pid (tcb_at st j)" "t_curcol (tcb_at ?st j) = (if j = ex then 0 else t_curcol (tcb_at st j))" for j
    by (simp_all add: at has_flag_def)
  have len: "length (tcbtab ?st) = length (tcbtab st)" by (simp add: s1)
  have tab: "tab_ok (tcbtab ?st) (nprocs st)"
    by (rule tab_ok_cong [OF len _ _ run_ok_tab [OF ok]]) (simp_all only: f [unfolded tcb_at_def])
  have bol: "t_curcol (tcb_at st ex) \<noteq> 0 \<Longrightarrow> at_bol (out ?st SharedLog)"
    using cfg by (simp add: st1_def emit_out_def shared_cfg_def at_bol_def)
  have o: "t_curcol (tcb_at st ex) = 0 \<Longrightarrow> out ?st = out st" by (simp add: st1_def)
  have "log_ok ?st"
  proof (cases "t_curcol (tcb_at st ex) = 0")
    case True
    then have "t_curcol (tcb_at ?st j) = t_curcol (tcb_at st j)" for j by (simp add: f)
    then show ?thesis using lok o [OF True] unfolding log_ok_def f(2) len by (simp add: s1)
  next
    case False
    then show ?thesis using lok bol [OF False] unfolding log_ok_def f len by (simp add: s1)
  qed
  moreover have "ptr_ok ?st" using ok unfolding run_ok_def tcb_ok_def ptr_ok_def f len by (simp add: s1)
  ultimately show ?thesis using ok tab unfolding run_ok_def tcb_ok_def f len by (simp add: s1)
qed

lemma swap_tcbs_ok:
  assumes ok: "run_ok te st" and l: "live tcp st" "live ex st" "tcp \<noteq> ex" and pid: "t_pid (tcb_at st tcp) = pid"
    and col: "t_curcol (tcb_at st tcp) = 0"
  shows "run_ok te (swap_tcbs te pid tcp ex st) \<and> live ex (swap_tcbs te pid tcp ex st)
    \<and> t_pid (tcb_at (swap_tcbs te pid tcp ex st) ex) = pid"
proof -
  define msg where "msg = '' <pid changed to '' @ fmt_d pid @ '' ...>''"
  define st1 where "st1 = (if t_curcol (tcb_at st ex) \<noteq> 0 then emit_out (cfg_of te) (Some SharedLog) (msg @ [CHR 0x0A]) st else st)"
  define st2 where "st2 = upd_tcb ex (\<lambda>t. t\<lparr>t_curcol := 0\<rparr>) st1"
  have sh: "t_outf (tcb_at st tcp) = Some SharedLog" "t_outf (tcb_at st ex) = Some SharedLog"
    using ok l by (simp_all add: run_ok_def live_def)
  have at1: "tcb_at st1 j = tcb_at st j" "length (tcbtab st1) = length (tcbtab st)" for j by (simp_all add: st1_def tcb_at_def)
  have el: "ex < length (tcbtab st)" "tcp < length (tcbtab st)" using l by (simp_all add: live_def)
  have ok2: "run_ok te st2" unfolding st2_def st1_def by (rule run_ok_close [OF ok l(2)])
  have at2: "tcb_at st2 j = (if j = ex then (tcb_at st ex)\<lparr>t_curcol := 0\<rparr> else tcb_at st j)" for j
    unfolding st2_def using el at1 by (simp add: tcb_simps)
  have l2: "live tcp st2" "live ex st2" using l at2 by (simp_all add: live_def st2_def at1 has_flag_def)
  let ?a = "upd_tcb ex (\<lambda>t. t\<lparr>t_outf := t_outf (tcb_at st1 tcp), t_curcol := t_curcol (tcb_at st1 tcp)\<rparr>) st1"
  have "?a = st2"
    unfolding st2_def upd_tcb_def at1 col sh(1) using sh(2) by (cases "tcb_at st ex") simp
  moreover have "upd_tcb tcp (\<lambda>t. t\<lparr>t_outf := t_outf (tcb_at st1 ex), t_curcol := 0\<rparr>) st2 = st2"
  proof -
    have "(tcb_at st2 tcp)\<lparr>t_outf := Some SharedLog, t_curcol := 0\<rparr> = tcb_at st2 tcp"
      using at2 [of tcp] l(3) sh(1) col by (cases "tcb_at st tcp") simp
    then have "(tcbtab st2)[tcp := (tcb_at st2 tcp)\<lparr>t_outf := Some SharedLog, t_curcol := 0\<rparr>] = tcbtab st2"
      using list_update_id [of "tcbtab st2" tcp] by (simp add: tcb_at_def)
    then show ?thesis unfolding upd_tcb_def at1 sh by simp
  qed
  moreover have msg: "msg @ [CHR 0x0A] = '' <pid changed to '' @ fmt_d pid @ '' ...>'' @ [CHR 0x0A]" by (simp add: msg_def)
  ultimately have sw: "swap_tcbs te pid tcp ex st = upd_tcb ex (\<lambda>t. t\<lparr>t_pid := pid\<rparr>) (droptcb (cfg_of te) tcp st2)"
    unfolding swap_tcbs_def Let_def sh(2) msg [symmetric] st1_def [symmetric] by simp
  let ?st3 = "droptcb (cfg_of te) tcp st2"
  have ok3: "run_ok te ?st3" using ok2 l2(1) by (rule run_ok_droptcb)
  have at3: "tcb_at ?st3 j = (if j = tcp then tcb_zero else tcb_at st2 j)" "length (tcbtab ?st3) = length (tcbtab st2)" for j
    using tcb_at_droptcb [OF ok2 l2(1)] by blast+
  have l3: "live ex ?st3" using l2(2) l(3) at3 by (simp add: live_def)
  have p2: "pid2tcb pid st2 = Some tcp" using live_iff [OF ok2] l2(1) at2 [of tcp] l(3) pid by simp
  have "pid2tcb pid ?st3 = None" using droptcb_ok(3) [OF _ p2, of pid "cfg_of te"] ok2 by (simp add: run_ok_def)
  moreover have "0 < pid" using p2 by (auto simp: pid2tcb_def split: if_splits)
  ultimately have "run_ok te (swap_tcbs te pid tcp ex st)" unfolding sw by (intro run_ok_pid [OF ok3 l3])
  moreover have "live ex (swap_tcbs te pid tcp ex st)" "t_pid (tcb_at (swap_tcbs te pid tcp ex st) ex) = pid"
    unfolding sw using l3 by (simp_all add: live_def tcb_simps has_flag_def)
  ultimately show ?thesis by blast
qed

text \<open>The thread that called \<open>execve\<close>, if it is not the leader.\<close>

definition exec_thread :: "tenv \<Rightarrow> round \<Rightarrow> int \<Rightarrow> strace \<Rightarrow> nat option" where
  "exec_thread te r pid st = (case e_eventmsg r of None \<Rightarrow> None | Some old_pid \<Rightarrow> if old_pid = pid then None else pid2tcb old_pid st)"

lemma supersede_ok:
  assumes ok: "run_ok te st" and l: "live tcp st" and pid: "t_pid (tcb_at st tcp) = pid"
    and col: "exec_thread te r pid st \<noteq> None \<Longrightarrow> t_curcol (tcb_at st tcp) = 0"
    and s: "supersede te r pid tcp st = (tcp', st')"
  shows "run_ok te st' \<and> live tcp' st' \<and> t_pid (tcb_at st' tcp') = pid"
proof (cases "exec_thread te r pid st")
  case None
  then have "tcp' = tcp \<and> st' = st"
    using s by (auto simp: supersede_def exec_thread_def split: option.splits if_splits)
  then show ?thesis using ok l pid by simp
next
  case (Some ex)
  then obtain old where old: "e_eventmsg r = Some old" "old \<noteq> pid" "pid2tcb old st = Some ex"
    by (auto simp: exec_thread_def split: option.splits if_splits)
  have ex: "live ex st" "t_pid (tcb_at st ex) = old" using old(3) live_iff [OF ok] by simp_all
  then have ne: "tcp \<noteq> ex" using old(2) pid by auto
  have pos: "\<not> old \<le> 0" using old(3) by (auto simp: pid2tcb_def)
  let ?st1 = "swap_tcbs te pid tcp ex st"
  let ?st2 = "print_line te r ex (''+++ superseded by execve in pid '' @ fmt_d old @ '' +++'') ?st1"
  note ok1 = swap_tcbs_ok [OF ok l ex(1) ne pid col]
  have ok1: "run_ok te ?st1" "live ex ?st1" "t_pid (tcb_at ?st1 ex) = pid" using ok1 Some by simp_all
  have ok2: "run_ok te ?st2" "same_cores ?st1 ?st2" using run_ok_line [OF ok1(1,2)] by blast+
  have l2: "live ex ?st2" using live_cores [OF ok2(2) ok1(2)] .
  have p2: "t_pid (tcb_at ?st2 ex) = pid" using same_cores_D(1) [OF ok2(2)] ok1(2,3) by (simp add: live_def)
  have ok3: "run_ok te (upd_tcb ex (set_flags TCB_REPRINT) ?st2)" using ok2(1) l2 by (rule run_ok_flags) simp
  have el: "ex < length (tcbtab ?st2)" using l2 by (simp add: live_def)
  have "core (set_flags TCB_REPRINT t) = core t" for t by (rule core_flags) simp
  then have l3: "live ex (upd_tcb ex (set_flags TCB_REPRINT) ?st2)" "t_pid (tcb_at (upd_tcb ex (set_flags TCB_REPRINT) ?st2) ex) = pid"
    using l2 p2 el by (simp_all add: live_def core_def tcb_simps)
  have "tcp' = ex \<and> st' = (if cflag (sys te) \<noteq> CFLAG_ONLY_STATS then upd_tcb ex (set_flags TCB_REPRINT) ?st2 else ?st1)"
    using s old pos by (auto simp: supersede_def Let_def print_line_def)
  then show ?thesis using ok1 ok3 l3 by simp
qed

subsection \<open>A round\<close>

text \<open>
  What the kernel promises about a round: \<open>wait4\<close> reports a positive pid, and a ptrace event is a stop. The
  last condition excludes the one case in which the discipline of the log is broken, a leader that is
  superseded in the middle of its line.
\<close>

definition round_ok :: "tenv \<Rightarrow> round \<Rightarrow> strace \<Rightarrow> bool" where
  "round_ok te r st =
    (case e_wait r of
       Inl _ \<Rightarrow> True
     | Inr (pid, status, _) \<Rightarrow> 0 < pid \<and> (ptrace_event status \<noteq> 0 \<longrightarrow> wifstopped status)
         \<and> (ptrace_event status = PTRACE_EVENT_EXEC \<longrightarrow> (case pid2tcb pid st of
               Some tcp \<Rightarrow> exec_thread te r pid st \<noteq> None \<longrightarrow> t_curcol (tcb_at st tcp) = 0 | None \<Rightarrow> True)))"

lemma wait_exclusive:
  "wifstopped status \<Longrightarrow> \<not> wifsignaled status \<and> \<not> wifexited status"
proof -
  assume s: "wifstopped status"
  have "status AND 0x7f = (status AND 0xff) AND 0x7f" by (simp add: and.assoc)
  also have "\<dots> = 0x7f" using s by (simp add: wifstopped_def)
  finally show ?thesis by (simp add: wifsignaled_def wifexited_def wtermsig_def)
qed

lemma kept_startup:
  assumes "run_ok te st" "tcp < length (tcbtab st)" "startup_stop te r tcp st = Inr st'"
  shows "kept te st st'"
proof -
  let ?st1 = "upd_tcb tcp (clear_flags TCB_STARTUP) st"
  have k: "kept te st ?st1" using assms(1,2) by (rule kept_flags) simp
  then have "kept te ?st1 (request q ?st1)" for q using kept_run_ok kept_misc(3) by blast
  then have "kept te st (request q ?st1)" for q using k kept_trans by blast
  then show ?thesis using assms(3) k kept_misc(1) [OF assms(1)]
    by (auto simp: startup_stop_def Let_def split: if_splits option.splits)
qed

lemma report_ok:
  assumes "run_ok te st" "live tcp st"
  shows "run_ok te (report_signaled te r pid status tcp st) \<and> live tcp (report_signaled te r pid status tcp st)"
    "run_ok te (report_exited te r pid status tcp st) \<and> live tcp (report_exited te r pid status tcp st)"
proof -
  have e: "run_ok te (st\<lparr>exit_code := c\<rparr>)" "live tcp (st\<lparr>exit_code := c\<rparr>)" for c
    using run_ok_misc(5) [OF assms(1)] assms(2) by (simp_all add: live_def tcb_at_def)
  have p: "run_ok te (print_line te r tcp s st1) \<and> live tcp (print_line te r tcp s st1)" if "run_ok te st1" "live tcp st1" for s st1
    using run_ok_line [OF that] live_cores that(2) by blast
  show "run_ok te (report_signaled te r pid status tcp st) \<and> live tcp (report_signaled te r pid status tcp st)"
    using assms e p unfolding report_signaled_def Let_def by (cases "pid = strace_child te") simp_all
  show "run_ok te (report_exited te r pid status tcp st) \<and> live tcp (report_exited te r pid status tcp st)"
    using assms e p unfolding report_exited_def Let_def by (cases "pid = strace_child te") simp_all
qed

lemma handle_status_ok:
  assumes ok: "run_ok te st" "live tcp st" "current_tcp st = Some tcp" and h: "handle_status te r pid status tcp st = Inr (nx, st')"
  shows "run_ok te st'"
proof -
  have c: "run_ok te (complain m st) \<and> live tcp (complain m st)" for m
    using run_ok_misc(1) [OF ok(1)] ok(2) by (simp add: live_def complain_def tcb_at_def)
  consider "wifsignaled status" | "\<not> wifsignaled status" "wifexited status" | "\<not> wifsignaled status" "\<not> wifexited status" "\<not> wifstopped status"
    | "\<not> wifsignaled status" "\<not> wifexited status" "wifstopped status" by blast
  then show ?thesis
  proof cases
    case 4
    then obtain st1 where s: "startup_stop te r tcp st = Inr st1" and a: "stop_action te r status tcp st1 = Inr (nx, st')"
      using h by (auto simp: handle_status_def sbind_eq_Inr)
    have k: "kept te st st1" using ok(1,2) s by (intro kept_startup) (simp_all add: live_def)
    then show ?thesis using stop_action_ok [OF kept_run_ok [OF k] kept_live [OF k ok(2)] _ a] ok(3) by (simp add: kept_def)
  qed (use h report_ok [OF ok(1,2)] c run_ok_droptcb in \<open>auto simp: handle_status_def\<close>)
qed

lemma kept_times:
  assumes "run_ok te st" "tcp < length (tcbtab st)"
  shows "kept te st (note_times te stime tcp st)"
proof -
  have "silent tcp st (upd_tcb tcp (\<lambda>t. t\<lparr>t_dtime := tv_sub stime (t_stime t), t_stime := stime\<rparr>) st)"
    using assms(2) by (rule writes_upd) (simp_all add: core_def has_flag_def)
  then show ?thesis using kept_silent [OF assms(1)] kept_misc(1) [OF assms(1)] by (simp add: note_times_def)
qed

text \<open>With \<^verbatim>\<open>-b execve\<close> the round ends with a restart of a block that is free already.\<close>

lemma handle_dropped_ok:
  assumes ok: "run_ok te st" "\<not> has_flag (tcb_at st tcp) TCB_STARTUP" and s: "wifstopped status" "ptrace_event status = PTRACE_EVENT_EXEC"
    and h: "handle_status te r pid status tcp st = Inr (nx, st')"
  shows "run_ok te st'"
proof -
  have "restart_or_die te r PTRACE_SYSCALL tcp 0 st = Inr (nx, st')"
    using h s wait_exclusive [OF s(1)] ok(2)
    by (simp add: handle_status_def startup_stop_def stop_action_def)
  then show ?thesis by (rule restart_or_die_ok [OF ok(1)])
qed

lemma round_tail_ok:
  assumes ok: "run_ok te st" "live tcp st" and s: "ptrace_event status \<noteq> 0 \<longrightarrow> wifstopped status"
    and d: "(if ptrace_event status = PTRACE_EVENT_EXEC then exec_detach te r tcp st else Some st) = Some st1"
    and h: "handle_status te r pid status tcp (note_times te stime tcp (st1\<lparr>current_tcp := Some tcp\<rparr>)) = Inr (nx, st')"
  shows "run_ok te st'"
proof -
  have tl: "tcp < length (tcbtab st)" using ok(2) by (simp add: live_def)
  have skip: "run_ok te (x\<lparr>skip_one_b_execve := False\<rparr>) \<and> tcbtab (x\<lparr>skip_one_b_execve := False\<rparr>) = tcbtab x" if "run_ok te x" for x
    using run_ok_misc(7) [OF that] by simp
  have "run_ok te st1 \<and> length (tcbtab st1) = length (tcbtab st)
     \<and> (live tcp st1 \<or> ptrace_event status = PTRACE_EVENT_EXEC \<and> tcb_at st1 tcp = tcb_zero)"
  proof (cases "ptrace_event status = PTRACE_EVENT_EXEC")
    case False
    then show ?thesis using d ok by simp
  next
    case ev: True
    show ?thesis
    proof (cases "detach_on_execve te \<and> \<not> skip_one_b_execve st")
      case True
      then obtain err st0 where d0: "detach te (e_detach r) tcp st = Some (err, st0)" and st1: "st1 = st0\<lparr>skip_one_b_execve := False\<rparr>"
        using d ev by (auto simp: exec_detach_def split: option.splits)
      note o = detach_ok [OF ok d0]
      show ?thesis using skip [OF o(1)] o(2,3) ev by (simp add: st1 tcb_at_def)
    next
      case False
      then have "st1 = st\<lparr>skip_one_b_execve := False\<rparr>" using d ev by (auto simp: exec_detach_def)
      then show ?thesis using skip [OF ok(1)] ok(2) by (simp add: live_def tcb_at_def)
    qed
  qed
  then have ok1: "run_ok te st1" and tl1: "tcp < length (tcbtab st1)"
    and alt: "live tcp st1 \<or> ptrace_event status = PTRACE_EVENT_EXEC \<and> tcb_at st1 tcp = tcb_zero" using tl by auto
  let ?st2 = "st1\<lparr>current_tcp := Some tcp\<rparr>" and ?st3 = "note_times te stime tcp (st1\<lparr>current_tcp := Some tcp\<rparr>)"
  have ok2: "run_ok te ?st2" using tl1 by (intro run_ok_globals [OF ok1]) simp_all
  have k: "kept te ?st2 ?st3" using ok2 tl1 by (intro kept_times) simp_all
  have ok3: "run_ok te ?st3" "current_tcp ?st3 = Some tcp" using k by (simp_all add: kept_def)
  from alt show ?thesis
  proof
    assume "live tcp st1"
    then have "live tcp ?st2" by (simp add: live_def tcb_at_def)
    then have "live tcp ?st3" by (rule kept_live [OF k])
    then show ?thesis using handle_status_ok [OF ok3(1) _ ok3(2) h] by blast
  next
    assume z: "ptrace_event status = PTRACE_EVENT_EXEC \<and> tcb_at st1 tcp = tcb_zero"
    have "t_flags (tcb_at ?st3 tcp) = t_flags (tcb_at ?st2 tcp)" using tl1 by (simp add: note_times_def tcb_simps)
    then have "\<not> has_flag (tcb_at ?st3 tcp) TCB_STARTUP" using z by (simp add: has_flag_def tcb_at_def tcb_zero_def)
    then show ?thesis using handle_dropped_ok [OF ok3(1) _ _ _ h] s z by simp
  qed
qed

lemma exec_thread_cong: "tcbtab st' = tcbtab st \<Longrightarrow> exec_thread te r pid st' = exec_thread te r pid st"
  by (simp add: exec_thread_def pid2tcb_def split: option.split)

lemma get_regs_tab: "tcbtab (get_regs a st) = tcbtab st" "tcbtab (clear_regs st) = tcbtab st"
  by (simp_all add: get_regs_def get_regs_old_def clear_regs_def Let_def split: sum.split)

lemma round_ok_D:
  assumes "round_ok te r st" "e_wait r = Inr (pid, status, stime)"
  shows "0 < pid" "ptrace_event status \<noteq> 0 \<longrightarrow> wifstopped status"
    "ptrace_event status = PTRACE_EVENT_EXEC \<Longrightarrow> pid2tcb pid st = Some tcp \<Longrightarrow> exec_thread te r pid st \<noteq> None \<Longrightarrow> t_curcol (tcb_at st tcp) = 0"
  using assms by (simp_all add: round_ok_def)

lemma trace_round_ok:
  assumes ok: "run_ok te st" and r: "round_ok te r st" and t: "trace_round te r st = Inr (nx, st')"
  shows "run_ok te st'"
proof (cases "e_interrupted r \<noteq> 0")
  case True
  then show ?thesis using t ok by (simp add: trace_round_def)
next
  case ni: False
  show ?thesis
  proof (cases "e_wait r")
    case (Inl e)
    then show ?thesis using t ok ni run_ok_misc(1) [OF ok] by (auto simp: trace_round_def split: if_splits)
  next
    case (Inr w)
    obtain pid status stime where w: "e_wait r = Inr (pid, status, stime)" using Inr by (cases w) auto
    note rd = round_ok_D [OF r w]
    show ?thesis
    proof (cases "pid = popen_pid st")
      case True
      then show ?thesis using t ok ni w run_ok_misc(6) [OF ok] by (auto simp: trace_round_def split: if_splits)
    next
      case False
      let ?x = "ptrace_event status = PTRACE_EVENT_EXEC"
      let ?regs = "\<lambda>st. if wifstopped status then get_regs (e_regs r) (clear_regs st) else clear_regs st"
      obtain tcp st1 where f: "find_tcb te status pid st = Inr (tcp, st1)"
        and rest: "(case (if ?x \<and> os_release_3 te then supersede te r pid tcp (?regs st1) else (tcp, ?regs st1)) of (tcp, st) \<Rightarrow>
            (case (if ?x then exec_detach te r tcp st else Some st) of
                  None \<Rightarrow> Inl EStuck
                | Some st \<Rightarrow> handle_status te r pid status tcp (note_times te stime tcp (st\<lparr>current_tcp := Some tcp\<rparr>)))) = Inr (nx, st')"
        using t ni w False by (auto simp: trace_round_def sbind_eq_Inr ends_def Let_def split: sum.splits)
      note f1 = find_tcb_ok [OF ok rd(1) f]
      have ok1: "run_ok te st1" "live tcp st1" "t_pid (tcb_at st1 tcp) = pid" using f1 by blast+
      let ?st2 = "?regs st1"
      have tb: "tcbtab ?st2 = tcbtab st1" by (simp add: get_regs_tab)
      then have at: "tcb_at ?st2 = tcb_at st1" by (simp add: tcb_at_def fun_eq_iff)
      have ok2: "run_ok te ?st2" using ok1(1) run_ok_misc(3,4) by simp
      have l2: "live tcp ?st2" "t_pid (tcb_at ?st2 tcp) = pid" using ok1(2,3) unfolding live_def at tb by blast+
      have col: "t_curcol (tcb_at ?st2 tcp) = 0" if x: ?x "exec_thread te r pid ?st2 \<noteq> None"
      proof (cases "pid2tcb pid st")
        case None
        then show ?thesis using f1 at by simp
      next
        case (Some i)
        then have i: "tcp = i" "st1 = st" using f1 by simp_all
        then have "exec_thread te r pid st \<noteq> None" using x(2) exec_thread_cong [OF tb] by simp
        then show ?thesis using rd(3) [OF x(1) Some] at i by simp
      qed
      obtain tcp3 st3 where s: "(if ?x \<and> os_release_3 te then supersede te r pid tcp ?st2 else (tcp, ?st2)) = (tcp3, st3)"
        by (cases "if ?x \<and> os_release_3 te then supersede te r pid tcp ?st2 else (tcp, ?st2)")
      have ok3: "run_ok te st3 \<and> live tcp3 st3"
        using s ok2 l2 supersede_ok [OF ok2 l2 _, of r tcp3 st3] col by (cases "?x \<and> os_release_3 te") auto
      obtain st4 where d: "(if ?x then exec_detach te r tcp3 st3 else Some st3) = Some st4"
        and h: "handle_status te r pid status tcp3 (note_times te stime tcp3 (st4\<lparr>current_tcp := Some tcp3\<rparr>)) = Inr (nx, st')"
        using rest unfolding s by (auto split: option.splits)
      show ?thesis using round_tail_ok [OF _ _ rd(2) d h] ok3 by blast
    qed
  qed
qed

end
