(* ===== verification/Trace_Correct.thy ===== *)
theory Trace_Correct
  imports Trace_Ok
begin

text \<open>
  What the main loop does: it answers every stop with one restart, it ends when all processes have
  died and then mimics the end of the process it started, and cleaning up lets go of every process.
\<close>

subsection \<open>Requests\<close>

text \<open>
  What the handlers of stops and all printing leave alone: the requests that were issued, the exit
  code, and the pid of the process that reads the log.
\<close>

definition side :: "strace \<Rightarrow> request list \<times> int \<times> int" where
  "side st = (reqs st, exit_code st, popen_pid st)"

lemma side_globals [simp]:
  "side (st\<lparr>current_tcp := a\<rparr>) = side st" "side (st\<lparr>printing_tcp := a\<rparr>) = side st" "side (st\<lparr>otv := b\<rparr>) = side st"
  "side (st\<lparr>errs := c\<rparr>) = side st" "side (st\<lparr>hide_log_until_execve := d\<rparr>) = side st" "side (st\<lparr>nprocs := n\<rparr>) = side st"
  "side (st\<lparr>current_personality := p\<rparr>) = side st" "side (st\<lparr>shortest := b\<rparr>) = side st" "side (st\<lparr>one_tick := b\<rparr>) = side st"
  "side (st\<lparr>countv := cv\<rparr>) = side st" "side (st\<lparr>get_regs_error := d\<rparr>) = side st" "side (st\<lparr>regs := rg\<rparr>) = side st"
  "side (st\<lparr>getregset_support := i\<rparr>) = side st" "side (st\<lparr>tcbtab := tab\<rparr>) = side st" "side (st\<lparr>skip_one_b_execve := d\<rparr>) = side st"
  "side (upd_tcb j f st) = side st" "side (emit_out cfg fl u st) = side st" "side (complain m st) = side st"
  by (simp_all add: side_def upd_tcb_def emit_out_def complain_def split: option.split)

lemma side_tprints [simp]: "side (tprints cfg u st) = side st"
  by (auto simp: tprints_def split: option.splits)

lemma side_line_ended [simp]: "side (line_ended st) = side st"
  by (auto simp: line_ended_def Let_def split: option.splits)

lemma side_finish_line [simp]: "side (finish_line cfg tcp st) = side st"
  by (auto simp: finish_line_def Let_def split: option.splits)

lemma side_leader [simp]: "side (printleader cfg m tcp st) = side st"
  by (simp add: printleader_def Let_def printcall_def print_time_def)

lemma side_tabto [simp]: "side (tabto cfg st) = side st"
  by (auto simp: tabto_def split: option.splits)

lemma side_droptcb [simp]: "side (droptcb cfg tcp st) = side st"
  by (simp add: droptcb_def Let_def)

lemma side_print_line [simp]: "side (print_line te r tcp s st) = side st"
  by (simp add: print_line_def)

lemma side_regs [simp]: "side (clear_regs st) = side st" "side (get_regs a st) = side st"
  by (simp_all add: clear_regs_def get_regs_def get_regs_old_def Let_def split: sum.split)

lemma side_personality [simp]: "side (update_personality env tcp p st) = side st"
  by (simp add: update_personality_def set_personality_def Let_def)

lemma side_times [simp]: "side (note_times te stime tcp st) = side st"
  by (simp add: note_times_def)

lemma side_entry_parts [simp]:
  "side (get_scno env tcp st) = side st" "side (get_syscall_args tcp st) = side st" "side (switch_scno env n tcp st) = side st"
  "side (entering_ret env s tcp st) = side st" "side (exiting_ret tcp st) = side st" "side (get_error env tcp st) = side st"
  "side (print_result env s tcp sys_res st) = side st"
  by (simp_all add: get_scno_def select_ent_def get_syscall_args_def switch_scno_def entering_ret_def exiting_ret_def get_error_def
      print_result_def Let_def case_prod_unfold)

lemma side_args: "args_with fmt env tcp st = Inr st' \<Longrightarrow> side st' = side st"
  by (auto simp: args_with_def sbind_eq_Inr Let_def split: if_splits)

lemma side_printargs:
  "printargs env tcp st = Inr st' \<Longrightarrow> side st' = side st" "printargs_lu env tcp st = Inr st' \<Longrightarrow> side st' = side st"
  "printargs_ld env tcp st = Inr st' \<Longrightarrow> side st' = side st"
  unfolding printargs_def printargs_lu_def printargs_ld_def by (rule side_args, assumption)+

lemma side_sys_func: "call_sys_func env s tcp st = Inr (x, st') \<Longrightarrow> side st' = side st"
  by (auto simp: call_sys_func_def sbind_eq_Inr Let_def dest: side_printargs split: option.splits if_splits prod.splits)

lemma side_subcall: "decode_subcall env s tcp st = Inr st' \<Longrightarrow> side st' = side st"
  by (auto simp: decode_subcall_def decode_socket_subcall_def decode_ipc_subcall_def sbind_eq_Inr Let_def split: if_splits)

lemma side_report_entry: "report_entry env s tcp st = Inr (x, st') \<Longrightarrow> side st' = side st"
  by (auto simp: report_entry_def sbind_eq_Inr Let_def dest!: side_printargs(1) side_sys_func split: if_splits)

lemma side_entering: "trace_syscall_entering env s tcp st = Inr (x, st') \<Longrightarrow> side st' = side st"
  by (auto simp: trace_syscall_entering_def sbind_eq_Inr Let_def dest!: side_subcall side_report_entry split: if_splits)

lemma side_count: "count_syscall tb t tcp tv st = Inr st' \<Longrightarrow> side st' = side st"
  by (auto simp: count_syscall_def sbind_eq_Inr Let_def split: if_splits option.splits)

lemma side_dumpio: "dumpio env s tcp st = Inr st' \<Longrightarrow> side st' = side st"
  by (auto simp: dumpio_def sbind_eq_Inr)

lemma side_resume [simp]: "side (resume_line env s tcp st) = side st"
  by (simp add: resume_line_def Let_def)

lemma side_finish_exit: "finish_exit env s tcp st = Inr (x, st') \<Longrightarrow> side st' = side st"
  by (auto simp: finish_exit_def sbind_eq_Inr Let_def dest!: side_sys_func side_dumpio split: if_splits)

lemma side_exiting: "trace_syscall_exiting env s tcp st = Inr (x, st') \<Longrightarrow> side st' = side st"
  by (auto simp: trace_syscall_exiting_def sbind_eq_Inr Let_def fails_def dest!: side_count side_finish_exit split: if_splits sum.splits)

lemma side_trace_syscall: "trace_syscall env s tcp st = Inr (x, st') \<Longrightarrow> side st' = side st"
  by (auto simp: trace_syscall_def fails_def dest!: side_entering side_exiting split: if_splits sum.splits)

lemma side_restart: "side (snd (ptrace_restart te err op tcp sig st)) = side (request (Restart op (t_pid (tcb_at st tcp)) sig) st)"
  by (auto simp: ptrace_restart_def Let_def split: option.split)

subsection \<open>Registers that could not be read\<close>

lemma regs_error_simps [simp]:
  "get_regs_error (emit_out cfg f u st) = get_regs_error st" "get_regs_error (request q st) = get_regs_error st"
  by (simp_all add: emit_out_def request_def split: option.split)

lemma regs_error_tprints [simp]: "get_regs_error (tprints cfg u st) = get_regs_error st"
  by (auto simp: tprints_def split: option.splits)

lemma regs_error_finish_line [simp]: "get_regs_error (finish_line cfg tcp st) = get_regs_error st"
  by (auto simp: finish_line_def Let_def split: option.splits)

lemma regs_error_leader [simp]: "get_regs_error (printleader cfg m tcp st) = get_regs_error st"
  by (simp add: printleader_def Let_def printcall_def print_time_def)

lemma regs_error_exit_parts [simp]:
  "get_regs_error (update_personality env tcp p st) = get_regs_error st" "get_regs_error (get_error env tcp st) = get_regs_error st"
  "get_regs_error (resume_line env s tcp st) = get_regs_error st" "get_regs_error (note_times te stime tcp st) = get_regs_error st"
  by (simp_all add: update_personality_def set_personality_def get_error_def resume_line_def note_times_def Let_def)

lemma regs_error_count: "count_syscall tb t tcp tv st = Inr st' \<Longrightarrow> get_regs_error st' = get_regs_error st"
  by (auto simp: count_syscall_def sbind_eq_Inr Let_def split: if_splits option.splits)

text \<open>A decoder returns flags, which are not negative.\<close>

definition decoders_ok :: "stop \<Rightarrow> bool" where
  "decoders_ok s \<longleftrightarrow> (\<forall>f t. 0 \<le> sint (snd (snd (decode s f t))))"

lemma decoders_okD: "decoders_ok s \<Longrightarrow> decode s f t = (u, a, x) \<Longrightarrow> 0 \<le> sint x"
  unfolding decoders_ok_def by (metis snd_conv)

lemma call_sys_func_nonneg: "decoders_ok s \<Longrightarrow> call_sys_func env s tcp st = Inr (x, st') \<Longrightarrow> 0 \<le> sint x"
  by (auto simp: call_sys_func_def sbind_eq_Inr Let_def dest: decoders_okD split: option.splits if_splits prod.splits)

lemma report_entry_nonneg: "decoders_ok s \<Longrightarrow> report_entry env s tcp st = Inr (x, st') \<Longrightarrow> 0 \<le> x"
  by (auto simp: report_entry_def sbind_eq_Inr Let_def dest: call_sys_func_nonneg split: if_splits)

lemma finish_exit_neg: "finish_exit env s tcp st = Inr (x, st') \<Longrightarrow> x < 0 \<Longrightarrow> get_regs_error st"
  by (auto simp: finish_exit_def sbind_eq_Inr Let_def split: if_splits)

lemma trace_syscall_neg:
  assumes "decoders_ok s" "trace_syscall env s tcp st = Inr (x, st')" "x < 0"
  shows "get_regs_error st"
proof (cases "exiting (tcb_at st tcp)")
  case True
  then have "trace_syscall_exiting env s tcp st = Inr (x, st')" using assms(2) by (simp add: trace_syscall_def)
  then show ?thesis using assms(3)
    by (auto simp: trace_syscall_exiting_def sbind_eq_Inr Let_def fails_def dest!: regs_error_count finish_exit_neg
        split: if_splits sum.splits)
next
  case False
  then have "trace_syscall_entering env s tcp st = Inr (x, st')"
    using assms(2) by (auto simp: trace_syscall_def fails_def split: sum.splits)
  then show ?thesis using assms(3) report_entry_nonneg [OF assms(1)]
    by (fastforce simp: trace_syscall_entering_def sbind_eq_Inr Let_def split: if_splits)
qed

subsection \<open>What a stop asks for\<close>

text \<open>The kinds of stops (\<^verbatim>\<open>ptrace\<close>(2)), read off the status, the siginfo and the flags of the block.\<close>

datatype stop_kind = Event_stop | Attach_stop | Group_stop nat | Signal_delivery_stop nat | Syscall_stop

definition stop_kind :: "tenv \<Rightarrow> round \<Rightarrow> c_int \<Rightarrow> tcb \<Rightarrow> stop_kind" where
  "stop_kind te r status t =
    (let sig = wstopsig status
     in if ptrace_event status = PTRACE_EVENT_STOP \<and> sig \<in> {SIGSTOP, SIGTSTP, SIGTTIN, SIGTTOU} then Group_stop sig
        else if ptrace_event status \<noteq> 0 then Event_stop
        else if sig = SIGSTOP \<and> has_flag t TCB_IGNORE_ONE_SIGSTOP then Attach_stop
        else if sig = syscall_trap_sig te then Syscall_stop
        else if e_siginfo r = None then Group_stop sig
        else Signal_delivery_stop sig)"

definition restart_for :: "tenv \<Rightarrow> int \<Rightarrow> stop_kind \<Rightarrow> request" where
  "restart_for te pid k =
    (case k of
       Signal_delivery_stop sig \<Rightarrow> Restart PTRACE_SYSCALL pid (int sig)
     | Group_stop sig \<Rightarrow> if use_seize te then Restart PTRACE_LISTEN pid 0 else Restart PTRACE_SYSCALL pid (int sig)
     | _ \<Rightarrow> Restart PTRACE_SYSCALL pid 0)"

lemma restart_continues:
  assumes "restart_or_die te r op tcp sig st = Inr (Continue, st')"
  shows "side st' = side (request (Restart op (t_pid (tcb_at st tcp)) sig) st)"
  using assms side_restart [of te "e_restart r" op tcp sig st]
  by (auto simp: restart_or_die_def split: prod.splits if_splits option.splits)

lemma side_request: "side st' = side st \<Longrightarrow> side (request q st') = side (request q st)"
  by (simp add: side_def request_def)

lemma show_stopsig_answers:
  assumes "run_ok te st" "live tcp st" "current_tcp st = Some tcp" "show_stopsig te r stopped sig tcp st = Inr (Continue, st')"
  shows "side st' = side (request (if stopped \<and> use_seize te then Restart PTRACE_LISTEN (t_pid (tcb_at st tcp)) 0
                           else Restart PTRACE_SYSCALL (t_pid (tcb_at st tcp)) (int sig)) st)"
proof -
  define st1 where "st1 = (if cflag (sys te) \<noteq> CFLAG_ONLY_STATS \<and> \<not> hide_log_until_execve st
                  \<and> qual_flags (sys te) st sig AND QUAL_SIGNAL \<noteq> 0 then
                 print_line te r tcp
                   (if stopped then ''--- stopped by '' @ sig_text (tabs (sys te)) (int sig) @ '' ---''
                    else ''--- '' @ sig_text (tabs (sys te)) (int sig) @ '' ''
                      @ (case e_siginfo r of Some s \<Rightarrow> s | None \<Rightarrow> []) @ '' ---'') st
               else st)"
  have s1: "side st1 = side st" by (simp add: st1_def)
  have "same_cores st (print_line te r tcp s st)" for s using print_line_ok [OF assms(1-3)] by blast
  then have "same_cores st st1" by (simp add: st1_def)
  then have p: "t_pid (tcb_at st1 tcp) = t_pid (tcb_at st tcp)" using assms(2) same_cores_D(1) [of st st1 tcp] by (simp add: live_def)
  have r: "(if stopped \<and> use_seize te then restart_or_die te r PTRACE_LISTEN tcp 0 st1
        else restart_or_die te r PTRACE_SYSCALL tcp (int sig) st1) = Inr (Continue, st')"
    using assms(4) unfolding show_stopsig_def Let_def st1_def .
  show ?thesis
  proof (cases "stopped \<and> use_seize te")
    case True
    then show ?thesis using restart_continues [of te r PTRACE_LISTEN tcp 0 st1 st'] r side_request [OF s1] by (simp add: p)
  next
    case False
    then have "restart_or_die te r PTRACE_SYSCALL tcp (int sig) st1 = Inr (Continue, st')" using r by (simp only: if_False)
    from restart_continues [OF this] show ?thesis using False side_request [OF s1] by (simp only: p if_False)
  qed
qed

lemma stop_action_answers:
  assumes ok: "run_ok te st" "live tcp st" "current_tcp st = Some tcp" and dec: "decoders_ok (e_stop r)"
    and a: "stop_action te r status tcp st = Inr (Continue, st')"
  defines "k \<equiv> stop_kind te r status (tcb_at st tcp)" and "pid \<equiv> t_pid (tcb_at st tcp)"
  shows "side st' = side (request (restart_for te pid k) st) \<or> k = Syscall_stop \<and> get_regs_error st \<and> side st' = side st"
proof -
  let ?sig = "wstopsig status" and ?ev = "ptrace_event status"
  consider (group) "?ev = PTRACE_EVENT_STOP \<and> ?sig \<in> {SIGSTOP, SIGTSTP, SIGTTIN, SIGTTOU}"
    | (event) "\<not> (?ev = PTRACE_EVENT_STOP \<and> ?sig \<in> {SIGSTOP, SIGTSTP, SIGTTIN, SIGTTOU})" "?ev \<noteq> 0"
    | (attach) "?ev = 0" "?sig = SIGSTOP \<and> has_flag (tcb_at st tcp) TCB_IGNORE_ONE_SIGSTOP"
    | (signal) "?ev = 0" "\<not> (?sig = SIGSTOP \<and> has_flag (tcb_at st tcp) TCB_IGNORE_ONE_SIGSTOP)" "?sig \<noteq> syscall_trap_sig te"
    | (sys) "?ev = 0" "\<not> (?sig = SIGSTOP \<and> has_flag (tcb_at st tcp) TCB_IGNORE_ONE_SIGSTOP)" "?sig = syscall_trap_sig te"
    by blast
  then show ?thesis
  proof cases
    case group
    then have "show_stopsig te r True ?sig tcp st = Inr (Continue, st')" using a by (simp add: stop_action_def Let_def)
    from show_stopsig_answers [OF ok this] show ?thesis using group by (simp add: k_def pid_def stop_kind_def restart_for_def)
  next
    case event
    then have "restart_or_die te r PTRACE_SYSCALL tcp 0 st = Inr (Continue, st')" using a by (auto simp: stop_action_def Let_def)
    from restart_continues [OF this] show ?thesis using event by (auto simp: k_def pid_def stop_kind_def restart_for_def)
  next
    case attach
    let ?st1 = "upd_tcb tcp (clear_flags TCB_IGNORE_ONE_SIGSTOP) st"
    have "restart_or_die te r PTRACE_SYSCALL tcp 0 ?st1 = Inr (Continue, st')" using a attach by (simp add: stop_action_def Let_def)
    from restart_continues [OF this]
    have "side st' = side (request (Restart PTRACE_SYSCALL (t_pid (tcb_at ?st1 tcp)) 0) st)"
      using side_request [of ?st1 st] by simp
    moreover have "t_pid (tcb_at ?st1 tcp) = pid" using ok(2) by (simp add: tcb_simps live_def clear_flags_def pid_def)
    ultimately show ?thesis using attach by (simp add: k_def stop_kind_def restart_for_def)
  next
    case signal
    then have "show_stopsig te r (e_siginfo r = None) ?sig tcp st = Inr (Continue, st')" using a by (auto simp: stop_action_def Let_def split: if_splits)
    note s = show_stopsig_answers [OF ok this]
    have "k = (if e_siginfo r = None then Group_stop ?sig else Signal_delivery_stop ?sig)"
      using signal by (auto simp: k_def stop_kind_def Let_def)
    then show ?thesis using s by (cases "e_siginfo r = None") (simp_all add: restart_for_def pid_def)
  next
    case sys
    then have k: "k = Syscall_stop" by (auto simp: k_def stop_kind_def)
    obtain res st1 where t: "trace_syscall (sys te) (e_stop r) tcp st = Inr (res, st1)"
      and c: "(if res < 0 then Inr (Continue, st1) else restart_or_die te r PTRACE_SYSCALL tcp 0 st1) = Inr (Continue, st')"
      using a sys by (auto simp: stop_action_def Let_def sbind_eq_Inr ends_def split: sum.splits if_splits)
    have s1: "side st1 = side st" using t by (rule side_trace_syscall)
    have "same_cores st st1" using trace_syscall_ok [OF ok t] by (simp add: kept_def)
    then have p: "t_pid (tcb_at st1 tcp) = pid" using ok(2) same_cores_D(1) [of st st1 tcp] by (simp add: live_def pid_def)
    show ?thesis
    proof (cases "res < 0")
      case True
      then show ?thesis using c s1 k trace_syscall_neg [OF dec t] by simp
    next
      case False
      then have "restart_or_die te r PTRACE_SYSCALL tcp 0 st1 = Inr (Continue, st')" using c by simp
      from restart_continues [OF this] show ?thesis using k p side_request [OF s1] by (simp add: restart_for_def)
    qed
  qed
qed

lemma supersede_none: "exec_thread te r pid st = None \<Longrightarrow> supersede te r pid tcp st = (tcp, st)"
  by (auto simp: supersede_def exec_thread_def split: option.splits if_splits)

lemma has_flag_clear_other:
  assumes "f AND g = 0"
  shows "has_flag (clear_flags f t) g = has_flag t g"
proof -
  have "\<not> (bit f n \<and> bit g n)" for n using arg_cong [OF assms, of "\<lambda>w. bit w n"] by (simp add: bit_and_iff)
  then have "(t_flags t AND NOT f) AND g = t_flags t AND g" by (intro bit_word_eqI) (auto simp: bit_simps)
  then show ?thesis by (simp add: has_flag_def clear_flags_def)
qed

lemma startup_side:
  assumes "startup_stop te r tcp st = Inr st'" "tcp < length (tcbtab st)"
  shows "side st' = side (if has_flag (tcb_at st tcp) TCB_STARTUP \<and> ptrace_setoptions te then request (SetOptions (t_pid (tcb_at st tcp))) st else st)
    \<and> get_regs_error st' = get_regs_error st
    \<and> has_flag (tcb_at st' tcp) TCB_IGNORE_ONE_SIGSTOP = has_flag (tcb_at st tcp) TCB_IGNORE_ONE_SIGSTOP"
proof -
  let ?st1 = "upd_tcb tcp (clear_flags TCB_STARTUP) st"
  have p: "t_pid (tcb_at ?st1 tcp) = t_pid (tcb_at st tcp)" using assms(2) by (simp add: tcb_simps clear_flags_def)
  have q: "tcb_at (request q x) i = tcb_at x i" for q x i by (simp add: request_def tcb_at_def)
  have f: "has_flag (tcb_at ?st1 tcp) TCB_IGNORE_ONE_SIGSTOP = has_flag (tcb_at st tcp) TCB_IGNORE_ONE_SIGSTOP"
    using assms(2) has_flag_clear_other [of TCB_STARTUP TCB_IGNORE_ONE_SIGSTOP "tcb_at st tcp"] by (simp add: tcb_simps)
  have s: "side (request q ?st1) = side (request q st)" for q by (rule side_request) simp
  show ?thesis
    using assms(1) unfolding startup_stop_def Let_def
    by (auto simp: s p q f split: if_splits option.splits)
qed

text \<open>A round about a stop of a known process that neither detaches nor supersedes it.\<close>

definition plain_stop :: "tenv \<Rightarrow> round \<Rightarrow> int \<Rightarrow> c_int \<Rightarrow> strace \<Rightarrow> bool" where
  "plain_stop te r pid status st \<longleftrightarrow> e_interrupted r = 0 \<and> (\<exists>stime. e_wait r = Inr (pid, status, stime)) \<and> pid \<noteq> popen_pid st
     \<and> wifstopped status
     \<and> (ptrace_event status = PTRACE_EVENT_EXEC \<longrightarrow> exec_thread te r pid st = None \<and> (detach_on_execve te \<longrightarrow> skip_one_b_execve st))"

lemma plain_stop_round:
  assumes ok: "run_ok te st" and p: "plain_stop te r pid status st" and tcp: "pid2tcb pid st = Some tcp"
    and t: "trace_round te r st = Inr (nx, st')"
  defines "st2 \<equiv> get_regs (e_regs r) (clear_regs st)"
  obtains st3 where "run_ok te st3" "live tcp st3" "current_tcp st3 = Some tcp" "side st3 = side st"
    "get_regs_error st3 = get_regs_error st2" "t_flags (tcb_at st3 tcp) = t_flags (tcb_at st tcp)" "t_pid (tcb_at st3 tcp) = pid"
    "sbind (startup_stop te r tcp st3) (stop_action te r status tcp) = Inr (nx, st')"
proof -
  obtain stime where w: "e_wait r = Inr (pid, status, stime)" and q: "e_interrupted r = 0" "pid \<noteq> popen_pid st" "wifstopped status"
    and x: "ptrace_event status = PTRACE_EVENT_EXEC \<Longrightarrow> exec_thread te r pid st = None \<and> (detach_on_execve te \<longrightarrow> skip_one_b_execve st)"
    using p by (auto simp: plain_stop_def)
  have tb: "tcbtab st2 = tcbtab st" by (simp add: st2_def get_regs_tab)
  have et: "exec_thread te r pid st2 = exec_thread te r pid st" using exec_thread_cong [OF tb] .
  have sk: "skip_one_b_execve st2 = skip_one_b_execve st"
    by (simp add: st2_def get_regs_def get_regs_old_def clear_regs_def Let_def split: sum.split)
  have ok2: "run_ok te st2" using run_ok_misc(3,4) ok by (simp add: st2_def)
  define st2' where "st2' = (if ptrace_event status = PTRACE_EVENT_EXEC then st2\<lparr>skip_one_b_execve := False\<rparr> else st2)"
  define st3 where "st3 = note_times te stime tcp (st2'\<lparr>current_tcp := Some tcp\<rparr>)"
  have tb': "tcbtab st2' = tcbtab st" "side st2' = side st" "get_regs_error st2' = get_regs_error st2"
    using tb by (simp_all add: st2'_def) (simp_all add: st2_def)
  have l: "live tcp st" "t_pid (tcb_at st tcp) = pid" using tcp live_iff [OF ok] by simp_all
  have ok2': "run_ok te st2'" using run_ok_misc(7) [OF ok2] ok2 by (simp add: st2'_def)
  have l2': "live tcp st2'" using l(1) tb' by (simp add: live_def tcb_at_def)
  have k3: "kept te (st2'\<lparr>current_tcp := Some tcp\<rparr>) st3"
    unfolding st3_def using run_ok_misc(8) [OF ok2' l2'] l2' by (intro kept_times) (simp_all add: live_def)
  have l3: "live tcp st3" using l2' by (intro kept_live [OF k3]) (simp add: live_def tcb_at_def)
  have f3: "t_flags (tcb_at st3 tcp) = t_flags (tcb_at st tcp)" "t_pid (tcb_at st3 tcp) = pid"
  proof -
    have "tcp < length (tcbtab (st2'\<lparr>current_tcp := Some tcp\<rparr>))" using l2' by (simp add: live_def)
    then have "t_flags (tcb_at st3 tcp) = t_flags (tcb_at (st2'\<lparr>current_tcp := Some tcp\<rparr>) tcp)"
      "t_pid (tcb_at st3 tcp) = t_pid (tcb_at (st2'\<lparr>current_tcp := Some tcp\<rparr>) tcp)"
      by (simp_all add: st3_def note_times_def tcb_simps)
    then show "t_flags (tcb_at st3 tcp) = t_flags (tcb_at st tcp)" "t_pid (tcb_at st3 tcp) = pid"
      using l(2) tb' by (simp_all add: tcb_at_def)
  qed
  have "trace_round te r st = handle_status te r pid status tcp st3"
  proof (cases "ptrace_event status = PTRACE_EVENT_EXEC")
    case True
    have "supersede te r pid tcp st2 = (tcp, st2)" using x [OF True] et by (intro supersede_none) simp
    moreover have "exec_detach te r tcp st2 = Some st2'" using x [OF True] sk True by (auto simp: exec_detach_def st2'_def)
    ultimately show ?thesis
      using w q tcp True by (simp add: trace_round_def find_tcb_def ends_def Let_def st2_def [symmetric] st3_def)
  next
    case False
    then show ?thesis
      using w q tcp by (simp add: trace_round_def find_tcb_def ends_def Let_def st2_def [symmetric] st3_def st2'_def)
  qed
  then have h: "handle_status te r pid status tcp st3 = Inr (nx, st')" using t by simp
  show ?thesis
  proof (rule that [of st3])
    show "run_ok te st3" "current_tcp st3 = Some tcp" using k3 by (simp_all add: kept_def)
    show "live tcp st3" "t_flags (tcb_at st3 tcp) = t_flags (tcb_at st tcp)" "t_pid (tcb_at st3 tcp) = pid" using l3 f3 by simp_all
    show "side st3 = side st" using tb' by (simp add: st3_def)
    show "get_regs_error st3 = get_regs_error st2" using tb' by (simp add: st3_def)
    show "sbind (startup_stop te r tcp st3) (stop_action te r status tcp) = Inr (nx, st')"
      using h q(3) wait_exclusive [OF q(3)] by (simp add: handle_status_def)
  qed
qed

lemma stop_answered:
  assumes ok: "run_ok te st" and p: "plain_stop te r pid status st" and tcp: "pid2tcb pid st = Some tcp"
    and dec: "decoders_ok (e_stop r)" and t: "trace_round te r st = Inr (Continue, st')"
  defines "k \<equiv> stop_kind te r status (tcb_at st tcp)"
    and "opt \<equiv> (if has_flag (tcb_at st tcp) TCB_STARTUP \<and> ptrace_setoptions te then [SetOptions pid] else [])"
  shows "reqs st' = reqs st @ opt @ [restart_for te pid k]
    \<or> k = Syscall_stop \<and> get_regs_error (get_regs (e_regs r) (clear_regs st)) \<and> reqs st' = reqs st @ opt"
proof -
  obtain st3 where ok3: "run_ok te st3" "live tcp st3" "current_tcp st3 = Some tcp" and s3: "side st3 = side st"
    and e3: "get_regs_error st3 = get_regs_error (get_regs (e_regs r) (clear_regs st))"
    and f3: "t_flags (tcb_at st3 tcp) = t_flags (tcb_at st tcp)" "t_pid (tcb_at st3 tcp) = pid"
    and a: "sbind (startup_stop te r tcp st3) (stop_action te r status tcp) = Inr (Continue, st')"
    using plain_stop_round [OF ok p tcp t] .
  obtain st4 where s: "startup_stop te r tcp st3 = Inr st4" and a4: "stop_action te r status tcp st4 = Inr (Continue, st')"
    using a by (auto simp: sbind_eq_Inr)
  have tl: "tcp < length (tcbtab st3)" using ok3(2) by (simp add: live_def)
  have k4: "kept te st3 st4" using kept_startup [OF ok3(1) tl s] .
  have p4: "t_pid (tcb_at st4 tcp) = pid" using same_cores_D(1) [of st3 st4 tcp] k4 tl f3 by (simp add: kept_def)
  note su = startup_side [OF s tl]
  have fl: "has_flag (tcb_at st3 tcp) f = has_flag (tcb_at st tcp) f" for f using f3 by (simp add: has_flag_def)
  have kind: "stop_kind te r status (tcb_at st4 tcp) = k" using su fl by (simp add: k_def stop_kind_def Let_def)
  have r4: "reqs st4 = reqs st @ opt"
    using su s3 fl f3 by (simp add: side_def request_def opt_def split: if_splits)
  have "side st' = side (request (restart_for te pid k) st4) \<or> k = Syscall_stop \<and> get_regs_error st4 \<and> side st' = side st4"
    using stop_action_answers [OF kept_run_ok [OF k4] kept_live [OF k4 ok3(2)] _ dec a4] k4 ok3(3) by (simp add: kept_def kind p4)
  then show ?thesis using r4 su e3 by (auto simp: side_def request_def)
qed

subsection \<open>Deaths\<close>

definition death_pid :: "round \<Rightarrow> int" where
  "death_pid r = (case e_wait r of Inr (pid, _, _) \<Rightarrow> pid | Inl _ \<Rightarrow> 0)"

definition death_status :: "round \<Rightarrow> c_int" where
  "death_status r = (case e_wait r of Inr (_, status, _) \<Rightarrow> status | Inl _ \<Rightarrow> 0)"

definition is_death :: "round \<Rightarrow> bool" where
  "is_death r \<longleftrightarrow> e_interrupted r = 0 \<and> (case e_wait r of Inl _ \<Rightarrow> False | Inr _ \<Rightarrow> True)
     \<and> (wifexited (death_status r) \<or> wifsignaled (death_status r)) \<and> ptrace_event (death_status r) = 0"

definition exit_of :: "c_int \<Rightarrow> int" where
  "exit_of status = (if wifsignaled status then 0x100 + int (wtermsig status) else int (wstopsig status))"

text \<open>How a process ends for its parent: the signal it dies of, and its status.\<close>

definition end_of :: "c_int \<Rightarrow> int option \<times> int" where
  "end_of status = (if wifsignaled status then (Some (int (wtermsig status)), int (wtermsig status) + 128) else (None, int (wstopsig status)))"

lemma wtermsig_bound: "wtermsig status < 128" and wstopsig_bound: "wstopsig status < 256"
proof -
  have "status AND 0x7f \<le> (0x7f :: c_int)" by (rule word_and_le1)
  then show "wtermsig status < 128" unfolding wtermsig_def word_le_nat_alt by simp
  have "drop_bit 8 status AND 0xff \<le> (0xff :: c_int)" by (rule word_and_le1)
  then show "wstopsig status < 256" unfolding wstopsig_def word_le_nat_alt by simp
qed

lemma final_exit_of: "final_exit (exit_of status) = end_of status"
  using wtermsig_bound [of status] wstopsig_bound [of status] by (simp add: final_exit_def exit_of_def end_of_def)

lemma side_report:
  assumes "wifexited status \<or> wifsignaled status"
  shows "side (if wifsignaled status then report_signaled te r pid status tcp st else report_exited te r pid status tcp st)
    = (reqs st, if pid = strace_child te then exit_of status else exit_code st, popen_pid st)"
  using assms by (auto simp: report_signaled_def report_exited_def exit_of_def Let_def) (simp_all add: side_def)

lemma report_cores:
  assumes "run_ok te st" "live tcp st"
  shows "same_cores st (report_signaled te r pid status tcp st)" "same_cores st (report_exited te r pid status tcp st)"
proof -
  have e: "run_ok te (st\<lparr>exit_code := c\<rparr>)" "live tcp (st\<lparr>exit_code := c\<rparr>)" "same_cores st (st\<lparr>exit_code := c\<rparr>)" for c
    using run_ok_misc(5) [OF assms(1)] assms(2) by (simp_all add: live_def tcb_at_def same_cores_def)
  have p: "same_cores st1 (print_line te r tcp s st1)" if "run_ok te st1" "live tcp st1" for s st1
    using run_ok_line [OF that] by blast
  have q: "same_cores st (print_line te r tcp s (st\<lparr>exit_code := c\<rparr>))" for s c
    using same_cores_trans [OF e(3) p [OF e(1,2)]] .
  show "same_cores st (report_signaled te r pid status tcp st)" "same_cores st (report_exited te r pid status tcp st)"
    using e(3) p [OF assms] q by (simp_all add: report_signaled_def report_exited_def Let_def)
qed

lemma death_round:
  assumes ok: "run_ok te st" and d: "is_death r" and pid: "death_pid r = pid" "pid \<noteq> popen_pid st" and tcp: "pid2tcb pid st = Some tcp"
  obtains st' where "trace_round te r st = Inr (Continue, st')" "run_ok te st'"
    "\<And>q. pid2tcb q st' = (if q = pid then None else pid2tcb q st)"
    "popen_pid st' = popen_pid st" "exit_code st' = (if pid = strace_child te then exit_of (death_status r) else exit_code st)"
proof -
  define status where "status = death_status r"
  obtain stime where w: "e_wait r = Inr (pid, status, stime)"
    using d pid(1) by (auto simp: is_death_def death_pid_def death_status_def status_def split: sum.splits prod.splits)
  have q: "e_interrupted r = 0" "wifexited status \<or> wifsignaled status" "ptrace_event status = 0" using d by (simp_all add: is_death_def status_def)
  have ns: "\<not> wifstopped status" using wait_exclusive [of status] q(2) by blast
  define st3 where "st3 = note_times te stime tcp ((clear_regs st)\<lparr>current_tcp := Some tcp\<rparr>)"
  define st4 where "st4 = (if wifsignaled status then report_signaled te r pid status tcp st3 else report_exited te r pid status tcp st3)"
  have l: "live tcp st" using tcp live_iff [OF ok] by simp
  have ok1: "run_ok te (clear_regs st)" and l1: "live tcp (clear_regs st)"
    using run_ok_misc(3) [OF ok] l by (simp_all add: live_def tcb_at_def clear_regs_def)
  have ok2: "run_ok te ((clear_regs st)\<lparr>current_tcp := Some tcp\<rparr>)" and l2: "live tcp ((clear_regs st)\<lparr>current_tcp := Some tcp\<rparr>)"
    using run_ok_misc(8) [OF ok1 l1] l1 by (simp_all add: live_def tcb_at_def)
  have k3: "kept te ((clear_regs st)\<lparr>current_tcp := Some tcp\<rparr>) st3"
    unfolding st3_def using ok2 l2 by (intro kept_times) (simp_all add: live_def)
  have ok3: "run_ok te st3" and l3: "live tcp st3" using kept_run_ok [OF k3] kept_live [OF k3 l2] .
  have sc3: "same_cores st st3"
  proof (rule same_cores_trans)
    show "same_cores st ((clear_regs st)\<lparr>current_tcp := Some tcp\<rparr>)" by (simp add: same_cores_def clear_regs_def tcb_at_def)
    show "same_cores ((clear_regs st)\<lparr>current_tcp := Some tcp\<rparr>) st3" using k3 by (simp add: kept_def)
  qed
  have ok4: "run_ok te st4" and l4: "live tcp st4" using report_ok [OF ok3 l3] by (simp_all add: st4_def)
  have sc4: "same_cores st st4" using same_cores_trans [OF sc3] report_cores [OF ok3 l3] by (simp add: st4_def)
  have p4: "pid2tcb x st4 = pid2tcb x st" for x using same_cores_pid2tcb [OF sc4 run_ok_tab [OF ok]] .
  have t: "trace_round te r st = Inr (Continue, droptcb (cfg_of te) tcp st4)"
    using w q(1,3) ns pid(2) tcp q(2)
    by (cases "wifsignaled status") (simp_all add: trace_round_def find_tcb_def ends_def Let_def handle_status_def st3_def [symmetric] st4_def)
  have s4: "side st4 = (reqs st, if pid = strace_child te then exit_of status else exit_code st, popen_pid st)"
  proof -
    have "side st3 = side st" by (simp add: st3_def)
    then show ?thesis using side_report [OF q(2)] by (simp add: st4_def side_def)
  qed
  show ?thesis
  proof (rule that [OF t])
    show "run_ok te (droptcb (cfg_of te) tcp st4)" using ok4 l4 by (rule run_ok_droptcb)
    show "pid2tcb x (droptcb (cfg_of te) tcp st4) = (if x = pid then None else pid2tcb x st)" for x
      using droptcb_ok(3) [of st4 pid tcp x "cfg_of te"] ok4 p4 tcp by (simp add: run_ok_def)
    have "side (droptcb (cfg_of te) tcp st4) = side st4" by simp
    then show "popen_pid (droptcb (cfg_of te) tcp st4) = popen_pid st"
      "exit_code (droptcb (cfg_of te) tcp st4) = (if pid = strace_child te then exit_of (death_status r) else exit_code st)"
      unfolding s4 by (simp_all add: side_def status_def)
  qed
qed

lemma live_pids_card: "run_ok te st \<Longrightarrow> card (live_pids st) = nprocs st \<and> finite (live_pids st)"
  using tcbs.pids_finite [of st] by (simp add: live_pids_eq run_ok_def)

lemma deaths_end:
  "run_ok te st \<Longrightarrow> \<forall>r \<in> set rs. is_death r \<Longrightarrow> distinct (map death_pid rs) \<Longrightarrow> set (map death_pid rs) = live_pids st \<Longrightarrow>
   popen_pid st \<notin> live_pids st \<Longrightarrow>
   \<exists>st'. trace te rs st = Inr (Some 0, st') \<and> run_ok te st' \<and> nprocs st' = 0
     \<and> exit_code st' = (case find (\<lambda>r. death_pid r = strace_child te) rs of Some r \<Rightarrow> exit_of (death_status r) | None \<Rightarrow> exit_code st)"
proof (induction rs arbitrary: st)
  case Nil
  then have "nprocs st = 0" using live_pids_card [OF Nil(1)] by simp
  then show ?case using Nil(1) by simp
next
  case (Cons r rs)
  have mem: "death_pid r \<in> live_pids st" using Cons.prems(4) by auto
  then obtain tcp where tcp: "pid2tcb (death_pid r) st = Some tcp" by (auto simp: live_pids_def)
  have "nprocs st \<noteq> 0" using live_pids_card [OF Cons.prems(1)] mem card_gt_0_iff [of "live_pids st"] by auto
  moreover have "death_pid r \<noteq> popen_pid st" using mem Cons.prems(5) by auto
  moreover have "is_death r" using Cons.prems(2) by simp
  ultimately obtain st1 where t: "trace_round te r st = Inr (Continue, st1)" and ok1: "run_ok te st1"
    and look: "\<And>q. pid2tcb q st1 = (if q = death_pid r then None else pid2tcb q st)" and pp: "popen_pid st1 = popen_pid st"
    and ec: "exit_code st1 = (if death_pid r = strace_child te then exit_of (death_status r) else exit_code st)"
    using death_round [OF Cons.prems(1) _ refl _ tcp] by metis
  have lp: "live_pids st1 = live_pids st - {death_pid r}" using look by (auto simp: live_pids_def split: if_splits)
  have "live_pids st1 = set (map death_pid rs)" unfolding lp Cons.prems(4) [symmetric] using Cons.prems(3) by auto
  then have "\<exists>st'. trace te rs st1 = Inr (Some 0, st') \<and> run_ok te st' \<and> nprocs st' = 0
     \<and> exit_code st' = (case find (\<lambda>r. death_pid r = strace_child te) rs of Some r \<Rightarrow> exit_of (death_status r) | None \<Rightarrow> exit_code st1)"
    using Cons.prems lp pp by (intro Cons.IH [OF ok1]) auto
  then obtain st' where st': "trace te rs st1 = Inr (Some 0, st')" "run_ok te st'" "nprocs st' = 0"
    "exit_code st' = (case find (\<lambda>r. death_pid r = strace_child te) rs of Some r \<Rightarrow> exit_of (death_status r) | None \<Rightarrow> exit_code st1)" by blast
  have "find (\<lambda>x. death_pid x = strace_child te) rs = None" if "death_pid r = strace_child te"
    using Cons.prems(3) that by (auto simp: find_None_iff image_iff)
  then have "exit_code st' = (case find (\<lambda>r. death_pid r = strace_child te) (r # rs) of Some r \<Rightarrow> exit_of (death_status r) | None \<Rightarrow> exit_code st)"
    using st'(4) ec by (simp split: option.split)
  then show ?case using st'(1-3) t \<open>nprocs st \<noteq> 0\<close> by simp
qed

subsection \<open>Cleaning up\<close>

text \<open>The pids and flags of the blocks; requests only get more.\<close>

definition ids :: "strace \<Rightarrow> (int \<times> c_int) list" where
  "ids st = map (\<lambda>t. (t_pid t, t_flags t)) (tcbtab st)"

lemma ids_globals [simp]:
  "ids (st\<lparr>printing_tcp := a\<rparr>) = ids st" "ids (st\<lparr>current_tcp := a\<rparr>) = ids st" "ids (st\<lparr>errs := c\<rparr>) = ids st"
  "ids (emit_out cfg f u st) = ids st" "ids (request q st) = ids st" "ids (complain m st) = ids st"
  by (simp_all add: ids_def emit_out_def request_def complain_def split: option.split)

lemma ids_curcol [simp]: "ids (upd_tcb i (\<lambda>t. t\<lparr>t_curcol := g t\<rparr>) st) = ids st"
proof -
  have "map (\<lambda>t. (t_pid t, t_flags t)) ((tcbtab st)[i := (tcbtab st ! i)\<lparr>t_curcol := c\<rparr>]) = map (\<lambda>t. (t_pid t, t_flags t)) (tcbtab st)" for c
    by (cases "i < length (tcbtab st)") (simp_all add: map_update list_update_same_conv list_update_beyond)
  then show ?thesis by (simp add: ids_def upd_tcb_def tcb_at_def)
qed

lemma ids_print [simp]: "ids (tprints cfg u st) = ids st" "ids (line_ended st) = ids st"
  by (auto simp: tprints_def line_ended_def Let_def split: option.splits)

lemma ids_restart: "ids (snd (ptrace_restart te err op tcp sig st)) = ids st"
  by (auto simp: ptrace_restart_def Let_def split: option.split)

lemma reqs_restart: "reqs (snd (ptrace_restart te err op tcp sig st)) = reqs st @ [Restart op (t_pid (tcb_at st tcp)) sig]"
  using side_restart [of te err op tcp sig st] by (simp add: side_def request_def)

lemma detach_loop_ids:
  "detach_loop te tcp ws err st = Some (err', st') \<Longrightarrow> ids st' = ids st \<and> set (reqs st) \<subseteq> set (reqs st')"
proof (induction te tcp ws err st rule: detach_loop.induct)
  case (1 te tcp err st)
  then show ?case by simp
next
  case (2 te tcp w ws err st)
  show ?case
  proof (cases "wait_chain w")
    case (Inl msg)
    then show ?thesis using 2(2) by (auto simp: complain_def split: if_splits)
  next
    case (Inr status)
    let ?r = "ptrace_restart te (w_restart w) PTRACE_CONT tcp
                   (if wstopsig status = syscall_trap_sig te then 0 else int (wstopsig status)) st"
    show ?thesis
    proof (cases "\<not> wifstopped status \<or> wstopsig status = SIGSTOP")
      case True
      then show ?thesis using 2(2) Inr ids_restart reqs_restart by (auto split: if_splits)
    next
      case False
      have r: "ids (snd ?r) = ids st" "set (reqs st) \<subseteq> set (reqs (snd ?r))" by (auto simp: ids_restart reqs_restart)
      show ?thesis
      proof (cases "fst ?r < 0")
        case True
        then have "st' = snd ?r" using 2(2) Inr False by (cases ?r) auto
        then show ?thesis using r by simp
      next
        case nn: False
        have "detach_loop te tcp ws (fst ?r) (snd ?r) = Some (err', st')" using 2(2) Inr False nn by (cases ?r) auto
        then have "ids st' = ids (snd ?r) \<and> set (reqs (snd ?r)) \<subseteq> set (reqs st')"
          using 2(1) [OF Inr _ _ prod.collapse] False nn by simp
        then show ?thesis using r by auto
      qed
    qed
  qed
qed

lemma detach_request_ids:
  assumes "detach_request d tcp st = (err, w, st')"
  shows "ids st' = ids st \<and> insert (Detach_req (t_pid (tcb_at st tcp))) (set (reqs st)) \<subseteq> set (reqs st')"
  using assms by (auto simp: detach_request_def Let_def split: option.splits if_splits) (auto simp: request_def complain_def)

lemma detach_ids:
  assumes ok: "run_ok te st" "live tcp st" and d: "detach te d tcp st = Some (err, st')"
  shows "ids st' = (ids st)[tcp := (0, 0)] \<and> set (reqs st) \<subseteq> set (reqs st')
    \<and> (has_flag (tcb_at st tcp) TCB_ATTACHED \<longrightarrow> Detach_req (t_pid (tcb_at st tcp)) \<in> set (reqs st'))"
proof -
  let ?a = "has_flag (tcb_at st tcp) TCB_ATTACHED"
  obtain err0 w st0 where r: "(if ?a then detach_request d tcp st else (0, False, st)) = (err0, w, st0)"
    by (cases "if ?a then detach_request d tcp st else (0, False, st)")
  have 0: "ids st0 = ids st" "set (reqs st) \<subseteq> set (reqs st0)" "?a \<Longrightarrow> Detach_req (t_pid (tcb_at st tcp)) \<in> set (reqs st0)"
    using detach_request_ids [of d tcp st err0 w st0] r by (auto split: if_splits)
  obtain err1 st1 where l: "(if w then detach_loop te tcp (d_waits d) err0 st0 else Some (err0, st0)) = Some (err1, st1)"
    using d r by (auto simp: detach_def Let_def split: option.splits)
  have 1: "ids st1 = ids st0" "set (reqs st0) \<subseteq> set (reqs st1)"
    using detach_loop_ids [of te tcp "d_waits d" err0 st0 err1 st1] l by (auto split: if_splits)
  define st2 where "st2 = (if qflag (sys te) = 0 \<and> ?a then complain (''Process '' @ fmt_u (nat (t_pid (tcb_at st tcp))) @ '' detached'') st1 else st1)"
  have st': "st' = droptcb (cfg_of te) tcp st2" using d r l by (simp add: detach_def Let_def st2_def)
  have 2: "ids st2 = ids st" "reqs st2 = reqs st1" using 0 1 by (simp_all add: st2_def complain_def)
  have tl: "tcp < length (tcbtab st)" using ok(2) by (simp add: live_def)
  have "length (tcbtab st2) = length (tcbtab st)" using arg_cong [OF 2(1), of length] by (simp add: ids_def)
  then have "t_pid (tcb_at st2 tcp) = t_pid (tcb_at st tcp)"
    using arg_cong [OF 2(1), of "\<lambda>xs. fst (xs ! tcp)"] tl by (simp add: ids_def tcb_at_def)
  then have nz: "t_pid (tcb_at st2 tcp) \<noteq> 0" using live_pid [OF ok] by simp
  have "ids st' = (ids st2)[tcp := (0, 0)]" unfolding st' ids_def droptcb_fields(1) [OF nz] by (simp add: map_update tcb_zero_def)
  moreover have "reqs st' = reqs st2"
    using side_droptcb [of "cfg_of te" tcp st2] by (simp add: st' side_def)
  ultimately show ?thesis using 0 1 2 by auto
qed

lemma cleanup_from_releases:
  "run_ok te st \<Longrightarrow> \<forall>i \<in> set is. i < length (tcbtab st) \<Longrightarrow> cleanup_from te ds sig is st = Some st' \<Longrightarrow>
   set (reqs st) \<subseteq> set (reqs st') \<and>
   (\<forall>j \<in> set is. live j st \<longrightarrow>
      (has_flag (tcb_at st j) TCB_ATTACHED \<longrightarrow> Detach_req (t_pid (tcb_at st j)) \<in> set (reqs st'))
    \<and> (has_flag (tcb_at st j) TCB_STRACE_CHILD \<longrightarrow> Kill (t_pid (tcb_at st j)) sig \<in> set (reqs st')))"
proof (induction "is" arbitrary: st)
  case Nil
  then show ?case by simp
next
  case (Cons i "is")
  have il: "i < length (tcbtab st)" using Cons.prems(2) by simp
  show ?case
  proof (cases "inuse (tcb_at st i)")
    case False
    then show ?thesis using Cons.IH [OF Cons.prems(1)] Cons.prems(2,3) by (auto simp: live_def)
  next
    case True
    let ?t = "tcb_at st i"
    define st1 where "st1 = (if has_flag ?t TCB_STRACE_CHILD
       then request (Kill (t_pid ?t) sig) (request (Kill (t_pid ?t) 18) st) else st)"
    have k1: "kept te st st1"
      unfolding st1_def using kept_misc(3) kept_misc(1) [OF Cons.prems(1)] kept_trans kept_run_ok Cons.prems(1) by (metis (full_types))
    have tab1: "tcbtab st1 = tcbtab st" by (simp add: st1_def request_def)
    have r1: "set (reqs st) \<subseteq> set (reqs st1)" "has_flag ?t TCB_STRACE_CHILD \<Longrightarrow> Kill (t_pid ?t) sig \<in> set (reqs st1)"
      by (auto simp: st1_def request_def)
    have l1: "live i st1" using True il tab1 by (simp add: live_def tcb_at_def)
    obtain err st2 where d: "detach te (ds i) i st1 = Some (err, st2)" and rest: "cleanup_from te ds sig is st2 = Some st'"
      using Cons.prems(3) True by (auto simp: Let_def st1_def split: option.splits)
    note ok2 = detach_ok [OF kept_run_ok [OF k1] l1 d] and ids2 = detach_ids [OF kept_run_ok [OF k1] l1 d]
    have len2: "length (tcbtab st2) = length (tcbtab st)" using ok2(2) tab1 by simp
    have IH: "set (reqs st2) \<subseteq> set (reqs st')" "\<And>j. j \<in> set is \<Longrightarrow> live j st2 \<Longrightarrow>
      (has_flag (tcb_at st2 j) TCB_ATTACHED \<longrightarrow> Detach_req (t_pid (tcb_at st2 j)) \<in> set (reqs st'))
    \<and> (has_flag (tcb_at st2 j) TCB_STRACE_CHILD \<longrightarrow> Kill (t_pid (tcb_at st2 j)) sig \<in> set (reqs st'))"
      using Cons.IH [OF ok2(1) _ rest] Cons.prems(2) len2 by auto
    have same: "t_pid (tcb_at st2 j) = t_pid (tcb_at st j) \<and> t_flags (tcb_at st2 j) = t_flags (tcb_at st j)" if "j < length (tcbtab st)" "j \<noteq> i" for j
    proof -
      have "ids st2 ! j = ids st1 ! j" using ids2 that by simp
      then show ?thesis using that len2 tab1 by (simp add: ids_def tcb_at_def)
    qed
    have at1: "tcb_at st1 i = ?t" using tab1 by (simp add: tcb_at_def)
    have goal: "(has_flag (tcb_at st j) TCB_ATTACHED \<longrightarrow> Detach_req (t_pid (tcb_at st j)) \<in> set (reqs st'))
      \<and> (has_flag (tcb_at st j) TCB_STRACE_CHILD \<longrightarrow> Kill (t_pid (tcb_at st j)) sig \<in> set (reqs st'))"
      if j: "j \<in> set (i # is)" "live j st" for j
    proof (cases "j = i")
      case True
      then show ?thesis using ids2 r1(2) IH(1) at1 by auto
    next
      case False
      then have s: "t_pid (tcb_at st2 j) = t_pid (tcb_at st j)" "t_flags (tcb_at st2 j) = t_flags (tcb_at st j)" "j \<in> set is"
        using same j by (auto simp: live_def)
      have f: "has_flag (tcb_at st2 j) f = has_flag (tcb_at st j) f" for f by (simp add: has_flag_def s(2))
      have "live j st2" using j(2) f len2 by (simp add: live_def)
      from IH(2) [OF s(3) this] show ?thesis unfolding f s(1) .
    qed
    show ?thesis using goal ids2 IH(1) r1(1) by blast
  qed
qed

subsection \<open>Properties\<close>

text \<open>The states the loop reaches.\<close>

inductive trace_steps :: "tenv \<Rightarrow> strace \<Rightarrow> strace \<Rightarrow> bool" for te where
  start: "trace_steps te st st"
| step: "trace_steps te st st1 \<Longrightarrow> round_ok te r st1 \<Longrightarrow> trace_round te r st1 = Inr (Continue, st2) \<Longrightarrow> trace_steps te st st2"

lemma trace_steps_ok: "trace_steps te st st' \<Longrightarrow> run_ok te st \<Longrightarrow> run_ok te st'"
  by (induction rule: trace_steps.induct) (auto intro: trace_round_ok)

definition tenv_plain :: tenv where
  "tenv_plain = \<lparr>sys = senv_plain, use_seize = True, post_attach_sigstop = 0, ptrace_setoptions = True, syscall_trap_sig = 133,
     os_release_3 = True, detach_on_execve = False, strace_child = 7\<rparr>"

definition round_plain :: "c_int \<Rightarrow> round" where
  "round_plain status = \<lparr>e_interrupted = 0, e_wait = Inr (7, status, tv_zero), e_regs = \<lparr>getregset_ans = Inl ESRCH, getregs_ans = Inl ESRCH\<rparr>,
     e_eventmsg = None, e_setoptions = None, e_siginfo = Some ''{si_signo=SIGSEGV}'', e_interrupted_late = 0, e_restart = None, e_stop = stop_plain,
     e_detach = \<lparr>d_detach = None, d_tkill_0 = None, d_tkill_stop = None, d_waits = []\<rparr>,
     e_cleanup = (\<lambda>_. \<lparr>d_detach = None, d_tkill_0 = None, d_tkill_stop = None, d_waits = []\<rparr>)\<rparr>"

lemma round_plain_simps:
  "e_interrupted (round_plain s) = 0" "e_wait (round_plain s) = Inr (7, s, tv_zero)" "e_setoptions (round_plain s) = None"
  "e_siginfo (round_plain s) \<noteq> None" "e_restart (round_plain s) = None" "e_stop (round_plain s) = stop_plain"
  by (simp_all add: round_plain_def)

lemma tenv_plain_simps: "syscall_trap_sig tenv_plain = 133" "strace_child tenv_plain = 7"
  by (simp_all add: tenv_plain_def)

lemma process_0_popen: "popen_pid process_0 = 0" "reqs process_0 = []"
  by (simp_all add: process_0_def strace_init_def)

lemma process_0_run_ok: "run_ok tenv_plain process_0"
  using process_0_ok(1,2) by (simp add: run_ok_def tenv_plain_def senv_plain_def config_plain_def shared_cfg_def process_0_simps)

lemma process_0_pids: "live_pids process_0 = {7}"
proof -
  have "pid2tcb p process_0 \<noteq> None \<longleftrightarrow> p = 7" for p
  proof
    assume "pid2tcb p process_0 \<noteq> None"
    then obtain i where "pid2tcb p process_0 = Some i" by auto
    then show "p = 7" using live_iff [OF process_0_run_ok, of p i] by (auto simp: live_def process_0_simps new_tcb_def tcb_at_def)
  qed (simp add: process_0_ok)
  then show ?thesis by (auto simp: live_pids_def)
qed

lemma startup_continues: "e_setoptions r = None \<Longrightarrow> \<exists>st'. startup_stop te r tcp st = Inr st'"
  by (simp add: startup_stop_def Let_def)

lemma signal_continues:
  assumes "e_restart r = None" "ptrace_event status = 0" "wstopsig status \<noteq> syscall_trap_sig te"
  shows "\<exists>st'. stop_action te r status tcp st = Inr (Continue, st')"
proof -
  have "restart_or_die te r op tcp sig x = Inr (Continue, request (Restart op (t_pid (tcb_at x tcp)) sig) x)" for op sig x
    using assms(1) by (simp add: restart_or_die_def ptrace_restart_def Let_def)
  then show ?thesis using assms(2,3) by (simp add: stop_action_def show_stopsig_def Let_def)
qed

lemma round_plain_exit: "is_death (round_plain 0x300)" "death_pid (round_plain 0x300) = 7" "death_status (round_plain 0x300) = 0x300"
  by (simp_all add: is_death_def death_pid_def death_status_def round_plain_def wifexited_def wtermsig_def ptrace_event_def)





text \<open>
  C8. When all traced processes have died, in whatever order the kernel reports it, the loop returns 0
  with an empty table, and the program ends the way the process it started did: with the same exit
  status, or killed by the same signal.
\<close>

theorem strace_ends_like_child:
  assumes "run_ok te st" "\<forall>r \<in> set rs. is_death r" "distinct (map death_pid rs)" "set (map death_pid rs) = live_pids st"
    "popen_pid st \<notin> live_pids st" "r \<in> set rs" "death_pid r = strace_child te"
  shows "\<exists>st'. trace te rs st = Inr (Some 0, st') \<and> nprocs st' = 0 \<and> final_exit (exit_code st') = end_of (death_status r)"
proof -
  obtain st' where st': "trace te rs st = Inr (Some 0, st')" "nprocs st' = 0"
    "exit_code st' = (case find (\<lambda>r. death_pid r = strace_child te) rs of Some r \<Rightarrow> exit_of (death_status r) | None \<Rightarrow> exit_code st)"
    using deaths_end [OF assms(1-5)] by blast
  obtain x where x: "find (\<lambda>r. death_pid r = strace_child te) rs = Some x" using assms(6,7) by (cases "find (\<lambda>r. death_pid r = strace_child te) rs") (auto simp: find_None_iff)
  then have "x \<in> set rs" "death_pid x = strace_child te" by (auto simp: find_Some_iff)
  then have "x = r" using assms(3,6,7) by (auto simp: distinct_map inj_on_def)
  then show ?thesis using st' x final_exit_of by auto
qed

theorem strace_ends_like_child_witness:
  "\<exists>st'. trace tenv_plain [round_plain 0x300] process_0 = Inr (Some 0, st') \<and> final_exit (exit_code st') = (None, 3)"
proof -
  have c: "death_pid (round_plain 0x300) = strace_child tenv_plain" by (simp add: round_plain_exit tenv_plain_def)
  have p: "popen_pid process_0 \<notin> live_pids process_0"  by (simp add: process_0_pids process_0_popen)
  have "end_of 0x300 = (None, 3)" by (simp add: end_of_def wifsignaled_def wtermsig_def wstopsig_def drop_bit_eq_div)
  moreover have "\<exists>st'. trace tenv_plain [round_plain 0x300] process_0 = Inr (Some 0, st') \<and> nprocs st' = 0
      \<and> final_exit (exit_code st') = end_of (death_status (round_plain 0x300))"
    using round_plain_exit p c by (intro strace_ends_like_child process_0_run_ok) (simp_all add: process_0_pids)
  ultimately show ?thesis unfolding round_plain_exit(3) by metis
qed

text \<open>
  C28. \<open>cleanup\<close> lets go of everything: afterwards no process is in the table, every process that strace
  had attached to was asked to be detached, and the one it had started was sent the fatal signal.
\<close>

theorem cleanup_releases:
  assumes "run_ok te st" "cleanup te ds interrupted st = Some st'"
  shows "live_pids st' = {} \<and> tcb_ok st' \<and> log_ok st'
    \<and> (\<forall>pid tcp. pid2tcb pid st = Some tcp \<longrightarrow>
         (has_flag (tcb_at st tcp) TCB_ATTACHED \<longrightarrow> Detach_req pid \<in> set (reqs st'))
       \<and> (has_flag (tcb_at st tcp) TCB_STRACE_CHILD \<longrightarrow> Kill pid (if interrupted = 0 then 15 else interrupted) \<in> set (reqs st')))"
proof -
  let ?sig = "if interrupted = 0 then 15 else interrupted"
  have c: "cleanup_from te ds ?sig [0..<length (tcbtab st)] st = Some st'" using assms(2) unfolding cleanup_def .
  have ok': "run_ok te st'" "nprocs st' = 0" using cleanup_ok [OF assms] by simp_all
  then have "live_pids st' = {}" using live_pids_card by fastforce
  moreover have "(has_flag (tcb_at st tcp) TCB_ATTACHED \<longrightarrow> Detach_req pid \<in> set (reqs st'))
       \<and> (has_flag (tcb_at st tcp) TCB_STRACE_CHILD \<longrightarrow> Kill pid ?sig \<in> set (reqs st'))" if "pid2tcb pid st = Some tcp" for pid tcp
    using cleanup_from_releases [OF assms(1) _ c] that [unfolded live_iff [OF assms(1)]] by (auto simp: live_def)
  ultimately show ?thesis using ok' by (simp add: run_ok_def)
qed

definition attached_0 :: strace where
  "attached_0 = upd_tcb 0 (set_flags TCB_ATTACHED) process_0"

theorem cleanup_releases_witness:
  "\<exists>st'. cleanup tenv_plain (e_cleanup (round_plain 0)) 2 attached_0 = Some st' \<and> live_pids st' = {} \<and> Detach_req 7 \<in> set (reqs st')"
proof -
  have len: "length (tcbtab process_0) = 1" by (simp add: process_0_simps)
  have ok: "run_ok tenv_plain attached_0" unfolding attached_0_def
    using process_0_run_ok len by (intro kept_run_ok [OF kept_flags(1)]) simp_all
  have at: "tcb_at attached_0 0 = set_flags TCB_ATTACHED ((new_tcb 0 7)\<lparr>t_outf := Some SharedLog\<rparr>)" using len by (simp add: attached_0_def tcb_simps process_0_simps)
  have fl: "inuse (tcb_at attached_0 0)" "has_flag (tcb_at attached_0 0) TCB_ATTACHED" "t_pid (tcb_at attached_0 0) = 7"
    "\<not> has_flag (tcb_at attached_0 0) TCB_IGNORE_ONE_SIGSTOP" "\<not> has_flag (tcb_at attached_0 0) TCB_STRACE_CHILD"
    by (simp_all add: at has_flag_def set_flags_def new_tcb_def)
  have len1: "length (tcbtab attached_0) = 1" using len by (simp add: attached_0_def)
  have p: "pid2tcb 7 attached_0 = Some 0" using live_iff [OF ok] fl len1 by (simp add: live_def)
  have "\<exists>st'. cleanup tenv_plain (e_cleanup (round_plain 0)) 2 attached_0 = Some st'"
    using fl len1 by (simp add: cleanup_def detach_def detach_request_def round_plain_def Let_def)
  then obtain st' where st': "cleanup tenv_plain (e_cleanup (round_plain 0)) 2 attached_0 = Some st'" by blast
  then show ?thesis using cleanup_releases [OF ok st'] p fl(2) by blast
qed

text \<open>Two threads, the leader with pid 7 in the middle of its line, and the other one's \<open>execve\<close>.\<close>

definition exec_round :: round where
  "exec_round = (round_plain 0x4057f)\<lparr>e_eventmsg := Some 8\<rparr>"

lemma two_processes_simps:
  "tcbtab two_processes = [(new_tcb 0 7)\<lparr>t_outf := Some SharedLog, t_curcol := 3\<rparr>, (new_tcb 0 8)\<lparr>t_outf := Some SharedLog\<rparr>]"
  "nprocs two_processes = 2" "printing_tcp two_processes = Some 0" "current_tcp two_processes = None" "out two_processes SharedLog = ''op(''"
  "popen_pid two_processes = 0" "skip_one_b_execve two_processes = False" "getregset_support two_processes = 0"
  by (simp_all add: two_processes_def strace_init_def upt_conv_Cons new_tcb_def tcb_zero_def)

lemma two_processes_pids: "pid2tcb 7 two_processes = Some 0" "pid2tcb 8 two_processes = Some 1"
  by (simp_all add: pid2tcb_def find_pid.simps two_processes_simps has_flag_def new_tcb_def)

lemma fmt_d_8: "fmt_d 8 = ''8''"
  by (simp add: fmt_d_def fmt_base_def digit_char_def fmt_simps)

lemma tenv_plain_opts: "cfg_of tenv_plain = config_plain" "cflag (sys tenv_plain) = CFLAG_NONE"
  by (simp_all add: tenv_plain_def senv_plain_def)

lemma swap_two:
  defines "x \<equiv> swap_tcbs tenv_plain 7 0 1 two_processes"
  shows "nprocs x = 1" "printing_tcp x = None" "out x SharedLog = ''op(''" "length (tcbtab x) = 2" "t_outf (tcb_at x 1) = Some SharedLog"
  by (simp_all add: x_def swap_tcbs_def droptcb_def Let_def two_processes_simps tcb_at_def upd_tcb_def tenv_plain_opts new_tcb_def tcb_zero_def)

lemma line_ended_out [simp]: "out (line_ended st) = out st"
  by (simp add: line_ended_def Let_def split: option.split)

lemma line_unclosed:
  assumes "printing_tcp x = None" "nprocs x = 1" "i < length (tcbtab x)" "t_outf (tcb_at x i) = Some SharedLog"
  shows "out (print_line tenv_plain r i u x) SharedLog = out x SharedLog @ u @ [CHR 0x0A]"
proof -
  have "printleader config_plain m i x = upd_tcb i (\<lambda>t. t\<lparr>t_curcol := 0\<rparr>) (x\<lparr>printing_tcp := Some i, current_tcp := Some i\<rparr>)" for m
    using assms(1,2) by (simp add: printleader_def finish_line_def Let_def config_plain_def)
  moreover have "tcb_at (upd_tcb i (\<lambda>t. t\<lparr>t_curcol := 0\<rparr>) (x\<lparr>printing_tcp := Some i, current_tcp := Some i\<rparr>)) i = (tcb_at x i)\<lparr>t_curcol := 0\<rparr>"
    using assms(3) by (simp add: upd_tcb_def tcb_at_def)
  ultimately show ?thesis using assms(4)
    by (simp add: print_line_def tenv_plain_opts tprints_def can_write_def emit_out_def config_plain_def)
qed

text \<open>
  A leader that is superseded by another thread's \<open>execve\<close> in the middle of its line: the column of
  the unfinished line is moved to the other thread's block and \<open>printing_tcp\<close> is cleared with the
  leader's block, so that the next \<open>printleader\<close> does not close the line, and the report lands in it.
\<close>

theorem supersede_breaks_line:
  "out two_processes SharedLog = ''op('' \<and>
   out (snd (supersede tenv_plain exec_round 7 0 two_processes)) SharedLog = ''op(+++ superseded by execve in pid 8 +++'' @ [CHR 0x0A]"
proof -
  have s: "supersede tenv_plain exec_round 7 0 two_processes = (1, upd_tcb 1 (set_flags TCB_REPRINT)
      (print_line tenv_plain exec_round 1 (''+++ superseded by execve in pid 8 +++'') (swap_tcbs tenv_plain 7 0 1 two_processes)))"
    using two_processes_pids(2) by (simp add: supersede_def exec_round_def tenv_plain_opts Let_def print_line_def fmt_d_8)
  have "out (print_line tenv_plain exec_round 1 u (swap_tcbs tenv_plain 7 0 1 two_processes)) SharedLog = ''op('' @ u @ [CHR 0x0A]" for u
    using line_unclosed [OF swap_two(2,1), of 1 exec_round u] swap_two by simp
  then show ?thesis by (simp add: two_processes_simps s)
qed

end
