(* ===== verification/Startup_Correct.thy ===== *)
theory Startup_Correct
  imports Startup Trace_Correct
begin

text \<open>
  Correctness of start-up: attaching to the processes of option \<^verbatim>\<open>-p\<close> and starting a program both end in a
  state from which the main loop keeps its invariant; and what the search of \<^verbatim>\<open>PATH\<close> finds.
\<close>

subsection \<open>The table while processes are attached to\<close>

abbreviation is_attached :: "tcb \<Rightarrow> bool" where
  "is_attached t \<equiv> has_flag t TCB_ATTACHED"

text \<open>
  Blocks with an index below \<open>k\<close> are done: they are free or belong to a process attached to. The others may
  still wait for it, and two of them may have the same pid.
\<close>

definition block_ok :: "nat \<Rightarrow> int set \<Rightarrow> nat \<Rightarrow> tcb \<Rightarrow> bool" where
  "block_ok k att i t \<longleftrightarrow> t_curcol t = 0 \<and> 0 \<le> t_pid t \<and> (inuse t \<longleftrightarrow> t_pid t \<noteq> 0)
    \<and> (if is_attached t then inuse t \<and> t_outf t = Some SharedLog \<and> t_pid t \<in> att
       else t_outf t = None \<and> (inuse t \<longrightarrow> k \<le> i))"

definition table_ok :: "nat \<Rightarrow> int set \<Rightarrow> tcb list \<Rightarrow> nat \<Rightarrow> bool" where
  "table_ok k att tab n \<longleftrightarrow> tab \<noteq> [] \<and> n = length (filter inuse tab)
    \<and> (\<forall>i < length tab. block_ok k att i (tab ! i))
    \<and> (\<forall>i < length tab. \<forall>j < length tab. is_attached (tab ! i) \<longrightarrow> is_attached (tab ! j) \<longrightarrow>
         t_pid (tab ! i) = t_pid (tab ! j) \<longrightarrow> i = j)"

lemma block_zero [simp]: "block_ok k att i tcb_zero" "\<not> is_attached tcb_zero"
  by (simp_all add: block_ok_def tcb_zero_def has_flag_def)

lemma block_more: "block_ok k att i t \<Longrightarrow> att \<subseteq> att' \<Longrightarrow> block_ok k att' i t"
  by (auto simp: block_ok_def)

lemma table_more: "table_ok k att tab n \<Longrightarrow> att \<subseteq> att' \<Longrightarrow> table_ok k att' tab n"
  using block_more by (auto simp: table_ok_def)

lemma table_put:
  assumes "table_ok k att tab n" "i < length tab" "\<not> is_attached (tab ! i)" "is_attached t" "inuse t"
    "t_outf t = Some SharedLog" "t_curcol t = 0" "0 < t_pid t" "t_pid t \<notin> att"
  shows "table_ok k (insert (t_pid t) att) (tab[i := t]) (if inuse (tab ! i) then n else n + 1)"
proof -
  have new: "block_ok k (insert (t_pid t) att) i t" using assms by (simp add: block_ok_def)
  have old: "block_ok k (insert (t_pid t) att) j (tab ! j)" "is_attached (tab ! j) \<Longrightarrow> t_pid (tab ! j) \<noteq> t_pid t" if "j < length tab" for j
    using assms(1,9) that block_more [of k att j "tab ! j"] by (auto simp: table_ok_def block_ok_def)
  have cnt: "length (filter inuse (tab[i := t])) = (if inuse (tab ! i) then n else n + 1)"
    using length_filter_update [OF assms(2), of inuse t] assms(1,5) by (simp add: table_ok_def split: if_splits)
  have uniq: "j = m" if "j < length tab" "m < length tab" "is_attached (tab[i := t] ! j)" "is_attached (tab[i := t] ! m)"
    "t_pid (tab[i := t] ! j) = t_pid (tab[i := t] ! m)" for j m
    using that old(2) [of j] old(2) [of m] assms(1,2) by (auto simp: table_ok_def nth_list_update split: if_splits)
  have "block_ok k (insert (t_pid t) att) j (tab[i := t] ! j)" if "j < length tab" for j
    using old(1) [OF that] new assms(2) by (cases "j = i") simp_all
  then show ?thesis using assms(1) cnt uniq unfolding table_ok_def by simp
qed

lemma table_expand: "table_ok k att tab n \<Longrightarrow> table_ok k att (tab @ replicate m tcb_zero) n"
  by (auto simp: table_ok_def nth_append split: if_splits)

lemma table_drop:
  assumes "table_ok k att tab n" "i < length tab" "inuse (tab ! i)"
  shows "table_ok k att (tab[i := tcb_zero]) (n - 1)"
proof -
  have "length (filter inuse (tab[i := tcb_zero])) = n - 1"
    using length_filter_update [OF assms(2), of inuse tcb_zero] assms(1,3) by (simp add: table_ok_def)
  then show ?thesis using assms(1,2) by (auto simp: table_ok_def nth_list_update split: if_splits)
qed

lemma table_next:
  assumes "table_ok k att tab n" "k < length tab \<Longrightarrow> inuse (tab ! k) \<Longrightarrow> is_attached (tab ! k)"
  shows "table_ok (Suc k) att tab n"
proof -
  have "block_ok (Suc k) att i (tab ! i)" if "i < length tab" for i
  proof -
    have b: "block_ok k att i (tab ! i)" using assms(1) that by (simp add: table_ok_def)
    show ?thesis
    proof (cases "i = k")
      case True
      then show ?thesis using b assms(2) that by (auto simp: block_ok_def)
    next
      case False
      then show ?thesis using b by (auto simp: block_ok_def split: if_splits)
    qed
  qed
  then show ?thesis using assms(1) by (simp add: table_ok_def)
qed

lemma table_room: "table_ok k att tab n \<Longrightarrow> n < length tab \<Longrightarrow> find_free tab 0 \<noteq> None"
  using find_free_None [of tab 0] filter_all_length [of inuse tab] by (fastforce simp: table_ok_def in_set_conv_nth)

text \<open>At the end of the loop the table is well-formed.\<close>

lemma table_done:
  assumes "table_ok (length tab) att tab n"
  shows "tab_ok tab n" "\<forall>t \<in> set tab. inuse t \<longrightarrow> is_attached t \<and> t_outf t = Some SharedLog"
proof -
  have b: "block_ok (length tab) att i (tab ! i)" if "i < length tab" for i using assms that by (simp add: table_ok_def)
  have a: "is_attached (tab ! i)" if "i < length tab" "inuse (tab ! i)" for i
    using b [OF that(1)] that by (auto simp: block_ok_def split: if_splits)
  then show att: "\<forall>t \<in> set tab. inuse t \<longrightarrow> is_attached t \<and> t_outf t = Some SharedLog"
    using b by (auto simp: in_set_conv_nth block_ok_def)
  have "i = j" if "i < length tab" "j < length tab" "inuse (tab ! i)" "t_pid (tab ! i) = t_pid (tab ! j)" for i j
  proof -
    have "inuse (tab ! j)" using b [OF that(1)] b [OF that(2)] that(3,4) by (simp add: block_ok_def)
    then show ?thesis using assms that a unfolding table_ok_def by blast
  qed
  then show "tab_ok tab n" using assms b unfolding tab_ok_def table_ok_def
    by (auto simp: in_set_conv_nth block_ok_def)
qed

subsection \<open>The state while processes are attached to\<close>

definition starting :: "nat \<Rightarrow> strace \<Rightarrow> bool" where
  "starting k st \<longleftrightarrow> table_ok k (set (attached_pids st)) (tcbtab st) (nprocs st)
     \<and> current_tcp st = None \<and> printing_tcp st = None \<and> at_bol (out st SharedLog)"

definition waiting :: "strace \<Rightarrow> nat set" where
  "waiting st = {i. i < length (tcbtab st) \<and> inuse (tcb_at st i) \<and> \<not> is_attached (tcb_at st i)}"

text \<open>Attaching succeeds, and with \<^verbatim>\<open>PTRACE_SEIZE\<close> the interruption as well.\<close>

definition reachable :: "tenv \<Rightarrow> start_env \<Rightarrow> int \<Rightarrow> bool" where
  "reachable te se p \<longleftrightarrow> (use_seize te \<longrightarrow> interrupt_error se p = None)"

definition covered :: "tenv \<Rightarrow> start_env \<Rightarrow> strace \<Rightarrow> bool" where
  "covered te se st \<longleftrightarrow> (\<forall>p \<in> set (attached_pids st). reachable te se p \<longrightarrow>
     (\<exists>i < length (tcbtab st). is_attached (tcb_at st i) \<and> t_pid (tcb_at st i) = p))"

lemma attached_pids_simps [simp]:
  "attached_pids (request (Attach p) st) = attached_pids st @ [p]" "attached_pids (request (Kill p s) st) = attached_pids st"
  by (simp_all add: attached_pids_def request_def List.map_filter_def)

lemma has_flag_set_iff: "has_flag (set_flags f t) g \<longleftrightarrow> has_flag t g \<or> f AND g \<noteq> 0"
  by (simp add: has_flag_def set_flags_def bit.conj_disj_distrib2 or_eq_0_iff)

lemma attached_flag: "(TCB_ATTACHED OR x) AND TCB_ATTACHED \<noteq> 0"
  by (simp add: bit.conj_disj_distrib2 or_eq_0_iff)

text \<open>What a step of the loop does to the state.\<close>

definition progress :: "tenv \<Rightarrow> start_env \<Rightarrow> nat \<Rightarrow> strace \<Rightarrow> strace \<Rightarrow> bool" where
  "progress te se k st st' \<longleftrightarrow> starting k st' \<and> waiting st' \<subseteq> waiting st \<and> (covered te se st \<longrightarrow> covered te se st')
     \<and> length (tcbtab st) \<le> length (tcbtab st')
     \<and> (\<forall>i < length (tcbtab st). inuse (tcb_at st i) \<longrightarrow> inuse (tcb_at st' i) \<and> t_pid (tcb_at st' i) = t_pid (tcb_at st i))"

lemma progress_refl: "starting k st \<Longrightarrow> progress te se k st st"
  by (simp add: progress_def)

lemma progress_trans: "progress te se k st st' \<Longrightarrow> progress te se k st' st'' \<Longrightarrow> progress te se k st st''"
  by (auto simp: progress_def dest: order_less_le_trans)

lemma progress_same:
  assumes "starting k st" "tcbtab st' = tcbtab st" "nprocs st' = nprocs st" "attached_pids st' = attached_pids st"
    "current_tcp st' = current_tcp st" "printing_tcp st' = printing_tcp st" "out st' = out st"
  shows "progress te se k st st'"
  using assms by (simp add: progress_def starting_def waiting_def covered_def tcb_at_def)

lemma put_progress:
  assumes st: "starting k st" and i: "i < length tab" "\<not> is_attached (tab ! i)" "inuse (tab ! i) \<Longrightarrow> t_pid (tab ! i) = t_pid t"
    and t: "is_attached t" "inuse t" "t_outf t = Some SharedLog" "t_curcol t = 0" "0 < t_pid t" "t_pid t \<notin> set (attached_pids st)"
    and tab: "tab = tcbtab st @ replicate m tcb_zero"
    and st': "tcbtab st' = tab[i := t]" "nprocs st' = (if inuse (tab ! i) then nprocs st else nprocs st + 1)"
      "attached_pids st' = attached_pids st @ [t_pid t]" "current_tcp st' = None" "printing_tcp st' = None" "out st' = out st"
  shows "progress te se k st st' \<and> is_attached (tcb_at st' i)"
proof -
  have "table_ok k (set (attached_pids st)) tab (nprocs st)" using st table_expand by (simp add: starting_def tab)
  from table_put [OF this i(1,2) t] have "starting k st'" using st by (simp add: starting_def st')
  moreover have at: "tcb_at st' j = (if j = i then t else tab ! j)" for j using i(1) by (simp add: tcb_at_def st')
  moreover have old: "tab ! j = tcb_at st j" if "j < length (tcbtab st)" for j using that by (simp add: tab tcb_at_def nth_append)
  moreover have zero: "tab ! j = tcb_zero" if "\<not> j < length (tcbtab st)" "j < length tab" for j
    using that by (simp add: tab nth_append)
  have len: "length (tcbtab st) \<le> length tab" "length (tcbtab st') = length tab" by (simp_all add: tab st')
  have "waiting st' \<subseteq> waiting st"
  proof
    fix j assume "j \<in> waiting st'"
    then have j: "j < length tab" "j \<noteq> i" "inuse (tab ! j)" "\<not> is_attached (tab ! j)"
      using t(1) by (auto simp: waiting_def at len split: if_splits)
    have "j < length (tcbtab st)"
    proof (rule ccontr)
      assume "\<not> j < length (tcbtab st)"
      then show False using zero [of j] j by simp
    qed
    then show "j \<in> waiting st" using j old by (simp add: waiting_def)
  qed
  moreover have "covered te se st'" if c: "covered te se st"
    unfolding covered_def
  proof (intro ballI impI)
    fix p assume p: "p \<in> set (attached_pids st')" "reachable te se p"
    show "\<exists>j < length (tcbtab st'). is_attached (tcb_at st' j) \<and> t_pid (tcb_at st' j) = p"
    proof (cases "p = t_pid t")
      case True
      then show ?thesis using i(1) t(1) by (intro exI [of _ i]) (simp add: at len)
    next
      case False
      then obtain j where j: "j < length (tcbtab st)" "is_attached (tcb_at st j)" "t_pid (tcb_at st j) = p"
        using p c by (auto simp: covered_def st')
      then have "j \<noteq> i" using i(2) old [of j] by auto
      then show ?thesis using j old [of j] len by (intro exI [of _ j]) (simp add: at)
    qed
  qed
  moreover have "inuse (tcb_at st' j) \<and> t_pid (tcb_at st' j) = t_pid (tcb_at st j)"
    if "j < length (tcbtab st)" "inuse (tcb_at st j)" for j
    using that old [of j] t(2) i(3) by (cases "j = i") (simp_all add: at)
  ultimately show ?thesis using t(1) len by (simp add: progress_def)
qed

definition attach_env :: "tenv \<Rightarrow> start_env \<Rightarrow> bool" where
  "attach_env te se \<longleftrightarrow> shared_cfg (cfg_of te) \<and> (\<forall>n. alloc_ok (cfg_of te) n)
     \<and> (\<forall>att p. attach_error se att p = None \<longrightarrow> p \<notin> set att)"

lemma attached_eq:
  assumes "shared_cfg (cfg_of te)"
  obtains f where "\<And>st. attached te extra i st = Inr (upd_tcb i (\<lambda>t. (set_flags f t)\<lparr>t_outf := Some SharedLog\<rparr>) st)"
    "f AND TCB_ATTACHED \<noteq> 0"
proof -
  let ?f = "TCB_ATTACHED OR extra OR TCB_STARTUP OR post_attach_sigstop te"
  have "?f = TCB_ATTACHED OR (extra OR TCB_STARTUP OR post_attach_sigstop te)" by (simp only: or.assoc)
  then have "?f AND TCB_ATTACHED \<noteq> 0" by (simp only: attached_flag not_False_eq_True)
  moreover have "upd_tcb i g (upd_tcb i h st) = upd_tcb i (\<lambda>t. g (h t)) st" for g h st
    by (cases "i < length (tcbtab st)") (simp_all add: upd_tcb_def tcb_at_def list_update_beyond)
  then have "attached te extra i st = Inr (upd_tcb i (\<lambda>t. (set_flags ?f t)\<lparr>t_outf := Some SharedLog\<rparr>) st)" for st
    using assms by (simp add: attached_def newoutf_def shared_cfg_def Let_def)
  ultimately show thesis using that by blast
qed

lemma attached_block:
  assumes "f AND TCB_ATTACHED \<noteq> 0" "inuse t" "t_curcol t = 0"
  defines "t' \<equiv> (set_flags f t)\<lparr>t_outf := Some SharedLog\<rparr>"
  shows "is_attached t'" "inuse t'" "t_outf t' = Some SharedLog" "t_curcol t' = 0" "t_pid t' = t_pid t"
  using assms(1-3) has_flag_set_iff [of f t]
  by (simp_all add: t'_def has_flag_def set_flags_def)

lemma attach_own:
  assumes "attach_env te se" "starting k st" "i < length (tcbtab st)" "inuse (tcb_at st i)"
    and "t_pid (tcb_at st i) \<notin> set (attached_pids st)"
  shows "\<exists>st'. attached te extra i (request (Attach (t_pid (tcb_at st i))) st) = Inr st' \<and> progress te se k st st'
    \<and> is_attached (tcb_at st' i)"
proof -
  obtain f where f: "\<And>st. attached te extra i st = Inr (upd_tcb i (\<lambda>t. (set_flags f t)\<lparr>t_outf := Some SharedLog\<rparr>) st)"
    "f AND TCB_ATTACHED \<noteq> 0" using assms(1) attached_eq by (metis attach_env_def)
  let ?r = "request (Attach (t_pid (tcb_at st i))) st"
  let ?t = "(set_flags f (tcb_at st i))\<lparr>t_outf := Some SharedLog\<rparr>"
  let ?st = "upd_tcb i (\<lambda>t. (set_flags f t)\<lparr>t_outf := Some SharedLog\<rparr>) ?r"
  have b: "block_ok k (set (attached_pids st)) i (tcb_at st i)" using assms(2,3) by (simp add: starting_def table_ok_def tcb_at_def)
  then have "t_curcol (tcb_at st i) = 0" "0 < t_pid (tcb_at st i)" using assms(4) by (auto simp: block_ok_def)
  note t = attached_block [OF f(2) assms(4) this(1)] and pid = this(2)
  have na: "\<not> is_attached (tcb_at st i)" using b assms(5) by (auto simp: block_ok_def)
  have "progress te se k st ?st \<and> is_attached (tcb_at ?st i)"
    by (rule put_progress [OF assms(2) _ _ _ t(1-4), of i "tcbtab st" 0])
      (use assms na t pid in \<open>simp_all add: tcb_at_def starting_def upd_tcb_def request_def attached_pids_def List.map_filter_def\<close>)
  then show ?thesis using f(1) by blast
qed

lemma attach_new:
  assumes "attach_env te se" "starting k st" "0 < tid" "tid \<notin> set (attached_pids st)"
  shows "\<exists>i st1 st'. alloctcb (cfg_of te) tid (request (Attach tid) st) = Inr (i, st1)
    \<and> attached te extra i st1 = Inr st' \<and> progress te se k st st'
    \<and> (\<forall>j < length (tcbtab st). inuse (tcb_at st j) \<longrightarrow> tcb_at st' j = tcb_at st j)"
proof -
  let ?r = "request (Attach tid) st"
  define m where "m = (if nprocs st = length (tcbtab st) then length (tcbtab st) else 0)"
  define tab where "tab = tcbtab st @ replicate m tcb_zero"
  have r: "tcbtab ?r = tcbtab st" "nprocs ?r = nprocs st" "out ?r = out st" "current_tcp ?r = current_tcp st" "printing_tcp ?r = printing_tcp st"
    by (simp_all add: request_def)
  have e: "(if nprocs ?r = length (tcbtab ?r) then expand_tcbtab (cfg_of te) ?r else Inr ?r) = Inr (?r\<lparr>tcbtab := tab\<rparr>)"
    using assms(1) by (simp add: expand_tcbtab_def Let_def tab_def m_def r attach_env_def)
  have tok: "table_ok k (set (attached_pids st)) tab (nprocs st)"
    using assms(2) table_expand by (simp add: starting_def tab_def)
  moreover have "tcbtab st \<noteq> []" "nprocs st \<le> length (tcbtab st)" using assms(2) by (simp_all add: starting_def table_ok_def)
  then have "nprocs st < length tab" by (auto simp: tab_def m_def)
  ultimately obtain i where i: "find_free tab 0 = Some i" using table_room by blast
  then have il: "i < length tab" "\<not> inuse (tab ! i)" using find_free_Some by auto
  have na: "\<not> is_attached (tab ! i)" using tok il by (auto simp: table_ok_def block_ok_def)
  define st1 where "st1 = (upd_tcb i (\<lambda>_. new_tcb (current_personality st) tid) (?r\<lparr>tcbtab := tab\<rparr>))\<lparr>nprocs := nprocs st + 1\<rparr>"
  have al: "alloctcb (cfg_of te) tid ?r = Inr (i, st1)"
    unfolding alloctcb_def e using i by (simp add: st1_def) (simp add: request_def)
  obtain f where f: "\<And>st. attached te extra i st = Inr (upd_tcb i (\<lambda>t. (set_flags f t)\<lparr>t_outf := Some SharedLog\<rparr>) st)"
    "f AND TCB_ATTACHED \<noteq> 0" using assms(1) attached_eq by (metis attach_env_def)
  let ?n = "new_tcb (current_personality st) tid"
  have n0: "t_curcol ?n = 0" by (simp add: new_tcb_def tcb_zero_def)
  note t = attached_block [OF f(2) inuse_new(1) n0]
  let ?t = "(set_flags f ?n)\<lparr>t_outf := Some SharedLog\<rparr>"
  let ?st = "upd_tcb i (\<lambda>t. (set_flags f t)\<lparr>t_outf := Some SharedLog\<rparr>) st1"
  have ts: "tcbtab ?st = tab[i := ?t]" using il by (simp add: st1_def upd_tcb_def tcb_at_def)
  have fields: "nprocs ?st = nprocs st + 1" "attached_pids ?st = attached_pids st @ [tid]" "current_tcp ?st = None"
    "printing_tcp ?st = None" "out ?st = out st"
    using assms(2) by (simp_all add: st1_def starting_def upd_tcb_def request_def attached_pids_def List.map_filter_def)
  have pid: "t_pid ?t = tid" using t(5) by simp
  have "progress te se k st ?st \<and> is_attached (tcb_at ?st i)"
    by (rule put_progress [OF assms(2) il(1) na _ t(1-4) _ _ tab_def ts])
      (use il fields pid assms in simp_all)
  moreover have "tcb_at ?st j = tcb_at st j" if "j < length (tcbtab st)" "inuse (tcb_at st j)" for j
    using that il ts by (auto simp: tcb_at_def tab_def nth_append nth_list_update)
  ultimately show ?thesis using al f(1) by blast
qed

lemma attach_cases:
  assumes "attach_env te se" "starting k st"
  obtains (failed) e st1 where "ptrace_attach_or_seize te se tid st = (Some e, st1)" "progress te se k st st1" "tcbtab st1 = tcbtab st"
  | (ok) "ptrace_attach_or_seize te se tid st = (None, request (Attach tid) st)" "tid \<notin> set (attached_pids st)"
proof (cases "attach_error se (attached_pids st) tid")
  case (Some e)
  then show thesis using progress_refl [OF assms(2)] by (intro failed) (simp_all add: ptrace_attach_or_seize_def)
next
  case None
  then have new: "tid \<notin> set (attached_pids st)" using assms(1) by (simp add: attach_env_def)
  show thesis
  proof (cases "reachable te se tid")
    case True
    then show thesis using None new by (intro ok) (simp_all add: ptrace_attach_or_seize_def reachable_def)
  next
    case False
    then obtain e where e: "ptrace_attach_or_seize te se tid st = (Some e, request (Attach tid) st)"
      using None by (auto simp: ptrace_attach_or_seize_def reachable_def)
    have same: "tcbtab (request (Attach tid) st) = tcbtab st" "nprocs (request (Attach tid) st) = nprocs st"
      "current_tcp (request (Attach tid) st) = current_tcp st" "printing_tcp (request (Attach tid) st) = printing_tcp st"
      "out (request (Attach tid) st) = out st" by (simp_all add: request_def)
    have "starting k (request (Attach tid) st)"
      using assms(2) table_more [of k "set (attached_pids st)" "tcbtab st" "nprocs st" "insert tid (set (attached_pids st))"]
      by (auto simp: starting_def same)
    then have "progress te se k st (request (Attach tid) st)"
      using False by (auto simp: progress_def waiting_def covered_def tcb_at_def same)
    then show thesis using e same(1) by (intro failed)
  qed
qed

lemma progress_live:
  "progress te se k st st' \<Longrightarrow> i < length (tcbtab st) \<Longrightarrow> inuse (tcb_at st i) \<Longrightarrow>
    i < length (tcbtab st') \<and> inuse (tcb_at st' i) \<and> t_pid (tcb_at st' i) = t_pid (tcb_at st i)"
  by (auto simp: progress_def)

lemma progress_starting: "progress te se k st st' \<Longrightarrow> starting k st'"
  by (simp add: progress_def)

lemma attach_threads_ok:
  assumes env: "attach_env te se"
  shows "starting k st \<Longrightarrow> k < length (tcbtab st) \<Longrightarrow> inuse (tcb_at st k) \<Longrightarrow> nerr \<le> ntid \<Longrightarrow>
    \<exists>ntid' nerr' st'. attach_threads te se k ds ntid nerr st = Inr (ntid', nerr', st') \<and> progress te se k st st'
      \<and> nerr' \<le> ntid' \<and> ntid - nerr \<le> ntid' - nerr'
      \<and> (is_attached (tcb_at st' k) \<longrightarrow> is_attached (tcb_at st k) \<or> ntid - nerr < ntid' - nerr')"
proof (induction ds arbitrary: ntid nerr st)
  case Nil
  then show ?case using progress_refl by auto
next
  case (Cons d ds)
  obtain ino name where d: "d = (ino, name)" by fastforce
  let ?tid = "atoi name"
  show ?case
  proof (cases "ino = 0 \<or> ?tid \<le> 0")
    case True
    then have "attach_threads te se k (d # ds) ntid nerr st = attach_threads te se k ds ntid nerr st" by (auto simp: d)
    then show ?thesis using Cons by simp
  next
    case go: False
    show ?thesis
    proof (cases rule: attach_cases [OF env Cons.prems(1), of ?tid, case_names failed ok])
      case (failed e st1)
      have l: "k < length (tcbtab st1)" "inuse (tcb_at st1 k)" using progress_live [OF failed(2) Cons.prems(2,3)] by simp_all
      have eq: "attach_threads te se k (d # ds) ntid nerr st = attach_threads te se k ds (ntid + 1) (nerr + 1) st1"
        using go failed(1) by (simp add: d)
      have same: "tcb_at st1 k = tcb_at st k" using failed(3) by (simp add: tcb_at_def)
      show ?thesis using Cons.IH [OF progress_starting [OF failed(2)] l, of "nerr + 1" "ntid + 1"] Cons.prems(4)
          progress_trans [OF failed(2)] unfolding eq same by auto
    next
      case ok
      let ?r = "request (Attach ?tid) st"
      have r: "tcb_at ?r k = tcb_at st k" by (simp add: tcb_at_def request_def)
      obtain cur st1 st2 where step: "(if ?tid \<noteq> t_pid (tcb_at ?r k) then alloctcb (cfg_of te) ?tid ?r else Inr (k, ?r)) = Inr (cur, st1)"
        "attached te 0 cur st1 = Inr st2" "progress te se k st st2"
      proof (cases "?tid = t_pid (tcb_at st k)")
        case True
        then show thesis using attach_own [OF env Cons.prems(1-3), of 0] ok(2) that [of k ?r] r by auto
      next
        case False
        then show thesis using attach_new [OF env Cons.prems(1) _ ok(2), of 0] go that r by auto
      qed
      have l: "k < length (tcbtab st2)" "inuse (tcb_at st2 k)" using progress_live [OF step(3) Cons.prems(2,3)] by simp_all
      have eq: "attach_threads te se k (d # ds) ntid nerr st = attach_threads te se k ds (ntid + 1) nerr st2"
        using go ok(1) step(1,2) by (simp add: d)
      have "\<exists>ntid' nerr' st'. attach_threads te se k ds (ntid + 1) nerr st2 = Inr (ntid', nerr', st') \<and> progress te se k st2 st'
          \<and> nerr' \<le> ntid' \<and> ntid + 1 - nerr \<le> ntid' - nerr'
          \<and> (is_attached (tcb_at st' k) \<longrightarrow> is_attached (tcb_at st2 k) \<or> ntid + 1 - nerr < ntid' - nerr')"
        using Cons.IH [OF progress_starting [OF step(3)] l, of nerr "ntid + 1"] Cons.prems(4) by simp
      then obtain ntid' nerr' st' where "attach_threads te se k ds (ntid + 1) nerr st2 = Inr (ntid', nerr', st')"
        "progress te se k st2 st'" "nerr' \<le> ntid'" "ntid + 1 - nerr \<le> ntid' - nerr'" by blast
      moreover have "ntid - nerr < ntid + 1 - nerr" using Cons.prems(4) by simp
      ultimately show ?thesis unfolding eq using progress_trans [OF step(3)] by auto
    qed
  qed
qed

subsection \<open>A turn of the loop\<close>

text \<open>What a turn has done: the block is free or attached to, and fewer blocks wait if it waited before.\<close>

definition turned :: "tenv \<Rightarrow> start_env \<Rightarrow> nat \<Rightarrow> strace \<Rightarrow> strace \<Rightarrow> bool" where
  "turned te se k st st' \<longleftrightarrow> starting (Suc k) st' \<and> (covered te se st \<longrightarrow> covered te se st')
     \<and> length (tcbtab st) \<le> length (tcbtab st')
     \<and> (waiting st' \<subset> waiting st \<or> waiting st' = waiting st \<and> length (tcbtab st') = length (tcbtab st))"

lemma turned_attached:
  assumes "progress te se k st st'" "k \<in> waiting st" "is_attached (tcb_at st' k)"
  shows "turned te se k st st'"
proof -
  have "k \<notin> waiting st'" using assms(3) by (simp add: waiting_def)
  then have "waiting st' \<subset> waiting st" using assms(1,2) by (auto simp: progress_def)
  moreover have "starting (Suc k) st'"
    using assms(1,3) table_next [of k _ "tcbtab st'" "nprocs st'"] by (simp add: progress_def starting_def tcb_at_def)
  ultimately show ?thesis using assms(1) by (simp add: turned_def progress_def)
qed

lemma turned_dropped:
  assumes "shared_cfg (cfg_of te)" "progress te se k st st'" "k \<in> waiting st" "\<not> is_attached (tcb_at st' k)"
  shows "turned te se k st (droptcb (cfg_of te) k st')"
proof -
  let ?d = "droptcb (cfg_of te) k st'"
  have l: "k < length (tcbtab st')" "inuse (tcb_at st' k)" using assms(2,3) by (auto simp: progress_def waiting_def)
  have s: "starting k st'" using assms(2) by (rule progress_starting)
  have b: "block_ok k (set (attached_pids st')) k (tcb_at st' k)" using s l(1) by (simp add: starting_def table_ok_def tcb_at_def)
  then have nz: "t_pid (tcb_at st' k) \<noteq> 0" "t_curcol (tcb_at st' k) = 0" using l(2) by (simp_all add: block_ok_def)
  note d = droptcb_fields [OF nz(1), of "cfg_of te"]
  have o: "out ?d = out st'" "attached_pids ?d = attached_pids st'"
    using nz s by (simp_all add: droptcb_def Let_def upd_tcb_def starting_def emit_out_def attached_pids_def tcb_at_def split: option.splits)
  have at: "tcb_at ?d j = (if j = k then tcb_zero else tcb_at st' j)" for j using l(1) by (simp add: d tcb_at_def)
  have len: "length (tcbtab ?d) = length (tcbtab st')" by (simp add: d)
  have "table_ok k (set (attached_pids st')) ((tcbtab st')[k := tcb_zero]) (nprocs st' - 1)"
    using s l by (intro table_drop) (simp_all add: starting_def tcb_at_def)
  then have "table_ok (Suc k) (set (attached_pids st')) ((tcbtab st')[k := tcb_zero]) (nprocs st' - 1)"
    by (rule table_next) (use l(1) in simp)
  then have "starting (Suc k) ?d" using s by (simp add: starting_def d o)
  moreover have "covered te se ?d" if "covered te se st'"
    using that assms(4) unfolding covered_def o len by (metis at)
  moreover have "waiting ?d = waiting st' - {k}" by (auto simp: waiting_def at len)
  ultimately show ?thesis using assms(2,3) len by (auto simp: turned_def progress_def)
qed

lemma starting_next:
  assumes "starting k st" "k < length (tcbtab st) \<Longrightarrow> k \<notin> waiting st"
  shows "turned te se k st st"
proof -
  have "starting (Suc k) st" using assms table_next [of k _ "tcbtab st" "nprocs st"]
    by (auto simp: starting_def waiting_def tcb_at_def)
  then show ?thesis by (simp add: turned_def)
qed

lemma complain_progress: "starting k st \<Longrightarrow> progress te se k st (complain m st)"
  by (rule progress_same) (simp_all add: complain_def attached_pids_def)

lemma attached_msg_progress: "starting k st \<Longrightarrow> progress te se k st (attached_msg te pid n st)"
  using complain_progress progress_refl by (simp add: attached_msg_def)

lemma attach_failed_turned:
  assumes "shared_cfg (cfg_of te)" "progress te se k st st'" "k \<in> waiting st" "\<not> is_attached (tcb_at st' k)"
  shows "turned te se k st (attach_failed te e k st')"
proof -
  have "progress te se k st (complain m st')" for m
    using progress_trans [OF assms(2) complain_progress] progress_starting [OF assms(2)] by blast
  then show ?thesis using assms unfolding attach_failed_def
    by (intro turned_dropped) (simp_all add: tcb_at_def complain_def)
qed

lemma waitingD: "k \<in> waiting st \<Longrightarrow> k < length (tcbtab st) \<and> inuse (tcb_at st k) \<and> \<not> is_attached (tcb_at st k)"
  by (simp add: waiting_def)

lemma attach_group_turned:
  assumes "attach_env te se" "starting k st" "k \<in> waiting st"
  shows "\<exists>st'. attach_group te se k dir st = Inr (interrupted_at se k, st') \<and> (\<not> interrupted_at se k \<longrightarrow> turned te se k st st')"
proof -
  have w: "k < length (tcbtab st)" "inuse (tcb_at st k)" "\<not> is_attached (tcb_at st k)" using waitingD [OF assms(3)] by simp_all
  obtain ntid nerr st' where a: "attach_threads te se k dir 0 0 st = Inr (ntid, nerr, st')" "progress te se k st st'"
    "is_attached (tcb_at st' k) \<longrightarrow> 0 < ntid - nerr"
    using attach_threads_ok [OF assms(1,2) w(1,2), of 0 0 dir] w(3) by auto
  have sh: "shared_cfg (cfg_of te)" using assms(1) by (simp add: attach_env_def)
  let ?m = "attached_msg te (t_pid (tcb_at st' k)) (ntid - nerr) st'"
  have m: "progress te se k st ?m" using progress_trans [OF a(2) attached_msg_progress] progress_starting [OF a(2)] by blast
  have at: "tcb_at ?m k = tcb_at st' k" by (simp add: attached_msg_def complain_def tcb_at_def)
  show ?thesis
  proof (cases "interrupted_at se k")
    case True
    then show ?thesis using a(1) by (auto simp: attach_group_def)
  next
    case False
    show ?thesis
    proof (cases "ntid - nerr = 0")
      case True
      then show ?thesis using a attach_failed_turned [OF sh a(2) assms(3)] False by (simp add: attach_group_def)
    next
      case n: False
      then show ?thesis using a(1) False turned_attached [OF m assms(3)] turned_dropped [OF sh m assms(3)]
        by (simp add: attach_group_def Let_def at)
    qed
  qed
qed

lemma attach_one_turned:
  assumes "attach_env te se" "starting k st" "k \<in> waiting st"
  shows "\<exists>st'. attach_one te se k st = Inr (False, st') \<and> turned te se k st st'"
proof -
  have w: "k < length (tcbtab st)" "inuse (tcb_at st k)" "\<not> is_attached (tcb_at st k)" using waitingD [OF assms(3)] by simp_all
  show ?thesis
  proof (cases rule: attach_cases [OF assms(1,2), of "t_pid (tcb_at st k)", case_names failed ok])
    case (failed e st1)
    have "\<not> is_attached (tcb_at st1 k)" using failed(3) w(3) by (simp add: tcb_at_def)
    then show ?thesis using failed(1) attach_failed_turned [OF _ failed(2) assms(3)] assms(1)
      by (simp add: attach_one_def attach_env_def)
  next
    case ok
    obtain st1 where a: "attached te 0 k (request (Attach (t_pid (tcb_at st k))) st) = Inr st1" "progress te se k st st1"
      "is_attached (tcb_at st1 k)" using attach_own [OF assms(1,2) w(1,2) ok(2), of 0] by blast
    let ?d = "if daemon se \<noteq> None then request (Kill (tracer_ppid se) 9) st1 else st1"
    let ?m = "attached_msg te (t_pid (tcb_at ?d k)) 1 ?d"
    have "progress te se k st1 ?d"
      by (rule progress_same) (use progress_starting [OF a(2)] in \<open>simp_all add: request_def attached_pids_def List.map_filter_def\<close>)
    then have "progress te se k st ?d" using progress_trans [OF a(2)] by blast
    then have "progress te se k st ?m" using progress_trans attached_msg_progress progress_starting by blast
    moreover have "is_attached (tcb_at ?m k)"
      using a(3) by (simp add: attached_msg_def complain_def request_def tcb_at_def)
    ultimately have "turned te se k st ?m" using turned_attached [OF _ assms(3)] by blast
    then show ?thesis using ok(1) a(1) by (simp add: attach_one_def Let_def)
  qed
qed

lemma startup_turn_ok:
  assumes "attach_env te se" "starting k st" "k < length (tcbtab st)"
  shows "\<exists>goto_ret st'. startup_turn te se k st = Inr (goto_ret, st') \<and> (goto_ret \<longrightarrow> interrupted_at se k)
    \<and> (\<not> goto_ret \<longrightarrow> turned te se k st st')"
proof (cases "k \<in> waiting st")
  case False
  then show ?thesis using starting_next [OF assms(2)] assms(3) by (auto simp: startup_turn_def Let_def waiting_def)
next
  case True
  note w = waitingD [OF True]
  show ?thesis
  proof (cases "if followfork (cfg_of te) \<noteq> 0 \<and> daemon se = None then task_dir se k (t_pid (tcb_at st k)) else None")
    case None
    then show ?thesis using attach_one_turned [OF assms(1,2) True] w by (auto simp: startup_turn_def Let_def)
  next
    case (Some dir)
    then show ?thesis using attach_group_turned [OF assms(1,2) True, of dir] w by (auto simp: startup_turn_def Let_def)
  qed
qed

subsection \<open>The loop\<close>

lemma finite_waiting [simp]: "finite (waiting st)"
  by (simp add: waiting_def)

lemma startup_loop_ok:
  assumes env: "attach_env te se"
  shows "starting k st \<Longrightarrow>
    \<exists>st'. startup_loop te se k st = Some (Inr st') \<and> ((\<forall>j. \<not> interrupted_at se j) \<longrightarrow>
      starting (length (tcbtab st')) st' \<and> (covered te se st \<longrightarrow> covered te se st'))"
proof (induction "(card (waiting st), length (tcbtab st) - k)" arbitrary: k st
    rule: wf_induct_rule [OF wf_lex_prod [OF wf_less_than wf_less_than]])
  case (1 k st)
  show ?case
  proof (cases "k < length (tcbtab st)")
    case False
    have "table_ok (length (tcbtab st)) att (tcbtab st) n" if "table_ok k att (tcbtab st) n" for att n
      using that False by (auto simp: table_ok_def block_ok_def)
    then have "starting (length (tcbtab st)) st" using 1(2) by (simp add: starting_def)
    then show ?thesis using False by (simp add: startup_loop.simps)
  next
    case True
    obtain goto_ret st1 where t: "startup_turn te se k st = Inr (goto_ret, st1)" "goto_ret \<longrightarrow> interrupted_at se k"
      "\<not> goto_ret \<longrightarrow> turned te se k st st1" using startup_turn_ok [OF env 1(2) True] by blast
    show ?thesis
    proof (cases goto_ret)
      case True
      then show ?thesis using t \<open>k < length (tcbtab st)\<close> by (auto simp: startup_loop.simps [of te se k])
    next
      case False
      then have tu: "turned te se k st st1" using t(3) by simp
      have less: "((card (waiting st1), length (tcbtab st1) - Suc k), (card (waiting st), length (tcbtab st) - k))
          \<in> less_than <*lex*> less_than"
        using tu True psubset_card_mono [OF finite_waiting] by (auto simp: turned_def)
      have "starting (Suc k) st1" using tu by (simp add: turned_def)
      from 1(1) [OF less this] show ?thesis
        using t(1) False True tu by (subst startup_loop.simps) (auto simp: turned_def)
    qed
  qed
qed

lemma covered_pids:
  assumes "starting (length (tcbtab st)) st"
  shows "tab_ok (tcbtab st) (nprocs st)" "live_pids st \<subseteq> set (attached_pids st)"
    "covered te se st \<Longrightarrow> p \<in> set (attached_pids st) \<Longrightarrow> reachable te se p \<Longrightarrow> p \<in> live_pids st"
proof -
  have t: "table_ok (length (tcbtab st)) (set (attached_pids st)) (tcbtab st) (nprocs st)" using assms by (simp add: starting_def)
  note d = table_done [OF t]
  show tab: "tab_ok (tcbtab st) (nprocs st)" by (rule d(1))
  have b: "block_ok (length (tcbtab st)) (set (attached_pids st)) i (tcb_at st i)" if "i < length (tcbtab st)" for i
    using t that by (simp add: table_ok_def tcb_at_def)
  show "live_pids st \<subseteq> set (attached_pids st)"
  proof
    fix p assume "p \<in> live_pids st"
    then obtain i where i: "i < length (tcbtab st)" "inuse (tcb_at st i)" "t_pid (tcb_at st i) = p"
      by (auto simp: live_pids_def pid2tcb_iff [OF tab])
    then show "p \<in> set (attached_pids st)" using b [OF i(1)] by (auto simp: block_ok_def split: if_splits)
  qed
  show "p \<in> live_pids st" if c: "covered te se st" "p \<in> set (attached_pids st)" "reachable te se p"
  proof -
    obtain i where i: "i < length (tcbtab st)" "is_attached (tcb_at st i)" "t_pid (tcb_at st i) = p"
      using c by (auto simp: covered_def)
    then have "inuse (tcb_at st i)" using b [OF i(1)] by (auto simp: block_ok_def)
    then have "pid2tcb p st = Some i" using i by (simp add: pid2tcb_iff [OF tab])
    then show ?thesis by (simp add: live_pids_def)
  qed
qed

lemma starting_run_ok:
  assumes "starting (length (tcbtab st)) st" "shared_cfg (cfg_of te)" "post_attach_sigstop te AND TCB_INUSE = 0"
  shows "run_ok te st"
proof -
  have t: "table_ok (length (tcbtab st)) (set (attached_pids st)) (tcbtab st) (nprocs st)" using assms(1) by (simp add: starting_def)
  have b: "block_ok (length (tcbtab st)) (set (attached_pids st)) i (tcb_at st i)" if "i < length (tcbtab st)" for i
    using t that by (simp add: table_ok_def tcb_at_def)
  have "tcb_ok st" using assms(1) table_done(1) [OF t] by (simp add: starting_def tcb_ok_def ptr_ok_def)
  moreover have "t_outf (tcb_at st i) \<in> {None, Some SharedLog} \<and> t_curcol (tcb_at st i) = 0" if "i < length (tcbtab st)" for i
    using b [OF that] by (auto simp: block_ok_def split: if_splits)
  then have "log_ok st" using assms(1) by (simp add: log_ok_def starting_def)
  moreover have "\<forall>i < length (tcbtab st). inuse (tcb_at st i) \<longrightarrow> t_outf (tcb_at st i) = Some SharedLog"
    using table_done(2) [OF t] by (simp add: tcb_at_def)
  ultimately show ?thesis using assms(2,3) by (simp add: run_ok_def)
qed

subsection \<open>Option -p\<close>

lemma alloctcb_waiting:
  assumes "starting 0 st" "0 < pid" "\<forall>n. alloc_ok cfg n"
  shows "\<exists>i st'. alloctcb cfg pid st = Inr (i, st') \<and> starting 0 st' \<and> attached_pids st' = attached_pids st"
proof -
  define m where "m = (if nprocs st = length (tcbtab st) then length (tcbtab st) else 0)"
  define tab where "tab = tcbtab st @ replicate m tcb_zero"
  have e: "(if nprocs st = length (tcbtab st) then expand_tcbtab cfg st else Inr st) = Inr (st\<lparr>tcbtab := tab\<rparr>)"
    using assms(3) by (simp add: expand_tcbtab_def Let_def tab_def m_def)
  have tok: "table_ok 0 (set (attached_pids st)) tab (nprocs st)" using assms(1) table_expand by (simp add: starting_def tab_def)
  moreover have "tcbtab st \<noteq> []" "nprocs st \<le> length (tcbtab st)" using assms(1) by (simp_all add: starting_def table_ok_def)
  then have "nprocs st < length tab" by (auto simp: tab_def m_def)
  ultimately obtain i where i: "find_free tab 0 = Some i" using table_room by blast
  then have il: "i < length tab" "\<not> inuse (tab ! i)" using find_free_Some by auto
  let ?n = "new_tcb (current_personality st) pid"
  let ?st = "(upd_tcb i (\<lambda>_. ?n) (st\<lparr>tcbtab := tab\<rparr>))\<lparr>nprocs := nprocs st + 1\<rparr>"
  have al: "alloctcb cfg pid st = Inr (i, ?st)" unfolding alloctcb_def e using i by simp
  have n: "block_ok 0 att i ?n" "\<not> is_attached ?n" "inuse ?n" for att
    using assms(2) by (simp_all add: block_ok_def new_tcb_def tcb_zero_def has_flag_def)
  have "table_ok 0 (set (attached_pids st)) (tab[i := ?n]) (nprocs st + 1)"
    using tok il n length_filter_update [OF il(1), of inuse ?n] by (auto simp: table_ok_def nth_list_update)
  then have "starting 0 ?st" using assms(1) by (simp add: starting_def upd_tcb_def attached_pids_def)
  then show ?thesis using al by (simp add: attached_pids_def upd_tcb_def)
qed

lemma process_opt_p_list_starting:
  "\<forall>n. alloc_ok cfg n \<Longrightarrow> starting 0 st \<Longrightarrow> process_opt_p_list cfg self opt st = Inr st' \<Longrightarrow>
    starting 0 st' \<and> attached_pids st' = attached_pids st"
proof (induction cfg self opt st rule: process_opt_p_list.induct)
  case (1 cfg self opt st)
  let ?w = "takeWhile (\<lambda>c. \<not> is_delim c) opt" and ?r = "dropWhile (\<lambda>c. \<not> is_delim c) opt"
  let ?pid = "string_to_uint ?w"
  show ?case
  proof (cases "opt = []")
    case True
    then show ?thesis using 1 by simp
  next
    case False
    then have pid: "0 < ?pid" "?pid \<noteq> self" using 1(4) by (auto simp: process_opt_p_list.simps [of cfg self opt] Let_def split: if_splits)
    obtain i st1 where a: "alloctcb cfg ?pid st = Inr (i, st1)" "starting 0 st1" "attached_pids st1 = attached_pids st"
      using alloctcb_waiting [OF 1(3) pid(1) 1(2)] by blast
    have eq: "process_opt_p_list cfg self opt st = (if ?r = [] then Inr st1 else process_opt_p_list cfg self (tl ?r) st1)"
      using False pid a(1) by (simp add: process_opt_p_list.simps [of cfg self opt] Let_def)
    show ?thesis
    proof (cases "?r = []")
      case True
      then show ?thesis using eq 1(4) a by simp
    next
      case r: False
      have np: "\<not> ?pid \<le> 0" using pid(1) by simp
      have p: "process_opt_p_list cfg self (tl ?r) st1 = Inr st'" using eq r 1(4) by (simp only: if_False)
      have "starting 0 st' \<and> attached_pids st' = attached_pids st1"
        by (rule 1(1) [OF False refl refl refl np pid(2) a(1) refl r 1(2) a(2) p])
      then show ?thesis using a(3) by simp
    qed
  qed
qed

lemma strace_init_starting: "0 < n \<Longrightarrow> starting 0 (strace_init n) \<and> attached_pids (strace_init n) = []"
  by (simp add: starting_def table_ok_def strace_init_def attached_pids_def List.map_filter_def at_bol_def)

subsection \<open>The search of PATH\<close>

function path_dirs :: "string \<Rightarrow> string list" where
  "path_dirs path =
    (if path = [] then []
     else takeWhile (\<lambda>c. c \<noteq> CHR '':'') path # path_dirs (drop (length (takeWhile (\<lambda>c. c \<noteq> CHR '':'') path) + 1) path))"
  by pat_completeness auto
termination
  by (relation "measure length") auto

declare path_dirs.simps [simp del]

definition dir_of :: "child_env \<Rightarrow> string \<Rightarrow> string option" where
  "dir_of ce d = (if d = [] then getcwd ce else if length d > MAXPATHLEN - 1 then None else Some d)"

definition in_dir :: "string \<Rightarrow> string \<Rightarrow> string" where
  "in_dir d f = d @ (if d \<noteq> [] \<and> last d \<noteq> CHR ''/'' then ''/'' else []) @ f"

text \<open>The pathnames tried, in order.\<close>

definition candidates :: "child_env \<Rightarrow> string \<Rightarrow> string \<Rightarrow> string list" where
  "candidates ce f path = map (\<lambda>d. in_dir d f) (List.map_filter (dir_of ce) (path_dirs path))"

definition path_fits :: "string \<Rightarrow> bool" where
  "path_fits p \<longleftrightarrow> length p < MAXPATHLEN"

text \<open>Where the search ends: at a program, or with a name that does not fit.\<close>

definition ends_search :: "child_env \<Rightarrow> string \<Rightarrow> bool" where
  "ends_search ce p = (if path_fits p then is_program ce p else True)"

lemma join_path_eq: "join_path d f = (if path_fits (in_dir d f) then Inr (in_dir d f) else Inl OutOfBounds)"
  by (simp add: join_path_def in_dir_def path_fits_def Let_def)

lemma candidates_step:
  assumes "path \<noteq> []"
  defines "dir \<equiv> takeWhile (\<lambda>c. c \<noteq> CHR '':'') path"
  shows "candidates ce f path = (case dir_of ce dir of None \<Rightarrow> [] | Some d \<Rightarrow> [in_dir d f]) @ candidates ce f (drop (length dir + 1) path)"
  using assms by (simp add: candidates_def path_dirs.simps [of path] List.map_filter_simps split: option.splits)

lemma path_search_ok:
  "path_search ce f pathname path =
    (case find (ends_search ce) (candidates ce f path) of
       None \<Rightarrow> Inr (last (pathname # candidates ce f path))
     | Some p \<Rightarrow> if path_fits p then Inr p else Inl OutOfBounds)"
proof (induction ce f pathname path rule: path_search.induct)
  case (1 ce f pathname path)
  show ?case
  proof (cases "path = []")
    case True
    then show ?thesis by (simp add: path_search.simps candidates_def path_dirs.simps List.map_filter_simps)
  next
    case False
    let ?dir = "takeWhile (\<lambda>c. c \<noteq> CHR '':'') path"
    have eq: "path_search ce f pathname path = (case dir_of ce ?dir of
        None \<Rightarrow> path_search ce f pathname (drop (length ?dir + 1) path)
      | Some d \<Rightarrow> sbind (join_path d f) (\<lambda>pathname.
          if is_program ce pathname then Inr pathname else path_search ce f pathname (drop (length ?dir + 1) path)))"
      using False unfolding path_search.simps [of ce f pathname path] dir_of_def Let_def by (simp only: if_False)
    let ?rest = "drop (length ?dir + 1) path"
    note cs = candidates_step [OF False, of ce f]
    show ?thesis
    proof (cases "dir_of ce ?dir")
      case None
      note IH = 1(1) [OF False refl refl, folded dir_of_def, OF None]
      show ?thesis unfolding eq cs None option.case append_Nil by (rule IH)
    next
      case (Some d)
      show ?thesis
      proof (cases "path_fits (in_dir d f) \<and> \<not> is_program ce (in_dir d f)")
        case True
        then have j: "join_path d f = Inr (in_dir d f)" "\<not> is_program ce (in_dir d f)" by (simp_all add: join_path_eq)
        note IH = 1(2) [OF False refl refl, folded dir_of_def, OF Some j]
        have "path_search ce f pathname path = path_search ce f (in_dir d f) ?rest" using j by (simp add: eq Some)
        moreover have "find (ends_search ce) (candidates ce f path)
            = find (ends_search ce) (candidates ce f ?rest)"
          using True unfolding cs Some option.case by (simp add: ends_search_def)
        moreover have "last (pathname # candidates ce f path) = last (in_dir d f # candidates ce f ?rest)"
          unfolding cs Some option.case by simp
        ultimately show ?thesis using IH by (simp only:)
      next
        case f: False
        then have "find (ends_search ce) (candidates ce f path) = Some (in_dir d f)"
          unfolding cs Some option.case by (auto simp: ends_search_def)
        then show ?thesis using f unfolding eq Some option.case join_path_eq by auto
      qed
    qed
  qed
qed

text \<open>A name without a slash that is as long as the buffer: it does not fit behind any directory.\<close>

lemma path_search_overflows:
  assumes "candidates ce f path \<noteq> []" "MAXPATHLEN \<le> length f"
  shows "path_search ce f pathname path = Inl OutOfBounds"
proof -
  have "\<forall>p \<in> set (candidates ce f path). \<not> path_fits p"
    using assms(2) by (auto simp: candidates_def in_dir_def path_fits_def)
  moreover obtain p ps where "candidates ce f path = p # ps" using assms(1) by (cases "candidates ce f path") auto
  ultimately show ?thesis by (simp add: path_search_ok ends_search_def)
qed

subsection \<open>Starting a program\<close>

lemma attached_total:
  assumes "shared_cfg (cfg_of te)"
  shows "\<exists>st'. attached te extra i st = Inr st'"
  using assms by (simp add: attached_def newoutf_def shared_cfg_def Let_def)

lemma live_pids_new:
  assumes "\<And>q. pid2tcb q st' = (if q = pid then Some i else pid2tcb q st)"
  shows "live_pids st' = insert pid (live_pids st)"
  using assms by (auto simp: live_pids_def)

lemma start_child_block:
  assumes "run_ok te st" "\<forall>n. alloc_ok (cfg_of te) n" "0 < pid" "pid2tcb pid st = None" "extra AND TCB_INUSE = 0"
  shows "\<exists>i st1 st'. alloctcb (cfg_of te) pid st = Inr (i, st1) \<and> attached te extra i st1 = Inr st' \<and> run_ok te st'
    \<and> pid2tcb pid st' = Some i \<and> live_pids st' = insert pid (live_pids st)
    \<and> t_flags (tcb_at st' i) = TCB_INUSE OR (TCB_ATTACHED OR extra OR TCB_STARTUP OR post_attach_sigstop te)"
proof -
  have sh: "shared_cfg (cfg_of te)" "tcb_ok st" "post_attach_sigstop te AND TCB_INUSE = 0" using assms(1) by (simp_all add: run_ok_def)
  have fl: "(TCB_ATTACHED OR extra OR TCB_STARTUP OR post_attach_sigstop te) AND TCB_INUSE = 0"
    using sh(3) assms(5) by (simp add: bit.conj_disj_distrib2)
  obtain i st1 where a: "alloctcb (cfg_of te) pid st = Inr (i, st1)"
  proof (cases rule: alloctcb_cases [OF sh(2) assms(3,4), of "cfg_of te", case_names oom fresh])
    case oom
    then show thesis using assms(2) by (auto simp: alloctcb_def expand_tcbtab_def Let_def split: if_splits option.splits)
  qed (use that in blast)
  obtain st' where n: "attached te extra i st1 = Inr st'" using attached_total [OF sh(1)] by blast
  note new = new_process_ok [OF assms(1,3,4) a fl n [unfolded attached_def]]
  show ?thesis using a n new(1,5) new(6) [of pid] live_pids_new [OF new(6)] by auto
qed

lemma seize_child_ok:
  assumes "attach_env te se" "attach_error se (attached_pids st) pid = None" "reachable te se pid"
    "use_seize te \<Longrightarrow> \<exists>status. wait_child (child_waits ce) = Some (Inr status) \<and> wifstopped status \<and> wstopsig status = SIGSTOP"
  shows "\<exists>rs. seize_child te se ce pid st = Some (Inr (st\<lparr>reqs := reqs st @ rs\<rparr>))"
proof (cases "use_seize te")
  case False
  then show ?thesis by (intro exI [of _ "[]"]) (simp add: seize_child_def)
next
  case True
  then obtain status where "wait_child (child_waits ce) = Some (Inr status)" "wifstopped status" "wstopsig status = SIGSTOP"
    using assms(4) by blast
  then show ?thesis using True assms(2,3)
    by (intro exI [of _ "[Attach pid, Kill pid 18]"]) (simp add: seize_child_def ptrace_attach_or_seize_def reachable_def request_def)
qed

subsection \<open>Properties\<close>

text \<open>
  Option \<^verbatim>\<open>-p\<close>: after \<open>process_opt_p_list\<close> has filled the table, \<open>startup_attach\<close> returns, whatever the directories of
  \<^verbatim>\<open>/proc\<close> list and however often a process is named, and the state it returns satisfies the invariant of
  the main loop. Every block belongs to a process strace is attached to; every process it
  attached to has its block, exactly one since pids are unique in the table (with \<^verbatim>\<open>PTRACE_SEIZE\<close>, if the
  process could also be interrupted). The kernel is assumed to attach a process at most once; memory suffices, and no
  fatal signal comes in between.
\<close>

theorem p_option_ready:
  assumes "attach_env te se" "daemon se = None" "\<forall>j. \<not> interrupted_at se j" "post_attach_sigstop te AND TCB_INUSE = 0"
    and "0 < n" "process_opt_p_list (cfg_of te) self opt (strace_init n) = Inr st0"
  shows "\<exists>st. startup_attach te se st0 = Some (Inr st) \<and> run_ok te st
    \<and> live_pids st \<subseteq> set (attached_pids st)
    \<and> (\<forall>p \<in> set (attached_pids st). reachable te se p \<longrightarrow> p \<in> live_pids st)
    \<and> (\<forall>i < length (tcbtab st). inuse (tcb_at st i) \<longrightarrow> has_flag (tcb_at st i) TCB_ATTACHED)"
proof -
  have sh: "shared_cfg (cfg_of te)" "\<forall>n. alloc_ok (cfg_of te) n" using assms(1) by (simp_all add: attach_env_def)
  have s0: "starting 0 st0" "attached_pids st0 = []"
    using process_opt_p_list_starting [OF sh(2) _ assms(6)] strace_init_starting [OF assms(5)] by auto
  then have "covered te se st0" by (simp add: covered_def)
  then obtain st where st: "startup_loop te se 0 st0 = Some (Inr st)" "starting (length (tcbtab st)) st" "covered te se st"
    using startup_loop_ok [OF assms(1) s0(1)] assms(3) by blast
  have "\<forall>i < length (tcbtab st). inuse (tcb_at st i) \<longrightarrow> has_flag (tcb_at st i) TCB_ATTACHED"
    using st(2) by (auto simp: starting_def table_ok_def block_ok_def tcb_at_def split: if_splits)
  moreover have "startup_attach te se st0 = Some (Inr st)" using st(1) assms(2) by (simp add: startup_attach_def)
  ultimately show ?thesis using starting_run_ok [OF st(2) sh(1) assms(4)] covered_pids(2,3) [OF st(2)] st(3) by blast
qed

definition start_plain :: start_env where
  "start_plain = \<lparr>task_dir = (\<lambda>_ _. None), attach_error = (\<lambda>att p. if p \<in> set att then Some EPERM else None),
     interrupt_error = (\<lambda>_. None), interrupted_at = (\<lambda>_. False), errno_at = (\<lambda>_. EPERM), daemon = None,
     tracee_ppid = 1, tracer_ppid = 1\<rparr>"

lemma start_plain_ok: "attach_env tenv_plain start_plain" "daemon start_plain = None" "\<not> interrupted_at start_plain j"
  "post_attach_sigstop tenv_plain AND TCB_INUSE = 0" "reachable tenv_plain start_plain p"
proof -
  show "attach_env tenv_plain start_plain"
    by (simp add: attach_env_def start_plain_def tenv_plain_def senv_plain_def config_plain_def shared_cfg_def)
qed (simp_all add: start_plain_def reachable_def tenv_plain_def)

theorem p_option_ready_witness:
  "\<exists>st0 st. process_opt_p_list (cfg_of tenv_plain) 1 ''7,7'' (strace_init 1) = Inr st0
     \<and> startup_attach tenv_plain start_plain st0 = Some (Inr st) \<and> run_ok tenv_plain st"
proof -
  have "case process_opt_p_list (cfg_of tenv_plain) 1 ''7,7'' (strace_init 1) of Inl _ \<Rightarrow> False | Inr _ \<Rightarrow> True"
    by code_simp
  then obtain st0 where p: "process_opt_p_list (cfg_of tenv_plain) 1 ''7,7'' (strace_init 1) = Inr st0"
    by (auto split: sum.splits)
  show ?thesis
    using p_option_ready [OF start_plain_ok(1,2) _ start_plain_ok(4) _ p] start_plain_ok(3) p by auto
qed

text \<open>
  \<open>startup_child\<close> without \<^verbatim>\<open>-D\<close>: once a program is found, \<open>fork\<close> succeeds and the child has stopped
  itself and is seized, the tracer goes on in a state that satisfies the invariant of the main loop and whose table
  holds the child, marked as the tracer's own child and as attached to, and nothing else that was not in it before.
\<close>

theorem startup_child_ready:
  assumes "run_ok te st" "attach_env te se" "daemon se = None" "find_program ce filename = Inr pathname"
    and "fork_pid ce = Inr pid" "0 < pid" "pid \<notin> live_pids st"
    and "attach_error se (attached_pids st) pid = None" "reachable te se pid"
    and "use_seize te \<Longrightarrow> \<exists>status. wait_child (child_waits ce) = Some (Inr status) \<and> wifstopped status \<and> wstopsig status = SIGSTOP"
  shows "\<exists>st' i. startup_child te se ce filename st = Some (Inr st') \<and> run_ok te st'
    \<and> live_pids st' = insert pid (live_pids st) \<and> pid2tcb pid st' = Some i
    \<and> has_flag (tcb_at st' i) TCB_STRACE_CHILD \<and> has_flag (tcb_at st' i) TCB_ATTACHED"
proof -
  obtain rs where s: "seize_child te se ce pid st = Some (Inr (st\<lparr>reqs := reqs st @ rs\<rparr>))"
    using seize_child_ok [OF assms(2,8,9,10)] by blast
  let ?st = "st\<lparr>reqs := reqs st @ rs\<rparr>"
  have r: "run_ok te ?st" using assms(1) run_ok_cur [OF assms(1)] by (intro run_ok_globals [OF assms(1)]) simp_all
  have look: "pid2tcb q ?st = pid2tcb q st" for q by (simp add: pid2tcb_def)
  have none: "pid2tcb pid ?st = None" using assms(7) by (simp add: look live_pids_def)
  have al: "\<forall>n. alloc_ok (cfg_of te) n" using assms(2) by (simp add: attach_env_def)
  obtain i st1 st' where n: "alloctcb (cfg_of te) pid ?st = Inr (i, st1)" "attached te TCB_STRACE_CHILD i st1 = Inr st'"
    "run_ok te st'" "pid2tcb pid st' = Some i" "live_pids st' = insert pid (live_pids ?st)"
    "t_flags (tcb_at st' i) = TCB_INUSE OR (TCB_ATTACHED OR TCB_STRACE_CHILD OR TCB_STARTUP OR post_attach_sigstop te)"
    using start_child_block [OF r al assms(6) none, of TCB_STRACE_CHILD] by auto
  have "startup_child te se ce filename st = Some (Inr st')"
    using assms(3-5) s n(1,2) by (simp add: startup_child_def to_start_def)
  moreover have "live_pids ?st = live_pids st" by (simp add: live_pids_def look)
  moreover have "has_flag (tcb_at st' i) TCB_STRACE_CHILD" "has_flag (tcb_at st' i) TCB_ATTACHED"
    by (simp_all add: has_flag_def n(6) bit.conj_disj_distrib2 or_eq_0_iff)
  ultimately show ?thesis using n(3-5) by auto
qed

definition child_plain :: child_env where
  "child_plain = \<lparr>path_var = Some ''/bin'', getcwd = None, stat_mode = (\<lambda>p. if p = ''/bin/ls'' then Inr 0x81ed else Inl (Errno 2)),
     garbage = [], fork_pid = Inr 8, child_waits = [Inl EINTR, Inr 0x137f]\<rparr>"

theorem startup_child_ready_witness:
  "\<exists>st' i. startup_child tenv_plain start_plain child_plain ''ls'' process_0 = Some (Inr st') \<and> run_ok tenv_plain st'
    \<and> live_pids st' = insert 8 (live_pids process_0) \<and> pid2tcb 8 st' = Some i
    \<and> has_flag (tcb_at st' i) TCB_STRACE_CHILD \<and> has_flag (tcb_at st' i) TCB_ATTACHED"
proof (rule startup_child_ready [where pathname = "''/bin/ls''", OF process_0_run_ok start_plain_ok(1,2)])
  show "find_program child_plain ''ls'' = Inr ''/bin/ls''" by code_simp
  show "8 \<notin> live_pids process_0" by (simp add: process_0_pids)
  show "attach_error start_plain (attached_pids process_0) 8 = None"
    by (simp add: start_plain_def attached_pids_def process_0_def strace_init_def List.map_filter_def)
  show "\<exists>status. wait_child (child_waits child_plain) = Some (Inr status) \<and> wifstopped status \<and> wstopsig status = SIGSTOP"
    by (simp add: child_plain_def wifstopped_def wstopsig_def)
qed (simp_all add: child_plain_def start_plain_ok)

text \<open>
  C36. The search of \<^verbatim>\<open>PATH\<close> in \<open>startup_child\<close> finds the first regular file with an execute bit among the names
  formed with the directories of the variable, in their order, where an empty name stands for the current
  directory; without such a file the last name tried is used, and if none was tried, what the
  buffer held. The names are formed in a buffer of 4096 bytes without a check: if one of those tried does not fit, the
  search stores outside of it.
\<close>

theorem path_search_finds_first:
  "path_search ce f pathname path =
    (case find (ends_search ce) (candidates ce f path) of
       None \<Rightarrow> Inr (last (pathname # candidates ce f path))
     | Some p \<Rightarrow> if path_fits p then Inr p else Inl OutOfBounds)"
  by (rule path_search_ok)

end
