(* ===== verification/Init_Options.thy ===== *)
theory Init_Options
  imports Init Startup_Correct Pathtrace_Correct
begin

text \<open>
  What the options of the command line do: each option changes the variables it is for, and the loop over the options
  leaves them as the options denote, whatever their order. The process table stays ready for the start.
\<close>

subsection \<open>One option\<close>

definition opt_count :: "char \<Rightarrow> (char \<times> string) list \<Rightarrow> nat" where
  "opt_count c os = length (filter (\<lambda>x. fst x = c) os)"

definition opt_given :: "char \<Rightarrow> (char \<times> string) list \<Rightarrow> bool" where
  "opt_given c os \<longleftrightarrow> c \<in> fst ` set os"

fun opt_last :: "char \<Rightarrow> (string \<Rightarrow> 'a) \<Rightarrow> (char \<times> string) list \<Rightarrow> 'a \<Rightarrow> 'a" where
  "opt_last c f [] v = v"
| "opt_last c f (x # os) v = opt_last c f os (if fst x = c then f (snd x) else v)"

lemma opt_simps [simp]:
  "opt_count c [] = 0" "opt_count c (x # os) = (if fst x = c then 1 else 0) + opt_count c os"
  "\<not> opt_given c []" "opt_given c (x # os) \<longleftrightarrow> fst x = c \<or> opt_given c os"
  by (auto simp: opt_count_def opt_given_def)

lemma opt_count_zero: "0 < opt_count c os \<longleftrightarrow> opt_given c os"
  by (induction os) auto

text \<open>What one option does to the variables.\<close>

lemma init_option_counters:
  assumes "init_option ie c a g = Inr g'"
  shows "g_followfork g' = g_followfork g + (if c = CHR ''f'' then 1 else 0)"
    "g_qflag g' = g_qflag g + (if c = CHR ''q'' then 1 else 0)"
    "g_xflag g' = g_xflag g + (if c = CHR ''x'' then 1 else 0)"
    "g_tflag g' = g_tflag g + (if c = CHR ''t'' \<or> c = CHR ''r'' then 1 else 0)"
  using assms unfolding init_option_def
  by (auto simp: opt_qualify_def Let_def split: if_splits sum.splits)

lemma init_option_flags:
  assumes "init_option ie c a g = Inr g'"
  shows "g_optF g' = (if c = CHR ''F'' then 1 else g_optF g)"
    "g_daemonized_tracer g' \<longleftrightarrow> c = CHR ''D'' \<or> g_daemonized_tracer g"
    "g_detach_on_execve g' \<longleftrightarrow> c = CHR ''b'' \<or> g_detach_on_execve g"
    "g_rflag g' \<longleftrightarrow> c = CHR ''r'' \<or> g_rflag g"
    "g_iflag g' \<longleftrightarrow> c = CHR ''i'' \<or> g_iflag g"
    "g_Tflag g' \<longleftrightarrow> c = CHR ''T'' \<or> g_Tflag g"
    "g_show_fd_path g' \<longleftrightarrow> c = CHR ''y'' \<or> g_show_fd_path g"
    "g_not_failing_only g' \<longleftrightarrow> c = CHR ''z'' \<or> g_not_failing_only g"
  using assms unfolding init_option_def
  by (auto simp: opt_qualify_def Let_def split: if_splits sum.splits)

lemma init_option_cflag:
  assumes "init_option ie c a g = Inr g'"
  shows "g_cflag g' = (if c = CHR ''c'' then CFLAG_ONLY_STATS else if c = CHR ''C'' then CFLAG_BOTH else g_cflag g)"
    "c = CHR ''c'' \<Longrightarrow> g_cflag g \<noteq> CFLAG_BOTH" "c = CHR ''C'' \<Longrightarrow> g_cflag g \<noteq> CFLAG_ONLY_STATS"
  using assms unfolding init_option_def
  by (auto simp: opt_qualify_def Let_def split: if_splits sum.splits)

lemma init_option_args:
  assumes "init_option ie c a g = Inr g'"
  shows "g_outfname g' = (if c = CHR ''o'' then Some a else g_outfname g)"
    "g_username g' = (if c = CHR ''u'' then Some a else g_username g)"
    "g_acolumn g' = (if c = CHR ''a'' then nat (string_to_uint a) else g_acolumn g)"
    "g_max_strlen g' = (if c = CHR ''s'' then nat (string_to_uint a) else g_max_strlen g)"
    "g_opt_intr g' = (if c = CHR ''I'' then nat (string_to_uint a) else g_opt_intr g)"
    "g_environ g' = g_environ g @ (if c = CHR ''E'' then [a] else [])"
  using assms unfolding init_option_def
  by (auto simp: opt_qualify_def Let_def split: if_splits sum.splits)

lemma init_option_valid:
  assumes "init_option ie c a g = Inr g'"
  shows "c \<in> {CHR ''a'', CHR ''s'', CHR ''O''} \<longrightarrow> 0 \<le> string_to_uint a" "c = CHR ''I'' \<longrightarrow> string_to_uint a \<in> {1..4}"
    "c = CHR ''b'' \<longrightarrow> a = ''execve''" "c \<notin> {CHR ''h'', CHR ''V'', CHR ''?''}"
  using assms unfolding init_option_def
  by (auto simp: opt_qualify_def Let_def split: if_splits sum.splits)

definition adds_pids :: "nat \<Rightarrow> nat \<Rightarrow> bool \<Rightarrow> bool" where
  "adds_pids n n' b \<longleftrightarrow> (if b then n < n' else n' = n)"

lemma alloctcb_nprocs: "alloctcb cfg pid st = Inr (i, st') \<Longrightarrow> nprocs st' = nprocs st + 1"
  by (auto simp: alloctcb_def expand_tcbtab_def Let_def upd_tcb_def split: if_splits option.splits sum.splits)

lemma process_opt_p_list_nprocs:
  "process_opt_p_list cfg self opt st = Inr st' \<Longrightarrow> adds_pids (nprocs st) (nprocs st') (opt \<noteq> [])"
proof (induction cfg self opt st rule: process_opt_p_list.induct)
  case (1 cfg self opt st)
  let ?w = "takeWhile (\<lambda>c. \<not> is_delim c) opt" and ?r = "dropWhile (\<lambda>c. \<not> is_delim c) opt"
  let ?pid = "string_to_uint ?w"
  show ?case
  proof (cases "opt = []")
    case True
    then show ?thesis using 1 by (simp add: adds_pids_def process_opt_p_list.simps [of cfg self "[]"] del: process_opt_p_list.simps)
  next
    case False
    have ne: "\<not> ?pid \<le> 0" "?pid \<noteq> self"
      using 1(2) False by (auto simp: process_opt_p_list.simps [of cfg self opt] Let_def simp del: process_opt_p_list.simps split: if_splits)
    then obtain i st1 where a: "alloctcb cfg ?pid st = Inr (i, st1)"
      using 1(2) False
      by (auto simp: process_opt_p_list.simps [of cfg self opt] Let_def simp del: process_opt_p_list.simps split: sum.splits prod.splits)
    have eq: "process_opt_p_list cfg self opt st = (if ?r = [] then Inr st1 else process_opt_p_list cfg self (tl ?r) st1)"
      using False ne a by (simp add: process_opt_p_list.simps [of cfg self opt] Let_def del: process_opt_p_list.simps)
    show ?thesis
    proof (cases "?r = []")
      case True
      then show ?thesis using eq 1(2) alloctcb_nprocs [OF a] False by (simp add: adds_pids_def del: process_opt_p_list.simps)
    next
      case r: False
      have p: "process_opt_p_list cfg self (tl ?r) st1 = Inr st'" using eq r 1(2) by (simp only: if_False)
      have "adds_pids (nprocs st1) (nprocs st') (tl ?r \<noteq> [])"
        by (rule 1(1) [OF False refl refl refl ne a refl r p])
      then show ?thesis using alloctcb_nprocs [OF a] False by (auto simp: adds_pids_def simp del: process_opt_p_list.simps split: if_splits)
    qed
  qed
qed

lemma init_option_nprocs:
  assumes "init_option ie c a g = Inr g'"
  shows "adds_pids (nprocs (g_st g)) (nprocs (g_st g')) (c = CHR ''p'' \<and> a \<noteq> [])"
proof -
  have m: "nprocs (fold complain ms st) = nprocs st" for ms st by (induction ms arbitrary: st) (simp_all add: complain_def)
  show ?thesis using assms process_opt_p_list_nprocs unfolding init_option_def
    by (auto simp: opt_qualify_def Let_def adds_pids_def m simp del: process_opt_p_list.simps split: if_splits sum.splits)
qed

subsection \<open>The loop over the options\<close>

lemma init_options_Cons:
  assumes "init_options ie ((c, a) # os) g = Inr g'"
  obtains g1 where "init_option ie c a g = Inr g1" "init_options ie os g1 = Inr g'"
  using assms by (cases "init_option ie c a g") auto

lemma init_options_counters:
  "init_options ie os g = Inr g' \<Longrightarrow>
    g_followfork g' = g_followfork g + opt_count CHR ''f'' os \<and> g_qflag g' = g_qflag g + opt_count CHR ''q'' os
    \<and> g_xflag g' = g_xflag g + opt_count CHR ''x'' os
    \<and> g_tflag g' = g_tflag g + opt_count CHR ''t'' os + opt_count CHR ''r'' os"
proof (induction os arbitrary: g)
  case (Cons x os)
  obtain c a where x: "x = (c, a)" by (cases x)
  obtain g1 where s: "init_option ie c a g = Inr g1" "init_options ie os g1 = Inr g'"
    using Cons.prems unfolding x by (rule init_options_Cons)
  show ?case using Cons.IH [OF s(2)] init_option_counters [OF s(1)] by (simp add: x)
qed simp

lemma init_options_flags:
  "init_options ie os g = Inr g' \<Longrightarrow>
    g_optF g' = (if opt_given CHR ''F'' os then 1 else g_optF g)
    \<and> (g_daemonized_tracer g' \<longleftrightarrow> opt_given CHR ''D'' os \<or> g_daemonized_tracer g)
    \<and> (g_detach_on_execve g' \<longleftrightarrow> opt_given CHR ''b'' os \<or> g_detach_on_execve g)
    \<and> (g_rflag g' \<longleftrightarrow> opt_given CHR ''r'' os \<or> g_rflag g)
    \<and> (g_iflag g' \<longleftrightarrow> opt_given CHR ''i'' os \<or> g_iflag g)
    \<and> (g_Tflag g' \<longleftrightarrow> opt_given CHR ''T'' os \<or> g_Tflag g)
    \<and> (g_show_fd_path g' \<longleftrightarrow> opt_given CHR ''y'' os \<or> g_show_fd_path g)
    \<and> (g_not_failing_only g' \<longleftrightarrow> opt_given CHR ''z'' os \<or> g_not_failing_only g)"
proof (induction os arbitrary: g)
  case (Cons x os)
  obtain c a where x: "x = (c, a)" by (cases x)
  obtain g1 where s: "init_option ie c a g = Inr g1" "init_options ie os g1 = Inr g'"
    using Cons.prems unfolding x by (rule init_options_Cons)
  show ?case using Cons.IH [OF s(2)] init_option_flags [OF s(1)] by (simp add: x disj_ac)
qed simp

lemma init_options_cflag:
  "init_options ie os g = Inr g' \<Longrightarrow>
    g_cflag g' = (if opt_given CHR ''c'' os then CFLAG_ONLY_STATS else if opt_given CHR ''C'' os then CFLAG_BOTH else g_cflag g)
    \<and> (opt_given CHR ''c'' os \<longrightarrow> g_cflag g \<noteq> CFLAG_BOTH \<and> \<not> opt_given CHR ''C'' os)
    \<and> (opt_given CHR ''C'' os \<longrightarrow> g_cflag g \<noteq> CFLAG_ONLY_STATS)"
proof (induction os arbitrary: g)
  case (Cons x os)
  obtain c a where x: "x = (c, a)" by (cases x)
  obtain g1 where s: "init_option ie c a g = Inr g1" "init_options ie os g1 = Inr g'"
    using Cons.prems unfolding x by (rule init_options_Cons)
  show ?case using Cons.IH [OF s(2)] init_option_cflag [OF s(1)] by (auto simp: x split: if_splits)
qed simp

lemma init_options_args:
  "init_options ie os g = Inr g' \<Longrightarrow>
    g_outfname g' = opt_last CHR ''o'' Some os (g_outfname g) \<and> g_username g' = opt_last CHR ''u'' Some os (g_username g)
    \<and> g_acolumn g' = opt_last CHR ''a'' (\<lambda>s. nat (string_to_uint s)) os (g_acolumn g)
    \<and> g_max_strlen g' = opt_last CHR ''s'' (\<lambda>s. nat (string_to_uint s)) os (g_max_strlen g)
    \<and> g_opt_intr g' = opt_last CHR ''I'' (\<lambda>s. nat (string_to_uint s)) os (g_opt_intr g)
    \<and> g_environ g' = g_environ g @ map snd (filter (\<lambda>x. fst x = CHR ''E'') os)"
proof (induction os arbitrary: g)
  case (Cons x os)
  obtain c a where x: "x = (c, a)" by (cases x)
  obtain g1 where s: "init_option ie c a g = Inr g1" "init_options ie os g1 = Inr g'"
    using Cons.prems unfolding x by (rule init_options_Cons)
  show ?case using Cons.IH [OF s(2)] init_option_args [OF s(1)] by (simp add: x)
qed simp

text \<open>The arguments that are accepted.\<close>

definition arg_valid :: "char \<times> string \<Rightarrow> bool" where
  "arg_valid = (\<lambda>(c, a). (c \<in> {CHR ''a'', CHR ''s'', CHR ''O''} \<longrightarrow> 0 \<le> string_to_uint a)
     \<and> (c = CHR ''I'' \<longrightarrow> string_to_uint a \<in> {1..4}) \<and> (c = CHR ''b'' \<longrightarrow> a = ''execve'') \<and> c \<notin> {CHR ''h'', CHR ''V'', CHR ''?''})"

lemma init_options_valid: "init_options ie os g = Inr g' \<Longrightarrow> list_all arg_valid os"
proof (induction os arbitrary: g)
  case (Cons x os)
  obtain c a where x: "x = (c, a)" by (cases x)
  obtain g1 where s: "init_option ie c a g = Inr g1" "init_options ie os g1 = Inr g'"
    using Cons.prems unfolding x by (rule init_options_Cons)
  show ?case using Cons.IH [OF s(2)] init_option_valid [OF s(1)] by (simp add: x arg_valid_def)
qed simp

lemma init_options_nprocs:
  "init_options ie os g = Inr g' \<Longrightarrow>
    adds_pids (nprocs (g_st g)) (nprocs (g_st g')) (\<exists>a. (CHR ''p'', a) \<in> set os \<and> a \<noteq> [])"
proof (induction os arbitrary: g)
  case (Cons x os)
  obtain c a where x: "x = (c, a)" by (cases x)
  obtain g1 where s: "init_option ie c a g = Inr g1" "init_options ie os g1 = Inr g'"
    using Cons.prems unfolding x by (rule init_options_Cons)
  show ?case using Cons.IH [OF s(2)] init_option_nprocs [OF s(1)] by (auto simp: x adds_pids_def split: if_splits)
qed (simp add: adds_pids_def)

subsection \<open>The settings that a command line denotes\<close>

definition settings :: "(char \<times> string) list \<Rightarrow> globals \<Rightarrow> bool" where
  "settings os g \<longleftrightarrow>
    g_followfork g = (if opt_given CHR ''f'' os then opt_count CHR ''f'' os else if opt_given CHR ''F'' os then 1 else 0)
    \<and> g_qflag g = opt_count CHR ''q'' os \<and> g_xflag g = opt_count CHR ''x'' os
    \<and> g_tflag g = opt_count CHR ''t'' os + opt_count CHR ''r'' os
    \<and> (g_rflag g \<longleftrightarrow> opt_given CHR ''r'' os) \<and> (g_iflag g \<longleftrightarrow> opt_given CHR ''i'' os) \<and> (g_Tflag g \<longleftrightarrow> opt_given CHR ''T'' os)
    \<and> (g_show_fd_path g \<longleftrightarrow> opt_given CHR ''y'' os) \<and> (g_not_failing_only g \<longleftrightarrow> opt_given CHR ''z'' os)
    \<and> (g_detach_on_execve g \<longleftrightarrow> opt_given CHR ''b'' os) \<and> (g_daemonized_tracer g \<longleftrightarrow> opt_given CHR ''D'' os)
    \<and> g_cflag g = (if opt_given CHR ''c'' os then CFLAG_ONLY_STATS else if opt_given CHR ''C'' os then CFLAG_BOTH else CFLAG_NONE)
    \<and> g_outfname g = opt_last CHR ''o'' Some os None \<and> g_username g = opt_last CHR ''u'' Some os None
    \<and> g_acolumn g = opt_last CHR ''a'' (\<lambda>s. nat (string_to_uint s)) os 40
    \<and> g_max_strlen g = opt_last CHR ''s'' (\<lambda>s. nat (string_to_uint s)) os 32
    \<and> g_opt_intr g = opt_last CHR ''I'' (\<lambda>s. nat (string_to_uint s)) os 0
    \<and> g_environ g = map snd (filter (\<lambda>x. fst x = CHR ''E'') os)"

text \<open>The combinations that are refused; \<open>PROG\<close> says whether a program is named.\<close>

definition conflict :: "(char \<times> string) list \<Rightarrow> bool \<Rightarrow> bool" where
  "conflict os PROG \<longleftrightarrow>
    (let pids = (\<exists>a. (CHR ''p'', a) \<in> set os \<and> a \<noteq> [])
     in PROG = pids \<or> pids \<and> opt_given CHR ''D'' os \<or> opt_given CHR ''c'' os \<and> opt_given CHR ''C'' os
        \<or> opt_count CHR ''f'' os \<ge> 2 \<and> (opt_given CHR ''c'' os \<or> opt_given CHR ''C'' os))"

lemma opt_qualify_only: "opt_qualify ie s g = Inr g' \<Longrightarrow> \<exists>q. g' = g\<lparr>g_quals := q\<rparr>"
  by (auto simp: opt_qualify_def split: sum.splits)

lemma init_defaults_only:
  assumes "init_defaults ie argc = Inr g"
  shows "\<exists>q. g = (globals_zero argc)\<lparr>g_quals := q\<rparr>"
proof -
  obtain g1 g2 g3 where "opt_qualify ie ''trace=all'' (globals_zero argc) = Inr g1" "opt_qualify ie ''abbrev=all'' g1 = Inr g2"
    "opt_qualify ie ''verbose=all'' g2 = Inr g3" "opt_qualify ie ''signal=all'' g3 = Inr g"
    using assms by (auto simp: init_defaults_def sbind_eq_Inr split: if_splits)
  then show ?thesis by (auto dest!: opt_qualify_only)
qed

lemma init_parse_ok:
  assumes "init_parse ie args = Inr (argv, g)"
  shows "\<exists>os. getopts args = (os, argv) \<and> settings os g \<and> list_all arg_valid os \<and> \<not> conflict os (argv \<noteq> [])"
proof -
  obtain os g0 g1 where p: "getopts args = (os, argv)" "init_defaults ie (length args + 1) = Inr g0"
    "init_options ie os g0 = Inr g1" "init_check ie argv g1 = Inr g"
    using assms by (auto simp: init_parse_def sbind_eq_Inr split: prod.splits)
  obtain q where g0: "g0 = (globals_zero (length args + 1))\<lparr>g_quals := q\<rparr>" using init_defaults_only [OF p(2)] by blast
  note [simp] = globals_zero_def strace_init_def
  note l = init_options_counters [OF p(3)] init_options_flags [OF p(3)] init_options_cflag [OF p(3)] init_options_args [OF p(3)]
    init_options_nprocs [OF p(3)]
  have g: "g = (if g_followfork g1 = 0 then g1\<lparr>g_followfork := g_optF g1\<rparr> else g1)"
    "(argv = []) \<noteq> (nprocs (g_st g1) = 0)" "\<not> (nprocs (g_st g1) \<noteq> 0 \<and> g_daemonized_tracer g1)"
    "\<not> (g_followfork g \<ge> 2 \<and> g_cflag g \<noteq> CFLAG_NONE)"
    using p(4) by (auto simp: init_check_def Let_def split: if_splits)
  have "settings os g" using l(1-4) opt_count_zero [of "CHR ''f''" os] by (auto simp: settings_def g(1) g0)
  moreover have "nprocs (g_st g1) \<noteq> 0 \<longleftrightarrow> (\<exists>a. (CHR ''p'', a) \<in> set os \<and> a \<noteq> [])"
    using l(5) by (auto simp: g0 adds_pids_def split: if_splits)
  then have "\<not> conflict os (argv \<noteq> [])"
    using l(1-4) g(2-4) by (auto simp: conflict_def Let_def g(1) g0 split: if_splits)
  ultimately show ?thesis using p(1) init_options_valid [OF p(3)] by blast
qed

end
