(* ===== verification/Init_Correct.thy ===== *)
theory Init_Correct
  imports Init_Options
begin

text \<open>
  Correctness of \<open>init\<close> and \<open>main\<close>: the command line means what it says, both ways to start end in a state with the invariant of
  the main loop, and the program ends the way the traced program did; and the release of the kernel.
\<close>

subsection \<open>The release of the kernel\<close>

lemma push_or: "y < 256 \<Longrightarrow> push_bit 8 (of_nat x) OR of_nat y = (of_nat (256 * x + y) :: c_int)"
proof -
  assume "y < 256"
  then have y: "take_bit 8 y = y" by (simp add: take_bit_nat_eq_self)
  have "push_bit 8 x AND take_bit 8 y = 0" by (rule bit_eqI) (auto simp: bit_and_iff bit_push_bit_iff bit_take_bit_iff)
  then have "push_bit 8 x OR y = 256 * x + y" using disjunctive_add_eq_or [of "push_bit 8 x" y] y by (simp add: push_bit_eq_mult)
  moreover have "push_bit 8 (of_nat x) OR of_nat y = (of_nat (push_bit 8 x OR y) :: c_int)" by (simp add: of_nat_or_eq push_bit_of_nat)
  ultimately show ?thesis by (simp only:)
qed

text \<open>A number in digits, and a text that does not go on with one.\<close>

definition digits :: "string \<Rightarrow> bool" where
  "digits ds \<longleftrightarrow> ds \<noteq> [] \<and> (\<forall>c \<in> set ds. isdigit_c c)"

definition no_digit :: "string \<Rightarrow> bool" where
  "no_digit s \<longleftrightarrow> s = [] \<or> \<not> isdigit_c (hd s)"

lemma digits_front:
  assumes "digits ds" "no_digit s"
  shows "takeWhile isdigit_c (ds @ s) = ds" "dropWhile isdigit_c (ds @ s) = s" "isdigit_c (hd (ds @ s))" "ds @ s \<noteq> []"
proof -
  have "takeWhile isdigit_c s = []" "dropWhile isdigit_c s = s" using assms(2) by (cases s; simp add: no_digit_def)+
  then show "takeWhile isdigit_c (ds @ s) = ds" "dropWhile isdigit_c (ds @ s) = s"
    using assms(1) by (simp_all add: digits_def takeWhile_append2 dropWhile_append2)
  show "isdigit_c (hd (ds @ s))" "ds @ s \<noteq> []" using assms(1) by (simp_all add: digits_def)
qed

lemma atoi_digits:
  assumes "digits ds" "no_digit s" "dec_value ds < 2 ^ 31"
  shows "atoi (ds @ s) = int (dec_value ds)"
proof -
  obtain c r where cr: "ds @ s = c # r" "isdigit_c c" using digits_front(3,4) [OF assms(1,2)] by (cases "ds @ s") auto
  have "strtol (ds @ s) = strtol_body False (ds @ s) (ds @ s)"
    using cr isdigit_not_space [OF cr(2)] by (auto simp: strtol_def)
  moreover have "fst (strtol_body False (ds @ s) (ds @ s)) = int (dec_value ds)"
    using assms digits_front [OF assms(1,2)] by (simp add: strtol_body_def digits_def)
  moreover have "sint (word_of_int (int (dec_value ds)) :: c_int) = int (dec_value ds)"
    using assms(3) sint_c_int_eq_iff [of "int (dec_value ds)"] by simp
  ultimately show ?thesis by (simp add: atoi_def)
qed

lemma release_step:
  assumes "digits ds" "no_digit s" "dec_value ds < 256" "x < 2 ^ 16"
  shows "release_loop (of_nat x) (ds @ s) =
    (if 2 ^ 16 \<le> 256 * x + dec_value ds then Some (of_nat (256 * x + dec_value ds))
     else if s = [] \<or> hd s \<noteq> CHR ''.'' then (if 2 ^ 8 \<le> 256 * x + dec_value ds then Some (of_nat (256 * (256 * x + dec_value ds))) else None)
     else release_loop (of_nat (256 * x + dec_value ds)) (tl s))"
proof -
  let ?n = "256 * x + dec_value ds"
  have n: "?n < 2 ^ 32" using assms(3,4) by simp
  have r: "push_bit 8 (of_nat x) OR word_of_int (atoi (ds @ s)) = (of_nat ?n :: c_int)"
    using push_or [OF assms(3)] atoi_digits [OF assms(1,2)] assms(3) by simp
  have u: "unat (of_nat ?n :: c_int) = ?n" using n by (simp only: unat_of_nat) simp
  have k: "unat (KERNEL_VERSION 1 0 0) = 2 ^ 16" "unat (KERNEL_VERSION 0 1 0) = 2 ^ 8" by (simp_all add: KERNEL_VERSION_def)
  have c: "KERNEL_VERSION 1 0 0 \<le> of_nat ?n \<longleftrightarrow> 2 ^ 16 \<le> ?n" "KERNEL_VERSION 0 1 0 \<le> of_nat ?n \<longleftrightarrow> 2 ^ 8 \<le> ?n"
    unfolding word_le_nat_alt u k by (rule refl)+
  have p: "push_bit 8 (of_nat ?n :: c_int) = of_nat (256 * ?n)" using push_or [of 0 ?n] by simp
  show ?thesis
    unfolding release_loop.simps [of "of_nat x" "ds @ s"] Let_def r c p digits_front(2) [OF assms(1,2)]
    using digits_front(3,4) [OF assms(1,2)] by (simp only: if_False simp_thms)
qed

lemma kernel_version_num: "KERNEL_VERSION (of_nat a) (of_nat b) (of_nat c) = of_nat (256 * (256 * a + b) + c)"
  by (simp add: KERNEL_VERSION_def push_bit_eq_mult algebra_simps)

lemma release_ok:
  assumes "digits da" "digits db" "digits dc" "no_digit s"
    and "1 \<le> dec_value da" "dec_value da < 256" "dec_value db < 256" "dec_value dc < 256"
  shows "get_os_release (da @ ''.'' @ db @ ''.'' @ dc @ s) = Some (KERNEL_VERSION (of_nat (dec_value da)) (of_nat (dec_value db)) (of_nat (dec_value dc)))"
    "s = [] \<or> hd s \<noteq> CHR ''.'' \<Longrightarrow>
      get_os_release (da @ ''.'' @ db @ s) = Some (KERNEL_VERSION (of_nat (dec_value da)) (of_nat (dec_value db)) 0)"
proof -
  have d: "no_digit (CHR ''.'' # t)" for t by (simp add: no_digit_def isdigit_c_def)
  have one: "release_loop 0 (da @ CHR ''.'' # t) = release_loop (of_nat (dec_value da)) t" for t
    using release_step [OF assms(1) d assms(6), of 0 t] assms(6) by simp
  have two: "release_loop (of_nat (dec_value da)) (db @ CHR ''.'' # t) = release_loop (of_nat (256 * dec_value da + dec_value db)) t" for t
    using release_step [OF assms(2) d assms(7), of "dec_value da" t] assms(6,7) by simp
  have three: "release_loop (of_nat (256 * dec_value da + dec_value db)) (dc @ s) = Some (of_nat (256 * (256 * dec_value da + dec_value db) + dec_value dc))"
    using release_step [OF assms(3,4,8), of "256 * dec_value da + dec_value db"] assms(5-7) by simp
  show "get_os_release (da @ ''.'' @ db @ ''.'' @ dc @ s) = Some (KERNEL_VERSION (of_nat (dec_value da)) (of_nat (dec_value db)) (of_nat (dec_value dc)))"
    unfolding get_os_release_def kernel_version_num using one two three by simp
  assume s: "s = [] \<or> hd s \<noteq> CHR ''.''"
  have "release_loop (of_nat (dec_value da)) (db @ s) = Some (of_nat (256 * (256 * dec_value da + dec_value db)))"
    using release_step [OF assms(2,4,7), of "dec_value da"] assms(5-7) s by simp
  then show "get_os_release (da @ ''.'' @ db @ s) = Some (KERNEL_VERSION (of_nat (dec_value da)) (of_nat (dec_value db)) 0)"
    unfolding get_os_release_def using one kernel_version_num [of _ _ 0] by simp
qed

lemma release_sublevel: "get_os_release ''4.4.302'' = Some (KERNEL_VERSION 4 5 46)"
  by code_simp

subsection \<open>The process table while the options are read\<close>

definition fresh :: "strace \<Rightarrow> bool" where
  "fresh st \<longleftrightarrow> starting 0 st \<and> attached_pids st = []"

lemma fresh_globals [simp]:
  "fresh (st\<lparr>errs := e\<rparr>) = fresh st" "fresh (st\<lparr>popen_pid := p\<rparr>) = fresh st"
  "fresh (st\<lparr>hide_log_until_execve := h, skip_one_b_execve := k\<rparr>) = fresh st"
  by (simp_all add: fresh_def starting_def attached_pids_def)

lemma fresh_complain: "fresh (fold complain ms st) = fresh st"
  by (induction ms arbitrary: st) (simp_all add: complain_def)

lemma init_option_fresh:
  assumes "\<forall>n. i_alloc_ok ie n" "fresh (g_st g)" "init_option ie c a g = Inr g'"
  shows "fresh (g_st g')"
proof -
  have p: "fresh st'" if "process_opt_p_list (init_config ie False g) (i_self ie) a (g_st g) = Inr st'" for st'
    using process_opt_p_list_starting [OF _ _ that] assms(1,2) by (simp add: fresh_def init_config_def)
  show ?thesis using assms(2,3) p unfolding init_option_def
    by (auto simp: opt_qualify_def Let_def fresh_complain simp del: process_opt_p_list.simps split: if_splits sum.splits)
qed

lemma init_options_fresh:
  assumes "\<forall>n. i_alloc_ok ie n"
  shows "fresh (g_st g) \<Longrightarrow> init_options ie os g = Inr g' \<Longrightarrow> fresh (g_st g')"
proof (induction os arbitrary: g)
  case (Cons x os)
  obtain c a where x: "x = (c, a)" by (cases x)
  obtain g1 where s: "init_option ie c a g = Inr g1" "init_options ie os g1 = Inr g'"
    using Cons.prems(2) unfolding x by (rule init_options_Cons)
  show ?case by (rule Cons.IH [OF init_option_fresh [OF assms Cons.prems(1) s(1)] s(2)])
qed simp

lemma init_parse_fresh:
  assumes "\<forall>n. i_alloc_ok ie n" "init_parse ie args = Inr (argv, g)"
  shows "fresh (g_st g)" "argv = [] \<longleftrightarrow> nprocs (g_st g) \<noteq> 0" "nprocs (g_st g) \<noteq> 0 \<longrightarrow> \<not> g_daemonized_tracer g"
proof -
  obtain os g0 g1 where p: "init_defaults ie (length args + 1) = Inr g0" "init_options ie os g0 = Inr g1" "init_check ie argv g1 = Inr g"
    using assms(2) by (auto simp: init_parse_def sbind_eq_Inr split: prod.splits)
  obtain q where "g0 = (globals_zero (length args + 1))\<lparr>g_quals := q\<rparr>" using init_defaults_only [OF p(1)] by blast
  then have "fresh (g_st g0)" using strace_init_starting [of "length args + 1"] by (simp add: globals_zero_def fresh_def)
  then have "fresh (g_st g1)" by (rule init_options_fresh [OF assms(1) _ p(2)])
  then show "fresh (g_st g)" "argv = [] \<longleftrightarrow> nprocs (g_st g) \<noteq> 0" "nprocs (g_st g) \<noteq> 0 \<longrightarrow> \<not> g_daemonized_tracer g"
    using p(3) by (auto simp: init_check_def Let_def split: if_splits)
qed

lemma init_log_keeps:
  assumes "init_log ie argv g = Inr g'"
  shows "fresh (g_st g') = fresh (g_st g)" "nprocs (g_st g') = nprocs (g_st g)"
    "g_daemonized_tracer g' = g_daemonized_tracer g" "g_outfname g' = g_outfname g"
  using assms by (auto simp: init_log_def Let_def sbind_eq_Inr split: if_splits option.splits sum.splits)

lemma init_log_settings:
  assumes "init_log ie argv g = Inr g'"
  shows "g_followfork g' = (if g_outfname g = None \<and> g_followfork g \<ge> 2 then 1 else g_followfork g)"
    "g_opt_intr g' = (if g_opt_intr g \<noteq> 0 then g_opt_intr g else if g_outfname g \<noteq> None \<and> argv \<noteq> [] then 3 else 2)"
    "g_qflag g' = (if g_outfname g \<noteq> None \<and> argv \<noteq> [] then 1 else g_qflag g)"
  using assms by (auto simp: init_log_def Let_def sbind_eq_Inr split: if_splits option.splits sum.splits)

lemma init_tests_sigstop:
  assumes "init_tests ie g = Some (Inr (need, so, trap, pas))"
  shows "pas = 0 \<or> pas = TCB_IGNORE_ONE_SIGSTOP"
proof -
  have "pas \<in> {0, TCB_IGNORE_ONE_SIGSTOP}" if "test_ptrace_seize b tv = Some (Inr pas)" for b tv
    using that by (auto simp: test_ptrace_seize_def sbind_eq_Inr split: sum.splits if_splits)
  then show ?thesis using assms
    by (auto simp: init_tests_def split: option.splits sum.splits if_splits)
qed

subsection \<open>The start of tracing\<close>

lemma fresh_run_ok:
  assumes "fresh st" "nprocs st = 0" "shared_cfg (cfg_of te)" "post_attach_sigstop te AND TCB_INUSE = 0"
  shows "run_ok te st" "live_pids st = {}"
proof -
  have t: "table_ok 0 {} (tcbtab st) 0" using assms(1,2) by (auto simp: fresh_def starting_def)
  have n: "\<not> inuse (tcbtab st ! i)" if "i < length (tcbtab st)" for i
    using t that by (auto simp: table_ok_def filter_empty_conv)
  have "block_ok k {} i (tcbtab st ! i)" if "i < length (tcbtab st)" for i k
    using t that n [OF that] by (auto simp: table_ok_def block_ok_def)
  then have "table_ok (length (tcbtab st)) {} (tcbtab st) 0" using t by (simp add: table_ok_def)
  then have s: "starting (length (tcbtab st)) st" using assms(1,2) by (auto simp: fresh_def starting_def)
  show r: "run_ok te st" by (rule starting_run_ok [OF s assms(3,4)])
  have "tab_ok (tcbtab st) (nprocs st)" using r by (simp add: run_ok_def tcb_ok_def)
  then show "live_pids st = {}" using n by (auto simp: live_pids_def pid2tcb_iff tcb_at_def)
qed

lemma startup_loop_skips:
  assumes "\<forall>i < length (tcbtab st). inuse (tcb_at st i) \<longrightarrow> is_attached (tcb_at st i)"
  shows "startup_loop te se k st = Some (Inr st)"
proof (induction "length (tcbtab st) - k" arbitrary: k)
  case 0
  then show ?case by (simp add: startup_loop.simps)
next
  case (Suc n)
  then have k: "k < length (tcbtab st)" "startup_loop te se (k + 1) st = Some (Inr st)" by auto
  then have "startup_turn te se k st = Inr (False, st)" using assms by (auto simp: startup_turn_def Let_def)
  then show ?case using k by (simp add: startup_loop.simps [of te se k])
qed

text \<open>What the start relies on: memory, the log, ptrace.\<close>

definition system_ok :: "init_env \<Rightarrow> start_env \<Rightarrow> bool" where
  "system_ok ie se \<longleftrightarrow> (\<forall>n. i_alloc_ok ie n) \<and> i_write_ok ie SharedLog
     \<and> (\<forall>att p. attach_error se att p = None \<longrightarrow> p \<notin> set att) \<and> (\<forall>j. \<not> interrupted_at se j)"

lemma init_tenv_simps [simp]:
  "cfg_of (init_tenv ie pfx g m (nd, so, trap, pas) rel child) = init_config ie pfx g"
  "post_attach_sigstop (init_tenv ie pfx g m (nd, so, trap, pas) rel child) = pas"
  "use_seize (init_tenv ie pfx g m (nd, so, trap, pas) rel child) \<longleftrightarrow> pas = 0"
  "strace_child (init_tenv ie pfx g m (nd, so, trap, pas) rel child) = child"
  by (simp_all add: init_tenv_def init_senv_def)

lemma init_tenv_shared:
  "system_ok ie se \<Longrightarrow> g_followfork g < 2 \<Longrightarrow> shared_cfg (cfg_of (init_tenv ie pfx g m (nd, so, trap, pas) rel child))"
  "system_ok ie se \<Longrightarrow> g_followfork g < 2 \<Longrightarrow>
    attach_env (init_tenv ie pfx g m (nd, so, trap, pas) rel child) (se\<lparr>daemon := d\<rparr>)"
  by (simp_all add: system_ok_def attach_env_def shared_cfg_def init_config_def)

lemma run_ok_pfx:
  "run_ok (init_tenv ie pfx g m (nd, so, trap, pas) rel child) st = run_ok (init_tenv ie pfx' g m (nd, so, trap, pas) rel child) st"
  by (simp add: run_ok_def shared_cfg_def init_config_def)


lemma init_start_child:
  fixes ie g se
  assumes "system_ok ie se" "fresh (g_st g)" "nprocs (g_st g) = 0" "argv \<noteq> []" "\<not> g_daemonized_tracer g" "g_followfork g < 2"
    and "pas AND TCB_INUSE = 0" "find_program ce (hd argv) = Inr pathname" "fork_pid ce = Inr pid" "0 < pid"
    and "attach_error se [] pid = None" "pas = 0 \<Longrightarrow> interrupt_error se pid = None"
    and "pas = 0 \<Longrightarrow> \<exists>status. wait_child (child_waits ce) = Some (Inr status) \<and> wifstopped status \<and> wstopsig status = SIGSTOP"
  shows "\<exists>te st. init_start ie se ce m (nd, so, trap, pas) rel argv g = Some (Inr (te, st))
    \<and> run_ok te st \<and> live_pids st = {pid} \<and> strace_child te = pid"
proof -
  let ?te = "\<lambda>pfx. init_tenv ie pfx g m (nd, so, trap, pas) rel pid" and ?se = "se\<lparr>daemon := None\<rparr>"
  let ?st = "(g_st g)\<lparr>hide_log_until_execve := True, skip_one_b_execve := True\<rparr>"
  have sh: "shared_cfg (cfg_of (?te False))" "attach_env (?te False) ?se" by (rule init_tenv_shared [OF assms(1,6)])+
  have f: "fresh ?st" "nprocs ?st = 0" using assms(2,3) by simp_all
  have r: "run_ok (?te False) ?st" "live_pids ?st = {}"
    using fresh_run_ok [OF f sh(1)] assms(7) by simp_all
  have np: "pid \<notin> live_pids ?st" using r(2) by simp
  have ae: "attach_error ?se (attached_pids ?st) pid = None" using assms(2,11) by (simp add: fresh_def attached_pids_def)
  have re: "reachable (?te False) ?se pid" using assms(12) by (simp add: reachable_def)
  have w: "\<exists>status. wait_child (child_waits ce) = Some (Inr status) \<and> wifstopped status \<and> wstopsig status = SIGSTOP"
    if "use_seize (?te False)" using assms(13) that by simp
  obtain st i where c: "startup_child (?te False) ?se ce (hd argv) ?st = Some (Inr st)" "run_ok (?te False) st"
    "live_pids st = {pid}" "pid2tcb pid st = Some i" "is_attached (tcb_at st i)"
    using startup_child_ready [OF r(1) sh(2) _ assms(8-10) np ae re w] r(2) by auto
  have t: "tab_ok (tcbtab st) (nprocs st)" using c(2) by (simp add: run_ok_def tcb_ok_def)
  have "is_attached (tcb_at st j)" if "j < length (tcbtab st)" "inuse (tcb_at st j)" for j
  proof -
    have "pid2tcb (t_pid (tcb_at st j)) st = Some j" using that by (simp add: pid2tcb_iff [OF t])
    then have "t_pid (tcb_at st j) = pid" using c(3) by (auto simp: live_pids_def)
    then show ?thesis using \<open>pid2tcb (t_pid (tcb_at st j)) st = Some j\<close> c(4,5) by simp
  qed
  then have a: "startup_attach (?te False) ?se st = Some (Inr st)" by (simp add: startup_attach_def startup_loop_skips)
  define pfx where "pfx = (g_outfname g \<noteq> None \<and> g_followfork g < 2 \<and> (g_followfork g = 1 \<or> nprocs st > 1))"
  have "init_start ie se ce m (nd, so, trap, pas) rel argv g = Some (Inr (?te pfx, st))"
    using c(1) a assms(4,5,9) by (cases "nprocs st = 0") (simp_all add: init_start_def Let_def pfx_def)
  moreover have "run_ok (?te pfx) st" using c(2) by (simp only: run_ok_pfx [of ie pfx _ _ _ _ _ _ _ _ _ False])
  ultimately show ?thesis using c(3) by (intro exI [of _ "?te pfx"] exI [of _ st]) simp
qed

lemma init_start_attach:
  assumes "system_ok ie se" "fresh (g_st g)" "nprocs (g_st g) \<noteq> 0" "\<not> g_daemonized_tracer g" "g_followfork g < 2" "pas AND TCB_INUSE = 0"
  shows "\<exists>te st. init_start ie se ce m (nd, so, trap, pas) rel [] g = Some (Inr (te, st))
    \<and> run_ok te st \<and> live_pids st \<subseteq> set (attached_pids st)
    \<and> (\<forall>p \<in> set (attached_pids st). (pas = 0 \<longrightarrow> interrupt_error se p = None) \<longrightarrow> p \<in> live_pids st)"
proof -
  let ?te = "\<lambda>pfx. init_tenv ie pfx g m (nd, so, trap, pas) rel 0" and ?se = "se\<lparr>daemon := None\<rparr>"
  have sh: "shared_cfg (cfg_of (?te False))" "attach_env (?te False) ?se" by (rule init_tenv_shared [OF assms(1,5)])+
  have s0: "starting 0 (g_st g)" "attached_pids (g_st g) = []" using assms(2) by (simp_all add: fresh_def)
  then have "covered (?te False) ?se (g_st g)" by (simp add: covered_def)
  then obtain st where st: "startup_loop (?te False) ?se 0 (g_st g) = Some (Inr st)" "starting (length (tcbtab st)) st"
    "covered (?te False) ?se st"
    using startup_loop_ok [OF sh(2) s0(1)] assms(1) by (auto simp: system_ok_def)
  then have "startup_attach (?te False) ?se (g_st g) = Some (Inr st)" by (simp add: startup_attach_def)
  then obtain pfx where i: "init_start ie se ce m (nd, so, trap, pas) rel [] g = Some (Inr (?te pfx, st))"
    using assms(3,4) by (auto simp: init_start_def Let_def)
  have "run_ok (?te False) st" using starting_run_ok [OF st(2) sh(1)] assms(6) by simp
  then have "run_ok (?te pfx) st" by (simp only: run_ok_pfx [of ie pfx _ _ _ _ _ _ _ _ _ False])
  moreover have "p \<in> live_pids st" if "p \<in> set (attached_pids st)" "pas = 0 \<longrightarrow> interrupt_error se p = None" for p
  proof -
    have "reachable (?te False) ?se p" using that(2) by (simp add: reachable_def)
    then show ?thesis using covered_pids(3) [OF st(2)] st(3) that(1) by blast
  qed
  ultimately show ?thesis using i covered_pids(2) [OF st(2)] by blast
qed


subsection \<open>The whole program\<close>

lemma init_run:
  assumes "get_os_release (i_release ie) = Some rel" "init_parse ie args = Inr (argv, g)" "init_user ie g = Inr u"
    "init_tests ie g = Some (Inr feat)" "init_log ie argv g = Inr g'"
  shows "init ie se ce match args = init_start ie se ce (match g') feat rel argv g'"
  using assms by (simp add: init_def)

lemma trace_append: "trace te rs1 st = Inr (None, st1) \<Longrightarrow> trace te (rs1 @ rs2) st = trace te rs2 st1"
proof (induction rs1 arbitrary: st)
  case Nil
  then show ?case by (simp split: if_splits)
next
  case (Cons r rs1)
  then have n: "nprocs st \<noteq> 0" by (auto split: if_splits)
  then obtain nx st2 where s: "trace_round te r st = Inr (nx, st2)"
    "(case nx of Return v \<Rightarrow> Inr (Some v, st2) | Continue \<Rightarrow> trace te rs1 st2) = Inr (None, st1)"
    using Cons.prems by (auto simp: sbind_eq_Inr)
  then have "nx = Continue" "trace te rs1 st2 = Inr (None, st1)" by (auto split: next_round.splits)
  then show ?case using n s(1) Cons.IH by simp
qed

lemma cleanup_nothing: "run_ok te st \<Longrightarrow> nprocs st = 0 \<Longrightarrow> cleanup te ds i st = Some st"
proof -
  assume "run_ok te st" "nprocs st = 0"
  then have "\<not> inuse (tcb_at st j)" if "j < length (tcbtab st)" for j
    using that by (auto simp: run_ok_def tcb_ok_def tab_ok_def tcb_at_def filter_empty_conv)
  then have "cleanup_from te ds sig js st = Some st" if "\<forall>j \<in> set js. j < length (tcbtab st)" for sig js
    using that by (induction js) simp_all
  then show ?thesis by (simp add: cleanup_def)
qed

text \<open>
  The rounds \<open>rs\<close> report the deaths of all processes of the table, each once, and \<open>r\<close> is that of the process strace
  started.
\<close>

definition all_die :: "tenv \<Rightarrow> strace \<Rightarrow> round list \<Rightarrow> round \<Rightarrow> bool" where
  "all_die te st rs r \<longleftrightarrow> list_all is_death rs \<and> distinct (map death_pid rs) \<and> set (map death_pid rs) = live_pids st
     \<and> popen_pid st \<notin> live_pids st \<and> r \<in> set rs \<and> death_pid r = strace_child te"

lemma all_die_ends:
  assumes "run_ok te st" "all_die te st rs r"
  shows "\<exists>st'. trace te rs st = Inr (Some 0, st') \<and> run_ok te st' \<and> nprocs st' = 0 \<and> final_exit (exit_code st') = end_of (death_status r)"
proof -
  have d: "\<forall>r \<in> set rs. is_death r" "distinct (map death_pid rs)" "set (map death_pid rs) = live_pids st" "popen_pid st \<notin> live_pids st"
    "r \<in> set rs" "death_pid r = strace_child te" using assms(2) by (auto simp: all_die_def list_all_iff)
  obtain st' where st': "trace te rs st = Inr (Some 0, st')" "run_ok te st'" "nprocs st' = 0"
    "exit_code st' = (case find (\<lambda>r. death_pid r = strace_child te) rs of Some r \<Rightarrow> exit_of (death_status r) | None \<Rightarrow> exit_code st)"
    using deaths_end [OF assms(1) d(1-4)] by blast
  obtain x where x: "find (\<lambda>r. death_pid r = strace_child te) rs = Some x"
    using d(5,6) by (cases "find (\<lambda>r. death_pid r = strace_child te) rs") (auto simp: find_None_iff)
  then have "x \<in> set rs" "death_pid x = strace_child te" by (auto simp: find_Some_iff)
  then have "x = r" using d(2,5,6) by (auto simp: distinct_map inj_on_def)
  then show ?thesis using st' x final_exit_of by auto
qed

lemma main_ends:
  assumes "init ie se ce match args = Some (Inr (te, st))" "run_ok te st" "trace te rs1 st = Inr (None, st1)" "trace_steps te st st1"
    "all_die te st1 rs2 r"
  shows "strace_main ie se ce match args (rs1 @ rs2) ds i = Some (Exits (end_of (death_status r)))"
proof -
  have "run_ok te st1" by (rule trace_steps_ok [OF assms(4,2)])
  then obtain st' where "trace te rs2 st1 = Inr (Some 0, st')" "run_ok te st'" "nprocs st' = 0" "final_exit (exit_code st') = end_of (death_status r)"
    using all_die_ends [OF _ assms(5)] by blast
  then show ?thesis using assms(1) trace_append [OF assms(3)] cleanup_nothing [of te st' ds i] by (simp add: strace_main_def)
qed

subsection \<open>Properties\<close>


definition init_plain :: init_env where
  "init_plain = \<lparr>i_tables = x86_64_tables,
     i_errnoent = replicate 531 ''E'', i_strerror = (\<lambda>_. ''error''), i_release = ''3.2.9-4'', i_self = 5,
     i_alloc_ok = (\<lambda>_. True), i_fopen_ok = (\<lambda>_. True), i_write_ok = (\<lambda>_. True), i_popen = (\<lambda>_. Inr 6),
     i_realpath = (\<lambda>_. None), i_putenv_ok = (\<lambda>_. True), i_root = False, i_getpwnam = (\<lambda>_. None), i_ids = (100, 100),
     i_test_followfork = \<lparr>test_fork = Inr 9, test_answers =
       [\<lparr>a_wait = Inr (9, 0x137f), a_restart = None, a_eventmsg = None\<rparr>, \<lparr>a_wait = Inr (9, 0x1057f), a_restart = None, a_eventmsg = Some 10\<rparr>,
        \<lparr>a_wait = Inr (10, 0x137f), a_restart = None, a_eventmsg = None\<rparr>, \<lparr>a_wait = Inr (10, 0), a_restart = None, a_eventmsg = None\<rparr>,
        \<lparr>a_wait = Inr (9, 0), a_restart = None, a_eventmsg = None\<rparr>, \<lparr>a_wait = Inl ECHILD, a_restart = None, a_eventmsg = None\<rparr>]\<rparr>,
     i_test_for_all = \<lparr>test_fork = Inr 9, test_answers =
       [\<lparr>a_wait = Inr (9, 0x137f), a_restart = None, a_eventmsg = None\<rparr>, \<lparr>a_wait = Inr (9, 0x857f), a_restart = None, a_eventmsg = None\<rparr>,
        \<lparr>a_wait = Inr (9, 0), a_restart = None, a_eventmsg = None\<rparr>]\<rparr>,
     i_test_seize = \<lparr>test_fork = Inr 9, test_answers = [\<lparr>a_wait = Inr (9, 9), a_restart = None, a_eventmsg = None\<rparr>]\<rparr>,
     i_seized = True, i_second_fork = Child\<rparr>"

definition args_plain :: "string list" where
  "args_plain = [''-fqo'', ''log'', ''-q'', ''-s80'', ''ls'', ''-l'']"

lemma opt_qualify_all:
  assumes "tables_ok (i_tables ie)" "\<forall>n. realloc_ok (i_tables ie) n" "quals_ok (g_quals g)" "qual_parse s = (opt, neg, ''all'')"
  shows "\<exists>q. opt_qualify ie s g = Inr (g\<lparr>g_quals := q\<rparr>) \<and> quals_ok q"
  using qualify_ok [OF assms(1,3,4)] assms(2)
  by (auto simp: opt_qualify_def filter_result_def split: sum.splits die.splits)

lemma init_defaults_ok:
  assumes "tables_ok (i_tables ie)" "\<forall>n. realloc_ok (i_tables ie) n" "i_alloc_ok ie argc"
  shows "\<exists>q. init_defaults ie argc = Inr ((globals_zero argc)\<lparr>g_quals := q\<rparr>) \<and> quals_ok q"
proof -
  let ?p = "\<lambda>s. \<exists>opt neg. qual_parse s = (opt, neg, ''all'')"
  have q: "?p ''trace=all''" "?p ''abbrev=all''" "?p ''verbose=all''" "?p ''signal=all''"
    by (auto simp: qual_parse_def qual_options_def)
  have z: "quals_ok (g_quals (globals_zero argc))" by (simp add: globals_zero_def quals_init_ok)
  have step: "\<exists>q. opt_qualify ie s (g\<lparr>g_quals := q0\<rparr>) = Inr (g\<lparr>g_quals := q\<rparr>) \<and> quals_ok q" if "?p s" "quals_ok q0" for s g q0
    using opt_qualify_all [OF assms(1,2), of "g\<lparr>g_quals := q0\<rparr>" s] that by auto
  obtain q1 where q1: "opt_qualify ie ''trace=all'' (globals_zero argc) = Inr ((globals_zero argc)\<lparr>g_quals := q1\<rparr>)" "quals_ok q1"
    using opt_qualify_all [OF assms(1,2) z] q(1) by blast
  obtain q2 where q2: "opt_qualify ie ''abbrev=all'' ((globals_zero argc)\<lparr>g_quals := q1\<rparr>) = Inr ((globals_zero argc)\<lparr>g_quals := q2\<rparr>)" "quals_ok q2"
    using step [OF q(2) q1(2)] by blast
  obtain q3 where q3: "opt_qualify ie ''verbose=all'' ((globals_zero argc)\<lparr>g_quals := q2\<rparr>) = Inr ((globals_zero argc)\<lparr>g_quals := q3\<rparr>)" "quals_ok q3"
    using step [OF q(3) q2(2)] by blast
  obtain q4 where q4: "opt_qualify ie ''signal=all'' ((globals_zero argc)\<lparr>g_quals := q3\<rparr>) = Inr ((globals_zero argc)\<lparr>g_quals := q4\<rparr>)" "quals_ok q4"
    using step [OF q(4) q3(2)] by blast
  show ?thesis using q1 q2 q3 q4 assms(3) by (auto simp: init_defaults_def)
qed

lemma args_plain_options:
  "getopts args_plain = ([(CHR ''f'', []), (CHR ''q'', []), (CHR ''o'', ''log''), (CHR ''q'', []), (CHR ''s'', ''80'')], [''ls'', ''-l''])"
  by code_simp

lemma init_plain_simps:
  "i_tables init_plain = x86_64_tables" "i_alloc_ok init_plain n" "i_write_ok init_plain f" "i_fopen_ok init_plain s"
  "i_self init_plain = 5" "i_release init_plain = ''3.2.9-4''" "i_ids init_plain = (100, 100)"
  by (simp_all add: init_plain_def)

lemma init_plain_parse:
  "\<exists>q. init_parse init_plain args_plain = Inr ([''ls'', ''-l''],
     (globals_zero 7)\<lparr>g_quals := q, g_followfork := 1, g_qflag := 2, g_outfname := Some ''log'', g_max_strlen := 80\<rparr>)"
proof -
  obtain q where q: "init_defaults init_plain 7 = Inr ((globals_zero 7)\<lparr>g_quals := q\<rparr>)"
    using init_defaults_ok [of init_plain 7] x86_64_tables_ok by (auto simp: init_plain_simps x86_64_tables_def)
  have "string_to_uint ''80'' = 80" by code_simp
  moreover have "length args_plain + 1 = 7" by (simp add: args_plain_def)
  ultimately show ?thesis using q
    by (intro exI [of _ q]) (simp add: init_parse_def args_plain_options init_option_def Let_def init_check_def globals_zero_def strace_init_def init_plain_simps)
qed





lemma init_plain_tests:
  assumes "g_followfork g \<noteq> 0"
  shows "init_tests init_plain g = Some (Inr (False, True, 133, 0))"
proof -
  have "test_ptrace_setoptions_followfork (i_test_followfork init_plain) = Some (Inr True)"
    "test_ptrace_setoptions_for_all (i_test_for_all init_plain) = Some (Inr True)"
    "test_ptrace_seize (i_seized init_plain) (i_test_seize init_plain) = Some (Inr 0)"
    by code_simp+
  then show ?thesis using assms by (simp add: init_tests_def)
qed

lemma init_plain_system: "system_ok init_plain start_plain"
  by (simp add: system_ok_def init_plain_simps start_plain_def)

lemma init_plain_release: "get_os_release (i_release init_plain) = Some (KERNEL_VERSION 3 2 9)"
  unfolding init_plain_simps by code_simp

definition child_7 :: child_env where
  "child_7 = child_plain\<lparr>fork_pid := Inr 7\<rparr>"


text \<open>
  C7. \<open>init\<close> on a command line with processes to attach to (option \<^verbatim>\<open>-p\<close>, as often as it is given): it returns, whatever the directories of
  \<^verbatim>\<open>/proc\<close> list and however often a process is named, in a state with the invariant of the main loop; the processes in the
  table are just those strace attached to (with \<^verbatim>\<open>PTRACE_SEIZE\<close>, those it could also interrupt). The kernel is assumed to attach a
  process at most once; memory suffices, and no fatal signal comes in between.
\<close>

theorem init_attaches:
  assumes "system_ok ie se" "get_os_release (i_release ie) = Some rel" "init_parse ie args = Inr ([], g)"
    and "init_user ie g = Inr u" "init_tests ie g = Some (Inr (nd, so, trap, pas))" "init_log ie [] g = Inr g'" "g_followfork g' < 2"
  shows "\<exists>te st. init ie se ce match args = Some (Inr (te, st)) \<and> run_ok te st \<and> live_pids st \<subseteq> set (attached_pids st)
    \<and> (\<forall>p \<in> set (attached_pids st). (pas = 0 \<longrightarrow> interrupt_error se p = None) \<longrightarrow> p \<in> live_pids st)"
proof -
  have al: "\<forall>n. i_alloc_ok ie n" using assms(1) by (simp add: system_ok_def)
  note l = init_log_keeps [OF assms(6)]
  have f: "fresh (g_st g')" "nprocs (g_st g') \<noteq> 0" "\<not> g_daemonized_tracer g'"
    using init_parse_fresh [OF al assms(3)] l by auto
  have pas: "pas AND TCB_INUSE = 0" using init_tests_sigstop [OF assms(5)] by auto
  show ?thesis
    using init_start_attach [OF assms(1) f assms(7) pas, of ce "match g'" nd so trap rel] init_run [OF assms(2-6)] by metis
qed

lemma init_option_p:
  assumes "\<forall>n. i_alloc_ok ie n" "fresh (g_st g)" "a \<noteq> []" "list_all (\<lambda>c. \<not> is_delim c) a" "0 < string_to_uint a" "string_to_uint a \<noteq> i_self ie"
  shows "\<exists>st. init_option ie CHR ''p'' a g = Inr (g\<lparr>g_st := st\<rparr>)"
proof -
  have w: "takeWhile (\<lambda>c. \<not> is_delim c) a = a" "dropWhile (\<lambda>c. \<not> is_delim c) a = []"
    using assms(4) by (auto simp: list_all_iff takeWhile_eq_all_conv)
  obtain i st where "alloctcb (init_config ie False g) (string_to_uint a) (g_st g) = Inr (i, st)"
    using assms(1,2,5) alloctcb_waiting [of "g_st g" "string_to_uint a" "init_config ie False g"] by (auto simp: fresh_def init_config_def)
  then have "process_opt_p_list (init_config ie False g) (i_self ie) a (g_st g) = Inr st"
    unfolding process_opt_p_list.simps [of _ _ a] Let_def w using assms(3,5,6) by simp
  then show ?thesis by (auto simp: init_option_def simp del: process_opt_p_list.simps)
qed

theorem init_attaches_witness:
  "\<exists>te st. init init_plain start_plain child_plain (\<lambda>_. None) [''-fp'', ''7''] = Some (Inr (te, st)) \<and> run_ok te st"
proof -
  obtain q where q: "init_defaults init_plain 3 = Inr ((globals_zero 3)\<lparr>g_quals := q\<rparr>)"
    using init_defaults_ok [of init_plain 3] x86_64_tables_ok by (auto simp: init_plain_simps x86_64_tables_def)
  let ?g0 = "(globals_zero 3)\<lparr>g_quals := q, g_followfork := 1\<rparr>"
  have o: "getopts [''-fp'', ''7''] = ([(CHR ''f'', []), (CHR ''p'', ''7'')], [])" by code_simp
  have "fresh (g_st ?g0)" using strace_init_starting [of 3] by (simp add: globals_zero_def fresh_def)
  moreover have "string_to_uint ''7'' = 7" "list_all (\<lambda>c. \<not> is_delim c) ''7''" by code_simp+
  ultimately obtain st where p: "init_option init_plain CHR ''p'' ''7'' ?g0 = Inr (?g0\<lparr>g_st := st\<rparr>)"
    using init_option_p [of init_plain ?g0 "''7''"] by (auto simp: init_plain_simps)
  have np: "nprocs st \<noteq> 0" using init_option_nprocs [OF p] by (simp add: adds_pids_def globals_zero_def strace_init_def)
  have f: "init_option init_plain CHR ''f'' [] ((globals_zero 3)\<lparr>g_quals := q\<rparr>) = Inr ?g0"
    by (simp add: init_option_def globals_zero_def)
  let ?g = "?g0\<lparr>g_st := st\<rparr>"
  have opts: "init_options init_plain [(CHR ''f'', []), (CHR ''p'', ''7'')] ((globals_zero 3)\<lparr>g_quals := q\<rparr>) = Inr ?g"
    by (simp only: init_options.simps f p sbind.simps)
  have chk: "init_check init_plain [] ?g = Inr ?g" using np by (simp add: init_check_def init_plain_simps globals_zero_def)
  have n: "length [''-fp'', ''7''] + 1 = 3" by simp
  have "init_parse init_plain [''-fp'', ''7''] = Inr ([], ?g)"
    by (simp only: init_parse_def o prod.case n q opts chk sbind.simps)
  then obtain g where g: "init_parse init_plain [''-fp'', ''7''] = Inr ([], g)" "g_followfork g = 1" "g_outfname g = None"
    "g_username g = None" by (auto simp: globals_zero_def)
  obtain g' where g': "init_log init_plain [] g = Inr g'"
    using g(2,3) by (simp add: init_log_def Let_def init_plain_simps)
  have ff: "g_followfork g' < 2" using init_log_settings(1) [OF g'] g(2) by simp
  have u: "init_user init_plain g = Inr (100, 100)" using g(4) by (simp add: init_user_def init_plain_simps)
  have t: "init_tests init_plain g = Some (Inr (False, True, 133, 0))" using init_plain_tests g(2) by simp
  show ?thesis
    using init_attaches [OF init_plain_system init_plain_release g(1) u t g' ff, of child_plain "\<lambda>_. None"] by blast
qed

text \<open>
  C20. \<open>get_os_release\<close> computes what \<^verbatim>\<open>KERNEL_VERSION\<close> does, for a release string of three numbers, or of two and anything but a
  dot behind them, if the first is not 0 and all are below 256. Larger numbers run into each other: release 4.4.302 is taken for 4.5.46
  (lemma \<open>release_sublevel\<close>).
\<close>

theorem get_os_release_correct:
  assumes "digits da" "digits db" "digits dc" "no_digit s"
    and "1 \<le> dec_value da" "dec_value da < 256" "dec_value db < 256" "dec_value dc < 256"
  shows "get_os_release (da @ ''.'' @ db @ ''.'' @ dc @ s) = Some (KERNEL_VERSION (of_nat (dec_value da)) (of_nat (dec_value db)) (of_nat (dec_value dc)))
    \<and> (s = [] \<or> hd s \<noteq> CHR ''.'' \<longrightarrow>
      get_os_release (da @ ''.'' @ db @ s) = Some (KERNEL_VERSION (of_nat (dec_value da)) (of_nat (dec_value db)) 0))"
  using release_ok [OF assms] by blast

theorem get_os_release_correct_witness:
  "get_os_release ''3.10.7-rc1'' = Some (KERNEL_VERSION 3 10 7) \<and> get_os_release ''3.10-rc1'' = Some (KERNEL_VERSION 3 10 0)"
proof -
  have "digits ''3''" "digits ''10''" "digits ''7''" "no_digit ''-rc1''" "dec_value ''3'' = 3" "dec_value ''10'' = 10" "dec_value ''7'' = 7"
    by code_simp+
  then show ?thesis using get_os_release_correct [of "''3''" "''10''" "''7''" "''-rc1''"] by simp
qed

end
