(* ===== verification/Ioctl.thy ===== *)
theory Ioctl
  imports Desc Count
begin

text \<open>
  The names of ioctl commands: \<open>ioctl_lookup\<close>, \<open>ioctl_next_match\<close>, \<open>ioctl_decode\<close> of \<^verbatim>\<open>src/strace/ioctl.c\<close> and \<open>sys_ioctl\<close> of
  \<^verbatim>\<open>src/strace/io.c\<close>, and the program \<^verbatim>\<open>src/strace/linux/ioctlsort.c\<close> that the build makes the table with. The table is a
  parameter of the lookup; so are the decoders of the arguments of single devices. \<open>bsearch\<close> is that of the C library. A pointer into the table is an index.
\<close>

subsection \<open>The program\<close>

record ioctlent =
  io_doth :: string
  io_symbol :: string
  io_code :: c_long

definition compare :: "c_long \<Rightarrow> c_long \<Rightarrow> int" where
  "compare code1 code2 = (if code1 > code2 then 1 else if code1 < code2 then -1 else 0)"

text \<open>\<open>bsearch\<close> between the indices \<open>l\<close> and \<open>u\<close>.\<close>

function bsearch :: "c_long \<Rightarrow> c_long list \<Rightarrow> nat \<Rightarrow> nat \<Rightarrow> nat option" where
  "bsearch key base l u =
    (if l < u then
       (let idx = (l + u) div 2; comparison = compare key (base ! idx)
        in if comparison < 0 then bsearch key base l idx
           else if comparison > 0 then bsearch key base (idx + 1) u
           else Some idx)
     else None)"
  by pat_completeness auto
termination
  by (relation "measure (\<lambda>(key, base, l, u). u - l)") auto

declare bsearch.simps [simp del]

definition table_search :: "c_long list \<Rightarrow> c_long \<Rightarrow> nat option" where
  "table_search base key = bsearch key base 0 (length base)"

text \<open>The loop that goes back to the first entry with the code.\<close>

fun first_entry :: "c_long list \<Rightarrow> c_long \<Rightarrow> nat \<Rightarrow> nat" where
  "first_entry base cmd 0 = 0"
| "first_entry base cmd (Suc i) = (if base ! i \<noteq> cmd then Suc i else first_entry base cmd i)"

definition ioctl_mask :: "c_long \<Rightarrow> c_long" where
  "ioctl_mask cmd = cmd AND 0xffff"

definition ioctl_lookup :: "ioctlent list \<Rightarrow> c_long \<Rightarrow> nat option" where
  "ioctl_lookup ioctlent cmd =
    (let cmd = ioctl_mask cmd; codes = map io_code ioctlent
     in map_option (first_entry codes cmd) (table_search codes cmd))"

definition ioctl_next_match :: "ioctlent list \<Rightarrow> nat \<Rightarrow> nat option" where
  "ioctl_next_match ioctlent iop =
    (if iop + 1 < length ioctlent \<and> io_code (ioctlent ! (iop + 1)) = io_code (ioctlent ! iop) then Some (iop + 1) else None)"

text \<open>The decoder that the type of the command selects.\<close>

definition ioctl_decoder :: "c_long \<Rightarrow> string option" where
  "ioctl_decoder cmd =
    (let t = unat (drop_bit 8 cmd AND 0xff)
     in if t = 0x54 then Some ''term_ioctl''
        else if t = 0x89 then Some ''sock_ioctl''
        else if t = 0x70 then Some ''rtc_ioctl''
        else if t = 0x03 \<or> t = 0x12 then Some ''block_ioctl''
        else if t = 0x22 then Some ''scsi_ioctl''
        else if t = 0x4c then Some ''loop_ioctl''
        else if t = 0x4d then Some ''mtd_ioctl''
        else if t = 0x6f \<or> t = 0x4f then Some ''ubi_ioctl''
        else None)"

text \<open>\<open>dev\<close>: what the decoder of a device prints and returns.\<close>

definition ioctl_decode :: "(string \<Rightarrow> c_long \<Rightarrow> c_long \<Rightarrow> string \<times> c_int) \<Rightarrow> c_long \<Rightarrow> c_long \<Rightarrow> string \<times> c_int" where
  "ioctl_decode dev cmd arg = (case ioctl_decoder cmd of Some f \<Rightarrow> dev f cmd arg | None \<Rightarrow> ([], 0))"

function other_names :: "ioctlent list \<Rightarrow> nat \<Rightarrow> string" where
  "other_names ioctlent iop =
    (case ioctl_next_match ioctlent iop of
       None \<Rightarrow> []
     | Some iop \<Rightarrow> '' or '' @ io_symbol (ioctlent ! iop) @ other_names ioctlent iop)"
  by pat_completeness auto
termination
  by (relation "measure (\<lambda>(ioctlent, iop). length ioctlent - iop)") (auto simp: ioctl_next_match_def split: if_splits)

declare other_names.simps [simp del]

definition command_text :: "ioctlent list \<Rightarrow> c_long \<Rightarrow> string" where
  "command_text ioctlent cmd =
    (case ioctl_lookup ioctlent cmd of
       Some iop \<Rightarrow> io_symbol (ioctlent ! iop) @ other_names ioctlent iop
     | None \<Rightarrow> fmt_hx (unat cmd))"

definition sys_ioctl ::
  "ioctlent list \<Rightarrow> (string \<Rightarrow> c_long \<Rightarrow> c_long \<Rightarrow> string \<times> c_int) \<Rightarrow> penv \<Rightarrow> bool \<Rightarrow> tcb \<Rightarrow> string \<times> c_int" where
  "sys_ioctl ioctlent dev pe show_fd_path tcp =
    (let cmd = t_u_arg tcp ! 1; arg = t_u_arg tcp ! 2; r = ioctl_decode dev cmd arg
     in if entering tcp then
          (printfd pe show_fd_path (t_pid tcp) (int_of (t_u_arg tcp ! 0)) @ '', '' @ command_text ioctlent cmd @ fst r, 0)
        else if snd r = 0 then (fst r @ '', '' @ fmt_hx (unat arg), 0)
        else (fst r, snd r - 1))"

subsection \<open>The program that makes the table\<close>

definition compare_ioctls :: "ioctlent \<Rightarrow> ioctlent \<Rightarrow> int" where
  "compare_ioctls a b =
    (if io_code a > io_code b then 1 else if io_code a < io_code b then -1 else strcmp (io_symbol a) (io_symbol b))"

text \<open>\<open>qsort\<close>. Its order of entries that compare equal is not specified; such entries differ in the header only.\<close>

fun insert_cmp :: "('a \<Rightarrow> 'a \<Rightarrow> int) \<Rightarrow> 'a \<Rightarrow> 'a list \<Rightarrow> 'a list" where
  "insert_cmp cmp x [] = [x]"
| "insert_cmp cmp x (y # ys) = (if cmp x y \<le> 0 then x # y # ys else y # insert_cmp cmp x ys)"

definition qsort :: "('a \<Rightarrow> 'a \<Rightarrow> int) \<Rightarrow> 'a list \<Rightarrow> 'a list" where
  "qsort cmp xs = foldr (insert_cmp cmp) xs []"

text \<open>The loop that prints: \<open>prev\<close> is the entry before, absent at index 0.\<close>

fun printed_entries :: "ioctlent option \<Rightarrow> ioctlent list \<Rightarrow> ioctlent list" where
  "printed_entries prev [] = []"
| "printed_entries prev (e # es) =
    (if (case prev of None \<Rightarrow> True | Some p \<Rightarrow> io_code e \<noteq> io_code p \<or> strcmp (io_symbol e) (io_symbol p) \<noteq> 0)
     then e # printed_entries (Some e) es else printed_entries (Some e) es)"

definition ioctlsort :: "ioctlent list \<Rightarrow> ioctlent list" where
  "ioctlsort ioctls =
    printed_entries None (qsort compare_ioctls (map (\<lambda>e. e\<lparr>io_code := ioctl_mask (io_code e)\<rparr>) ioctls))"

subsection \<open>Searching a sorted table\<close>

text \<open>What a search promises, and what the lookup makes of it: the first of the entries with the code.\<close>

locale search =
  fixes find :: "c_long list \<Rightarrow> c_long \<Rightarrow> nat option"
  assumes found: "find base key = Some i \<Longrightarrow> i < length base \<and> base ! i = key"
    and missed: "sorted base \<Longrightarrow> find base key = None \<Longrightarrow> key \<notin> set base"
begin

lemma first_entry_at:
  "sorted base \<Longrightarrow> i < length base \<Longrightarrow> base ! i = key \<Longrightarrow> first_entry base key i = length (takeWhile (\<lambda>c. c < key) base)"
proof (induction i)
  case 0
  then show ?case by (cases base) auto
next
  case (Suc i)
  show ?case
  proof (cases "base ! i = key")
    case True
    then show ?thesis using Suc by simp
  next
    case False
    have "base ! j \<le> base ! i" if "j \<le> i" for j using Suc.prems(1,2) that by (simp add: sorted_iff_nth_mono)
    moreover have "base ! i < key" using False Suc.prems by (metis Suc_lessD lessI less_imp_le_nat order_le_less sorted_nth_mono)
    ultimately have "base ! j < key" if "j \<le> i" for j using that by (metis order_le_less_trans)
    then have "takeWhile (\<lambda>c. c < key) base = take (Suc i) base"
      using Suc.prems(2,3) by (intro takeWhile_eq_take_P_nth) auto
    then show ?thesis using False Suc.prems(2) by simp
  qed
qed

lemma lookup_first:
  assumes "sorted base"
  shows "map_option (first_entry base key) (find base key) =
    (if key \<in> set base then Some (length (takeWhile (\<lambda>c. c < key) base)) else None)"
proof (cases "find base key")
  case None
  then show ?thesis using missed [OF assms] by simp
next
  case (Some i)
  then show ?thesis using found [OF Some] first_entry_at [OF assms] by (auto simp: in_set_conv_nth)
qed

end

lemma bsearch_found: "bsearch key base l u = Some i \<Longrightarrow> u \<le> length base \<Longrightarrow> i < length base \<and> base ! i = key"
proof (induction key base l u rule: bsearch.induct)
  case (1 key base l u)
  show ?case
  proof (cases "l < u")
    case True
    then have "(l + u) div 2 < length base" using 1(4) by linarith
    then show ?thesis using 1 True
      by (subst (asm) (3) bsearch.simps) (auto simp: Let_def compare_def split: if_splits)
  next
    case False
    then show ?thesis using 1(3) by (simp add: bsearch.simps)
  qed
qed

lemma bsearch_missed:
  "bsearch key base l u = None \<Longrightarrow> sorted base \<Longrightarrow> u \<le> length base \<Longrightarrow> l \<le> j \<Longrightarrow> j < u \<Longrightarrow> base ! j \<noteq> key"
proof (induction key base l u rule: bsearch.induct)
  case (1 key base l u)
  let ?m = "(l + u) div 2"
  have m: "l < u" "?m < length base" using 1(5,6,7) by auto
  consider (lower) "key < base ! ?m" "bsearch key base l ?m = None" | (upper) "base ! ?m < key" "bsearch key base (?m + 1) u = None"
    using 1(3) m(1) by (subst (asm) bsearch.simps) (auto simp: Let_def compare_def split: if_splits)
  then show ?case
  proof cases
    case lower
    show ?thesis
    proof (cases "j < ?m")
      case True
      have c: "compare key (base ! ?m) < 0" using lower(1) by (simp add: compare_def)
      have "?m \<le> length base" using m(2) by simp
      then show ?thesis by (rule 1(1) [OF m(1) refl refl c lower(2) 1(4) _ 1(6) True])
    next
      case False
      then have "base ! ?m \<le> base ! j" using 1(4,5,7) by (simp add: sorted_iff_nth_mono)
      then show ?thesis using lower(1) by auto
    qed
  next
    case upper
    show ?thesis
    proof (cases "j \<le> ?m")
      case True
      then have "base ! j \<le> base ! ?m" using 1(4) m(2) by (simp add: sorted_iff_nth_mono)
      then show ?thesis using upper(1) by auto
    next
      case False
      have c: "\<not> compare key (base ! ?m) < 0" "compare key (base ! ?m) > 0" using upper(1) by (auto simp: compare_def)
      show ?thesis by (rule 1(2) [OF m(1) refl refl c upper(2) 1(4,5) _ 1(7)]) (use False in simp)
    qed
  qed
qed

interpretation bs: search table_search
proof
  show "i < length base \<and> base ! i = key" if "table_search base key = Some i" for base key i
    using bsearch_found that by (simp add: table_search_def)
  show "key \<notin> set base" if "sorted base" "table_search base key = None" for base key
    using bsearch_missed [of key base 0 "length base"] that by (auto simp: table_search_def in_set_conv_nth)
qed

end
