(* ===== verification/Ioctl_Correct.thy ===== *)
theory Ioctl_Correct
  imports Ioctl "HOL-Library.Char_ord" "HOL-Library.List_Lexorder" "HOL-Library.Product_Lexorder"
begin

text \<open>
  What \<open>ioctlsort\<close> makes of any entries, and what \<open>sys_ioctl\<close> prints for a command: every name of the table whose number
  and type are those of the command.
\<close>

subsection \<open>The names that are printed\<close>

definition alternatives :: "string list \<Rightarrow> string" where
  "alternatives names = hd names @ concat (map (\<lambda>n. '' or '' @ n) (List.tl names))"

definition names_of :: "ioctlent list \<Rightarrow> c_long \<Rightarrow> string list" where
  "names_of ioctlent cmd = map io_symbol [e \<leftarrow> ioctlent. io_code e = ioctl_mask cmd]"

lemma other_names_run:
  "i < length tab \<Longrightarrow> other_names tab i =
    concat (map (\<lambda>e. '' or '' @ io_symbol e) (takeWhile (\<lambda>e. io_code e = io_code (tab ! i)) (drop (Suc i) tab)))"
proof (induction tab i rule: other_names.induct)
  case (1 tab i)
  show ?case
  proof (cases "ioctl_next_match tab i")
    case None
    then show ?thesis by (cases "Suc i < length tab")
        (auto simp: other_names.simps [of tab i] ioctl_next_match_def Cons_nth_drop_Suc [symmetric] split: if_splits)
  next
    case (Some j)
    then have j: "j = Suc i" "Suc i < length tab" "io_code (tab ! Suc i) = io_code (tab ! i)"
      by (auto simp: ioctl_next_match_def split: if_splits)
    then show ?thesis using 1(1) [OF Some] Some
      by (simp add: other_names.simps [of tab i] Cons_nth_drop_Suc [symmetric])
  qed
qed

lemma sorted_run:
  fixes c :: "'a::linorder"
  shows "sorted (map f xs) \<Longrightarrow> takeWhile (\<lambda>e. f e = c) (dropWhile (\<lambda>e. f e < c) xs) = [e \<leftarrow> xs. f e = c]"
proof (induction xs)
  case (Cons x xs)
  consider "f x < c" | "f x = c" | "c < f x" by fastforce
  then show ?case
  proof cases
    case 2
    then have "dropWhile (\<lambda>e. f e < c) xs = xs" using Cons.prems by (cases xs) auto
    then show ?thesis using 2 Cons by simp
  next
    case 3
    then have "[e \<leftarrow> xs. f e = c] = []" using Cons.prems by (force simp: filter_empty_conv)
    moreover have "\<not> f x < c" "f x \<noteq> c" using 3 by auto
    ultimately show ?thesis by simp
  qed (use Cons in auto)
qed simp

lemma command_text_sorted:
  assumes "sorted (map io_code tab)"
  shows "command_text tab cmd = (if names_of tab cmd = [] then fmt_hx (unat cmd) else alternatives (names_of tab cmd))"
proof (cases "ioctl_mask cmd \<in> set (map io_code tab)")
  case False
  then have "names_of tab cmd = []" by (force simp: names_of_def filter_empty_conv)
  then show ?thesis using bs.lookup_first [OF assms, of "ioctl_mask cmd"] False by (simp add: command_text_def ioctl_lookup_def)
next
  case True
  let ?c = "ioctl_mask cmd" and ?i = "length (takeWhile (\<lambda>e. io_code e < ioctl_mask cmd) tab)"
  have found: "ioctl_lookup tab cmd = Some ?i"
    using bs.lookup_first [OF assms, of ?c] True by (simp add: ioctl_lookup_def Let_def takeWhile_map comp_def)
  have run: "[e \<leftarrow> tab. io_code e = ?c] = takeWhile (\<lambda>e. io_code e = ?c) (drop ?i tab)"
    using sorted_run [OF assms, of ?c] by (simp add: dropWhile_eq_drop)
  have "[e \<leftarrow> tab. io_code e = ?c] \<noteq> []" using True by (auto simp: filter_empty_conv)
  then obtain e es where e: "drop ?i tab = e # es" "io_code e = ?c" using run by (cases "drop ?i tab") (auto split: if_splits)
  then have i: "?i < length tab" "io_code (tab ! ?i) = ?c" by (metis drop_all linorder_not_le list.distinct(1), simp add: nth_via_drop)
  then have "names_of tab cmd = io_symbol (tab ! ?i) # map io_symbol (takeWhile (\<lambda>e. io_code e = ?c) (drop (Suc ?i) tab))"
    unfolding names_of_def run by (subst Cons_nth_drop_Suc [symmetric]) auto
  then show ?thesis using found i other_names_run [OF i(1)]
    by (simp add: command_text_def alternatives_def comp_def)
qed

subsection \<open>The table that is made\<close>

definition entry_key :: "ioctlent \<Rightarrow> c_long \<times> string" where
  "entry_key e = (io_code e, io_symbol e)"

lemma strcmp_order: "strcmp s t \<le> 0 \<longleftrightarrow> s \<le> t" "strcmp s t = 0 \<longleftrightarrow> s = t"
  by (induction s t rule: strcmp.induct) (auto simp: less_char_def)

lemma compare_ioctls_order: "compare_ioctls a b \<le> 0 \<longleftrightarrow> entry_key a \<le> entry_key b"
  by (auto simp: compare_ioctls_def entry_key_def less_eq_prod_def strcmp_order)

lemma insert_cmp_sorted: "insert_cmp compare_ioctls x xs = insort_key entry_key x xs"
  by (induction xs) (auto simp: compare_ioctls_order)

lemma qsort_sorted: "qsort compare_ioctls xs = sort_key entry_key xs"
  by (induction xs) (auto simp: qsort_def insert_cmp_sorted)

lemma printed_entries_after:
  "sorted (map entry_key (p # es)) \<Longrightarrow>
    sorted_wrt (<) (map entry_key (p # printed_entries (Some p) es)) \<and>
    set (map entry_key (p # printed_entries (Some p) es)) = set (map entry_key (p # es))"
proof (induction es arbitrary: p)
  case (Cons e es)
  have key: "io_code e = io_code p \<and> strcmp (io_symbol e) (io_symbol p) = 0 \<longleftrightarrow> entry_key e = entry_key p"
    by (auto simp: entry_key_def strcmp_order)
  have IH: "sorted_wrt (<) (map entry_key (e # printed_entries (Some e) es))"
    "set (map entry_key (e # printed_entries (Some e) es)) = set (map entry_key (e # es))"
    using Cons.IH [of e] Cons.prems by auto
  have le: "entry_key p \<le> entry_key e" using Cons.prems by simp
  show ?case
  proof (cases "entry_key e = entry_key p")
    case True
    then show ?thesis using IH key by auto
  next
    case False
    then have "entry_key p < entry_key e" using le by simp
    then have "\<forall>k \<in> set (map entry_key (e # printed_entries (Some e) es)). entry_key p < k"
      using IH(1) by (auto intro: order.strict_trans)
    moreover have "printed_entries (Some p) (e # es) = e # printed_entries (Some e) es" using False key by auto
    ultimately show ?thesis using IH by (simp only: list.map sorted_wrt.simps list.set) blast
  qed
qed simp

lemma ioctlsort_keys:
  "sorted_wrt (<) (map entry_key (ioctlsort ioctls))"
  "set (map entry_key (ioctlsort ioctls)) = (\<lambda>e. (ioctl_mask (io_code e), io_symbol e)) ` set ioctls"
proof -
  let ?es = "map (\<lambda>e. e\<lparr>io_code := ioctl_mask (io_code e)\<rparr>) ioctls"
  have k: "set (map entry_key (sort_key entry_key ?es)) = (\<lambda>e. (ioctl_mask (io_code e), io_symbol e)) ` set ioctls"
    by (simp add: image_image entry_key_def)
  show "sorted_wrt (<) (map entry_key (ioctlsort ioctls))"
    "set (map entry_key (ioctlsort ioctls)) = (\<lambda>e. (ioctl_mask (io_code e), io_symbol e)) ` set ioctls"
    using printed_entries_after [of "hd (sort_key entry_key ?es)" "List.tl (sort_key entry_key ?es)"] k sorted_sort_key [of entry_key ?es]
    by (cases "sort_key entry_key ?es"; simp add: ioctlsort_def qsort_sorted)+
qed

lemma ioctlsort_codes: "sorted (map io_code (ioctlsort ioctls))"
  using ioctlsort_keys(1) [of ioctls]
  by (auto simp: sorted_wrt_map entry_key_def less_prod_def elim!: sorted_wrt_mono_rel [rotated])

lemma ioctlsort_names:
  "names_of (ioctlsort ioctls) cmd = sort (remdups [io_symbol e. e \<leftarrow> ioctls, ioctl_mask (io_code e) = ioctl_mask cmd])"
proof (rule sorted_distinct_set_unique)
  let ?c = "ioctl_mask cmd" and ?t = "ioctlsort ioctls"
  have "sorted_wrt (<) (map entry_key [e \<leftarrow> ?t. io_code e = ?c])"
    using ioctlsort_keys(1) [of ioctls] by (simp add: sorted_wrt_map sorted_wrt_filter)
  then have "sorted_wrt (<) (names_of ?t cmd)" unfolding names_of_def sorted_wrt_map
    by (rule sorted_wrt_mono_rel [rotated]) (auto simp: entry_key_def less_prod_def)
  then show "sorted (names_of ?t cmd)" "distinct (names_of ?t cmd)" by (auto simp: strict_sorted_iff)
  have "io_symbol e \<in> set (names_of ?t cmd)" if "e \<in> set ioctls" "ioctl_mask (io_code e) = ?c" for e
  proof -
    have "(?c, io_symbol e) \<in> entry_key ` set ?t" using ioctlsort_keys(2) [of ioctls] that by force
    then show ?thesis by (auto simp: names_of_def entry_key_def)
  qed
  moreover have "n \<in> set [io_symbol e. e \<leftarrow> ioctls, ioctl_mask (io_code e) = ?c]" if "n \<in> set (names_of ?t cmd)" for n
  proof -
    have "(?c, n) \<in> entry_key ` set ?t" using that by (force simp: names_of_def entry_key_def)
    then show ?thesis using ioctlsort_keys(2) [of ioctls] by force
  qed
  ultimately show "set (names_of ?t cmd) = set (sort (remdups [io_symbol e. e \<leftarrow> ioctls, ioctl_mask (io_code e) = ?c]))"
    by auto
qed auto


end
