(* ===== verification/File.thy ===== *)
theory File
  imports Poll
begin

text \<open>
  Decoders of file system calls: \<^verbatim>\<open>src/strace/file.c\<close>, on x86_64, with \<open>printllval\<close> of \<^verbatim>\<open>src/strace/util.c\<close>. A decoder yields the text
  that it prints and returns 0; those that return something else yield a pair. Static and local buffers have their sizes,
  and writing or reading outside of them is a fault.
\<close>

subsection \<open>Printing\<close>

text \<open>The broken-down time of the C library.\<close>

record tm =
  tm_sec :: int
  tm_min :: int
  tm_hour :: int
  tm_mday :: int
  tm_mon :: int
  tm_year :: int

text \<open>\<open>fe_localtime\<close> is \<open>localtime\<close>, which may fail; the other members are options, the tracee and the environment.\<close>

record fenv =
  fe_pe :: penv
  fe_show_fd_path :: bool
  fe_xflag :: nat
  fe_max_strlen :: nat
  fe_tracee :: tracee
  fe_localtime :: "int \<Rightarrow> tm option"

abbreviation arg :: "tcb \<Rightarrow> nat \<Rightarrow> c_long" where
  "arg tcp n \<equiv> t_u_arg tcp ! n"

text \<open>Texts printed one after the other.\<close>

fun prints :: "(fault + string) list \<Rightarrow> fault + string" where
  "prints [] = Inr []"
| "prints (p # ps) = sbind p (\<lambda>s. sbind (prints ps) (\<lambda>r. Inr (s @ r)))"

definition on_entry :: "tcb \<Rightarrow> (fault + string) list \<Rightarrow> fault + string" where
  "on_entry tcp ps = (if entering tcp then prints ps else Inr [])"

definition syserror :: "tcb \<Rightarrow> bool" where
  "syserror tcp \<longleftrightarrow> t_u_error tcp \<noteq> 0"

abbreviation hx :: "c_long \<Rightarrow> fault + string" where
  "hx w \<equiv> Inr (fmt_hx (unat w))"

abbreviation lu :: "c_long \<Rightarrow> fault + string" where
  "lu w \<equiv> Inr (fmt_u (unat w))"

abbreviation ld :: "c_long \<Rightarrow> fault + string" where
  "ld w \<equiv> Inr (fmt_d (sint w))"

abbreviation ho :: "c_long \<Rightarrow> fault + string" where
  "ho w \<equiv> Inr (fmt_ho (unat w))"

abbreviation comma :: "fault + string" where
  "comma \<equiv> Inr '', ''"

definition p_path :: "fenv \<Rightarrow> c_long \<Rightarrow> fault + string" where
  "p_path fe a = sbind (printpath (fe_xflag fe) (fe_tracee fe) a (take (MAXPATHLEN + 1) (stack (fe_pe fe)))) (\<lambda>(s, _). Inr s)"

definition p_pathn :: "fenv \<Rightarrow> c_long \<Rightarrow> int \<Rightarrow> fault + string" where
  "p_pathn fe a n = sbind (printpathn (fe_xflag fe) (fe_tracee fe) a n (take (MAXPATHLEN + 1) (stack (fe_pe fe)))) (\<lambda>(s, _). Inr s)"

definition p_str :: "fenv \<Rightarrow> c_long \<Rightarrow> int \<Rightarrow> fault + string" where
  "p_str fe a len =
    sbind (printstr (fe_max_strlen fe) (fe_xflag fe) (fe_tracee fe) a len (take (fe_max_strlen fe + 1) (stack (fe_pe fe)))) (\<lambda>(s, _). Inr s)"

definition p_fd :: "fenv \<Rightarrow> tcb \<Rightarrow> c_long \<Rightarrow> fault + string" where
  "p_fd fe tcp a = Inr (printfd (fe_pe fe) (fe_show_fd_path fe) (t_pid tcp) (int_of a))"

definition p_flags :: "xlat list \<Rightarrow> c_long \<Rightarrow> string \<Rightarrow> fault + string" where
  "p_flags tbl a dflt = (case printflags tbl (ucast a) (Some dflt) of Some (s, _) \<Rightarrow> Inr s | None \<Rightarrow> Inl OutOfBounds)"

definition p_xval :: "xlat list \<Rightarrow> c_long \<Rightarrow> string \<Rightarrow> fault + string" where
  "p_xval tbl a dflt = Inr (printxval tbl (ucast a) dflt)"

definition umove :: "fenv \<Rightarrow> c_long \<Rightarrow> nat \<Rightarrow> fault + int \<times> string" where
  "umove fe a len = sbind (tr_umoven (fe_tracee fe) a len (take len (stack (fe_pe fe)))) (\<lambda>(rc, bs, _). Inr (rc, bs))"

text \<open>The text of a buffer of \<open>n\<close> bytes.\<close>

definition in_buffer :: "nat \<Rightarrow> string \<Rightarrow> fault + string" where
  "in_buffer n s = (if length s + 1 \<le> n then Inr s else Inl OutOfBounds)"

text \<open>The argument of 64 bits at a position: the text, and the position of the next argument.\<close>

definition LONG_LONG :: "c_long \<Rightarrow> c_long \<Rightarrow> c_long" where
  "LONG_LONG a b = ucast (ucast a :: c_int) OR push_bit 32 b"

definition printllval :: "fenv \<Rightarrow> tcb \<Rightarrow> (c_long \<Rightarrow> string) \<Rightarrow> nat \<Rightarrow> string \<times> nat" where
  "printllval fe tcp format arg_no =
    (if tr_wordsize (fe_tracee fe) > 4 then (format (arg tcp arg_no), arg_no + 1)
     else (format (LONG_LONG (arg tcp arg_no) (arg tcp (arg_no + 1))), arg_no + 2))"

subsection \<open>Opening\<close>

definition open_access_modes :: "xlat list" where
  "open_access_modes = [
     \<lparr>xl_val = 0, xl_str = ''O_RDONLY''\<rparr>, \<lparr>xl_val = 1, xl_str = ''O_WRONLY''\<rparr>,
     \<lparr>xl_val = 2, xl_str = ''O_RDWR''\<rparr>, \<lparr>xl_val = 3, xl_str = ''O_ACCMODE''\<rparr>]"

abbreviation "O_CREAT \<equiv> (0x40 :: c_int)"

definition open_mode_flags :: "xlat list" where
  "open_mode_flags = [
     \<lparr>xl_val = O_CREAT, xl_str = ''O_CREAT''\<rparr>, \<lparr>xl_val = 0x80, xl_str = ''O_EXCL''\<rparr>, \<lparr>xl_val = 0x100, xl_str = ''O_NOCTTY''\<rparr>,
     \<lparr>xl_val = 0x200, xl_str = ''O_TRUNC''\<rparr>, \<lparr>xl_val = 0x400, xl_str = ''O_APPEND''\<rparr>, \<lparr>xl_val = 0x800, xl_str = ''O_NONBLOCK''\<rparr>,
     \<lparr>xl_val = 0x101000, xl_str = ''O_SYNC''\<rparr>, \<lparr>xl_val = 0x2000, xl_str = ''O_ASYNC''\<rparr>, \<lparr>xl_val = 0x1000, xl_str = ''O_DSYNC''\<rparr>,
     \<lparr>xl_val = 0x101000, xl_str = ''O_RSYNC''\<rparr>, \<lparr>xl_val = 0x4000, xl_str = ''O_DIRECT''\<rparr>, \<lparr>xl_val = 0x8000, xl_str = ''O_LARGEFILE''\<rparr>,
     \<lparr>xl_val = 0x10000, xl_str = ''O_DIRECTORY''\<rparr>, \<lparr>xl_val = 0x20000, xl_str = ''O_NOFOLLOW''\<rparr>, \<lparr>xl_val = 0x40000, xl_str = ''O_NOATIME''\<rparr>,
     \<lparr>xl_val = 0x80000, xl_str = ''O_CLOEXEC''\<rparr>, \<lparr>xl_val = 0x800, xl_str = ''FNDELAY''\<rparr>, \<lparr>xl_val = 0x400, xl_str = ''FAPPEND''\<rparr>,
     \<lparr>xl_val = 0x2000, xl_str = ''FASYNC''\<rparr>]"

definition print_dirfd :: "fenv \<Rightarrow> tcb \<Rightarrow> c_long \<Rightarrow> fault + string" where
  "print_dirfd fe tcp a = (if int_of a = -100 then Inr ''AT_FDCWD, '' else prints [p_fd fe tcp a, comma])"

text \<open>The loop of \<open>sprint_open_modes\<close> over the flags: \<open>p\<close> is the text so far.\<close>

fun open_modes_loop :: "xlat list \<Rightarrow> c_int \<Rightarrow> string \<Rightarrow> char \<Rightarrow> string" where
  "open_modes_loop [] flags p sep = p @ [sep] @ fmt_hx32 flags"
| "open_modes_loop (x # xs) flags p sep =
    (if flags AND xl_val x = xl_val x then
       (let p = p @ [sep] @ xl_str x; flags = flags AND NOT (xl_val x)
        in if flags = 0 then p else open_modes_loop xs flags p CHR ''|'')
     else open_modes_loop xs flags p sep)"

definition sprint_open_modes :: "c_int \<Rightarrow> fault + string" where
  "sprint_open_modes flags =
    in_buffer ((1 + (length open_mode_flags + 1)) * 12)
      (case xlookup open_access_modes (flags AND 3) of
         Some str \<Rightarrow>
           (let p = ''flags '' @ str; flags = flags AND NOT 3
            in if flags = 0 then p else open_modes_loop open_mode_flags flags p CHR ''|'')
       | None \<Rightarrow> open_modes_loop open_mode_flags flags ''flags'' CHR '' '')"

definition tprint_open_modes :: "c_int \<Rightarrow> fault + string" where
  "tprint_open_modes flags = sbind (sprint_open_modes flags) (\<lambda>s. Inr (drop 6 s))"

definition decode_open :: "fenv \<Rightarrow> tcb \<Rightarrow> nat \<Rightarrow> fault + string" where
  "decode_open fe tcp offset =
    on_entry tcp
      ([p_path fe (arg tcp offset), comma, tprint_open_modes (ucast (arg tcp (offset + 1)))]
       @ (if ucast (arg tcp (offset + 1)) AND O_CREAT \<noteq> 0 then [comma, ho (arg tcp (offset + 2))] else []))"

definition sys_open :: "fenv \<Rightarrow> tcb \<Rightarrow> fault + string" where
  "sys_open fe tcp = decode_open fe tcp 0"

definition sys_openat :: "fenv \<Rightarrow> tcb \<Rightarrow> fault + string" where
  "sys_openat fe tcp = prints [on_entry tcp [print_dirfd fe tcp (arg tcp 0)], decode_open fe tcp 1]"

definition sys_creat :: "fenv \<Rightarrow> tcb \<Rightarrow> fault + string" where
  "sys_creat fe tcp = on_entry tcp [p_path fe (arg tcp 0), comma, ho (arg tcp 1)]"

subsection \<open>Access, positions, sizes\<close>

definition access_flags :: "xlat list" where
  "access_flags = [\<lparr>xl_val = 0, xl_str = ''F_OK''\<rparr>, \<lparr>xl_val = 4, xl_str = ''R_OK''\<rparr>, \<lparr>xl_val = 2, xl_str = ''W_OK''\<rparr>, \<lparr>xl_val = 1, xl_str = ''X_OK''\<rparr>]"

definition decode_access :: "fenv \<Rightarrow> tcb \<Rightarrow> nat \<Rightarrow> fault + string" where
  "decode_access fe tcp offset =
    on_entry tcp [p_path fe (arg tcp offset), comma, p_flags access_flags (arg tcp (offset + 1)) ''?_OK'']"

definition sys_access :: "fenv \<Rightarrow> tcb \<Rightarrow> fault + string" where
  "sys_access fe tcp = decode_access fe tcp 0"

definition sys_faccessat :: "fenv \<Rightarrow> tcb \<Rightarrow> fault + string" where
  "sys_faccessat fe tcp = prints [on_entry tcp [print_dirfd fe tcp (arg tcp 0)], decode_access fe tcp 1]"

abbreviation "RVAL_UDECIMAL \<equiv> (3 :: c_int)"

abbreviation "RVAL_OCTAL \<equiv> (2 :: c_int)"

definition sys_umask :: "tcb \<Rightarrow> (fault + string) \<times> c_int" where
  "sys_umask tcp = (on_entry tcp [ho (arg tcp 0)], RVAL_OCTAL)"

definition whence_codes :: "xlat list" where
  "whence_codes = [
     \<lparr>xl_val = 0, xl_str = ''SEEK_SET''\<rparr>, \<lparr>xl_val = 1, xl_str = ''SEEK_CUR''\<rparr>, \<lparr>xl_val = 2, xl_str = ''SEEK_END''\<rparr>,
     \<lparr>xl_val = 3, xl_str = ''SEEK_DATA''\<rparr>, \<lparr>xl_val = 4, xl_str = ''SEEK_HOLE''\<rparr>]"

definition sys_lseek :: "fenv \<Rightarrow> tcb \<Rightarrow> (fault + string) \<times> c_int" where
  "sys_lseek fe tcp =
    (on_entry tcp
       [p_fd fe tcp (arg tcp 0), comma, if (ucast (arg tcp 2) :: c_int) = 0 then lu (arg tcp 1) else ld (arg tcp 1), comma,
        p_xval whence_codes (arg tcp 2) ''SEEK_???''], RVAL_UDECIMAL)"

definition llseek_offset :: "tcb \<Rightarrow> c_long" where
  "llseek_offset tcp = push_bit 32 (arg tcp 1) OR ucast (ucast (arg tcp 2) :: c_int)"

definition sys_llseek :: "fenv \<Rightarrow> tcb \<Rightarrow> fault + string" where
  "sys_llseek fe tcp =
    (if entering tcp then
       prints [p_fd fe tcp (arg tcp 0), comma, if arg tcp 4 = 0 then lu (llseek_offset tcp) else ld (llseek_offset tcp), comma]
     else
       prints
         [if syserror tcp then prints [hx (arg tcp 3), comma]
          else sbind (umove fe (arg tcp 3) 8) (\<lambda>(rc, off).
            if rc < 0 then prints [hx (arg tcp 3), comma] else Inr (''['' @ fmt_u (bytes_num off) @ ''], '')),
          p_xval whence_codes (arg tcp 4) ''SEEK_???''])"

definition sys_readahead :: "fenv \<Rightarrow> tcb \<Rightarrow> fault + string" where
  "sys_readahead fe tcp =
    on_entry tcp
      (let (s, argn) = printllval fe tcp (\<lambda>w. '', '' @ fmt_d (sint w)) 1 in [p_fd fe tcp (arg tcp 0), Inr s, comma, ld (arg tcp argn)])"

definition sys_truncate :: "fenv \<Rightarrow> tcb \<Rightarrow> fault + string" where
  "sys_truncate fe tcp = on_entry tcp [p_path fe (arg tcp 0), comma, lu (arg tcp 1)]"

definition sys_truncate64 :: "fenv \<Rightarrow> tcb \<Rightarrow> fault + string" where
  "sys_truncate64 fe tcp =
    on_entry tcp [p_path fe (arg tcp 0), Inr (fst (printllval fe tcp (\<lambda>w. '', '' @ fmt_u (unat w)) 1))]"

definition sys_ftruncate :: "fenv \<Rightarrow> tcb \<Rightarrow> fault + string" where
  "sys_ftruncate fe tcp = on_entry tcp [p_fd fe tcp (arg tcp 0), comma, lu (arg tcp 1)]"

definition sys_ftruncate64 :: "fenv \<Rightarrow> tcb \<Rightarrow> fault + string" where
  "sys_ftruncate64 fe tcp =
    on_entry tcp [p_fd fe tcp (arg tcp 0), Inr (fst (printllval fe tcp (\<lambda>w. '', '' @ fmt_u (unat w)) 1))]"

end
