(* ===== verification/File_Attr.thy ===== *)
theory File_Attr
  imports File
begin

text \<open>
  More decoders of \<^verbatim>\<open>src/strace/file.c\<close>: modes, times and the status of a file, names and their attributes, directory entries,
  extended attributes.
\<close>

subsection \<open>Modes, times, status\<close>

definition modetypes :: "xlat list" where
  "modetypes = [
     \<lparr>xl_val = 0x8000, xl_str = ''S_IFREG''\<rparr>, \<lparr>xl_val = 0xc000, xl_str = ''S_IFSOCK''\<rparr>, \<lparr>xl_val = 0x1000, xl_str = ''S_IFIFO''\<rparr>,
     \<lparr>xl_val = 0xa000, xl_str = ''S_IFLNK''\<rparr>, \<lparr>xl_val = 0x4000, xl_str = ''S_IFDIR''\<rparr>, \<lparr>xl_val = 0x6000, xl_str = ''S_IFBLK''\<rparr>,
     \<lparr>xl_val = 0x2000, xl_str = ''S_IFCHR''\<rparr>]"

abbreviation "S_IFMT \<equiv> (0xf000 :: c_int)"

abbreviation "S_ISUID \<equiv> (0x800 :: c_int)"

abbreviation "S_ISGID \<equiv> (0x400 :: c_int)"

abbreviation "S_ISVTX \<equiv> (0x200 :: c_int)"

text \<open>The buffer has the size of the longest name with its terminator, three bytes for every byte of an \<open>int\<close>, and eight more.\<close>

definition mode_bits :: "c_int \<Rightarrow> string" where
  "mode_bits mode =
    (if mode AND S_ISUID \<noteq> 0 then ''|S_ISUID'' else []) @ (if mode AND S_ISGID \<noteq> 0 then ''|S_ISGID'' else [])
    @ (if mode AND S_ISVTX \<noteq> 0 then ''|S_ISVTX'' else [])"

definition sprintmode :: "c_int \<Rightarrow> fault + string" where
  "sprintmode mode =
    (case (if mode AND S_IFMT = 0 then Some [] else xlookup modetypes (mode AND S_IFMT)) of
       None \<Rightarrow> in_buffer 56 (fmt_ho (unat mode))
     | Some s \<Rightarrow>
         (let s = s @ mode_bits mode; mode = mode AND NOT (S_IFMT OR S_ISUID OR S_ISGID OR S_ISVTX)
          in sbind (in_buffer 56 (s @ (if mode \<noteq> 0 then ''|'' @ fmt_ho (unat mode) else []))) (\<lambda>buf.
            let s = (if take 1 buf = ''|'' then drop 1 buf else buf) in Inr (if s = [] then ''0'' else s))))"

definition fmt_02 :: "int \<Rightarrow> string" where
  "fmt_02 i = (if length (fmt_d i) < 2 then ''0'' @ fmt_d i else fmt_d i)"

text \<open>\<open>snprintf\<close> cuts the text to the buffer of 20 bytes.\<close>

definition sprinttime :: "(int \<Rightarrow> tm option) \<Rightarrow> c_long \<Rightarrow> string" where
  "sprinttime localtime t =
    (if t = 0 then ''0''
     else take 19 (case localtime (sint t) of
       Some tmp \<Rightarrow> fmt_02 (tm_year tmp + 1900) @ ''/'' @ fmt_02 (tm_mon tmp + 1) @ ''/'' @ fmt_02 (tm_mday tmp) @ ''-''
         @ fmt_02 (tm_hour tmp) @ '':'' @ fmt_02 (tm_min tmp) @ '':'' @ fmt_02 (tm_sec tmp)
     | None \<Rightarrow> fmt_u (unat t)))"

definition p_time :: "fenv \<Rightarrow> c_long \<Rightarrow> fault + string" where
  "p_time fe t = Inr (sprinttime (fe_localtime fe) t)"

text \<open>\<open>major\<close> and \<open>minor\<close> of the C library.\<close>

definition major :: "c_long \<Rightarrow> c_int" where
  "major dev = (ucast (drop_bit 8 dev) AND 0xfff) OR (ucast (drop_bit 32 dev) AND NOT 0xfff)"

definition minor :: "c_long \<Rightarrow> c_int" where
  "minor dev = (ucast dev AND 0xff) OR (ucast (drop_bit 12 dev) AND NOT 0xff)"

definition makedev_text :: "c_long \<Rightarrow> fault + string" where
  "makedev_text dev = Inr (''makedev('' @ fmt_u (unat (major dev)) @ '', '' @ fmt_u (unat (minor dev)) @ '')'')"

text \<open>\<open>struct stat\<close> of the C library, as bytes: the member of \<open>n\<close> bytes at an offset.\<close>

definition member :: "string \<Rightarrow> nat \<Rightarrow> nat \<Rightarrow> c_long" where
  "member b off n = of_nat (bytes_num (take n (drop off b)))"

definition is_device :: "c_int \<Rightarrow> bool" where
  "is_device mode \<longleftrightarrow> mode AND S_IFMT = 0x2000 \<or> mode AND S_IFMT = 0x6000"

definition realprintstat :: "fenv \<Rightarrow> tcb \<Rightarrow> string \<Rightarrow> fault + string" where
  "realprintstat fe tcp b =
    (let mode = ucast (member b 24 4)
     in prints
       ((if \<not> abbrev tcp then
           [Inr ''{st_dev='', makedev_text (member b 0 8), Inr '', st_ino='', lu (member b 8 8), Inr '', st_mode='', sprintmode mode, comma,
            Inr ''st_nlink='', lu (member b 16 8), Inr '', st_uid='', lu (member b 28 4), Inr '', st_gid='', lu (member b 32 4), comma,
            Inr ''st_blksize='', lu (member b 56 8), comma, Inr ''st_blocks='', lu (member b 64 8), comma]
         else [Inr ''{st_mode='', sprintmode mode, comma])
        @ (if is_device mode then [Inr ''st_rdev='', makedev_text (member b 40 8), comma] else [Inr ''st_size='', lu (member b 48 8), comma])
        @ (if \<not> abbrev tcp then
             [Inr ''st_atime='', p_time fe (member b 72 8), comma, Inr ''st_mtime='', p_time fe (member b 88 8), comma,
              Inr ''st_ctime='', p_time fe (member b 104 8), Inr ''}'']
           else [Inr ''...}''])))"

definition printstat :: "fenv \<Rightarrow> tcb \<Rightarrow> c_long \<Rightarrow> fault + string" where
  "printstat fe tcp addr =
    (if addr = 0 then Inr ''NULL''
     else if syserror tcp \<or> \<not> verbose tcp then hx addr
     else sbind (umove fe addr 144) (\<lambda>(rc, b). if rc < 0 then Inr ''{...}'' else realprintstat fe tcp b))"

definition sys_stat :: "fenv \<Rightarrow> tcb \<Rightarrow> fault + string" where
  "sys_stat fe tcp = (if entering tcp then prints [p_path fe (arg tcp 0), comma] else printstat fe tcp (arg tcp 1))"

definition sys_fstat :: "fenv \<Rightarrow> tcb \<Rightarrow> fault + string" where
  "sys_fstat fe tcp = (if entering tcp then prints [p_fd fe tcp (arg tcp 0), comma] else printstat fe tcp (arg tcp 1))"

subsection \<open>Names\<close>

definition at_flags :: "xlat list" where
  "at_flags = [
     \<lparr>xl_val = 0x100, xl_str = ''AT_SYMLINK_NOFOLLOW''\<rparr>, \<lparr>xl_val = 0x200, xl_str = ''AT_REMOVEDIR''\<rparr>,
     \<lparr>xl_val = 0x400, xl_str = ''AT_SYMLINK_FOLLOW''\<rparr>, \<lparr>xl_val = 0x800, xl_str = ''AT_NO_AUTOMOUNT''\<rparr>,
     \<lparr>xl_val = 0x1000, xl_str = ''AT_EMPTY_PATH''\<rparr>]"

definition sys_chdir :: "fenv \<Rightarrow> tcb \<Rightarrow> fault + string" where
  "sys_chdir fe tcp = on_entry tcp [p_path fe (arg tcp 0)]"

definition decode_mkdir :: "fenv \<Rightarrow> tcb \<Rightarrow> nat \<Rightarrow> fault + string" where
  "decode_mkdir fe tcp offset = on_entry tcp [p_path fe (arg tcp offset), comma, ho (arg tcp (offset + 1))]"

definition sys_mkdir :: "fenv \<Rightarrow> tcb \<Rightarrow> fault + string" where
  "sys_mkdir fe tcp = decode_mkdir fe tcp 0"

definition sys_mkdirat :: "fenv \<Rightarrow> tcb \<Rightarrow> fault + string" where
  "sys_mkdirat fe tcp = prints [on_entry tcp [print_dirfd fe tcp (arg tcp 0)], decode_mkdir fe tcp 1]"

definition sys_link :: "fenv \<Rightarrow> tcb \<Rightarrow> fault + string" where
  "sys_link fe tcp = on_entry tcp [p_path fe (arg tcp 0), comma, p_path fe (arg tcp 1)]"

definition sys_linkat :: "fenv \<Rightarrow> tcb \<Rightarrow> fault + string" where
  "sys_linkat fe tcp =
    on_entry tcp [print_dirfd fe tcp (arg tcp 0), p_path fe (arg tcp 1), comma, print_dirfd fe tcp (arg tcp 2), p_path fe (arg tcp 3), comma,
      p_flags at_flags (arg tcp 4) ''AT_???'']"

definition sys_unlinkat :: "fenv \<Rightarrow> tcb \<Rightarrow> fault + string" where
  "sys_unlinkat fe tcp =
    on_entry tcp [print_dirfd fe tcp (arg tcp 0), p_path fe (arg tcp 1), comma, p_flags at_flags (arg tcp 2) ''AT_???'']"

definition sys_symlinkat :: "fenv \<Rightarrow> tcb \<Rightarrow> fault + string" where
  "sys_symlinkat fe tcp = on_entry tcp [p_path fe (arg tcp 0), comma, print_dirfd fe tcp (arg tcp 1), p_path fe (arg tcp 2)]"

definition decode_readlink :: "fenv \<Rightarrow> tcb \<Rightarrow> nat \<Rightarrow> fault + string" where
  "decode_readlink fe tcp offset =
    (if entering tcp then prints [p_path fe (arg tcp offset), comma]
     else prints
       [if syserror tcp then hx (arg tcp (offset + 1)) else p_str fe (arg tcp (offset + 1)) (sint (t_u_rval tcp)), comma, lu (arg tcp (offset + 2))])"

definition sys_readlink :: "fenv \<Rightarrow> tcb \<Rightarrow> fault + string" where
  "sys_readlink fe tcp = decode_readlink fe tcp 0"

definition sys_readlinkat :: "fenv \<Rightarrow> tcb \<Rightarrow> fault + string" where
  "sys_readlinkat fe tcp = prints [on_entry tcp [print_dirfd fe tcp (arg tcp 0)], decode_readlink fe tcp 1]"

definition sys_renameat :: "fenv \<Rightarrow> tcb \<Rightarrow> fault + string" where
  "sys_renameat fe tcp =
    on_entry tcp [print_dirfd fe tcp (arg tcp 0), p_path fe (arg tcp 1), comma, print_dirfd fe tcp (arg tcp 2), p_path fe (arg tcp 3)]"

definition p_uid :: "c_long \<Rightarrow> fault + string" where
  "p_uid a = Inr (printuid '', '' a)"

definition sys_chown :: "fenv \<Rightarrow> tcb \<Rightarrow> fault + string" where
  "sys_chown fe tcp = on_entry tcp [p_path fe (arg tcp 0), p_uid (arg tcp 1), p_uid (arg tcp 2)]"

definition sys_fchownat :: "fenv \<Rightarrow> tcb \<Rightarrow> fault + string" where
  "sys_fchownat fe tcp =
    on_entry tcp [print_dirfd fe tcp (arg tcp 0), p_path fe (arg tcp 1), p_uid (arg tcp 2), p_uid (arg tcp 3), comma,
      p_flags at_flags (arg tcp 4) ''AT_???'']"

definition sys_fchown :: "fenv \<Rightarrow> tcb \<Rightarrow> fault + string" where
  "sys_fchown fe tcp = on_entry tcp [p_fd fe tcp (arg tcp 0), p_uid (arg tcp 1), p_uid (arg tcp 2)]"

definition decode_chmod :: "fenv \<Rightarrow> tcb \<Rightarrow> nat \<Rightarrow> fault + string" where
  "decode_chmod fe tcp offset = on_entry tcp [p_path fe (arg tcp offset), comma, ho (arg tcp (offset + 1))]"

definition sys_chmod :: "fenv \<Rightarrow> tcb \<Rightarrow> fault + string" where
  "sys_chmod fe tcp = decode_chmod fe tcp 0"

definition sys_fchmodat :: "fenv \<Rightarrow> tcb \<Rightarrow> fault + string" where
  "sys_fchmodat fe tcp = prints [on_entry tcp [print_dirfd fe tcp (arg tcp 0)], decode_chmod fe tcp 1]"

definition sys_fchmod :: "fenv \<Rightarrow> tcb \<Rightarrow> fault + string" where
  "sys_fchmod fe tcp = on_entry tcp [p_fd fe tcp (arg tcp 0), comma, ho (arg tcp 1)]"

text \<open>\<open>printtv_bitness\<close> with the width of the personality.\<close>

definition p_timeval :: "fenv \<Rightarrow> tcb \<Rightarrow> c_long \<Rightarrow> bool \<Rightarrow> fault + string" where
  "p_timeval fe tcp a special =
    sbind (sprinttv (fe_tracee fe) tcp a False special (take 16 (stack (fe_pe fe)))) (in_buffer TIMEVAL_TEXT_BUFSIZE)"

definition decode_utimes :: "fenv \<Rightarrow> tcb \<Rightarrow> nat \<Rightarrow> bool \<Rightarrow> fault + string" where
  "decode_utimes fe tcp offset special =
    on_entry tcp
      ([p_path fe (arg tcp offset), comma]
       @ (if arg tcp (offset + 1) = 0 then [Inr ''NULL'']
          else [Inr ''{'', p_timeval fe tcp (arg tcp (offset + 1)) special, comma, p_timeval fe tcp (arg tcp (offset + 1) + 16) special, Inr ''}'']))"

definition sys_utimes :: "fenv \<Rightarrow> tcb \<Rightarrow> fault + string" where
  "sys_utimes fe tcp = decode_utimes fe tcp 0 False"

definition sys_futimesat :: "fenv \<Rightarrow> tcb \<Rightarrow> fault + string" where
  "sys_futimesat fe tcp = prints [on_entry tcp [print_dirfd fe tcp (arg tcp 0)], decode_utimes fe tcp 1 False]"

definition sys_utimensat :: "fenv \<Rightarrow> tcb \<Rightarrow> fault + string" where
  "sys_utimensat fe tcp =
    on_entry tcp [print_dirfd fe tcp (arg tcp 0), decode_utimes fe tcp 1 True, comma, p_flags at_flags (arg tcp 3) ''AT_???'']"

text \<open>The times of \<open>utime\<close>: two words of the personality, the narrow ones with their sign.\<close>

definition sys_utime :: "fenv \<Rightarrow> tcb \<Rightarrow> fault + string" where
  "sys_utime fe tcp =
    on_entry tcp
      [p_path fe (arg tcp 0), comma,
       if arg tcp 1 = 0 then Inr ''NULL''
       else if \<not> verbose tcp then hx (arg tcp 1)
       else (let wordsize = tr_wordsize (fe_tracee fe)
         in sbind (umove fe (arg tcp 1) (2 * wordsize)) (\<lambda>(rc, u).
           if rc < 0 then Inr ''[?, ?]''
           else if wordsize = 8 then
             prints [Inr ''['', p_time fe (member u 0 8), Inr '','', Inr '' '', p_time fe (member u 8 8), Inr '']'']
           else if wordsize = 4 then
             prints [Inr ''['', p_time fe (scast (ucast (member u 0 4) :: c_int)), Inr '','',
               Inr '' '', p_time fe (scast (ucast (member u 4 4) :: c_int)), Inr '']'']
           else Inr (''<decode error: unsupported wordsize '' @ fmt_d (int wordsize) @ ''>'')))]"

definition decode_mknod :: "fenv \<Rightarrow> tcb \<Rightarrow> nat \<Rightarrow> fault + string" where
  "decode_mknod fe tcp offset =
    (let mode = ucast (arg tcp (offset + 1))
     in on_entry tcp
       ([p_path fe (arg tcp offset), comma, sprintmode mode]
        @ (if is_device mode then [comma, makedev_text (arg tcp (offset + 2))] else [])))"

definition sys_mknod :: "fenv \<Rightarrow> tcb \<Rightarrow> fault + string" where
  "sys_mknod fe tcp = decode_mknod fe tcp 0"

definition sys_mknodat :: "fenv \<Rightarrow> tcb \<Rightarrow> fault + string" where
  "sys_mknodat fe tcp = prints [on_entry tcp [print_dirfd fe tcp (arg tcp 0)], decode_mknod fe tcp 1]"

subsection \<open>Directories\<close>

text \<open>Reading \<open>n\<close> bytes, or a string, of a buffer.\<close>

definition buf_read :: "string \<Rightarrow> nat \<Rightarrow> nat \<Rightarrow> fault + string" where
  "buf_read buf off n = (if off + n \<le> length buf then Inr (take n (drop off buf)) else Inl OutOfBounds)"

definition buf_str :: "string \<Rightarrow> nat \<Rightarrow> fault + string" where
  "buf_str buf off =
    (if CHR 0x00 \<in> set (drop off buf) then Inr (takeWhile (\<lambda>c. c \<noteq> CHR 0x00) (drop off buf)) else Inl OutOfBounds)"

definition print_old_dirent :: "fenv \<Rightarrow> tcb \<Rightarrow> c_long \<Rightarrow> fault + string" where
  "print_old_dirent fe tcp addr =
    (if \<not> verbose tcp then hx addr
     else sbind (umove fe addr 12) (\<lambda>(rc, d).
       if rc < 0 then hx addr
       else
         (let d_reclen = bytes_num (take 2 (drop 8 d))
          in prints
            [Inr ''{d_ino='', lu (member d 0 4), Inr '', d_off='', lu (member d 4 4), Inr '', d_reclen='', Inr (fmt_u d_reclen),
             Inr ('', d_name='' @ [CHR 0x22]), p_pathn fe (addr + 10) (int (min d_reclen 256)), Inr ([CHR 0x22] @ ''}'')])))"

definition sys_readdir :: "fenv \<Rightarrow> tcb \<Rightarrow> fault + string" where
  "sys_readdir fe tcp =
    (if entering tcp then prints [p_fd fe tcp (arg tcp 0), comma]
     else prints
       ((if syserror tcp \<or> t_u_rval tcp = 0 \<or> \<not> verbose tcp then hx (arg tcp 1) else print_old_dirent fe tcp (arg tcp 1))
        # (if arg tcp 2 \<noteq> 1 then [comma, lu (arg tcp 2)] else [])))"

definition direnttypes :: "xlat list" where
  "direnttypes = [
     \<lparr>xl_val = 0, xl_str = ''DT_UNKNOWN''\<rparr>, \<lparr>xl_val = 1, xl_str = ''DT_FIFO''\<rparr>, \<lparr>xl_val = 2, xl_str = ''DT_CHR''\<rparr>,
     \<lparr>xl_val = 4, xl_str = ''DT_DIR''\<rparr>, \<lparr>xl_val = 6, xl_str = ''DT_BLK''\<rparr>, \<lparr>xl_val = 8, xl_str = ''DT_REG''\<rparr>,
     \<lparr>xl_val = 10, xl_str = ''DT_LNK''\<rparr>, \<lparr>xl_val = 12, xl_str = ''DT_SOCK''\<rparr>, \<lparr>xl_val = 14, xl_str = ''DT_WHT''\<rparr>]"

text \<open>One entry of \<open>getdents\<close> at index \<open>i\<close>, with its length: the type is a \<open>char\<close>, at the end of the record.\<close>

definition show_dirent :: "string \<Rightarrow> nat \<Rightarrow> nat \<Rightarrow> fault + string" where
  "show_dirent buf i d_reclen =
    prints
      [Inr (if i = 0 then [] else '' ''), Inr ''{d_ino='', sbind (buf_read buf i 8) (\<lambda>b. Inr (fmt_u (bytes_num b))),
       Inr '', d_off='', sbind (buf_read buf (i + 8) 8) (\<lambda>b. Inr (fmt_u (bytes_num b))), comma,
       Inr ''d_reclen='', Inr (fmt_u d_reclen), Inr ('', d_name='' @ [CHR 0x22]), buf_str buf (i + 18), Inr ([CHR 0x22] @ '', d_type=''),
       if i + d_reclen = 0 then Inl OutOfBounds
       else sbind (buf_read buf (i + d_reclen - 1) 1) (\<lambda>b. Inr (printxval direnttypes (scast (of_nat (bytes_num b) :: byte)) ''DT_???'')),
       Inr ''}'']"

text \<open>One entry of \<open>getdents64\<close>.\<close>

definition show_dirent64 :: "string \<Rightarrow> nat \<Rightarrow> nat \<Rightarrow> fault + string" where
  "show_dirent64 buf i d_reclen =
    prints
      [Inr (if i = 0 then [] else '' ''), Inr ''{d_ino='', sbind (buf_read buf i 8) (\<lambda>b. Inr (fmt_u (bytes_num b))),
       Inr '', d_off='', sbind (buf_read buf (i + 8) 8) (\<lambda>b. Inr (fmt_d (sint (of_nat (bytes_num b) :: c_long)))), comma,
       Inr ''d_type='', sbind (buf_read buf (i + 18) 1) (\<lambda>b. Inr (printxval direnttypes (of_nat (bytes_num b)) ''DT_???'')), comma,
       Inr ''d_reclen='', Inr (fmt_u d_reclen), Inr ('', d_name='' @ [CHR 0x22]), buf_str buf (i + 19), Inr ([CHR 0x22] @ ''}'')]"

text \<open>The loop over the entries: the text, and the number of entries.\<close>

function dirents :: "(string \<Rightarrow> nat \<Rightarrow> nat \<Rightarrow> fault + string) \<Rightarrow> bool \<Rightarrow> string \<Rightarrow> nat \<Rightarrow> nat \<Rightarrow> nat \<Rightarrow> fault + string \<times> nat" where
  "dirents shw short buf len i dents =
    (if i < len then
       sbind (buf_read buf (i + 16) 2) (\<lambda>b.
         let d_reclen = bytes_num b
         in sbind (if short then Inr [] else shw buf i d_reclen) (\<lambda>s.
           if d_reclen = 0 then Inr (s @ ''/* d_reclen == 0, problem here */'', dents)
           else sbind (dirents shw short buf len (i + d_reclen) (dents + 1)) (\<lambda>(r, n). Inr (s @ r, n))))
     else Inr ([], dents))"
  by pat_completeness auto
termination
  by (relation "measure (\<lambda>(shw, short, buf, len, i, dents). len - i)") auto

declare dirents.simps [simp del]

definition decode_getdents :: "(string \<Rightarrow> nat \<Rightarrow> nat \<Rightarrow> fault + string) \<Rightarrow> fenv \<Rightarrow> tcb \<Rightarrow> fault + string" where
  "decode_getdents shw fe tcp =
    (if entering tcp then prints [p_fd fe tcp (arg tcp 0), comma]
     else if syserror tcp \<or> \<not> verbose tcp then prints [hx (arg tcp 1), comma, lu (arg tcp 2)]
     else
       (let len = (if sint (t_u_rval tcp) > 1024 * 1024 then 1024 * 1024
                   else if sint (t_u_rval tcp) < 0 then 0 else nat (sint (t_u_rval tcp)))
        in case (if len = 0 then Some [] else malloc (fe_pe fe) len) of
             None \<Rightarrow> Inl OutOfMemory
           | Some buf \<Rightarrow>
               sbind (tr_umoven (fe_tracee fe) (arg tcp 1) len buf) (\<lambda>(rc, buf, _).
                 if rc < 0 then prints [hx (arg tcp 1), comma, lu (arg tcp 2)]
                 else sbind (dirents shw (abbrev tcp) buf len 0 0) (\<lambda>(s, dents).
                   prints
                     [Inr (if abbrev tcp then s @ ''/* '' @ fmt_u dents @ '' entries */'' else ''{'' @ s @ ''}''), comma,
                      lu (arg tcp 2)]))))"

definition sys_getdents :: "fenv \<Rightarrow> tcb \<Rightarrow> fault + string" where
  "sys_getdents = decode_getdents show_dirent"

definition sys_getdents64 :: "fenv \<Rightarrow> tcb \<Rightarrow> fault + string" where
  "sys_getdents64 = decode_getdents show_dirent64"

definition sys_getcwd :: "fenv \<Rightarrow> tcb \<Rightarrow> fault + string" where
  "sys_getcwd fe tcp =
    (if entering tcp then Inr []
     else prints
       [if syserror tcp then hx (arg tcp 0) else p_pathn fe (arg tcp 0) (int_of (t_u_rval tcp - 1)), comma, lu (arg tcp 1)])"

end
