(* ===== verification/Xattr.thy ===== *)
theory Xattr
  imports File_Attr
begin

text \<open>
  The rest of \<^verbatim>\<open>src/strace/file.c\<close>: extended attributes, whose values are escaped in place within one buffer, advice, notification,
  allocation and swapping.
\<close>

subsection \<open>Values of attributes\<close>

definition buf_get :: "string \<Rightarrow> nat \<Rightarrow> fault + char" where
  "buf_get buf i = (if i < length buf then Inr (buf ! i) else Inl OutOfBounds)"

definition buf_put :: "string \<Rightarrow> nat \<Rightarrow> char \<Rightarrow> fault + string" where
  "buf_put buf i c = (if i < length buf then Inr (buf[i := c]) else Inl OutOfBounds)"

definition tohex :: "nat \<Rightarrow> char" where
  "tohex n = ''0123456789abcdef'' ! n"

text \<open>One byte: \<open>inp\<close> is the index of the byte, \<open>outp\<close> that of the next character. The byte is read anew for every character.\<close>

definition xattr_byte :: "string \<Rightarrow> nat \<Rightarrow> nat \<Rightarrow> fault + string \<times> nat" where
  "xattr_byte buf inp outp =
    sbind (buf_get buf inp) (\<lambda>c.
      if code c \<ge> 0x20 \<and> code c \<le> 0x7e then sbind (buf_put buf outp c) (\<lambda>buf. Inr (buf, outp + 1))
      else
        sbind (buf_put buf outp CHR 0x5c) (\<lambda>buf.
        sbind (buf_put buf (outp + 1) CHR ''x'') (\<lambda>buf.
        sbind (buf_get buf inp) (\<lambda>c.
        sbind (buf_put buf (outp + 2) (tohex (code c div 16))) (\<lambda>buf.
        sbind (buf_get buf inp) (\<lambda>c.
        sbind (buf_put buf (outp + 3) (tohex (code c mod 16))) (\<lambda>buf. Inr (buf, outp + 4))))))))"

text \<open>The loop over the \<open>n\<close> bytes from index \<open>inp\<close> on.\<close>

fun xattr_bytes :: "nat \<Rightarrow> string \<Rightarrow> nat \<Rightarrow> nat \<Rightarrow> fault + string \<times> nat" where
  "xattr_bytes 0 buf inp outp = Inr (buf, outp)"
| "xattr_bytes (Suc n) buf inp outp = sbind (xattr_byte buf inp outp) (\<lambda>(buf, outp). xattr_bytes n buf (inp + 1) outp)"

text \<open>What is printed of a buffer of \<open>4 * sz + 1\<close> bytes whose last ones but one are the value.\<close>

definition xattr_text :: "nat \<Rightarrow> string \<Rightarrow> fault + string" where
  "xattr_text sz buf =
    sbind (xattr_bytes sz buf (3 * sz) 0) (\<lambda>(buf, outp).
      sbind (if sz > 0 then sbind (buf_get buf (4 * sz - 1)) (\<lambda>c. Inr (if c = CHR 0x00 then outp - 4 else outp)) else Inr outp) (\<lambda>outp.
        sbind (buf_put buf outp CHR 0x00) (\<lambda>buf. buf_str buf 0)))"

text \<open>
  \<open>size\<close> becomes an \<open>int\<close> as the length of \<open>umoven\<close>; where that is negative, the model goes on with the unsigned number.
\<close>

definition print_xattr_val :: "fenv \<Rightarrow> bool \<Rightarrow> c_long \<Rightarrow> c_long \<Rightarrow> c_long \<Rightarrow> fault + string" where
  "print_xattr_val fe failed a insize sz =
    (let plain = Inr ('', 0x'' @ fmt_x (unat a) @ '', '' @ fmt_d (sint insize));
         capacity = 4 * sz + 1
     in if insize = 0 \<or> failed then plain
        else case (if capacity < sz then None else malloc (fe_pe fe) (unat capacity)) of
          None \<Rightarrow> plain
        | Some buf \<Rightarrow>
            sbind (tr_umoven (fe_tracee fe) a (unat (ucast sz :: c_int)) (drop (unat (3 * sz)) buf)) (\<lambda>(rc, v, _).
              if rc < 0 then plain
              else sbind (xattr_text (unat sz) (take (unat (3 * sz)) buf @ v)) (\<lambda>s.
                Inr ('', '' @ [CHR 0x22] @ s @ [CHR 0x22] @ '', '' @ fmt_d (sint insize)))))"

definition xattrflags :: "xlat list" where
  "xattrflags = [\<lparr>xl_val = 1, xl_str = ''XATTR_CREATE''\<rparr>, \<lparr>xl_val = 2, xl_str = ''XATTR_REPLACE''\<rparr>]"

definition sys_setxattr :: "fenv \<Rightarrow> tcb \<Rightarrow> fault + string" where
  "sys_setxattr fe tcp =
    on_entry tcp [p_path fe (arg tcp 0), comma, p_str fe (arg tcp 1) (-1), print_xattr_val fe False (arg tcp 2) (arg tcp 3) (arg tcp 3), comma,
      p_flags xattrflags (arg tcp 4) ''XATTR_???'']"

definition sys_fsetxattr :: "fenv \<Rightarrow> tcb \<Rightarrow> fault + string" where
  "sys_fsetxattr fe tcp =
    on_entry tcp [p_fd fe tcp (arg tcp 0), comma, p_str fe (arg tcp 1) (-1), print_xattr_val fe False (arg tcp 2) (arg tcp 3) (arg tcp 3), comma,
      p_flags xattrflags (arg tcp 4) ''XATTR_???'']"

definition sys_getxattr :: "fenv \<Rightarrow> tcb \<Rightarrow> fault + string" where
  "sys_getxattr fe tcp =
    (if entering tcp then prints [p_path fe (arg tcp 0), comma, p_str fe (arg tcp 1) (-1)]
     else print_xattr_val fe (syserror tcp) (arg tcp 2) (arg tcp 3) (t_u_rval tcp))"

definition sys_fgetxattr :: "fenv \<Rightarrow> tcb \<Rightarrow> fault + string" where
  "sys_fgetxattr fe tcp =
    (if entering tcp then prints [p_fd fe tcp (arg tcp 0), comma, p_str fe (arg tcp 1) (-1)]
     else print_xattr_val fe (syserror tcp) (arg tcp 2) (arg tcp 3) (t_u_rval tcp))"

text \<open>The comparison with \<open>u_rval\<close> is unsigned.\<close>

definition print_xattr_list :: "fenv \<Rightarrow> tcb \<Rightarrow> c_long \<Rightarrow> c_long \<Rightarrow> fault + string" where
  "print_xattr_list fe tcp addr sz =
    prints
      [if syserror tcp then hx addr
       else if addr = 0 then Inr ''NULL''
       else p_str fe addr (sint (if sz < t_u_rval tcp then sz else t_u_rval tcp)),
       comma, lu sz]"

definition sys_listxattr :: "fenv \<Rightarrow> tcb \<Rightarrow> fault + string" where
  "sys_listxattr fe tcp =
    (if entering tcp then prints [p_path fe (arg tcp 0), comma] else print_xattr_list fe tcp (arg tcp 1) (arg tcp 2))"

definition sys_flistxattr :: "fenv \<Rightarrow> tcb \<Rightarrow> fault + string" where
  "sys_flistxattr fe tcp =
    (if entering tcp then prints [p_fd fe tcp (arg tcp 0), comma] else print_xattr_list fe tcp (arg tcp 1) (arg tcp 2))"

definition sys_removexattr :: "fenv \<Rightarrow> tcb \<Rightarrow> fault + string" where
  "sys_removexattr fe tcp = on_entry tcp [p_path fe (arg tcp 0), comma, p_str fe (arg tcp 1) (-1)]"

definition sys_fremovexattr :: "fenv \<Rightarrow> tcb \<Rightarrow> fault + string" where
  "sys_fremovexattr fe tcp = on_entry tcp [p_fd fe tcp (arg tcp 0), comma, p_str fe (arg tcp 1) (-1)]"

subsection \<open>Advice, notification, allocation\<close>

definition advise :: "xlat list" where
  "advise = [
     \<lparr>xl_val = 0, xl_str = ''POSIX_FADV_NORMAL''\<rparr>, \<lparr>xl_val = 1, xl_str = ''POSIX_FADV_RANDOM''\<rparr>,
     \<lparr>xl_val = 2, xl_str = ''POSIX_FADV_SEQUENTIAL''\<rparr>, \<lparr>xl_val = 3, xl_str = ''POSIX_FADV_WILLNEED''\<rparr>,
     \<lparr>xl_val = 4, xl_str = ''POSIX_FADV_DONTNEED''\<rparr>, \<lparr>xl_val = 5, xl_str = ''POSIX_FADV_NOREUSE''\<rparr>]"

definition sys_fadvise64 :: "fenv \<Rightarrow> tcb \<Rightarrow> fault + string" where
  "sys_fadvise64 fe tcp =
    on_entry tcp
      (let (s, argn) = printllval fe tcp (\<lambda>w. '', '' @ fmt_d (sint w)) 1
       in [p_fd fe tcp (arg tcp 0), Inr s, comma, ld (arg tcp argn), comma, p_xval advise (arg tcp (argn + 1)) ''POSIX_FADV_???''])"

definition sys_fadvise64_64 :: "fenv \<Rightarrow> tcb \<Rightarrow> fault + string" where
  "sys_fadvise64_64 fe tcp =
    on_entry tcp
      (let (s, argn) = printllval fe tcp (\<lambda>w. '', '' @ fmt_d (sint w) @ '', '') 1;
           (r, argn) = printllval fe tcp (\<lambda>w. fmt_d (sint w) @ '', '') argn
       in [p_fd fe tcp (arg tcp 0), Inr s, Inr r, p_xval advise (arg tcp argn) ''POSIX_FADV_???''])"

definition inotify_modes :: "xlat list" where
  "inotify_modes = [
     \<lparr>xl_val = 0x00000001, xl_str = ''IN_ACCESS''\<rparr>, \<lparr>xl_val = 0x00000002, xl_str = ''IN_MODIFY''\<rparr>,
     \<lparr>xl_val = 0x00000004, xl_str = ''IN_ATTRIB''\<rparr>, \<lparr>xl_val = 0x00000008, xl_str = ''IN_CLOSE_WRITE''\<rparr>,
     \<lparr>xl_val = 0x00000010, xl_str = ''IN_CLOSE_NOWRITE''\<rparr>, \<lparr>xl_val = 0x00000020, xl_str = ''IN_OPEN''\<rparr>,
     \<lparr>xl_val = 0x00000040, xl_str = ''IN_MOVED_FROM''\<rparr>, \<lparr>xl_val = 0x00000080, xl_str = ''IN_MOVED_TO''\<rparr>,
     \<lparr>xl_val = 0x00000100, xl_str = ''IN_CREATE''\<rparr>, \<lparr>xl_val = 0x00000200, xl_str = ''IN_DELETE''\<rparr>,
     \<lparr>xl_val = 0x00000400, xl_str = ''IN_DELETE_SELF''\<rparr>, \<lparr>xl_val = 0x00000800, xl_str = ''IN_MOVE_SELF''\<rparr>,
     \<lparr>xl_val = 0x00002000, xl_str = ''IN_UNMOUNT''\<rparr>, \<lparr>xl_val = 0x00004000, xl_str = ''IN_Q_OVERFLOW''\<rparr>,
     \<lparr>xl_val = 0x00008000, xl_str = ''IN_IGNORED''\<rparr>, \<lparr>xl_val = 0x01000000, xl_str = ''IN_ONLYDIR''\<rparr>,
     \<lparr>xl_val = 0x02000000, xl_str = ''IN_DONT_FOLLOW''\<rparr>, \<lparr>xl_val = 0x20000000, xl_str = ''IN_MASK_ADD''\<rparr>,
     \<lparr>xl_val = 0x40000000, xl_str = ''IN_ISDIR''\<rparr>, \<lparr>xl_val = 0x80000000, xl_str = ''IN_ONESHOT''\<rparr>]"

definition inotify_init_flags :: "xlat list" where
  "inotify_init_flags = [\<lparr>xl_val = 0x00000800, xl_str = ''IN_NONBLOCK''\<rparr>, \<lparr>xl_val = 0x00080000, xl_str = ''IN_CLOEXEC''\<rparr>]"

definition sys_inotify_add_watch :: "fenv \<Rightarrow> tcb \<Rightarrow> fault + string" where
  "sys_inotify_add_watch fe tcp =
    on_entry tcp [p_fd fe tcp (arg tcp 0), comma, p_path fe (arg tcp 1), comma, p_flags inotify_modes (arg tcp 2) ''IN_???'']"

definition sys_inotify_rm_watch :: "fenv \<Rightarrow> tcb \<Rightarrow> fault + string" where
  "sys_inotify_rm_watch fe tcp = on_entry tcp [p_fd fe tcp (arg tcp 0), comma, Inr (fmt_d (int_of (arg tcp 1)))]"

definition sys_inotify_init1 :: "tcb \<Rightarrow> fault + string" where
  "sys_inotify_init1 tcp = on_entry tcp [p_flags inotify_init_flags (arg tcp 0) ''IN_???'']"

definition sys_fallocate :: "fenv \<Rightarrow> tcb \<Rightarrow> fault + string" where
  "sys_fallocate fe tcp =
    on_entry tcp
      (let (s, argn) = printllval fe tcp (\<lambda>w. fmt_u (unat w) @ '', '') 2; (r, _) = printllval fe tcp (\<lambda>w. fmt_u (unat w)) argn
       in [p_fd fe tcp (arg tcp 0), comma, ho (arg tcp 1), comma, Inr s, Inr r])"

definition swap_flags :: "xlat list" where
  "swap_flags = [\<lparr>xl_val = 0x8000, xl_str = ''SWAP_FLAG_PREFER''\<rparr>, \<lparr>xl_val = 0x10000, xl_str = ''SWAP_FLAG_DISCARD''\<rparr>]"

abbreviation "SWAP_FLAG_PRIO_MASK \<equiv> (0x7fff :: c_int)"

definition sys_swapon :: "fenv \<Rightarrow> tcb \<Rightarrow> fault + string" where
  "sys_swapon fe tcp =
    (let flags = ucast (arg tcp 1) :: c_int
     in on_entry tcp
       ([p_path fe (arg tcp 0), comma, p_flags swap_flags (ucast (flags AND NOT SWAP_FLAG_PRIO_MASK)) ''SWAP_FLAG_???'']
        @ (if flags AND 0x8000 \<noteq> 0 then [Inr (''|'' @ fmt_d (sint (flags AND SWAP_FLAG_PRIO_MASK)))] else [])))"

end
