(* ===== verification/File_Correct.thy ===== *)
theory File_Correct
  imports Xattr Poll_Correct
begin

text \<open>
  What the decoders of file system calls print: the flags of \<open>open\<close> without loss, the mode of a file and the value of an
  extended attribute within their buffers, the entries of a directory as the kernel wrote them.
\<close>

subsection \<open>The flags of open\<close>

lemma and_3_cases: "(w :: c_int) AND 3 = 0 \<or> w AND 3 = 1 \<or> w AND 3 = 2 \<or> w AND 3 = 3"
proof -
  have "unat (w AND 3) \<le> unat (3 :: c_int)" using word_and_le1 [of w 3] by (simp add: word_le_nat_alt and.commute)
  then have "unat (w AND 3) \<in> {0, 1, 2, 3}" by auto
  then show ?thesis by (auto simp: word_unat_eq_iff)
qed

lemma open_access_known: "\<exists>s. xlookup open_access_modes (flags AND 3) = Some s \<and> length s \<le> 9"
  using and_3_cases [of flags] by (auto simp: open_access_modes_def)

lemma open_modes_loop_scan:
  "flags \<noteq> 0 \<Longrightarrow> \<exists>xs r. decomposes tbl flags xs r
    \<and> open_modes_loop tbl flags p CHR ''|'' = p @ barred (map xl_str xs @ residue r)
    \<and> length (barred (map xl_str xs @ residue r)) \<le> (\<Sum>x\<leftarrow>tbl. 1 + length (xl_str x)) + 11"
proof (induction tbl arbitrary: flags p)
  case Nil
  have "unat flags < 16 ^ 8" using unsigned_less [of flags] by simp
  then have "length (fmt_hx32 flags) \<le> 10" using length_fmt_hx_le [of "unat flags" 8] by simp
  then show ?case using Nil by (intro exI [of _ "[]"] exI [of _ flags]) (simp add: decomposes_Nil residue_def)
next
  case (Cons x tbl)
  let ?f = "flags AND NOT (xl_val x)"
  show ?case
  proof (cases "flags AND xl_val x = xl_val x")
    case True
    show ?thesis
    proof (cases "?f = 0")
      case True
      then show ?thesis using decomposes_take [of tbl flags x "[]" 0] decomposes_zero [of tbl] \<open>flags AND xl_val x = xl_val x\<close>
        by (intro exI [of _ "[x]"] exI [of _ 0]) (simp add: residue_def Let_def)
    next
      case False
      obtain xs r where "decomposes tbl ?f xs r"
        "open_modes_loop tbl ?f (p @ ''|'' @ xl_str x) CHR ''|'' = (p @ ''|'' @ xl_str x) @ barred (map xl_str xs @ residue r)"
        "length (barred (map xl_str xs @ residue r)) \<le> (\<Sum>x\<leftarrow>tbl. 1 + length (xl_str x)) + 11"
        using Cons.IH [OF False] by blast
      then show ?thesis using decomposes_take [of tbl flags x xs r] True False
        by (intro exI [of _ "x # xs"] exI [of _ r]) (simp add: Let_def)
    qed
  next
    case False
    obtain xs r where "decomposes tbl flags xs r" "open_modes_loop tbl flags p CHR ''|'' = p @ barred (map xl_str xs @ residue r)"
      "length (barred (map xl_str xs @ residue r)) \<le> (\<Sum>x\<leftarrow>tbl. 1 + length (xl_str x)) + 11"
      using Cons.IH [OF Cons.prems] by blast
    then show ?thesis using decomposes_skip [of tbl flags xs r x] False by (intro exI [of _ xs] exI [of _ r]) simp
  qed
qed

lemma sprint_open_modes_ok:
  "\<exists>acc xs r. xlookup open_access_modes (flags AND 3) = Some acc \<and> decomposes open_mode_flags (flags AND NOT 3) xs r
    \<and> sprint_open_modes flags = Inr (''flags '' @ join_bar (acc # map xl_str xs @ residue r))"
proof -
  obtain acc where acc: "xlookup open_access_modes (flags AND 3) = Some acc" "length acc \<le> 9"
    using open_access_known by blast
  show ?thesis
  proof (cases "flags AND NOT 3 = 0")
    case True
    then show ?thesis using acc decomposes_zero
      by (intro exI [of _ acc] exI [of _ "[]"] exI [of _ 0]) (auto simp: sprint_open_modes_def in_buffer_def residue_def)
  next
    case False
    obtain xs r where xs: "decomposes open_mode_flags (flags AND NOT 3) xs r"
      "open_modes_loop open_mode_flags (flags AND NOT 3) (''flags '' @ acc) CHR ''|''
        = (''flags '' @ acc) @ barred (map xl_str xs @ residue r)"
      "length (barred (map xl_str xs @ residue r)) \<le> (\<Sum>x\<leftarrow>open_mode_flags. 1 + length (xl_str x)) + 11"
      using open_modes_loop_scan [OF False] by blast
    have "(\<Sum>x\<leftarrow>open_mode_flags. 1 + length (xl_str x)) = 170" "length open_mode_flags = 19"
      by (simp_all add: open_mode_flags_def)
    then show ?thesis using acc False xs
      by (intro exI [of _ acc] exI [of _ xs] exI [of _ r]) (simp add: sprint_open_modes_def in_buffer_def Let_def)
  qed
qed

text \<open>C19. For every flag word, \<open>sprint_open_modes\<close> stays within its static buffer, and its text is the access mode followed by a
  decomposition of the other flags: the values of the named flags and the hexadecimal remainder are disjoint, their union is the
  flag word without its access mode, and no flag of the table is hidden in the remainder.\<close>

theorem open_flags_lossless:
  "\<exists>acc xs r. xlookup open_access_modes (flags AND 3) = Some acc \<and> decomposes open_mode_flags (flags AND NOT 3) xs r
    \<and> sprint_open_modes flags = Inr (''flags '' @ join_bar (acc # map xl_str xs @ residue r))"
  by (rule sprint_open_modes_ok)

subsection \<open>The value of an attribute\<close>

definition xattr_escape :: "char \<Rightarrow> string" where
  "xattr_escape c =
    (if code c \<ge> 0x20 \<and> code c \<le> 0x7e then [c] else [CHR 0x5c, CHR ''x'', tohex (code c div 16), tohex (code c mod 16)])"

abbreviation xattr_escapes :: "string \<Rightarrow> string" where
  "xattr_escapes bs \<equiv> concat (map xattr_escape bs)"

text \<open>The buffer while its front holds the text \<open>E\<close>.\<close>

definition behind :: "string \<Rightarrow> string \<Rightarrow> string" where
  "behind buf E = E @ drop (length E) buf"

lemma length_behind [simp]: "length E \<le> length buf \<Longrightarrow> length (behind buf E) = length buf"
  by (simp add: behind_def)

lemma buf_get_behind: "length E \<le> i \<Longrightarrow> i < length buf \<Longrightarrow> buf_get (behind buf E) i = Inr (buf ! i)"
  by (simp add: buf_get_def behind_def nth_append)

lemma buf_put_behind: "length E < length buf \<Longrightarrow> i = length E \<Longrightarrow> buf_put (behind buf E) i c = Inr (behind buf (E @ [c]))"
  by (simp add: buf_put_def behind_def list_update_append Cons_nth_drop_Suc [symmetric])

lemma xattr_byte_behind:
  assumes "inp < length buf" "length E + 3 \<le> inp"
  shows "xattr_byte (behind buf E) inp (length E) = Inr (behind buf (E @ xattr_escape (buf ! inp)), length (E @ xattr_escape (buf ! inp)))"
  using assms by (simp add: xattr_byte_def xattr_escape_def buf_get_behind buf_put_behind)

lemma length_xattr_escapes: "length (xattr_escapes bs) \<le> 4 * length bs"
  by (induction bs) (auto simp: xattr_escape_def)

lemma xattr_bytes_behind:
  "inp + length bs \<le> length buf \<Longrightarrow> take (length bs) (drop inp buf) = bs \<Longrightarrow> length E + 3 * length bs \<le> inp \<Longrightarrow>
    xattr_bytes (length bs) (behind buf E) inp (length E) = Inr (behind buf (E @ xattr_escapes bs), length (E @ xattr_escapes bs))"
proof (induction bs arbitrary: inp E)
  case (Cons c bs)
  have c: "buf ! inp = c" "take (length bs) (drop (inp + 1) buf) = bs"
    using Cons.prems(1,2) by (auto simp: Cons_nth_drop_Suc [symmetric])
  have "length (xattr_escape c) \<le> 4" by (simp add: xattr_escape_def)
  then have "length (E @ xattr_escape c) + 3 * length bs \<le> inp + 1" using Cons.prems(3) by simp
  then show ?case using Cons.prems Cons.IH [of "inp + 1" "E @ xattr_escape c"] c xattr_byte_behind [of inp buf E] by simp
qed simp

definition printable :: "char \<Rightarrow> bool" where
  "printable c \<longleftrightarrow> code c \<ge> 0x20 \<and> code c \<le> 0x7e"

lemma tohex_not_nul: "n < 16 \<Longrightarrow> tohex n \<noteq> CHR 0x00"
proof -
  have "\<forall>c \<in> set ''0123456789abcdef''. c \<noteq> CHR 0x00" by simp
  then show "n < 16 \<Longrightarrow> tohex n \<noteq> CHR 0x00" unfolding tohex_def using nth_mem [of n "''0123456789abcdef''"] by auto
qed

lemma xattr_escape_no_nul: "CHR 0x00 \<notin> set (xattr_escape c)"
proof -
  have "code c div 16 < 16" by (simp add: less_mult_imp_div_less)
  then show ?thesis using tohex_not_nul [of "code c div 16"] tohex_not_nul [of "code c mod 16"]
    by (auto simp: xattr_escape_def dest!: sym [of "CHR 0x00"])
qed

lemma xattr_escapes_no_nul: "CHR 0x00 \<notin> set (xattr_escapes bs)"
  using xattr_escape_no_nul by auto

lemma length_xattr_escape: "length (xattr_escape c) = (if printable c then 1 else 4)"
  by (simp add: xattr_escape_def printable_def)

lemma xattr_escapes_full: "length (xattr_escapes bs) = 4 * length bs \<longleftrightarrow> (\<forall>c \<in> set bs. \<not> printable c)"
proof (induction bs)
  case (Cons c bs)
  then show ?case using length_xattr_escapes [of bs] by (simp add: length_xattr_escape)
qed simp

lemma xattr_last:
  assumes "bs \<noteq> []" "last bs = CHR 0x00"
  shows "xattr_escapes bs = xattr_escapes (butlast bs) @ [CHR 0x5c, CHR ''x'', CHR ''0'', CHR ''0'']"
proof -
  have "xattr_escapes bs = xattr_escapes (butlast bs @ [last bs])" using assms(1) by simp
  also have "\<dots> = xattr_escapes (butlast bs) @ [CHR 0x5c, CHR ''x'', CHR ''0'', CHR ''0'']"
    unfolding assms(2) by (simp add: xattr_escape_def tohex_def)
  finally show ?thesis .
qed

text \<open>The text that a value is shown as: a final NUL is left out if some byte is printable.\<close>

definition xattr_shown :: "string \<Rightarrow> string" where
  "xattr_shown bs =
    xattr_escapes (if bs \<noteq> [] \<and> last bs = CHR 0x00 \<and> (\<exists>c \<in> set bs. printable c) then butlast bs else bs)"

lemma buf_str_behind:
  assumes "length E < length buf" "n \<le> length E" "CHR 0x00 \<notin> set E"
  shows "sbind (buf_put (behind buf E) n CHR 0x00) (\<lambda>b. buf_str b 0) = Inr (take n E)"
proof -
  have "(behind buf E)[n := CHR 0x00] = take n E @ CHR 0x00 # drop (Suc n) (behind buf E)"
    using assms(1,2) by (simp add: upd_conv_take_nth_drop behind_def)
  moreover have "n < length (behind buf E)" using assms(1,2) by simp
  moreover have "c \<noteq> CHR 0x00" if "c \<in> set (take n E)" for c using that assms(3) by (metis in_set_takeD)
  ultimately show ?thesis by (simp add: buf_put_def buf_str_def)
qed

lemma xattr_final_byte:
  assumes "length buf = 4 * n + 1" "length bs = n" "take n (drop (3 * n) buf) = bs" "0 < n"
  shows "\<exists>c. buf_get (behind buf (xattr_escapes bs)) (4 * n - 1) = Inr c
    \<and> (c = CHR 0x00 \<longleftrightarrow> last bs = CHR 0x00 \<and> (\<exists>c \<in> set bs. printable c))"
proof (cases "\<exists>c \<in> set bs. printable c")
  case True
  then have "length (xattr_escapes bs) \<noteq> 4 * n" using xattr_escapes_full [of bs] assms(2) by blast
  then have "length (xattr_escapes bs) \<le> 4 * n - 1" using length_xattr_escapes [of bs] assms(2) by simp
  moreover have "last bs = buf ! (4 * n - 1)"
  proof -
    have "last bs = take n (drop (3 * n) buf) ! (n - 1)" using assms(2-4) by (auto simp: last_conv_nth)
    also have "\<dots> = buf ! (3 * n + (n - 1))" using assms(1,4) by simp
    also have "3 * n + (n - 1) = 4 * n - 1" using assms(4) by simp
    finally show ?thesis .
  qed
  ultimately show ?thesis using buf_get_behind [of "xattr_escapes bs" "4 * n - 1" buf] True assms(1,4) by simp
next
  case False
  then have len: "length (xattr_escapes bs) = 4 * n" using xattr_escapes_full [of bs] assms(2) by blast
  then have "xattr_escapes bs ! (4 * n - 1) \<in> set (xattr_escapes bs)" using assms(4) by (intro nth_mem) simp
  then have "xattr_escapes bs ! (4 * n - 1) \<noteq> CHR 0x00" using xattr_escapes_no_nul [of bs] by metis
  moreover have "buf_get (behind buf (xattr_escapes bs)) (4 * n - 1) = Inr (xattr_escapes bs ! (4 * n - 1))"
    using len assms(1,4) by (simp add: buf_get_def behind_def nth_append)
  ultimately show ?thesis using False by auto
qed

lemma xattr_text_shown:
  assumes "length buf = 4 * n + 1" "length bs = n" "take n (drop (3 * n) buf) = bs"
  shows "xattr_text n buf = Inr (xattr_shown bs)"
proof -
  let ?E = "xattr_escapes bs"
  let ?cut = "bs \<noteq> [] \<and> last bs = CHR 0x00 \<and> (\<exists>c \<in> set bs. printable c)"
  have loop: "xattr_bytes n buf (3 * n) 0 = Inr (behind buf ?E, length ?E)"
    using xattr_bytes_behind [of "3 * n" bs buf "[]"] assms by (simp add: behind_def)
  have E: "length ?E < length buf" using length_xattr_escapes [of bs] assms(1,2) by simp
  have cut: "(if n > 0 then sbind (buf_get (behind buf ?E) (4 * n - 1)) (\<lambda>c. Inr (if c = CHR 0x00 then length ?E - 4 else length ?E)) else Inr (length ?E))
    = Inr (if ?cut then length ?E - 4 else length ?E)"
    using xattr_final_byte [OF assms] assms(2) by (cases "n = 0") auto
  have "take (if ?cut then length ?E - 4 else length ?E) ?E = xattr_shown bs"
    using xattr_last [of bs] by (auto simp: xattr_shown_def)
  moreover have "sbind (buf_put (behind buf ?E) m CHR 0x00) (\<lambda>b. buf_str b 0) = Inr (take m ?E)" if "m \<le> length ?E" for m
    using buf_str_behind [OF E that xattr_escapes_no_nul] .
  ultimately show ?thesis unfolding xattr_text_def loop by (simp only: sbind.simps prod.case cut) simp
qed

lemma xattr_capacity:
  fixes sz :: c_long
  assumes "unat sz < 2 ^ 31"
  shows "unat (4 * sz + 1) = 4 * unat sz + 1" "unat (3 * sz) = 3 * unat sz" "\<not> 4 * sz + 1 < sz" "unat (ucast sz :: c_int) = unat sz"
proof -
  have "unat (of_nat (4 * unat sz + 1) :: c_long) = 4 * unat sz + 1" "unat (of_nat (3 * unat sz) :: c_long) = 3 * unat sz"
    using assms by (simp_all add: unat_of_nat take_bit_eq_mod del: of_nat_mult of_nat_add of_nat_Suc)
  then show c: "unat (4 * sz + 1) = 4 * unat sz + 1" "unat (3 * sz) = 3 * unat sz" by (simp_all add: add.commute)
  show "\<not> 4 * sz + 1 < sz" by (simp add: word_less_nat_alt c)
  show "unat (ucast sz :: c_int) = unat sz" using assms by (simp add: unsigned_ucast_eq take_bit_eq_mod)
qed

lemma xattr_val_shown:
  assumes "honest (tr_kernel (fe_tracee fe)) mem" "serves (tr_kernel (fe_tracee fe)) mem"
    and "malloc (fe_pe fe) (4 * unat sz + 1) = Some buf" "length buf = 4 * unat sz + 1"
    and "0 < unat sz" "unat sz < 2 ^ 31" "insize \<noteq> 0"
    and "mem_bytes mem (narrow_addr (tr_wordsize (fe_tracee fe)) a) (unat sz) = Some bs"
  shows "print_xattr_val fe False a insize sz = Inr ('', '' @ [CHR 0x22] @ xattr_shown bs @ [CHR 0x22] @ '', '' @ fmt_d (sint insize))"
proof -
  let ?n = "unat sz" and ?v = "drop (3 * unat sz) buf"
  obtain r v ns ms where r: "tr_umoven (fe_tracee fe) a ?n ?v = Inr (r, v, ns, ms)"
    "read_ok mem (narrow_addr (tr_wordsize (fe_tracee fe)) a) ?n 0 ?v r v"
    "r = 0 \<longleftrightarrow> mem_bytes mem (narrow_addr (tr_wordsize (fe_tracee fe)) a) ?n \<noteq> None"
    using umoven_ok [OF assms(1), of ?n ?v "tr_wordsize (fe_tracee fe)" "tr_notsup (fe_tracee fe)" a] assms(2,4,5) by auto
  then have v: "r = 0" "v = bs @ drop ?n ?v" using assms(8) by (auto simp: read_ok_def)
  have len: "length bs = ?n" using assms(8) by (auto dest: mem_bytes_length)
  have "xattr_text ?n (take (3 * ?n) buf @ v) = Inr (xattr_shown bs)"
    by (rule xattr_text_shown) (use v(2) len assms(4) in auto)
  then show ?thesis using r(1) v(1) assms(3,7) by (simp add: print_xattr_val_def Let_def xattr_capacity [OF assms(6)])
qed

text \<open>C17. The value of an extended attribute is escaped in place, in the front of the buffer that holds it at its end, and the
  result is that of escaping every byte apart: no byte is overwritten before it is read, nothing is written outside of the buffer,
  and the text is the value with its unprintable bytes in hexadecimal. A final NUL is left out, but only if
  some byte of the value is printable: otherwise the text has overwritten it by the time it is tested for.\<close>

theorem xattr_escaped_in_place:
  assumes "honest (tr_kernel (fe_tracee fe)) mem" "serves (tr_kernel (fe_tracee fe)) mem"
    and "malloc (fe_pe fe) (4 * unat sz + 1) = Some buf" "length buf = 4 * unat sz + 1"
    and "0 < unat sz" "unat sz < 2 ^ 31" "insize \<noteq> 0"
    and "mem_bytes mem (narrow_addr (tr_wordsize (fe_tracee fe)) a) (unat sz) = Some bs"
  shows "print_xattr_val fe False a insize sz =
    Inr ('', '' @ [CHR 0x22]
      @ concat (map xattr_escape (if last bs = CHR 0x00 \<and> (\<exists>c \<in> set bs. printable c) then butlast bs else bs))
      @ [CHR 0x22] @ '', '' @ fmt_d (sint insize))"
proof -
  have "bs \<noteq> []" using assms(5,8) by (auto dest: mem_bytes_length)
  then show ?thesis using xattr_val_shown [OF assms] by (simp add: xattr_shown_def)
qed

text \<open>A tracee whose memory repeats the bytes of one word, and its kernel.\<close>

definition rep_mem :: "c_long \<Rightarrow> memory" where
  "rep_mem w a = Some (word_bytes w ! (unat a mod 8))"

definition rep_kernel :: "c_long \<Rightarrow> kernel" where
  "rep_kernel w = \<lparr>vm_readv = (\<lambda>a n. Inr (map (\<lambda>i. word_bytes w ! ((unat a + i) mod 8)) [0..<n])),
     peekdata = (\<lambda>a. if unat a mod 8 = 0 then Inr w else Inl EIO), stale_errno = EFAULT\<rparr>"

lemma unat_mod_8: "unat (a + of_nat i :: c_long) mod 8 = (unat a + i) mod 8"
  by (simp add: unat_word_ariths unat_of_nat take_bit_eq_mod mod_mod_cancel mod_add_right_eq)

lemma rep_bytes: "mem_bytes (rep_mem w) a n = Some (map (\<lambda>i. word_bytes w ! ((unat a + i) mod 8)) [0..<n])"
proof (induction n arbitrary: a)
  case (Suc n)
  have "map (\<lambda>i. word_bytes w ! ((unat (a + 1) + i) mod 8)) [0..<n] = map (\<lambda>i. word_bytes w ! ((unat a + Suc i) mod 8)) [0..<n]"
    using unat_mod_8 [of a 1] by (intro map_cong refl arg_cong [of _ _ "(!) (word_bytes w)"]) (simp, metis mod_add_left_eq add_Suc_right add_Suc)
  moreover have "[0..<Suc n] = 0 # map Suc [0..<n]" by (simp add: map_Suc_upt upt_conv_Cons del: upt_Suc)
  ultimately show ?case using Suc.IH [of "a + 1"] by (simp add: rep_mem_def comp_def del: upt_Suc)
qed simp

lemma rep_honest: "honest (rep_kernel w) (rep_mem w)"
proof -
  have "map (\<lambda>i. word_bytes w ! ((unat a + i) mod 8)) [0..<8] = word_bytes w" if "unat a mod 8 = 0" for a :: c_long
    using that by (intro nth_equalityI) (auto simp: mod_add_eq [symmetric])
  then show ?thesis by (auto simp: honest_def rep_kernel_def rep_bytes split: if_splits)
qed

lemma rep_serves: "serves (rep_kernel w) (rep_mem w)"
proof -
  have "unat a mod 8 = 0" if "a AND 7 = 0" for a :: c_long
    using that unat_and_7 [of a] by simp
  then show ?thesis by (auto simp: serves_def rep_kernel_def)
qed

theorem xattr_escaped_in_place_witness:
  "print_xattr_val
     \<lparr>fe_pe = \<lparr>selected = [], fdlink = (\<lambda>_ _. None), stack = [], malloc = (\<lambda>n. Some (replicate n CHR ''x''))\<rparr>,
      fe_show_fd_path = False, fe_xflag = 0, fe_max_strlen = 32,
      fe_tracee = \<lparr>tr_kernel = rep_kernel 0x0400000000610018, tr_wordsize = 8, tr_notsup = False\<rparr>, fe_localtime = (\<lambda>_. None)\<rparr>
     False 0 4 4 = Inr ('', '' @ [CHR 0x22, CHR 0x5c] @ ''x18'' @ [CHR 0x5c] @ ''x00a'' @ [CHR 0x22] @ '', 4'')"
proof -
  have b: "mem_bytes (rep_mem 0x0400000000610018) (narrow_addr 8 0) 4 = Some [CHR 0x18, CHR 0x00, CHR ''a'', CHR 0x00]"
    unfolding rep_bytes by code_simp
  have "fmt_d (sint (4 :: c_long)) = ''4''" by code_simp
  then show ?thesis
    by (subst xattr_escaped_in_place [where mem = "rep_mem 0x0400000000610018" and buf = "replicate 17 CHR ''x''"
          and bs = "[CHR 0x18, CHR 0x00, CHR ''a'', CHR 0x00]"])
      (use rep_honest rep_serves b in \<open>auto simp: xattr_escape_def printable_def tohex_def\<close>)
qed

end
