(* ===== verification/Dirent_Correct.thy ===== *)
theory Dirent_Correct
  imports File_Correct
begin

text \<open>
  What \<open>getdents\<close> shows: the records that the kernel writes into the buffer of a 64-bit process are shown one by one, none is
  missed and the reading of the buffer ends with the last. The records of a 32-bit process have another layout.
\<close>

subsection \<open>The records of the kernel\<close>

definition le_bytes :: "nat \<Rightarrow> nat \<Rightarrow> string" where
  "le_bytes n v = map (\<lambda>i. char_of (v div 256 ^ i)) [0..<n]"

text \<open>\<open>struct linux_dirent\<close>: two words, the length of the record, the name, padding, and the type in the last byte.\<close>

record dent =
  de_ino :: nat
  de_off :: nat
  de_name :: string
  de_pad :: string
  de_type :: char

definition dent_len :: "dent \<Rightarrow> nat" where
  "dent_len d = 20 + length (de_name d) + length (de_pad d)"

definition dent_bytes :: "dent \<Rightarrow> string" where
  "dent_bytes d =
    le_bytes 8 (de_ino d) @ le_bytes 8 (de_off d) @ le_bytes 2 (dent_len d) @ de_name d @ [CHR 0x00] @ de_pad d @ [de_type d]"

definition dent_ok :: "dent \<Rightarrow> bool" where
  "dent_ok d \<longleftrightarrow> de_ino d < 2 ^ 64 \<and> de_off d < 2 ^ 64 \<and> CHR 0x00 \<notin> set (de_name d) \<and> dent_len d < 2 ^ 16"

definition dent_text :: "dent \<Rightarrow> string" where
  "dent_text d =
    ''{d_ino='' @ fmt_u (de_ino d) @ '', d_off='' @ fmt_u (de_off d) @ '', d_reclen='' @ fmt_u (dent_len d)
    @ '', d_name='' @ [CHR 0x22] @ de_name d @ [CHR 0x22] @ '', d_type='' @ printxval direnttypes (scast (of_nat (code (de_type d)) :: byte)) ''DT_???'' @ ''}''"

definition spaced :: "string list \<Rightarrow> string" where
  "spaced ts = concat (map (\<lambda>t. '' '' @ t) ts)"

lemma join_words_spaced: "join_words (t # ts) = t @ spaced ts"
  by (induction ts arbitrary: t) (simp_all add: spaced_def)

subsection \<open>Reading them\<close>

lemma length_le_bytes [simp]: "length (le_bytes n v) = n"
  by (simp add: le_bytes_def)

lemma bytes_num_Cons: "bytes_num (c # bs) = code c + 256 * bytes_num bs"
  by (simp add: bytes_num_def)

lemma le_bytes_Suc: "le_bytes (Suc n) v = char_of (v mod 256) # le_bytes n (v div 256)"
proof -
  have "[0..<Suc n] = 0 # map Suc [0..<n]" by (simp add: map_Suc_upt upt_conv_Cons del: upt_Suc)
  moreover have "char_of (v mod 256) = char_of v" by (simp add: char_of_def bit_take_bit_iff flip: take_bit_eq_mod [of 8, simplified])
  ultimately show ?thesis by (simp add: le_bytes_def comp_def div_mult2_eq del: upt_Suc)
qed

lemma bytes_num_le_bytes: "v < 256 ^ n \<Longrightarrow> bytes_num (le_bytes n v) = v"
proof (induction n arbitrary: v)
  case 0
  then show ?case by (simp add: bytes_num_def le_bytes_def)
next
  case (Suc n)
  have "v div 256 < 256 ^ n" using Suc.prems by (simp add: less_mult_imp_div_less mult.commute)
  then show ?case using Suc.IH [of "v div 256"] by (simp add: le_bytes_Suc bytes_num_Cons)
qed

lemma length_dent_bytes [simp]: "length (dent_bytes d) = dent_len d"
  by (simp add: dent_bytes_def dent_len_def)

lemma buf_read_at:
  assumes "n = length bs" "i = length pre"
  shows "buf_read (pre @ bs @ post) i n = Inr bs"
  using assms by (simp add: buf_read_def)

text \<open>The members of a record in a buffer that goes on behind it.\<close>

lemma dent_members:
  fixes post :: string
  assumes "dent_ok d" "i = length pre"
  defines "buf \<equiv> pre @ dent_bytes d @ post"
  shows "buf_read buf i 8 = Inr (le_bytes 8 (de_ino d))" "buf_read buf (i + 8) 8 = Inr (le_bytes 8 (de_off d))"
    "buf_read buf (i + 16) 2 = Inr (le_bytes 2 (dent_len d))" "buf_str buf (i + 18) = Inr (de_name d)"
    "buf_read buf (i + dent_len d - 1) 1 = Inr [de_type d]"
proof -
  let ?a = "le_bytes 8 (de_ino d)" and ?b = "le_bytes 8 (de_off d)" and ?c = "le_bytes 2 (dent_len d)"
  let ?t = "de_name d @ [CHR 0x00] @ de_pad d"
  show "buf_read buf i 8 = Inr ?a"
    using buf_read_at [of 8 ?a i pre "?b @ ?c @ ?t @ [de_type d] @ post"] assms(2) by (simp add: buf_def dent_bytes_def)
  show "buf_read buf (i + 8) 8 = Inr ?b"
    using buf_read_at [of 8 ?b "i + 8" "pre @ ?a" "?c @ ?t @ [de_type d] @ post"] assms(2) by (simp add: buf_def dent_bytes_def)
  show "buf_read buf (i + 16) 2 = Inr ?c"
    using buf_read_at [of 2 ?c "i + 16" "pre @ ?a @ ?b" "?t @ [de_type d] @ post"] assms(2) by (simp add: buf_def dent_bytes_def)
  show "buf_read buf (i + dent_len d - 1) 1 = Inr [de_type d]"
    using buf_read_at [of 1 "[de_type d]" "i + dent_len d - 1" "pre @ ?a @ ?b @ ?c @ ?t" post] assms(2)
    by (simp add: buf_def dent_bytes_def dent_len_def)
  have "drop (i + 18) buf = de_name d @ CHR 0x00 # de_pad d @ de_type d # post"
    using assms(2) by (simp add: buf_def dent_bytes_def)
  moreover have "takeWhile (\<lambda>c. c \<noteq> CHR 0x00) (de_name d @ CHR 0x00 # de_pad d @ de_type d # post) = de_name d"
    using assms(1) by (subst takeWhile_append2) (auto simp: dent_ok_def)
  ultimately show "buf_str buf (i + 18) = Inr (de_name d)" by (simp add: buf_str_def)
qed

lemma dent_numbers:
  assumes "dent_ok d"
  shows "bytes_num (le_bytes 8 (de_ino d)) = de_ino d" "bytes_num (le_bytes 8 (de_off d)) = de_off d"
    "bytes_num (le_bytes 2 (dent_len d)) = dent_len d" "bytes_num [de_type d] = code (de_type d)"
  using assms by (simp_all add: dent_ok_def bytes_num_le_bytes) (simp add: bytes_num_def)

lemma show_dirent_text:
  assumes "dent_ok d" "i = length pre"
  shows "show_dirent (pre @ dent_bytes d @ post) i (dent_len d) = Inr ((if i = 0 then [] else '' '') @ dent_text d)"
proof -
  have "0 < dent_len d" by (simp add: dent_len_def)
  then show ?thesis using dent_members [OF assms, of post] dent_numbers [OF assms(1)]
    unfolding show_dirent_def dent_text_def by simp
qed

lemma dirents_records:
  "(\<forall>d \<in> set ds. dent_ok d) \<Longrightarrow> i = length pre \<Longrightarrow> len = length pre + length (concat (map dent_bytes ds)) \<Longrightarrow>
    dirents show_dirent short (pre @ concat (map dent_bytes ds)) len i n =
      Inr (if short then [] else if pre = [] then join_words (map dent_text ds) else spaced (map dent_text ds), n + length ds)"
proof (induction ds arbitrary: pre i n)
  case Nil
  then show ?case by (simp add: dirents.simps spaced_def)
next
  case (Cons d ds)
  let ?buf = "pre @ dent_bytes d @ concat (map dent_bytes ds)"
  have ok: "dent_ok d" "i < len" "dent_len d \<noteq> 0" using Cons.prems by (auto simp: dent_len_def)
  have ne: "dent_bytes d \<noteq> []" by (simp add: dent_bytes_def)
  have IH: "dirents show_dirent short ?buf len (i + dent_len d) (n + 1) =
      Inr (if short then [] else spaced (map dent_text ds), n + 1 + length ds)"
    using Cons.IH [where pre = "pre @ dent_bytes d" and i = "i + dent_len d" and n = "n + 1"] Cons.prems ne by simp
  have s: "show_dirent ?buf i (dent_len d) = Inr ((if i = 0 then [] else '' '') @ dent_text d)"
    by (rule show_dirent_text [OF ok(1) Cons.prems(2)])
  have "dirents show_dirent short ?buf len i n =
      Inr ((if short then [] else (if i = 0 then [] else '' '') @ dent_text d @ spaced (map dent_text ds)), n + 1 + length ds)"
    by (subst dirents.simps)
      (simp only: ok if_True if_False dent_members(3) [OF ok(1) Cons.prems(2)] sbind.simps Let_def dent_numbers [OF ok(1)] s IH prod.case, simp)
  then show ?case using Cons.prems(2) join_words_spaced [of "dent_text d" "map dent_text ds"] by (simp add: spaced_def)
qed

lemma sint_of_nat_small: "n \<le> 1024 * 1024 \<Longrightarrow> sint (of_nat n :: c_long) = int n"
  by (simp add: signed_of_nat signed_take_bit_int_eq_self)


text \<open>Two records of 24 bytes in a memory that repeats a word.\<close>

abbreviation dent_word :: c_long where
  "dent_word \<equiv> 0x0400000000610018"

definition dent_a :: dent where
  "dent_a = \<lparr>de_ino = unat dent_word, de_off = unat dent_word, de_name = ''a'', de_pad = [CHR 0x00, CHR 0x00, CHR 0x00],
     de_type = CHR 0x04\<rparr>"

lemma dent_word_bytes: "word_bytes dent_word = [CHR 0x18, CHR 0x00, CHR ''a'', CHR 0x00, CHR 0x00, CHR 0x00, CHR 0x00, CHR 0x04]"
  by code_simp

lemma dent_a_bytes: "dent_bytes dent_a = concat (replicate 3 (word_bytes dent_word))"
proof -
  have "le_bytes 8 (unat dent_word) = word_bytes dent_word" unfolding le_bytes_def word_bytes_div ..
  moreover have "le_bytes 2 24 = [CHR 0x18, CHR 0x00]" by code_simp
  ultimately show ?thesis by (simp add: dent_bytes_def dent_a_def dent_len_def dent_word_bytes numeral_3_eq_3)
qed

lemma repeated_words: "length ws = 8 \<Longrightarrow> map (\<lambda>i. ws ! (i mod 8)) [0..<8 * k] = concat (replicate k (ws :: string))"
proof (induction k)
  case (Suc k)
  have "map (\<lambda>i. ws ! (i mod 8)) [8 * k..<8 * k + 8] = ws" using Suc.prems by (intro nth_equalityI) auto
  moreover have "concat (replicate (Suc k) ws) = concat (replicate k ws @ [ws])" by (simp only: replicate_append_same replicate_Suc)
  ultimately show ?case using Suc upt_add_eq_append [of 0 "8 * k" 8] by (simp add: add.commute del: replicate.simps)
qed simp

lemma dent_a_memory: "mem_bytes (rep_mem dent_word) (narrow_addr 8 64) 48 = Some (concat (map dent_bytes [dent_a, dent_a]))"
proof -
  have "(64 + i) mod 8 = i mod 8" for i :: nat by presburger
  then have "mem_bytes (rep_mem dent_word) (narrow_addr 8 64) 48 = Some (concat (replicate 6 (word_bytes dent_word)))"
    using repeated_words [of "word_bytes dent_word" 6] by (simp add: rep_bytes narrow_addr_def)
  also have "replicate 6 (word_bytes dent_word) = replicate 3 (word_bytes dent_word) @ replicate 3 (word_bytes dent_word)"
    by (simp flip: replicate_add)
  finally show ?thesis by (simp add: dent_a_bytes)
qed

lemma dent_a_ok: "dent_ok dent_a"
  by (simp add: dent_ok_def dent_a_def dent_len_def)

abbreviation dent_env :: fenv where
  "dent_env \<equiv>
    \<lparr>fe_pe = \<lparr>selected = [], fdlink = (\<lambda>_ _. None), stack = [], malloc = (\<lambda>n. Some (replicate n CHR ''x''))\<rparr>,
     fe_show_fd_path = False, fe_xflag = 0, fe_max_strlen = 32,
     fe_tracee = \<lparr>tr_kernel = rep_kernel dent_word, tr_wordsize = 8, tr_notsup = False\<rparr>, fe_localtime = (\<lambda>_. None)\<rparr>"


subsection \<open>Records of 32-bit processes\<close>

text \<open>
  The kernel gives a 32-bit process records with members of 32 bits, but \<open>sys_getdents\<close> always reads the layout of 64-bit ones: for a
  directory of one such record with a name of up to four bytes, it reads its length behind the end of the buffer.
\<close>

definition compat_dent_bytes :: "nat \<Rightarrow> nat \<Rightarrow> string \<Rightarrow> char \<Rightarrow> string" where
  "compat_dent_bytes ino off name ty =
    (let len = (4 * ((length name + 15) div 4))
     in le_bytes 4 ino @ le_bytes 4 off @ le_bytes 2 len @ name @ replicate (len - 11 - length name) CHR 0x00 @ [ty])"

theorem getdents_compat_overread:
  fixes ino off :: nat and ty :: char
  assumes "length name \<le> 4"
  defines "b \<equiv> compat_dent_bytes ino off name ty"
  shows "length b = 4 * ((length name + 15) div 4) \<and> dirents show_dirent short b (length b) 0 0 = Inl OutOfBounds"
proof -
  have "(length name + 15) div 4 \<le> 4" "length name + 11 < 4 * ((length name + 15) div 4)" using assms(1) by linarith+
  then have "length b = 4 * ((length name + 15) div 4)" "length b < 18" "0 < length b"
    by (auto simp: b_def compat_dent_bytes_def Let_def)
  then show ?thesis by (simp add: dirents.simps buf_read_def)
qed

end
