(* ===== verification/Time_Calls.thy ===== *)
theory Time_Calls
  imports File_Attr
begin

text \<open>
  Decoders of \<^verbatim>\<open>src/strace/time.c\<close>: the system calls that get and set the time, sleep, and use interval timers.
\<close>

text \<open>\<open>print_timespec\<close>, and \<open>printnum\<close> of a \<open>long\<close>.\<close>

definition print_timespec :: "fenv \<Rightarrow> tcb \<Rightarrow> c_long \<Rightarrow> fault + string" where
  "print_timespec fe tcp a =
    sbind (sprint_timespec (fe_tracee fe) tcp a (take 16 (stack (fe_pe fe)))) (in_buffer TIMEVAL_TEXT_BUFSIZE)"

definition p_num :: "fenv \<Rightarrow> c_long \<Rightarrow> fault + string" where
  "p_num fe a = sbind (printnum (fe_tracee fe) a (\<lambda>w. fmt_d (sint w)) (take 8 (stack (fe_pe fe)))) (\<lambda>(s, _). Inr s)"

definition sys_time :: "fenv \<Rightarrow> tcb \<Rightarrow> fault + string" where
  "sys_time fe tcp = (if entering tcp then Inr [] else p_num fe (arg tcp 0))"

definition sys_stime :: "fenv \<Rightarrow> tcb \<Rightarrow> fault + string" where
  "sys_stime fe tcp = (if entering tcp then Inr [] else p_num fe (arg tcp 0))"

definition sys_gettimeofday :: "fenv \<Rightarrow> tcb \<Rightarrow> fault + string" where
  "sys_gettimeofday fe tcp =
    (if entering tcp then Inr []
     else if syserror tcp then prints [hx (arg tcp 0), comma, hx (arg tcp 1)]
     else prints [p_timeval fe tcp (arg tcp 0) False, comma, p_timeval fe tcp (arg tcp 1) False])"

definition sys_settimeofday :: "fenv \<Rightarrow> tcb \<Rightarrow> fault + string" where
  "sys_settimeofday fe tcp = on_entry tcp [p_timeval fe tcp (arg tcp 0) False, comma, p_timeval fe tcp (arg tcp 1) False]"

definition sys_adjtime :: "fenv \<Rightarrow> tcb \<Rightarrow> fault + string" where
  "sys_adjtime fe tcp =
    (if entering tcp then prints [p_timeval fe tcp (arg tcp 0) False, comma]
     else if syserror tcp then hx (arg tcp 1) else p_timeval fe tcp (arg tcp 1) False)"

definition sys_nanosleep :: "fenv \<Rightarrow> tcb \<Rightarrow> fault + string" where
  "sys_nanosleep fe tcp =
    (if entering tcp then prints [print_timespec fe tcp (arg tcp 0), comma]
     else if is_restart_error (t_u_error tcp) \<or> arg tcp 1 = 0 then print_timespec fe tcp (arg tcp 1)
     else hx (arg tcp 1))"

definition which :: "xlat list" where
  "which = [\<lparr>xl_val = 0, xl_str = ''ITIMER_REAL''\<rparr>, \<lparr>xl_val = 1, xl_str = ''ITIMER_VIRTUAL''\<rparr>, \<lparr>xl_val = 2, xl_str = ''ITIMER_PROF''\<rparr>]"

text \<open>A pair of words of \<open>w\<close> bytes at an offset: \<open>tprint_timeval32\<close> and \<open>tprint_timeval\<close>.\<close>

definition tprint_timeval :: "nat \<Rightarrow> string \<Rightarrow> nat \<Rightarrow> fault + string" where
  "tprint_timeval w b off = Inr (''{'' @ fmt_u (unat (member b off w)) @ '', '' @ fmt_u (unat (member b (off + w) w)) @ ''}'')"

definition printitv :: "fenv \<Rightarrow> tcb \<Rightarrow> c_long \<Rightarrow> fault + string" where
  "printitv fe tcp addr =
    (if addr = 0 then Inr ''NULL''
     else if \<not> verbose tcp then hx addr
     else
       (let w = (if tr_wordsize (fe_tracee fe) = 4 then 4 else 8)
        in sbind (umove fe addr (4 * w)) (\<lambda>(rc, itv).
          if rc \<ge> 0 then
            prints [Inr ''{it_interval='', tprint_timeval w itv 0, Inr '', it_value='', tprint_timeval w itv (2 * w), Inr ''}'']
          else Inr ''{...}'')))"

definition sys_getitimer :: "fenv \<Rightarrow> tcb \<Rightarrow> fault + string" where
  "sys_getitimer fe tcp =
    (if entering tcp then prints [p_xval which (arg tcp 0) ''ITIMER_???'', comma]
     else if syserror tcp then hx (arg tcp 1) else printitv fe tcp (arg tcp 1))"

definition sys_setitimer :: "fenv \<Rightarrow> tcb \<Rightarrow> fault + string" where
  "sys_setitimer fe tcp =
    (if entering tcp then prints [p_xval which (arg tcp 0) ''ITIMER_???'', comma, printitv fe tcp (arg tcp 1), comma]
     else if syserror tcp then hx (arg tcp 2) else printitv fe tcp (arg tcp 2))"

end
