(* ===== verification/File_Safe.thy ===== *)
theory File_Safe
  imports Dirent_Correct Time_Calls
begin

text \<open>
  The decoders of file and time system calls stay within their buffers, whatever the arguments of the call and the memory of the
  tracee are. Those of \<open>getdents\<close> and of the values of extended attributes, which trust sizes, are not among them.
\<close>

subsection \<open>The pieces\<close>

named_theorems shown \<open>texts that are printed without leaving a buffer\<close>

definition in_bounds :: "fault + string \<Rightarrow> bool" where
  "in_bounds p \<longleftrightarrow> (\<exists>s. p = Inr s)"

definition fenv_ok :: "memory \<Rightarrow> fenv \<Rightarrow> bool" where
  "fenv_ok mem fe \<longleftrightarrow> honest (tr_kernel (fe_tracee fe)) mem \<and> tr_wordsize (fe_tracee fe) \<in> {4, 8}
    \<and> fe_max_strlen fe < 2 ^ 30 \<and> fe_max_strlen fe < length (stack (fe_pe fe)) \<and> MAXPATHLEN < length (stack (fe_pe fe))"

declare prints.simps [simp del]

lemma in_bounds_Inr [shown]: "in_bounds (Inr s)"
  by (simp add: in_bounds_def)

lemma in_bounds_prints [shown]: "in_bounds (prints ps) \<longleftrightarrow> list_all in_bounds ps"
proof (induction ps)
  case (Cons p ps)
  then show ?case by (cases p; cases "prints ps") (simp_all add: in_bounds_def prints.simps)
qed (simp add: in_bounds_def prints.simps)

lemma in_bounds_on_entry [shown]: "list_all in_bounds ps \<Longrightarrow> in_bounds (on_entry tcp ps)"
  by (simp add: on_entry_def shown)

lemma in_bounds_if [shown]: "in_bounds p \<Longrightarrow> in_bounds q \<Longrightarrow> in_bounds (if b then p else q)"
  by simp

lemma printpathn_in_bounds:
  assumes "fenv_ok mem fe"
  shows "\<exists>r. printpathn (fe_xflag fe) (fe_tracee fe) a n (take (MAXPATHLEN + 1) (stack (fe_pe fe))) = Inr r"
proof (cases "a = 0")
  case True
  then show ?thesis by (simp add: printpathn_def)
next
  case False
  then show ?thesis
    using printpathn_correct [where path = "take (MAXPATHLEN + 1) (stack (fe_pe fe))" and addr = a, OF _ _ False refl] assms
    by (fastforce simp: fenv_ok_def)
qed

lemma p_path_shown [shown]: "fenv_ok mem fe \<Longrightarrow> in_bounds (p_path fe a)" "fenv_ok mem fe \<Longrightarrow> in_bounds (p_pathn fe a n)"
  using printpathn_in_bounds [of mem fe a n] printpathn_in_bounds [of mem fe a "int MAXPATHLEN"]
  by (auto simp: p_path_def p_pathn_def printpath_def in_bounds_def)

lemma p_fd_shown [shown]: "in_bounds (p_fd fe tcp a)" "in_bounds (print_dirfd fe tcp a)"
  by (simp_all add: p_fd_def print_dirfd_def shown)

lemma p_flags_shown [shown]: "tbl \<noteq> [] \<Longrightarrow> in_bounds (p_flags tbl a d)"
  by (cases tbl) (auto simp: p_flags_def in_bounds_def split: option.splits prod.splits)

lemma p_value_shown [shown]: "in_bounds (p_xval tbl a d)" "in_bounds (p_time fe t)" "in_bounds (makedev_text dev)" "in_bounds (p_uid u)"
  by (simp_all add: p_xval_def p_time_def makedev_text_def p_uid_def shown)

lemma umove_in_bounds:
  assumes "fenv_ok mem fe" "n \<le> 4096"
  shows "\<exists>rc b. umove fe a n = Inr (rc, b)"
proof -
  have "n \<le> length (take n (stack (fe_pe fe)))" using assms by (simp add: fenv_ok_def)
  then obtain r v ns ms where "tr_umoven (fe_tracee fe) a n (take n (stack (fe_pe fe))) = Inr (r, v, ns, ms)"
    using moven.readE assms(1) unfolding fenv_ok_def by metis
  then show ?thesis by (simp add: umove_def)
qed

lemma umove_then_shown:
  assumes "fenv_ok mem fe" "n \<le> 4096" "\<And>rc b. in_bounds (f (rc, b))"
  shows "in_bounds (sbind (umove fe a n) f)"
  using umove_in_bounds [OF assms(1,2), of a] assms(3) by auto

lemma p_timeval_shown [shown]: "fenv_ok mem fe \<Longrightarrow> in_bounds (p_timeval fe tcp a special)" "fenv_ok mem fe \<Longrightarrow> in_bounds (print_timespec fe tcp a)"
proof -
  assume ok: "fenv_ok mem fe"
  then have "length (take 16 (stack (fe_pe fe))) = 16" "honest (tr_kernel (fe_tracee fe)) mem" by (auto simp: fenv_ok_def)
  then have t: "\<exists>s. sprinttv (fe_tracee fe) tcp a b sp (take 16 (stack (fe_pe fe))) = Inr s \<and> length s < TIMEVAL_TEXT_BUFSIZE" for b sp
    by (intro sprinttv_ok) auto
  show "in_bounds (p_timeval fe tcp a special)" "in_bounds (print_timespec fe tcp a)"
    using t [of False special] t [of False False]
    by (auto simp: p_timeval_def print_timespec_def sprint_timespec_tv in_buffer_def in_bounds_def)
qed

lemma length_fmt_ho: "length (fmt_ho (unat (w :: c_int))) \<le> 12"
proof -
  have "unat w < 2 ^ LENGTH(32)" by (rule unsigned_less)
  then have "unat w < 8 ^ 11" by simp
  then show ?thesis using length_digs_le [of 8 "unat w" 11] by (simp add: fmt_ho_def length_fmt_base)
qed

lemma modetypes_short: "xlookup modetypes v = Some s \<Longrightarrow> length s \<le> 8"
  by (auto simp: modetypes_def split: if_splits)

lemma sprintmode_shown [shown]: "in_bounds (sprintmode mode)"
proof -
  have o: "length (fmt_ho (unat m)) \<le> 12" for m :: c_int by (rule length_fmt_ho)
  have b: "length (mode_bits mode) \<le> 24" by (simp add: mode_bits_def)
  show ?thesis
  proof (cases "if mode AND S_IFMT = 0 then Some [] else xlookup modetypes (mode AND S_IFMT)")
    case None
    then show ?thesis using o [of mode] by (simp add: sprintmode_def in_buffer_def in_bounds_def)
  next
    case (Some s)
    then have "length s \<le> 8" using modetypes_short by (auto split: if_splits)
    then have "in_buffer 56 (s @ mode_bits mode @ (if m \<noteq> 0 then ''|'' @ fmt_ho (unat m) else []))
        = Inr (s @ mode_bits mode @ (if m \<noteq> 0 then ''|'' @ fmt_ho (unat m) else []))" for m :: c_int
      using b o [of m] by (auto simp: in_buffer_def)
    then show ?thesis by (simp only: sprintmode_def Some option.case Let_def append_assoc sbind.simps in_bounds_def) simp
  qed
qed

lemma open_modes_shown [shown]: "in_bounds (tprint_open_modes flags)"
  using sprint_open_modes_ok [of flags] by (auto simp: tprint_open_modes_def in_bounds_def)

subsection \<open>The decoders\<close>

definition file_decoders :: "(fenv \<Rightarrow> tcb \<Rightarrow> fault + string) list" where
  "file_decoders = [sys_open, sys_openat, sys_creat, sys_access, sys_faccessat, \<lambda>fe. fst \<circ> sys_umask, \<lambda>fe. fst \<circ> sys_lseek fe, sys_llseek,
     sys_readahead, sys_truncate, sys_truncate64, sys_ftruncate, sys_ftruncate64, sys_stat, sys_fstat, sys_chdir, sys_mkdir, sys_mkdirat,
     sys_link, sys_linkat, sys_unlinkat, sys_symlinkat, sys_readlink, sys_readlinkat, sys_renameat, sys_chown, sys_fchownat, sys_fchown,
     sys_chmod, sys_fchmodat, sys_fchmod, sys_utimes, sys_futimesat, sys_utimensat, sys_utime, sys_mknod, sys_mknodat, sys_readdir,
     sys_getcwd, sys_listxattr, sys_flistxattr, sys_removexattr, sys_fremovexattr, sys_fadvise64, sys_fadvise64_64,
     sys_inotify_add_watch, sys_inotify_rm_watch, \<lambda>fe. sys_inotify_init1, sys_fallocate, sys_swapon]"

definition time_decoders :: "(fenv \<Rightarrow> tcb \<Rightarrow> fault + string) list" where
  "time_decoders = [sys_time, sys_stime, sys_gettimeofday, sys_settimeofday, sys_adjtime, sys_nanosleep, sys_getitimer, sys_setitimer]"

lemma tables_not_Nil [shown]: "access_flags \<noteq> []" "at_flags \<noteq> []" "inotify_modes \<noteq> []" "inotify_init_flags \<noteq> []" "swap_flags \<noteq> []"
  by (simp_all add: access_flags_def at_flags_def inotify_modes_def inotify_init_flags_def swap_flags_def)

lemma p_str_shown [shown]:
  assumes "fenv_ok mem fe"
  shows "in_bounds (p_str fe a len)"
proof -
  let ?m = "fe_max_strlen fe" and ?str = "take (fe_max_strlen fe + 1) (stack (fe_pe fe))" and ?t = "fe_tracee fe"
  have ok: "honest (tr_kernel ?t) mem" "length ?str = ?m + 1" "?m < 2 ^ 30" using assms by (simp_all add: fenv_ok_def)
  define n where "n = (if len = -1 then ?m + 1 else if len \<ge> 0 \<and> nat len < ?m then nat len else ?m)"
  have n: "n \<le> length ?str" "len \<noteq> -1 \<Longrightarrow> n \<le> ?m" using ok(2) by (auto simp: n_def)
  obtain r v ns ms where u: "(if len = -1 then tr_umovestr ?t a n ?str else tr_umoven ?t a n ?str) = Inr (r, v, ns, ms)"
    "length v = length ?str"
    using movestr.readE [OF ok(1) n(1), of "tr_wordsize ?t" "tr_notsup ?t" a] moven.readE [OF ok(1) n(1), of "tr_wordsize ?t" "tr_notsup ?t" a]
    by metis
  obtain q where "quote_into (4 * ?m + 3) (fe_xflag fe) v len (int n) = Inr q"
    by (rule quote_into_ok [of "int n" v len "4 * ?m + 3" "fe_xflag fe"]) (use n u(2) ok(2) in \<open>auto simp: n_def\<close>)
  then have "\<exists>x. printstr ?m (fe_xflag fe) ?t a len ?str = Inr x"
    using u(1) unfolding printstr_def Let_def outstr_size [OF ok(3)] n_def [symmetric] by (cases q) simp
  then show ?thesis by (auto simp: p_str_def in_bounds_def)
qed

lemma p_num_shown [shown]:
  assumes "fenv_ok mem fe"
  shows "in_bounds (p_num fe a)"
proof -
  have "honest (tr_kernel (fe_tracee fe)) mem" "length (take 8 (stack (fe_pe fe))) = 8" using assms by (simp_all add: fenv_ok_def)
  then obtain r b ns ms where "tr_umoven (fe_tracee fe) a 8 (take 8 (stack (fe_pe fe))) = Inr (r, b, ns, ms)" by (rule read_num)
  then show ?thesis by (simp add: p_num_def printnum_def in_bounds_def)
qed

lemma printstat_shown [shown]: "fenv_ok mem fe \<Longrightarrow> in_bounds (printstat fe tcp a)"
  unfolding printstat_def by (intro in_bounds_if umove_then_shown) (auto simp: realprintstat_def Let_def shown)

lemma print_old_dirent_shown [shown]: "fenv_ok mem fe \<Longrightarrow> in_bounds (print_old_dirent fe tcp a)"
  unfolding print_old_dirent_def by (intro in_bounds_if umove_then_shown) (auto simp: Let_def shown)

lemma printitv_shown [shown]: "fenv_ok mem fe \<Longrightarrow> in_bounds (printitv fe tcp a)"
  unfolding printitv_def Let_def by (intro in_bounds_if umove_then_shown) (auto simp: tprint_timeval_def shown)

lemma print_xattr_list_shown [shown]: "fenv_ok mem fe \<Longrightarrow> in_bounds (print_xattr_list fe tcp a n)"
  by (simp add: print_xattr_list_def shown)

lemma decode_shown [shown]:
  assumes "fenv_ok mem fe"
  shows "in_bounds (decode_open fe tcp n)" "in_bounds (decode_access fe tcp n)" "in_bounds (decode_mkdir fe tcp n)"
    "in_bounds (decode_readlink fe tcp n)" "in_bounds (decode_chmod fe tcp n)" "in_bounds (decode_utimes fe tcp n special)"
    "in_bounds (decode_mknod fe tcp n)"
  using assms by (simp_all add: decode_open_def decode_access_def decode_mkdir_def decode_readlink_def decode_chmod_def decode_utimes_def
      decode_mknod_def Let_def shown)

lemma sys_llseek_shown: "fenv_ok mem fe \<Longrightarrow> in_bounds (sys_llseek fe tcp)"
  unfolding sys_llseek_def
  by (simp add: shown in_bounds_if umove_then_shown del: prints.simps) 

lemma sys_utime_shown: "fenv_ok mem fe \<Longrightarrow> in_bounds (sys_utime fe tcp)"
  unfolding sys_utime_def Let_def
  by (rule in_bounds_on_entry) (auto simp: shown fenv_ok_def intro!: umove_then_shown)

lemmas file_decoder_defs =
  sys_open_def sys_openat_def sys_creat_def sys_access_def sys_faccessat_def sys_umask_def sys_lseek_def sys_readahead_def sys_truncate_def
  sys_truncate64_def sys_ftruncate_def sys_ftruncate64_def sys_stat_def sys_fstat_def sys_chdir_def sys_mkdir_def sys_mkdirat_def sys_link_def
  sys_linkat_def sys_unlinkat_def sys_symlinkat_def sys_readlink_def sys_readlinkat_def sys_renameat_def sys_chown_def sys_fchownat_def
  sys_fchown_def sys_chmod_def sys_fchmodat_def sys_fchmod_def sys_utimes_def sys_futimesat_def sys_utimensat_def sys_mknod_def sys_mknodat_def
  sys_readdir_def sys_getcwd_def sys_listxattr_def sys_flistxattr_def sys_removexattr_def sys_fremovexattr_def sys_fadvise64_def
  sys_fadvise64_64_def sys_inotify_add_watch_def sys_inotify_rm_watch_def sys_inotify_init1_def sys_fallocate_def sys_swapon_def

lemmas time_decoder_defs =
  sys_time_def sys_stime_def sys_gettimeofday_def sys_settimeofday_def sys_adjtime_def sys_nanosleep_def sys_getitimer_def sys_setitimer_def

lemma file_decoders_shown: "fenv_ok mem fe \<Longrightarrow> list_all (\<lambda>f. in_bounds (f fe tcp)) file_decoders"
  by (simp add: file_decoders_def sys_llseek_shown sys_utime_shown) (simp add: file_decoder_defs Let_def shown split: prod.splits)

lemma time_decoders_shown: "fenv_ok mem fe \<Longrightarrow> list_all (\<lambda>f. in_bounds (f fe tcp)) time_decoders"
  by (simp add: time_decoders_def time_decoder_defs shown)

text \<open>C15. Whatever the arguments and the result of a system call, and whatever the memory of the tracee holds, as long as the kernel
  reads it truthfully: the decoders of 50 file system calls and of 8 system calls about time print a text and return; none of them reads or
  writes outside of the static and local buffers for paths, strings, modes, flags, times and structures.\<close>

theorem decoders_in_bounds:
  assumes "fenv_ok mem fe"
  shows "list_all (\<lambda>f. \<exists>s. f fe tcp = Inr s) (file_decoders @ time_decoders)"
  using file_decoders_shown [OF assms, of tcp] time_decoders_shown [OF assms, of tcp] by (simp add: in_bounds_def)

theorem decoders_in_bounds_witness:
  "list_all (\<lambda>f. \<exists>s. f
     \<lparr>fe_pe = \<lparr>selected = [], fdlink = (\<lambda>_ _. None), stack = replicate 4100 CHR ''x'', malloc = (\<lambda>_. None)\<rparr>,
      fe_show_fd_path = True, fe_xflag = 0, fe_max_strlen = 32,
      fe_tracee = \<lparr>tr_kernel = uniform_kernel, tr_wordsize = 4, tr_notsup = True\<rparr>, fe_localtime = (\<lambda>_. None)\<rparr>
     (tcb_zero\<lparr>t_flags := TCB_INSYSCALL, t_qual_flg := QUAL_VERBOSE, t_u_arg := [1, 2, 3, 4, 5, 6]\<rparr>) = Inr s) (file_decoders @ time_decoders)"
  by (rule decoders_in_bounds [of "uniform_mem CHR ''a''"]) (simp add: fenv_ok_def uniform_honest)

end
