(* ===== verification/Spec2Isabelle.thy ===== *)
theory Spec2Isabelle
  imports Parse_Num Xlat Vsprintf_Correct Dumpstr Count_Correct Poll_Correct Init_Correct Ioctl_Correct File_Safe
begin

text \<open>
  \<^bold>\<open>A verification of strace 4.8.\<close>

  The repository is a set of experiments on running and checkpointing parallel programs. It holds
  benchmarks (\<^verbatim>\<open>src/splash2_bench\<close>, \<^verbatim>\<open>src/stencilprobe_bench\<close>), the checkpointing package DMTCP
  (\<^verbatim>\<open>src/dmtcp\<close>), scripts that start and measure them (\<^verbatim>\<open>src/bin\<close>, \<^verbatim>\<open>src/subprocess\<close>), and the system
  call tracer strace (\<^verbatim>\<open>src/strace\<close>), whose core this development models as it is built for x86\_64:
  words of 64 bits, little endian, the three personalities 64 bit, i386 and x32, a kernel with
  \<^verbatim>\<open>process_vm_readv\<close>, \<^verbatim>\<open>PTRACE_SEIZE\<close> and \<^verbatim>\<open>PTRACE_O_TRACEFORK\<close>.

  \<^bold>\<open>The parts of the program and how they interact.\<close> \<open>init\<close> reads the options, tries out what ptrace can do, opens the log, and starts a
  program or attaches to processes; then \<open>main\<close> calls \<open>trace\<close>. \<open>trace\<close> waits for a tracee, finds its block in the
  process table (\<open>pid2tcb\<close>, \<open>alloctcb\<close>), reads its registers and reacts to the kind of stop. For a system
  call stop it calls \<open>trace_syscall\<close>, which looks the number up in the table of the personality, asks
  the filter (\<open>qual_flags\<close>) whether to report the call, has a decoder print its arguments and, at the
  exit, its result. Decoders read the memory of the tracee (\<open>umoven\<close>, \<open>umovestr\<close>), quote strings, and look
  up symbolic constants; all of them write with \<open>tprintf\<close> to the log of the process, one line per
  event, by way of the formatter of \<^verbatim>\<open>vsprintf.c\<close>. With option \<^verbatim>\<open>-c\<close> the exit handler charges the call to a
  counter. The answer to the stop is a ptrace request that restarts the tracee.

  \<^bold>\<open>Theories, and the code they model.\<close>
  \<^item> \<open>Prelude\<close>: words and numerals of C, the text of numbers, the error monad \<open>'e + 'a\<close>.
  \<^item> \<open>Timeval\<close> (\<^verbatim>\<open>util.c\<close>: \<open>tv_add\<close>, \<open>tv_sub\<close>, \<open>tv_mul\<close>, \<open>tv_div\<close>, \<open>tv_cmp\<close>, \<open>tv_nz\<close>), \<open>Parse_Num\<close>
    (\<open>string_to_uint\<close> on a model of \<open>strtol\<close>), \<open>Xlat\<close> (\<open>xlookup\<close>, \<open>printxval\<close>, \<open>printflags\<close>, \<open>sprintflags\<close>, \<open>addflags\<close>).
  \<^item> \<open>Vsprintf_Dec\<close>, \<open>Vsprintf\<close>, \<open>Vsprintf_Correct\<close> (\<^verbatim>\<open>vsprintf.c\<close>): both decimal conversions, \<open>number\<close>,
    \<open>string\<close>, \<open>pointer\<close>, \<open>format_decode\<close>, \<open>kernel_vsnprintf\<close> with its buffer, \<open>strace_vfprintf\<close> with its
    static buffer and its second attempt.
  \<^item> \<open>Quote\<close> (\<open>string_quote\<close>); \<open>Umove\<close>, \<open>Umove_Correct\<close> (\<open>umoven\<close>, \<open>umovestr\<close> on a kernel that is a
    parameter); \<open>Print_Mem\<close> (\<open>printstr\<close>, \<open>printpathn\<close>, \<open>printnum\<close>), \<open>Dumpstr\<close> (\<open>dumpstr\<close>).
  \<^item> \<open>Tcb\<close>, \<open>Tcb_Table\<close>, \<open>Tcb_Log\<close> (\<^verbatim>\<open>defs.h\<close>: \<open>struct tcb\<close>; \<^verbatim>\<open>strace.c\<close>): the process table with the
    globals as the record \<open>strace\<close>, \<open>alloctcb\<close>, \<open>expand_tcbtab\<close>, \<open>droptcb\<close>, \<open>pid2tcb\<close>; the log with \<open>tprints\<close>,
    \<open>printleader\<close>, \<open>line_ended\<close>, \<open>tabto\<close>, \<open>newoutf\<close>, \<open>printcall\<close>. A pointer to a block is its index.
  \<^item> \<open>Qualify\<close>, \<open>Qualify_Correct\<close> (\<^verbatim>\<open>syscall.c\<close>, \<open>signame\<close> of \<^verbatim>\<open>signal.c\<close>): option \<^verbatim>\<open>-e\<close>; \<open>Syscallent\<close>
    (\<^verbatim>\<open>linux/x86_64/syscallent.h\<close>, \<^verbatim>\<open>linux/i386/syscallent.h\<close>, \<^verbatim>\<open>linux/x32/syscallent.h\<close>): the tables;
    \<open>Count\<close>, \<open>Count_Correct\<close> (\<^verbatim>\<open>count.c\<close>): the statistics of option \<^verbatim>\<open>-c\<close>.
  \<^item> \<open>Syscall\<close>, \<open>Syscall_Correct\<close>, \<open>Syscall_Safe\<close> (\<^verbatim>\<open>syscall.c\<close>): registers, personalities,
    \<open>get_scno\<close>, \<open>get_syscall_args\<close>, the multiplexed calls of i386, \<open>get_error\<close>, \<open>dumpio\<close> and \<open>dumpiov\<close>,
    \<open>trace_syscall_entering\<close>, \<open>trace_syscall_exiting\<close>. Decoders are a parameter, except \<open>printargs\<close> and its
    two variants; so are \<open>strerror\<close> and the table of errno names.
  \<^item> \<open>Pathtrace\<close>, \<open>Pathtrace_Correct\<close> (\<^verbatim>\<open>pathtrace.c\<close>): the selection of option \<^verbatim>\<open>-P\<close>, \<open>pathtrace_match\<close> and its use in the
    entry handler (\<open>path_filter\<close>); \<open>readlink\<close>, \<open>realpath\<close> and \<open>malloc\<close> are parameters.
  \<^item> \<open>Sigmask\<close> (\<^verbatim>\<open>signal.c\<close>): \<open>sprintsigmask\<close>, \<open>print_sigset\<close>; \<open>Desc\<close>, \<open>Desc_Correct\<close> (\<^verbatim>\<open>desc.c\<close>, \<open>sprinttv\<close> of \<^verbatim>\<open>time.c\<close>, \<open>printfd\<close> of
    \<^verbatim>\<open>util.c\<close>): the decoders of \<open>select\<close>, \<open>oldselect\<close> and \<open>pselect6\<close>, at the entry and at the exit; \<open>Poll\<close>, \<open>Poll_Correct\<close>
    (\<^verbatim>\<open>stream.c\<close>, \<open>sprint_timespec\<close> of \<^verbatim>\<open>time.c\<close>): those of \<open>poll\<close> and \<open>ppoll\<close>.
  \<^item> \<open>File\<close>, \<open>File_Attr\<close>, \<open>Xattr\<close> (\<^verbatim>\<open>file.c\<close>, \<open>printllval\<close> of \<^verbatim>\<open>util.c\<close>): the decoders of file system calls, with the sizes of their
    buffers; \<open>Time_Calls\<close> (\<^verbatim>\<open>time.c\<close>): those of calls about time; \<open>File_Correct\<close>, \<open>Dirent_Correct\<close>, \<open>File_Safe\<close>: their correctness.
  \<^item> \<open>Ioctl\<close>, \<open>Ioctl_Correct\<close> (\<^verbatim>\<open>ioctl.c\<close>, \<open>sys_ioctl\<close> of \<^verbatim>\<open>io.c\<close>, \<^verbatim>\<open>linux/ioctlsort.c\<close>): the names of ioctl commands and the program
    that makes their table.
  \<^item> \<open>Trace\<close>, \<open>Trace_Ok\<close>, \<open>Trace_Correct\<close> (\<^verbatim>\<open>strace.c\<close>): \<open>trace\<close> by rounds, each a function of what the
    kernel answers in it, \<open>ptrace_restart\<close>, \<open>detach\<close>, \<open>cleanup\<close>, the option \<^verbatim>\<open>-p\<close>, the exit status of \<open>main\<close>.
  \<^item> \<open>Startup\<close>, \<open>Startup_Correct\<close> (\<^verbatim>\<open>strace.c\<close>): \<open>ptrace_attach_or_seize\<close>, \<open>startup_attach\<close>, and \<open>startup_child\<close> as the tracer goes
    through it, with its search of \<^verbatim>\<open>PATH\<close>; \<open>Ptrace_Test\<close>: the tests of ptrace's features, as a function of what the kernel answers, and
    \<open>get_os_release\<close>.
  \<^item> \<open>Init\<close>, \<open>Init_Options\<close>, \<open>Init_Correct\<close> (\<^verbatim>\<open>strace.c\<close>): \<open>init\<close>, with \<open>getopt\<close>, every option, users, logs and signal dispositions, and \<open>main\<close>.

  \<^bold>\<open>What the theorems show.\<close> For the main loop: every state it reaches has a well-formed process table
  and a log with at most one unfinished line, which belongs to \<open>printing_tcp\<close>; every stop is answered
  by exactly one restart of the right kind; when all tracees have died the loop ends and strace ends
  the way its child did; \<open>cleanup\<close> lets go of everything. For the command line: the variables are what the options denote, in any
  order. For start-up: \<open>startup_attach\<close> after option \<^verbatim>\<open>-p\<close> and \<open>startup_child\<close>
  end in a state with the invariant of the loop, and the blocks are those of the processes attached to; so \<open>init\<close> hands such a
  state to the loop, and \<open>main\<close> ends the way the program it was given ends. For system call stops: entry and exit alternate,
  errors and values are told apart, no register contents lead outside the tables. For the process
  table: \<open>alloctcb\<close> and \<open>droptcb\<close> refine insertion into and removal from a set of pids (locale
  \<open>process_table\<close>). For the filter: \<open>qualify\<close> sets exactly the flags that the expression denotes
  (locale \<open>qualifier\<close>, with one interpretation per kind of qualification). For the formatter: the
  text is the one that the format describes, nothing is stored outside the buffer, and the
  two decimal conversions agree. For tracee memory: what the results of \<open>umoven\<close> and \<open>umovestr\<close> mean, on
  every kernel that tells the truth. For quoting and for flags: nothing is lost. For the statistics:
  every call is charged once, and the report adds up. For the path filter: \<open>pathtrace_match\<close> returns, and
  says yes exactly for calls that refer to a selected path, by an argument, a descriptor set or an
  entry of \<open>poll\<close>'s array. For the decoders of \<open>select\<close>: the descriptors shown are those whose bits are set, and the
  text of the result fits its buffer. For those of \<open>poll\<close>: the loops over the array end, the entries shown are those in the
  memory of the tracee, at the exit those with events, and the text fits its buffer whatever the array
  holds. For those of files and times: no arguments and no memory of the tracee lead outside a buffer; the flags of \<open>open\<close> are shown
  without loss, the value of an extended attribute, escaped in place, is what escaping it byte by byte gives, and the entries of a directory are
  shown as the kernel wrote them. For ioctl commands: every name of the table that fits the command is shown. Some theorems show where the code does not do
  what it means to: \<open>umovestr\<close> reads across the end of a page and takes a NUL behind the requested
  bytes for a terminator, \<open>strace_vfprintf\<close> returns too large a count, \<open>get_error\<close> truncates the results of
  x32 calls, a superseded leader's line is not closed, the search of \<^verbatim>\<open>PATH\<close> overflows its buffer, and a negative
  number of descriptors makes the decoder of \<open>select\<close> read outside its buffer; that of \<open>poll\<close> loses
  descriptors, but not their events, near the end of its buffer, and prints the timeout, an \<open>int\<close>, as a whole register; that of
  \<open>getdents\<close> reads the records of 32-bit processes with the wrong layout, a final NUL of an attribute is overwritten before it is
  looked for, \<open>get_os_release\<close> lets a sublevel above 255 run into the minor number, and \<^verbatim>\<open>-o\<close> undoes \<^verbatim>\<open>-qq\<close>.

  \<^bold>\<open>Bounds and fuel.\<close> No definition uses fuel: loops over strings, tables and buffers are recursive with
  a measure; the loops of the path filter and of \<open>decode_poll\<close> over addresses and that of \<open>startup_attach\<close> over a growing table are partial functions that
  are proved to return. \<open>trace\<close> and the waits in \<open>detach\<close> run on a list of the kernel's answers; that the loop still
  runs, or that the answers do not suffice, are values of their own, and the theorem on the end of
  the loop shows that it returns. C integers are words where they can wrap (\<open>c_int\<close>, \<open>c_long\<close>, the
  digits of \<^verbatim>\<open>vsprintf.c\<close>, the flags); counters and times are \<open>int\<close>, since their overflow needs more than
  2147483647 calls or seconds.

  \<^bold>\<open>Not modelled.\<close> What child processes do before \<open>execve\<close> (\<open>exec_or_die\<close> and the child sides of the tests of ptrace), which the
  tracer sees as answers of the kernel only; the decoders of the other system calls, which are a parameter of the model of system call
  stops and could be added one by one with the pieces of \<open>File\<close>: status of file systems and of 32-bit files, sockets, processes, signals,
  memory, and the arguments of single ioctl commands; the line discipline of the separate logs of option \<^verbatim>\<open>-ff\<close>, which the model has but
  the invariant does not cover; registers of other machines, and break points for kernels without \<^verbatim>\<open>PTRACE_O_TRACEFORK\<close>; floating point
  (\<open>tv_float\<close> and two columns of the report); debug output; DMTCP and the benchmarks, which are third-party packages of their own; the
  scripts.
\<close>

end
